(* ===== verification/Prelude.thy ===== *)
theory Prelude
  imports Main "HOL-Library.Word"
begin

section \<open>Prelude: machine integers, fallible computations, shared lemmas\<close>

text \<open>
  The vocabulary every component of the development shares.

  \<^item> Rust's fixed-width integers are words (\<open>u8\<close> .. \<open>u64\<close>); \<open>usize\<close> is a natural
    number, with the 64-bit bound \<open>usize_limit\<close> written out in the checked and saturating
    operations of the standard library that the sources use.
  \<^item> \<open>Result<T, E>\<close> is the sum \<open>'e + 'a\<close> with \<open>Inl\<close> the error. A method that takes
    \<open>&mut self\<close> and returns a \<open>Result\<close> is a function of type \<open>('s, 'e, 'a) rsm\<close>: it
    returns the result together with the state, so the state that an early return leaves
    behind is part of the model. \<open>bindS\<close> is the \<open>?\<close> operator.
  \<^item> Loops \<open>for _ in 0..n\<close> that push the results of a fallible call are \<open>repeatS\<close>; loops
    over a slice are \<open>eachS\<close>.
\<close>

type_synonym u8 = "8 word"
type_synonym u16 = "16 word"
type_synonym u32 = "32 word"
type_synonym u64 = "64 word"
type_synonym bytes = "8 word list"

named_theorems wire_intro \<open>rules that build a decoder or encoder law from its parts\<close>
named_theorems rsm_simps \<open>equations that run a stateful fallible computation\<close>

subsection \<open>Orderings\<close>

datatype ordering = Less | Equal | Greater

subsection \<open>usize arithmetic\<close>

definition usize_limit :: nat where
  "usize_limit = 18446744073709551616"

definition checked_add :: "nat \<Rightarrow> nat \<Rightarrow> nat option" where
  "checked_add a b = (if a + b < usize_limit then Some (a + b) else None)"

definition checked_mul :: "nat \<Rightarrow> nat \<Rightarrow> nat option" where
  "checked_mul a b = (if a * b < usize_limit then Some (a * b) else None)"

definition saturating_add :: "nat \<Rightarrow> nat \<Rightarrow> nat" where
  "saturating_add a b = (if a + b < usize_limit then a + b else usize_limit - 1)"

text \<open>\<open>usize::saturating_sub\<close> is subtraction of natural numbers.\<close>

abbreviation (input) saturating_sub :: "nat \<Rightarrow> nat \<Rightarrow> nat" where
  "saturating_sub a b \<equiv> a - b"

lemma checked_add_Some [simp]: "a + b < usize_limit \<Longrightarrow> checked_add a b = Some (a + b)"
  by (simp add: checked_add_def)

lemma checked_add_None [simp]: "\<not> a + b < usize_limit \<Longrightarrow> checked_add a b = None"
  by (simp add: checked_add_def)

lemma checked_add_eq_Some: "checked_add a b = Some c \<longleftrightarrow> c = a + b \<and> a + b < usize_limit"
  by (auto simp: checked_add_def)

lemma checked_mul_Some [simp]: "a * b < usize_limit \<Longrightarrow> checked_mul a b = Some (a * b)"
  by (simp add: checked_mul_def)

lemma saturating_add_small [simp]: "a + b < usize_limit \<Longrightarrow> saturating_add a b = a + b"
  by (simp add: saturating_add_def)

lemma saturating_add_le: "saturating_add a b \<le> a + b"
  by (auto simp: saturating_add_def)

subsection \<open>Saturating arithmetic on words\<close>

definition word_sat_add :: "'w::len word \<Rightarrow> 'w word \<Rightarrow> 'w word" where
  "word_sat_add a b = (if unat a + unat b < 2 ^ LENGTH('w) then a + b else - 1)"

definition word_sat_sub :: "'w::len word \<Rightarrow> 'w word \<Rightarrow> 'w word" where
  "word_sat_sub a b = (if a < b then 0 else a - b)"

definition word_sat_mul :: "'w::len word \<Rightarrow> 'w word \<Rightarrow> 'w word" where
  "word_sat_mul a b = (if unat a * unat b < 2 ^ LENGTH('w) then a * b else - 1)"

lemma unat_minus_one_word_len: "unat (- 1 :: 'w::len word) = 2 ^ LENGTH('w) - 1"
  by (simp add: unsigned_minus_1_eq_mask mask_eq_exp_minus_1)

lemma unat_add_small:
  fixes a b :: "'w::len word"
  shows "unat a + unat b < 2 ^ LENGTH('w) \<Longrightarrow> unat (a + b) = unat a + unat b"
  by (simp add: unat_word_ariths)

lemma unat_word_sat_add:
  fixes a b :: "'w::len word"
  shows "unat (word_sat_add a b) = min (unat a + unat b) (2 ^ LENGTH('w) - 1)"
proof (cases "unat a + unat b < 2 ^ LENGTH('w)")
  case True
  then show ?thesis by (simp add: word_sat_add_def unat_add_small)
next
  case False
  then show ?thesis by (simp add: word_sat_add_def unat_minus_one_word_len)
qed

lemma unat_word_sat_sub:
  fixes a b :: "'w::len word"
  shows "unat (word_sat_sub a b) = unat a - unat b"
  by (simp add: word_sat_sub_def unat_sub_if' word_less_nat_alt word_le_nat_alt)

lemma unat_word_sat_mul:
  fixes a b :: "'w::len word"
  shows "unat (word_sat_mul a b) = min (unat a * unat b) (2 ^ LENGTH('w) - 1)"
proof (cases "unat a * unat b < 2 ^ LENGTH('w)")
  case True
  then show ?thesis by (simp add: word_sat_mul_def unat_word_ariths)
next
  case False
  then show ?thesis by (simp add: word_sat_mul_def unat_minus_one_word_len)
qed

lemma unat_max: "unat (max a b) = max (unat a) (unat (b :: 'w::len word))"
  by (simp add: max_def word_le_nat_alt)

lemma unat_min: "unat (min a b) = min (unat a) (unat (b :: 'w::len word))"
  by (simp add: min_def word_le_nat_alt)

lemma unat_lt_len: "unat (w :: 'w::len word) < 2 ^ LENGTH('w)"
  by simp

lemma unat_u8_lt [simp]: "unat (w :: u8) < 256"
  using unat_lt_len [of w] by simp

lemma unat_u16_lt [simp]: "unat (w :: u16) < 65536"
  using unat_lt_len [of w] by simp

lemma unat_u32_lt [simp]: "unat (w :: u32) < 4294967296"
  using unat_lt_len [of w] by simp

lemma unat_u64_lt [simp]: "unat (w :: u64) < 18446744073709551616"
  using unat_lt_len [of w] by simp

lemma unat_u32_succ: "unat (w :: u32) < 4294967295 \<Longrightarrow> unat (w + 1) = Suc (unat w)"
  by (subst unat_add_small) auto

lemma unat_u32_succ_less: "a < b \<Longrightarrow> unat (a + 1) = Suc (unat a)" for a b :: u32
proof (rule unat_u32_succ)
  assume "a < b"
  then have "unat a < unat b" by (simp add: word_less_nat_alt)
  with unat_u32_lt [of b] show "unat a < 4294967295" by linarith
qed

lemma unat_of_nat_u8: "n < 256 \<Longrightarrow> unat (of_nat n :: u8) = n"
  by (simp add: unat_of_nat)

lemma unat_of_nat_u16: "n < 65536 \<Longrightarrow> unat (of_nat n :: u16) = n"
  by (simp add: unat_of_nat)

lemma unat_of_nat_u32: "n < 4294967296 \<Longrightarrow> unat (of_nat n :: u32) = n"
  by (simp add: unat_of_nat)

subsection \<open>Big-endian bytes\<close>

text \<open>
  \<open>to_be_bytes\<close> and \<open>from_be_bytes\<close> of the unsigned integers: the same two functions for
  every width, on the natural number the word stands for.
\<close>

primrec be_encode :: "nat \<Rightarrow> nat \<Rightarrow> bytes" where
  "be_encode 0 v = []"
| "be_encode (Suc n) v = be_encode n (v div 256) @ [of_nat v]"

definition be_decode :: "bytes \<Rightarrow> nat" where
  "be_decode bs = foldl (\<lambda>acc b. acc * 256 + unat b) 0 bs"

lemma length_be_encode [simp]: "length (be_encode n v) = n"
  by (induction n arbitrary: v) auto

lemma be_decode_Nil [simp]: "be_decode [] = 0"
  by (simp add: be_decode_def)

lemma be_decode_snoc [simp]: "be_decode (bs @ [b]) = be_decode bs * 256 + unat b"
  by (simp add: be_decode_def)

lemma unat_of_nat_u8_mod: "unat (of_nat v :: u8) = v mod 256"
  by (simp add: unat_of_nat)

lemma be_decode_encode: "be_decode (be_encode n v) = v mod 256 ^ n"
proof (induction n arbitrary: v)
  case 0
  then show ?case by simp
next
  case (Suc n)
  have "v mod (256 * 256 ^ n) = 256 * (v div 256 mod 256 ^ n) + v mod 256"
    by (rule mod_mult2_eq)
  with Suc show ?case by (simp add: unat_of_nat_u8_mod mult.commute)
qed

lemma be_decode_less: "be_decode bs < 256 ^ length bs"
proof (induction bs rule: rev_induct)
  case Nil
  then show ?case by simp
next
  case (snoc b bs)
  have "be_decode bs * 256 + unat b < (be_decode bs + 1) * 256"
    using unat_u8_lt [of b] by simp
  also have "\<dots> \<le> 256 ^ length bs * 256"
    using snoc by (intro mult_right_mono) auto
  finally show ?case by simp
qed

lemma be_encode_decode: "be_encode (length bs) (be_decode bs) = bs"
proof (induction bs rule: rev_induct)
  case Nil
  then show ?case by simp
next
  case (snoc b bs)
  have "(be_decode bs * 256 + unat b) div 256 = be_decode bs"
    using unat_u8_lt [of b] by simp
  moreover have "(of_nat (be_decode bs * 256 + unat b) :: u8) = b"
    by (simp only: word_unat_eq_iff unat_of_nat_u8_mod) simp
  ultimately show ?case using snoc by simp
qed

subsection \<open>Stateful fallible computations\<close>

type_synonym ('s, 'e, 'a) rsm = "'s \<Rightarrow> ('e + 'a) \<times> 's"

definition retS :: "'a \<Rightarrow> ('s, 'e, 'a) rsm" where
  "retS v = (\<lambda>s. (Inr v, s))"

definition bindS :: "('s, 'e, 'a) rsm \<Rightarrow> ('a \<Rightarrow> ('s, 'e, 'b) rsm) \<Rightarrow> ('s, 'e, 'b) rsm" where
  "bindS m f = (\<lambda>s. case m s of (Inl e, s') \<Rightarrow> (Inl e, s') | (Inr v, s') \<Rightarrow> f v s')"

definition seqS :: "('s, 'e, 'a) rsm \<Rightarrow> ('s, 'e, 'b) rsm \<Rightarrow> ('s, 'e, 'b) rsm" where
  "seqS m n = bindS m (\<lambda>_. n)"

text \<open>\<open>return Err(..)\<close>, where the error may read the state (an offset, a length).\<close>

definition failS :: "('s \<Rightarrow> 'e) \<Rightarrow> ('s, 'e, 'a) rsm" where
  "failS e = (\<lambda>s. (Inl (e s), s))"

definition getS :: "('s \<Rightarrow> 'a) \<Rightarrow> ('s, 'e, 'a) rsm" where
  "getS f = (\<lambda>s. (Inr (f s), s))"

text \<open>A pure \<open>Result\<close> used with \<open>?\<close>.\<close>

definition liftS :: "'e + 'a \<Rightarrow> ('s, 'e, 'a) rsm" where
  "liftS r = (\<lambda>s. (r, s))"

text \<open>\<open>map_err\<close>.\<close>

definition map_errS :: "('e \<Rightarrow> 'f) \<Rightarrow> ('s, 'e, 'a) rsm \<Rightarrow> ('s, 'f, 'a) rsm" where
  "map_errS f m = (\<lambda>s. case m s of (r, s') \<Rightarrow> (map_sum f id r, s'))"

primrec repeatS :: "nat \<Rightarrow> ('s, 'e, 'a) rsm \<Rightarrow> ('s, 'e, 'a list) rsm" where
  "repeatS 0 m = retS []"
| "repeatS (Suc n) m = bindS m (\<lambda>v. bindS (repeatS n m) (\<lambda>vs. retS (v # vs)))"

primrec eachS :: "('a \<Rightarrow> ('s, 'e, unit) rsm) \<Rightarrow> 'a list \<Rightarrow> ('s, 'e, unit) rsm" where
  "eachS f [] = retS ()"
| "eachS f (x # xs) = seqS (f x) (eachS f xs)"

lemma retS_run [rsm_simps]: "retS v s = (Inr v, s)"
  by (simp add: retS_def)

lemma failS_run [rsm_simps]: "failS e s = (Inl (e s), s)"
  by (simp add: failS_def)

lemma getS_run [rsm_simps]: "getS f s = (Inr (f s), s)"
  by (simp add: getS_def)

lemma liftS_run [rsm_simps]: "liftS r s = (r, s)"
  by (simp add: liftS_def)

lemma bindS_run_Inr [rsm_simps]: "m s = (Inr v, t) \<Longrightarrow> bindS m f s = f v t"
  by (simp add: bindS_def)

lemma bindS_run_Inl [rsm_simps]: "m s = (Inl e, t) \<Longrightarrow> bindS m f s = (Inl e, t)"
  by (simp add: bindS_def)

lemma seqS_run_Inr [rsm_simps]: "m s = (Inr v, t) \<Longrightarrow> seqS m n s = n t"
  by (simp add: seqS_def bindS_def)

lemma seqS_run_Inl [rsm_simps]: "m s = (Inl e, t) \<Longrightarrow> seqS m n s = (Inl e, t)"
  by (simp add: seqS_def bindS_def)

lemma map_errS_Inr: "map_errS f m s = (Inr v, s') \<longleftrightarrow> m s = (Inr v, s')"
  by (cases "m s"; cases "fst (m s)") (auto simp: map_errS_def)

lemma map_errS_run [rsm_simps]:
  "m s = (Inr v, s') \<Longrightarrow> map_errS f m s = (Inr v, s')"
  "m s = (Inl e, s') \<Longrightarrow> map_errS f m s = (Inl (f e), s')"
  by (simp_all add: map_errS_def)

lemma bindS_InrE:
  assumes "bindS m f s = (Inr w, s')"
  obtains v t where "m s = (Inr v, t)" and "f v t = (Inr w, s')"
  using assms by (auto simp: bindS_def split: prod.splits sum.splits)

lemma seqS_InrE:
  assumes "seqS m n s = (Inr w, s')"
  obtains v t where "m s = (Inr v, t)" and "n t = (Inr w, s')"
  using assms by (auto simp: seqS_def elim: bindS_InrE)

text \<open>Pure results: the \<open>?\<close> operator outside a method with state.\<close>

definition bindR :: "'e + 'a \<Rightarrow> ('a \<Rightarrow> 'e + 'b) \<Rightarrow> 'e + 'b" where
  "bindR r f = (case r of Inl e \<Rightarrow> Inl e | Inr v \<Rightarrow> f v)"

lemma bindR_simps [simp]:
  "bindR (Inl e) f = Inl e"
  "bindR (Inr v) f = f v"
  by (simp_all add: bindR_def)

lemma bindR_eq_Inr: "bindR r f = Inr w \<longleftrightarrow> (\<exists>v. r = Inr v \<and> f v = Inr w)"
  by (cases r) auto

lemma map_sum_eq_Inr: "map_sum f id r = Inr v \<longleftrightarrow> r = Inr v"
  by (cases r) simp_all

text \<open>\<open>ok_or\<close>.\<close>

definition ok_or :: "'a option \<Rightarrow> 'e \<Rightarrow> 'e + 'a" where
  "ok_or x e = (case x of None \<Rightarrow> Inl e | Some v \<Rightarrow> Inr v)"

lemma ok_or_simps [simp]:
  "ok_or None e = Inl e"
  "ok_or (Some v) e = Inr v"
  by (simp_all add: ok_or_def)

lemma ok_or_eq_Inr: "ok_or x e = Inr v \<longleftrightarrow> x = Some v"
  by (cases x) auto

subsection \<open>State machines\<close>

text \<open>
  A component whose handlers are events of one step function: an invariant that every event
  preserves holds after every sequence of events.
\<close>

locale event_machine =
  fixes step :: "'e \<Rightarrow> 's \<Rightarrow> 's"
    and inv :: "'s \<Rightarrow> bool"
  assumes step_inv: "inv s \<Longrightarrow> inv (step e s)"
begin

lemma run_inv: "inv s \<Longrightarrow> inv (fold step es s)"
  by (induction es arbitrary: s) (simp_all add: step_inv)

end

end
