(* ===== verification/Rust_Str.thy ===== *)
theory Rust_Str
  imports Prelude "HOL-Library.List_Lexorder"
begin

section \<open>Rust strings\<close>

text \<open>
  A \<open>str\<close> is its UTF-8 bytes. \<open>utf8_decode\<close> is the validation of \<open>str::from_utf8\<close> (the
  well-formed byte sequences of the Unicode standard) together with the scalar values that
  \<open>chars\<close> yields; \<open>encode_utf16\<close> gives the code units that \<open>java_string_cmp\<close> of
  common/mod.rs compares. The last lemmas show that two valid strings with the same UTF-16
  units are the same bytes, which is what makes that comparison an order on strings.
\<close>

type_synonym str = bytes

definition is_cont :: "u8 \<Rightarrow> bool" where
  "is_cont b \<longleftrightarrow> 128 \<le> unat b \<and> unat b \<le> 191"

fun utf8_decode :: "bytes \<Rightarrow> nat list option" where
  "utf8_decode [] = Some []"
| "utf8_decode (b0 # rest) =
     (if unat b0 < 128 then map_option ((#) (unat b0)) (utf8_decode rest)
      else if 194 \<le> unat b0 \<and> unat b0 \<le> 223 then
        (case rest of
           b1 # r \<Rightarrow>
             if is_cont b1
             then map_option ((#) ((unat b0 - 192) * 64 + (unat b1 - 128))) (utf8_decode r)
             else None
         | _ \<Rightarrow> None)
      else if 224 \<le> unat b0 \<and> unat b0 \<le> 239 then
        (case rest of
           b1 # b2 # r \<Rightarrow>
             if is_cont b1 \<and> is_cont b2 \<and> (unat b0 = 224 \<longrightarrow> 160 \<le> unat b1)
                \<and> (unat b0 = 237 \<longrightarrow> unat b1 \<le> 159)
             then map_option
                    ((#) ((unat b0 - 224) * 4096 + (unat b1 - 128) * 64 + (unat b2 - 128)))
                    (utf8_decode r)
             else None
         | _ \<Rightarrow> None)
      else if 240 \<le> unat b0 \<and> unat b0 \<le> 244 then
        (case rest of
           b1 # b2 # b3 # r \<Rightarrow>
             if is_cont b1 \<and> is_cont b2 \<and> is_cont b3 \<and> (unat b0 = 240 \<longrightarrow> 144 \<le> unat b1)
                \<and> (unat b0 = 244 \<longrightarrow> unat b1 \<le> 143)
             then map_option
                    ((#) ((unat b0 - 240) * 262144 + (unat b1 - 128) * 4096
                          + (unat b2 - 128) * 64 + (unat b3 - 128)))
                    (utf8_decode r)
             else None
         | _ \<Rightarrow> None)
      else None)"

definition from_utf8 :: "bytes \<Rightarrow> str option" where
  "from_utf8 bs = (if utf8_decode bs = None then None else Some bs)"

definition is_str :: "bytes \<Rightarrow> bool" where
  "is_str bs \<longleftrightarrow> utf8_decode bs \<noteq> None"

definition str_chars :: "str \<Rightarrow> nat list" where
  "str_chars s = (case utf8_decode s of None \<Rightarrow> [] | Some cs \<Rightarrow> cs)"

text \<open>\<open>char::is_control\<close>: the general category Cc.\<close>

definition is_control :: "nat \<Rightarrow> bool" where
  "is_control c \<longleftrightarrow> c < 32 \<or> (127 \<le> c \<and> c \<le> 159)"

definition utf16_units :: "nat \<Rightarrow> u16 list" where
  "utf16_units c =
     (if c < 65536 then [of_nat c]
      else [of_nat (55296 + (c - 65536) div 1024), of_nat (56320 + (c - 65536) mod 1024)])"

definition encode_utf16 :: "str \<Rightarrow> u16 list" where
  "encode_utf16 s = concat (map utf16_units (str_chars s))"

lemma from_utf8_eq_Some: "from_utf8 bs = Some s \<longleftrightarrow> s = bs \<and> is_str bs"
  by (auto simp: from_utf8_def is_str_def)

lemma from_utf8_str [simp]: "is_str bs \<Longrightarrow> from_utf8 bs = Some bs"
  by (simp add: from_utf8_def is_str_def)

lemma is_str_Nil [simp]: "is_str []"
  by (simp add: is_str_def)

subsection \<open>Decoding is injective\<close>

definition utf8_encode :: "nat \<Rightarrow> bytes" where
  "utf8_encode c =
     (if c < 128 then [of_nat c]
      else if c < 2048 then [of_nat (192 + c div 64), of_nat (128 + c mod 64)]
      else if c < 65536 then
        [of_nat (224 + c div 4096), of_nat (128 + c div 64 mod 64), of_nat (128 + c mod 64)]
      else
        [of_nat (240 + c div 262144), of_nat (128 + c div 4096 mod 64),
         of_nat (128 + c div 64 mod 64), of_nat (128 + c mod 64)])"

definition is_scalar :: "nat \<Rightarrow> bool" where
  "is_scalar c \<longleftrightarrow> c < 55296 \<or> (57344 \<le> c \<and> c < 1114112)"

lemma div_64_step: "z < 64 \<Longrightarrow> (q * 64 + z) div 64 = q" "z < 64 \<Longrightarrow> (q * 64 + z) mod 64 = z"
  for q z :: nat
  by simp_all

lemma of_nat_unat_u8 [simp]: "(word_of_nat (unat b) :: u8) = b"
  by simp

lemma utf8_encode_2:
  assumes "194 \<le> unat b0" "unat b0 \<le> 223" "is_cont b1"
    and c: "c = (unat b0 - 192) * 64 + (unat b1 - 128)"
  shows "utf8_encode c = [b0, b1] \<and> is_scalar c"
proof -
  define x y where "x = unat b0 - 192" and "y = unat b1 - 128"
  have x: "unat b0 = 192 + x" "2 \<le> x" "x \<le> 31" and y: "unat b1 = 128 + y" "y < 64"
    using assms by (auto simp: x_def y_def is_cont_def)
  have c': "c = x * 64 + y" by (simp add: c x_def y_def)
  have "c div 64 = x" "c mod 64 = y" using c' y by (simp_all add: div_64_step)
  moreover have "\<not> c < 128" "c < 2048" "c < 55296" using c' x y by linarith+
  ultimately show ?thesis
    using x(1) y(1) by (simp add: utf8_encode_def is_scalar_def flip: x(1) y(1) del: of_nat_add)
qed

lemma utf8_encode_3:
  assumes "224 \<le> unat b0" "unat b0 \<le> 239" "is_cont b1" "is_cont b2"
    "unat b0 = 224 \<longrightarrow> 160 \<le> unat b1" "unat b0 = 237 \<longrightarrow> unat b1 \<le> 159"
    and c: "c = (unat b0 - 224) * 4096 + (unat b1 - 128) * 64 + (unat b2 - 128)"
  shows "utf8_encode c = [b0, b1, b2] \<and> is_scalar c"
proof -
  define x y z where "x = unat b0 - 224" and "y = unat b1 - 128" and "z = unat b2 - 128"
  have x: "unat b0 = 224 + x" "x \<le> 15" and y: "unat b1 = 128 + y" "y < 64"
    and z: "unat b2 = 128 + z" "z < 64" and xy: "x = 0 \<longrightarrow> 32 \<le> y" "x = 13 \<longrightarrow> y \<le> 31"
    using assms by (auto simp: x_def y_def z_def is_cont_def)
  have c': "c = (x * 64 + y) * 64 + z" by (simp add: c x_def y_def z_def)
  have "c div 64 = x * 64 + y" "c mod 64 = z"
    unfolding c' by (rule div_64_step [OF z(2)])+
  moreover from this have "c div 4096 = x"
    using y div_mult2_eq [of c 64 64] by (simp add: div_64_step)
  moreover have "2048 \<le> c"
    using c' xy(1) by (cases "x = 0") simp_all
  moreover have "c < 65536" using c' x y z by simp
  moreover have "is_scalar c"
  proof -
    consider "x < 13" | "x = 13" | "14 \<le> x" by linarith
    then show ?thesis
      unfolding is_scalar_def using c' x y z xy by cases simp_all
  qed
  ultimately show ?thesis
    using y by (simp add: utf8_encode_def div_64_step flip: x(1) y(1) z(1) del: of_nat_add)
qed

lemma utf8_encode_4:
  assumes "240 \<le> unat b0" "unat b0 \<le> 244" "is_cont b1" "is_cont b2" "is_cont b3"
    "unat b0 = 240 \<longrightarrow> 144 \<le> unat b1" "unat b0 = 244 \<longrightarrow> unat b1 \<le> 143"
    and c: "c = (unat b0 - 240) * 262144 + (unat b1 - 128) * 4096 + (unat b2 - 128) * 64
                + (unat b3 - 128)"
  shows "utf8_encode c = [b0, b1, b2, b3] \<and> is_scalar c"
proof -
  define x y z w where "x = unat b0 - 240" and "y = unat b1 - 128" and "z = unat b2 - 128"
    and "w = unat b3 - 128"
  have x: "unat b0 = 240 + x" "x \<le> 4" and y: "unat b1 = 128 + y" "y < 64"
    and z: "unat b2 = 128 + z" "z < 64" and w: "unat b3 = 128 + w" "w < 64"
    and xy: "x = 0 \<longrightarrow> 16 \<le> y" "x = 4 \<longrightarrow> y \<le> 15"
    using assms by (auto simp: x_def y_def z_def w_def is_cont_def)
  have c': "c = ((x * 64 + y) * 64 + z) * 64 + w" by (simp add: c x_def y_def z_def w_def)
  have d1: "c div 64 = (x * 64 + y) * 64 + z" "c mod 64 = w"
    unfolding c' by (rule div_64_step [OF w(2)])+
  have dm: "c div 64 mod 64 = z" unfolding d1 by (rule div_64_step [OF z(2)])
  have d2: "c div 4096 = x * 64 + y"
    using d1 z div_mult2_eq [of c 64 64] by (simp add: div_64_step)
  have d3: "c div 262144 = x"
    using d2 y div_mult2_eq [of c 4096 64] by (simp add: div_64_step)
  have "65536 \<le> c"
    using c' xy(1) by (cases "x = 0") simp_all
  moreover have "is_scalar c"
  proof -
    consider "x < 4" | "x = 4" using x by linarith
    then show ?thesis
      unfolding is_scalar_def using calculation c' x y z w xy by cases simp_all
  qed
  ultimately show ?thesis
    using d1(2) dm d2 d3 y
    by (simp add: utf8_encode_def div_64_step flip: x(1) y(1) z(1) w(1) del: of_nat_add)
qed

lemma utf8_decode_encode:
  "utf8_decode bs = Some cs \<Longrightarrow> bs = concat (map utf8_encode cs) \<and> list_all is_scalar cs"
proof (induction bs arbitrary: cs rule: utf8_decode.induct)
  case 1
  then show ?case by simp
next
  case (2 b0 rest)
  consider (one) "unat b0 < 128" | (two) "194 \<le> unat b0" "unat b0 \<le> 223"
    | (three) "224 \<le> unat b0" "unat b0 \<le> 239" | (four) "240 \<le> unat b0" "unat b0 \<le> 244"
    using "2.prems" by (auto split: if_splits)
  then show ?case
  proof cases
    case one
    with "2.prems" obtain ds where "utf8_decode rest = Some ds" "cs = unat b0 # ds" by auto
    with "2.IH"(1) one show ?thesis by (auto simp: utf8_encode_def is_scalar_def)
  next
    case two
    with "2.prems" obtain b1 r ds c where d: "rest = b1 # r" "is_cont b1" "utf8_decode r = Some ds"
      "cs = c # ds" "c = (unat b0 - 192) * 64 + (unat b1 - 128)"
      by (auto split: list.splits if_splits)
    with "2.IH"(2) two have "r = concat (map utf8_encode ds) \<and> list_all is_scalar ds" by auto
    with utf8_encode_2 [OF two d(2,5)] d show ?thesis by simp
  next
    case three
    with "2.prems" obtain b1 b2 r ds c where d: "rest = b1 # b2 # r" "is_cont b1" "is_cont b2"
      "unat b0 = 224 \<longrightarrow> 160 \<le> unat b1" "unat b0 = 237 \<longrightarrow> unat b1 \<le> 159"
      "c = (unat b0 - 224) * 4096 + (unat b1 - 128) * 64 + (unat b2 - 128)"
      "utf8_decode r = Some ds" "cs = c # ds"
      by (auto split: list.splits if_splits)
    with "2.IH"(3) three have "r = concat (map utf8_encode ds) \<and> list_all is_scalar ds" by auto
    with utf8_encode_3 [OF three d(2-6)] d show ?thesis by simp
  next
    case four
    with "2.prems" obtain b1 b2 b3 r ds c where d: "rest = b1 # b2 # b3 # r" "is_cont b1"
      "is_cont b2" "is_cont b3" "unat b0 = 240 \<longrightarrow> 144 \<le> unat b1"
      "unat b0 = 244 \<longrightarrow> unat b1 \<le> 143"
      "c = (unat b0 - 240) * 262144 + (unat b1 - 128) * 4096 + (unat b2 - 128) * 64
           + (unat b3 - 128)"
      "utf8_decode r = Some ds" "cs = c # ds"
      by (auto split: list.splits if_splits)
    with "2.IH"(4) four have "r = concat (map utf8_encode ds) \<and> list_all is_scalar ds" by auto
    with utf8_encode_4 [OF four d(2-7)] d show ?thesis by simp
  qed
qed

lemma utf16_units_bmp:
  assumes "is_scalar c" "c < 65536"
  shows "\<exists>u. utf16_units c = [u] \<and> unat u = c \<and> \<not> (55296 \<le> unat u \<and> unat u < 57344)"
  using assms by (auto simp: utf16_units_def is_scalar_def unat_of_nat_u16)

lemma utf16_units_supplementary:
  assumes "is_scalar c" "\<not> c < 65536"
  shows "\<exists>u v. utf16_units c = [u, v] \<and> 55296 \<le> unat u \<and> unat u < 56320
    \<and> c = 65536 + (unat u - 55296) * 1024 + (unat v - 56320)"
proof -
  define q r where "q = (c - 65536) div 1024" and "r = (c - 65536) mod 1024"
  have c: "c = 65536 + q * 1024 + r" using assms by (simp add: q_def r_def)
  have q: "q < 1024" using assms by (auto simp: q_def is_scalar_def)
  have r: "r < 1024" by (simp add: r_def)
  have u: "unat (word_of_nat (55296 + q) :: u16) = 55296 + q"
    and v: "unat (word_of_nat (56320 + r) :: u16) = 56320 + r"
    using q r by (intro unat_of_nat_u16; simp)+
  have "utf16_units c = [word_of_nat (55296 + q), word_of_nat (56320 + r)]"
    using assms by (simp add: utf16_units_def q_def r_def)
  with c q u v show ?thesis by (simp del: of_nat_add)
qed

lemma concat_utf16_units_inj:
  assumes "list_all is_scalar cs" "list_all is_scalar ds"
    and "concat (map utf16_units cs) = concat (map utf16_units ds)"
  shows "cs = ds"
  using assms
proof (induction cs arbitrary: ds)
  case Nil
  then show ?case by (cases ds) (auto simp: utf16_units_def split: if_splits)
next
  case (Cons c cs)
  from Cons.prems(3) have "ds \<noteq> []" by (auto simp: utf16_units_def split: if_splits)
  then obtain d ds' where ds: "ds = d # ds'" by (cases ds) auto
  have sc: "is_scalar c" and sd: "is_scalar d" using Cons.prems ds by auto
  have "c = d \<and> concat (map utf16_units cs) = concat (map utf16_units ds')"
    using Cons.prems(3) ds utf16_units_bmp [OF sc] utf16_units_supplementary [OF sc]
      utf16_units_bmp [OF sd] utf16_units_supplementary [OF sd]
    by (cases "c < 65536"; cases "d < 65536") auto
  with Cons ds show ?case by simp
qed

lemma encode_utf16_inj:
  assumes "is_str a" "is_str b" "encode_utf16 a = encode_utf16 b"
  shows "a = b"
proof -
  obtain cs ds where cs: "utf8_decode a = Some cs" and ds: "utf8_decode b = Some ds"
    using assms by (auto simp: is_str_def)
  have "cs = ds"
    using assms(3) cs ds utf8_decode_encode [OF cs] utf8_decode_encode [OF ds]
    by (intro concat_utf16_units_inj) (auto simp: encode_utf16_def str_chars_def)
  with utf8_decode_encode [OF cs] utf8_decode_encode [OF ds] show ?thesis by simp
qed

end
