(* ===== verification/Codec.thy ===== *)
theory Codec
  imports Rust_Str
begin

section \<open>The bounded primitive codec (i2pr-proto/src/codec.rs)\<close>

text \<open>
  \<open>DecodeCursor\<close> and \<open>EncodeBuffer\<close> with every operation of codec.rs. A cursor is the input
  slice and the offset; a decoder is a method on the cursor, so a failed decoder leaves the
  cursor where the failing operation left it. An encode buffer is the output vector, its
  length when the encoder was made and the caller's limit. Fixed-width integers are
  big-endian. The \<open>fmt\<close> implementations are not modelled.
\<close>

datatype ProtocolErrorKind =
    Malformed
  | TruncatedKind
  | LimitExceeded
  | InvalidValue
  | TrailingBytesKind
  | PolicyRejectedKind
  | UnsupportedKind

datatype CodecError =
    Truncated nat nat nat \<comment> \<open>offset, needed, remaining\<close>
  | LengthExceeded nat nat nat string \<comment> \<open>offset, declared, maximum, context\<close>
  | ArithmeticOverflow nat string \<comment> \<open>offset, context\<close>
  | InvalidUtf8 nat \<comment> \<open>offset\<close>
  | InvalidFieldValue nat string \<comment> \<open>offset, context\<close>
  | NonCanonical nat string \<comment> \<open>offset, context\<close>
  | Unsupported nat string u64 \<comment> \<open>offset, context, value\<close>
  | TrailingBytes nat nat \<comment> \<open>offset, remaining\<close>
  | DuplicateField nat string \<comment> \<open>offset, context\<close>
  | PolicyRejected nat string \<comment> \<open>offset, context\<close>

fun kind :: "CodecError \<Rightarrow> ProtocolErrorKind" where
  "kind (Truncated _ _ _) = TruncatedKind"
| "kind (LengthExceeded _ _ _ _) = LimitExceeded"
| "kind (PolicyRejected _ _) = PolicyRejectedKind"
| "kind (Unsupported _ _ _) = UnsupportedKind"
| "kind (InvalidFieldValue _ _) = InvalidValue"
| "kind (TrailingBytes _ _) = TrailingBytesKind"
| "kind (ArithmeticOverflow _ _) = Malformed"
| "kind (InvalidUtf8 _) = Malformed"
| "kind (NonCanonical _ _) = Malformed"
| "kind (DuplicateField _ _) = Malformed"

subsection \<open>Decoding\<close>

record DecodeCursor =
  dc_input :: bytes
  dc_offset :: nat

type_synonym 'a decoder = "(DecodeCursor, CodecError, 'a) rsm"

definition cursor_new :: "bytes \<Rightarrow> nat \<Rightarrow> CodecError + DecodeCursor" where
  "cursor_new input maximum =
     (if length input > maximum
      then Inl (LengthExceeded 0 (length input) maximum ''cursor input'')
      else Inr \<lparr>dc_input = input, dc_offset = 0\<rparr>)"

definition remaining :: "DecodeCursor \<Rightarrow> nat" where
  "remaining c = saturating_sub (length (dc_input c)) (dc_offset c)"

definition cursor_is_empty :: "DecodeCursor \<Rightarrow> bool" where
  "cursor_is_empty c \<longleftrightarrow> remaining c = 0"

definition take_bytes :: "nat \<Rightarrow> bytes decoder" where
  "take_bytes n = (\<lambda>c.
     case checked_add (dc_offset c) n of
       None \<Rightarrow> (Inl (ArithmeticOverflow (dc_offset c) ''cursor offset''), c)
     | Some end \<Rightarrow>
         if end > length (dc_input c)
         then (Inl (Truncated (dc_offset c) n (remaining c)), c)
         else (Inr (take (end - dc_offset c) (drop (dc_offset c) (dc_input c))),
               c\<lparr>dc_offset := end\<rparr>))"

definition read_u8 :: "u8 decoder" where
  "read_u8 = bindS (take_bytes 1) (\<lambda>bs. retS (bs ! 0))"

definition read_u16 :: "u16 decoder" where
  "read_u16 = bindS (take_bytes 2) (\<lambda>bs. retS (of_nat (be_decode bs)))"

definition read_u32 :: "u32 decoder" where
  "read_u32 = bindS (take_bytes 4) (\<lambda>bs. retS (of_nat (be_decode bs)))"

definition read_u64 :: "u64 decoder" where
  "read_u64 = bindS (take_bytes 8) (\<lambda>bs. retS (of_nat (be_decode bs)))"

definition read_length_prefixed :: "nat \<Rightarrow> nat \<Rightarrow> bytes decoder" where
  "read_length_prefixed n maximum =
     (if n > maximum
      then failS (\<lambda>c. LengthExceeded (dc_offset c) n maximum ''length-prefixed field'')
      else take_bytes n)"

definition read_bytes_u8 :: "nat \<Rightarrow> bytes decoder" where
  "read_bytes_u8 maximum = bindS read_u8 (\<lambda>n. read_length_prefixed (unat n) maximum)"

definition read_bytes_u16 :: "nat \<Rightarrow> bytes decoder" where
  "read_bytes_u16 maximum = bindS read_u16 (\<lambda>n. read_length_prefixed (unat n) maximum)"

text \<open>\<open>usize::try_from\<close> a wider or equal unsigned integer.\<close>

definition usize_try_from :: "nat \<Rightarrow> nat option" where
  "usize_try_from n = (if n < usize_limit then Some n else None)"

definition read_bytes_u32 :: "nat \<Rightarrow> bytes decoder" where
  "read_bytes_u32 maximum =
     bindS read_u32 (\<lambda>w.
       case usize_try_from (unat w) of
         None \<Rightarrow> failS (\<lambda>c. ArithmeticOverflow (dc_offset c) ''32-bit length conversion'')
       | Some n \<Rightarrow> read_length_prefixed n maximum)"

definition read_utf8 :: "bytes \<Rightarrow> nat \<Rightarrow> CodecError + str" where
  "read_utf8 bs offset = ok_or (from_utf8 bs) (InvalidUtf8 offset)"

definition read_utf8_u8 :: "nat \<Rightarrow> str decoder" where
  "read_utf8_u8 maximum =
     bindS (read_bytes_u8 maximum) (\<lambda>bs.
     bindS (getS dc_offset) (\<lambda>offset.
     liftS (read_utf8 bs (saturating_sub offset (length bs)))))"

definition read_utf8_u16 :: "nat \<Rightarrow> str decoder" where
  "read_utf8_u16 maximum =
     bindS (read_bytes_u16 maximum) (\<lambda>bs.
     bindS (getS dc_offset) (\<lambda>offset.
     liftS (read_utf8 bs (saturating_sub offset (length bs)))))"

definition read_utf8_u32 :: "nat \<Rightarrow> str decoder" where
  "read_utf8_u32 maximum =
     bindS (read_bytes_u32 maximum) (\<lambda>bs.
     bindS (getS dc_offset) (\<lambda>offset.
     liftS (read_utf8 bs (saturating_sub offset (length bs)))))"

definition cursor_finish :: "DecodeCursor \<Rightarrow> CodecError + unit" where
  "cursor_finish c =
     (if cursor_is_empty c then Inr () else Inl (TrailingBytes (dc_offset c) (remaining c)))"

definition decode_exact :: "bytes \<Rightarrow> nat \<Rightarrow> 'a decoder \<Rightarrow> CodecError + 'a" where
  "decode_exact input maximum decode =
     bindR (cursor_new input maximum) (\<lambda>cursor.
     case decode cursor of (r, cursor') \<Rightarrow>
       bindR r (\<lambda>v. bindR (cursor_finish cursor') (\<lambda>_. Inr v)))"

subsection \<open>Encoding\<close>

record EncodeBuffer =
  eb_output :: bytes
  eb_start_len :: nat
  eb_maximum :: nat

type_synonym encoder = "(EncodeBuffer, CodecError, unit) rsm"

definition buffer_new :: "bytes \<Rightarrow> nat \<Rightarrow> CodecError + EncodeBuffer" where
  "buffer_new output maximum =
     (if length output > maximum
      then Inl (LengthExceeded (length output) (length output) maximum ''encoder output'')
      else Inr \<lparr>eb_output = output, eb_start_len = length output, eb_maximum = maximum\<rparr>)"

definition buffer_len :: "EncodeBuffer \<Rightarrow> nat" where
  "buffer_len b = length (eb_output b) - eb_start_len b"

definition write_bytes :: "bytes \<Rightarrow> encoder" where
  "write_bytes bs = (\<lambda>b.
     case checked_add (length (eb_output b)) (length bs) of
       None \<Rightarrow> (Inl (ArithmeticOverflow (length (eb_output b)) ''encoder output length''), b)
     | Some new_length \<Rightarrow>
         if new_length > eb_maximum b
         then (Inl (LengthExceeded (length (eb_output b)) new_length (eb_maximum b)
                     ''encoder output''), b)
         else (Inr (), b\<lparr>eb_output := eb_output b @ bs\<rparr>))"

definition write_raw :: "bytes \<Rightarrow> encoder" where
  "write_raw bs = write_bytes bs"

definition write_u8 :: "u8 \<Rightarrow> encoder" where
  "write_u8 w = write_bytes [w]"

definition write_u16 :: "u16 \<Rightarrow> encoder" where
  "write_u16 w = write_bytes (be_encode 2 (unat w))"

definition write_u32 :: "u32 \<Rightarrow> encoder" where
  "write_u32 w = write_bytes (be_encode 4 (unat w))"

definition write_u64 :: "u64 \<Rightarrow> encoder" where
  "write_u64 w = write_bytes (be_encode 8 (unat w))"

definition prefix_width :: "nat \<Rightarrow> nat option" where
  "prefix_width width_maximum =
     (if width_maximum = 255 then Some 1
      else if width_maximum = 65535 then Some 2
      else if width_maximum = 4294967295 then Some 4
      else None)"

definition write_length_prefixed :: "bytes \<Rightarrow> nat \<Rightarrow> nat \<Rightarrow> string \<Rightarrow> encoder" where
  "write_length_prefixed bs maximum width_maximum context = (\<lambda>b.
     let here = length (eb_output b) in
     if length bs > maximum
     then (Inl (LengthExceeded here (length bs) maximum context), b)
     else if length bs > width_maximum
     then (Inl (InvalidFieldValue here context), b)
     else case prefix_width width_maximum of
       None \<Rightarrow> (Inl (InvalidFieldValue here context), b)
     | Some prefix_len \<Rightarrow>
       (case checked_add prefix_len (length bs) of
          None \<Rightarrow> (Inl (ArithmeticOverflow here ''length-prefixed field length''), b)
        | Some field_len \<Rightarrow>
          (case checked_add here field_len of
             None \<Rightarrow> (Inl (ArithmeticOverflow here ''encoder output length''), b)
           | Some new_length \<Rightarrow>
             if new_length > eb_maximum b
             then (Inl (LengthExceeded here new_length (eb_maximum b) context), b)
             else seqS
               (if width_maximum = 255 then write_u8 (of_nat (length bs))
                else if width_maximum = 65535 then write_u16 (of_nat (length bs))
                else write_u32 (of_nat (length bs)))
               (write_bytes bs) b)))"

definition write_bytes_u8 :: "bytes \<Rightarrow> nat \<Rightarrow> encoder" where
  "write_bytes_u8 bs maximum = write_length_prefixed bs maximum 255 ''u8-prefixed field''"

definition write_bytes_u16 :: "bytes \<Rightarrow> nat \<Rightarrow> encoder" where
  "write_bytes_u16 bs maximum = write_length_prefixed bs maximum 65535 ''u16-prefixed field''"

definition write_bytes_u32 :: "bytes \<Rightarrow> nat \<Rightarrow> encoder" where
  "write_bytes_u32 bs maximum =
     write_length_prefixed bs maximum 4294967295 ''u32-prefixed field''"

definition write_utf8_u8 :: "str \<Rightarrow> nat \<Rightarrow> encoder" where
  "write_utf8_u8 s maximum = write_length_prefixed s maximum 255 ''UTF-8 field''"

definition write_utf8_u16 :: "str \<Rightarrow> nat \<Rightarrow> encoder" where
  "write_utf8_u16 s maximum = write_length_prefixed s maximum 65535 ''UTF-8 field''"

definition write_utf8_u32 :: "str \<Rightarrow> nat \<Rightarrow> encoder" where
  "write_utf8_u32 s maximum = write_length_prefixed s maximum 4294967295 ''UTF-8 field''"

definition encode_to_vec :: "nat \<Rightarrow> encoder \<Rightarrow> CodecError + bytes" where
  "encode_to_vec maximum encode =
     bindR (buffer_new [] maximum) (\<lambda>b.
     case encode b of (r, b') \<Rightarrow> bindR r (\<lambda>_. Inr (eb_output b')))"

end
