(* ===== verification/Wire.thy ===== *)
theory Wire
  imports Codec
begin

section \<open>Wire laws: what a decoder and an encoder promise\<close>

text \<open>
  Three laws describe a codec over the primitives of the theory Codec:
  \<^item> \<open>decodes d xs v\<close>: wherever the bytes \<open>xs\<close> stand in the input, \<open>d\<close> returns \<open>v\<close> and
    consumes exactly \<open>xs\<close>;
  \<^item> \<open>sound d P\<close>: whenever \<open>d\<close> succeeds, it consumed some bytes \<open>xs\<close> of the input and
    \<open>P v xs\<close> holds of the value and those bytes;
  \<^item> \<open>writes e xs\<close>: \<open>e\<close> appends \<open>xs\<close> when they fit under the buffer's limit and fails
    when they do not.
  Each law composes along \<open>bindS\<close> and \<open>seqS\<close> (the collection \<open>wire_intro\<close>). The locale
  \<open>wire_codec\<close> is the interface of a structure that has all three: its lemmas give the
  round trip in both directions once, for every structure that interprets it.
\<close>

definition in_bounds :: "DecodeCursor \<Rightarrow> bool" where
  "in_bounds c \<longleftrightarrow> dc_offset c \<le> length (dc_input c) \<and> length (dc_input c) < usize_limit"

definition decodes :: "(DecodeCursor, 'e, 'a) rsm \<Rightarrow> bytes \<Rightarrow> 'a \<Rightarrow> bool" where
  "decodes d xs v \<longleftrightarrow>
     (\<forall>pre suf. length pre + length xs + length suf < usize_limit \<longrightarrow>
        d \<lparr>dc_input = pre @ xs @ suf, dc_offset = length pre\<rparr> =
          (Inr v, \<lparr>dc_input = pre @ xs @ suf, dc_offset = length pre + length xs\<rparr>))"

definition sound :: "(DecodeCursor, 'e, 'a) rsm \<Rightarrow> ('a \<Rightarrow> bytes \<Rightarrow> bool) \<Rightarrow> bool" where
  "sound d P \<longleftrightarrow>
     (\<forall>c v c'. in_bounds c \<longrightarrow> d c = (Inr v, c') \<longrightarrow>
        (\<exists>xs. dc_input c' = dc_input c \<and> dc_offset c' = dc_offset c + length xs
            \<and> dc_offset c' \<le> length (dc_input c)
            \<and> take (length xs) (drop (dc_offset c) (dc_input c)) = xs \<and> P v xs))"

definition writes :: "encoder \<Rightarrow> bytes \<Rightarrow> bool" where
  "writes e xs \<longleftrightarrow>
     (\<forall>b. length (eb_output b) \<le> eb_maximum b \<longrightarrow> eb_maximum b < usize_limit \<longrightarrow>
        (if length (eb_output b) + length xs \<le> eb_maximum b
         then e b = (Inr (), b\<lparr>eb_output := eb_output b @ xs\<rparr>)
         else \<exists>err b'. e b = (Inl err, b')))"

subsection \<open>Composition\<close>

lemma decodesD:
  assumes "decodes d xs v" "length pre + length xs + length suf < usize_limit"
  shows "d \<lparr>dc_input = pre @ xs @ suf, dc_offset = length pre\<rparr> =
    (Inr v, \<lparr>dc_input = pre @ xs @ suf, dc_offset = length pre + length xs\<rparr>)"
  using assms by (simp add: decodes_def)

lemma decodes_ret [wire_intro]: "decodes (retS v) [] v"
  by (simp add: decodes_def retS_def)

lemma decodes_bind [wire_intro]:
  assumes "decodes d xs v" "decodes (f v) ys w"
  shows "decodes (bindS d f) (xs @ ys) w"
  unfolding decodes_def
proof (intro allI impI)
  fix pre suf :: bytes
  assume l: "length pre + length (xs @ ys) + length suf < usize_limit"
  have "d \<lparr>dc_input = pre @ xs @ (ys @ suf), dc_offset = length pre\<rparr> =
      (Inr v, \<lparr>dc_input = pre @ xs @ (ys @ suf), dc_offset = length pre + length xs\<rparr>)"
    using l by (intro decodesD [OF assms(1)]) simp
  moreover have "f v \<lparr>dc_input = (pre @ xs) @ ys @ suf, dc_offset = length (pre @ xs)\<rparr> =
      (Inr w, \<lparr>dc_input = (pre @ xs) @ ys @ suf, dc_offset = length (pre @ xs) + length ys\<rparr>)"
    using l by (intro decodesD [OF assms(2)]) simp
  ultimately show "bindS d f \<lparr>dc_input = pre @ (xs @ ys) @ suf, dc_offset = length pre\<rparr> =
      (Inr w, \<lparr>dc_input = pre @ (xs @ ys) @ suf, dc_offset = length pre + length (xs @ ys)\<rparr>)"
    by (simp add: bindS_def add.assoc)
qed

lemma decodes_bind_last:
  assumes "decodes d xs v" "decodes (f v) [] w"
  shows "decodes (bindS d f) xs w"
  using decodes_bind [of d xs v f "[]" w] assms by simp

lemma decodes_bind_first:
  assumes "decodes d [] v" "decodes (f v) xs w"
  shows "decodes (bindS d f) xs w"
  using decodes_bind [of d "[]" v f xs w] assms by simp

lemma decodes_seq [wire_intro]:
  "decodes d xs v \<Longrightarrow> decodes e ys w \<Longrightarrow> decodes (seqS d e) (xs @ ys) w"
  unfolding seqS_def by (rule decodes_bind)

lemma decodes_lift [wire_intro]: "r = Inr v \<Longrightarrow> decodes (liftS r) [] v"
  by (simp add: decodes_def liftS_def)

text \<open>A step that only reads the state can be answered with any value it may have.\<close>

lemma decodes_get_bind:
  assumes "\<And>x. decodes (f x) xs w"
  shows "decodes (bindS (getS g) f) xs w"
  using assms by (simp add: decodes_def bindS_def getS_def)

lemma decodes_run:
  assumes "decodes d xs v" "length xs < usize_limit"
  shows "d \<lparr>dc_input = xs, dc_offset = 0\<rparr> = (Inr v, \<lparr>dc_input = xs, dc_offset = length xs\<rparr>)"
  using decodesD [OF assms(1), of "[]" "[]"] assms(2) by simp

lemma sound_ret: "P v [] \<Longrightarrow> sound (retS v) P"
  by (auto simp: sound_def retS_def in_bounds_def)

lemma sound_fail: "sound (failS e) P"
  by (simp add: sound_def failS_def)

lemma sound_lift: "(\<And>v. r = Inr v \<Longrightarrow> P v []) \<Longrightarrow> sound (liftS r) P"
  by (auto simp: sound_def liftS_def in_bounds_def)

lemma sound_mono: "sound d P \<Longrightarrow> (\<And>v xs. P v xs \<Longrightarrow> Q v xs) \<Longrightarrow> sound d Q"
  unfolding sound_def by meson

lemma sound_bind:
  assumes d: "sound d P"
    and f: "\<And>v xs. P v xs \<Longrightarrow> sound (f v) (\<lambda>w ys. Q w (xs @ ys))"
  shows "sound (bindS d f) Q"
  unfolding sound_def
proof (intro allI impI)
  fix c w c'
  assume c: "in_bounds c" and "bindS d f c = (Inr w, c')"
  then obtain v t where dv: "d c = (Inr v, t)" and fv: "f v t = (Inr w, c')"
    by (auto elim: bindS_InrE)
  from d c dv obtain xs where xs: "dc_input t = dc_input c" "dc_offset t = dc_offset c + length xs"
    "dc_offset t \<le> length (dc_input c)" "take (length xs) (drop (dc_offset c) (dc_input c)) = xs"
    and P: "P v xs"
    unfolding sound_def by blast
  have "in_bounds t" using c xs by (simp add: in_bounds_def)
  with f [OF P] fv obtain ys where ys: "dc_input c' = dc_input t"
    "dc_offset c' = dc_offset t + length ys" "dc_offset c' \<le> length (dc_input t)"
    "take (length ys) (drop (dc_offset t) (dc_input t)) = ys" "Q w (xs @ ys)"
    unfolding sound_def by blast
  have "take (length (xs @ ys)) (drop (dc_offset c) (dc_input c)) = xs @ ys"
    using xs ys by (simp add: take_add add.commute)
  then show "\<exists>zs. dc_input c' = dc_input c \<and> dc_offset c' = dc_offset c + length zs
      \<and> dc_offset c' \<le> length (dc_input c)
      \<and> take (length zs) (drop (dc_offset c) (dc_input c)) = zs \<and> Q w zs"
    using xs ys by (intro exI [of _ "xs @ ys"]) simp
qed

lemma sound_seq:
  assumes "sound d P" "\<And>v xs. P v xs \<Longrightarrow> sound e (\<lambda>w ys. Q w (xs @ ys))"
  shows "sound (seqS d e) Q"
  unfolding seqS_def by (rule sound_bind [OF assms])

lemma sound_get_bind:
  assumes "\<And>x. sound (f x) Q"
  shows "sound (bindS (getS g) f) Q"
proof -
  have "sound (bindS (getS g) f) Q \<longleftrightarrow> (\<forall>c v c'. in_bounds c \<longrightarrow> f (g c) c = (Inr v, c') \<longrightarrow>
        (\<exists>xs. dc_input c' = dc_input c \<and> dc_offset c' = dc_offset c + length xs
            \<and> dc_offset c' \<le> length (dc_input c)
            \<and> take (length xs) (drop (dc_offset c) (dc_input c)) = xs \<and> Q v xs))"
    by (simp add: sound_def bindS_def getS_def)
  with assms show ?thesis unfolding sound_def by blast
qed

lemma bindS_liftS_Inr [simp]: "bindS (liftS (Inr v)) f = f v"
  by (simp add: bindS_def liftS_def)

lemma bindS_liftS_Inl [simp]: "bindS (liftS (Inl e)) f = failS (\<lambda>_. e)"
  by (simp add: bindS_def liftS_def failS_def)

lemma sound_bind_lift:
  assumes "\<And>v. r = Inr v \<Longrightarrow> sound (f v) Q"
  shows "sound (bindS (liftS r) f) Q"
  using assms by (cases r) (simp_all add: sound_fail)

lemma decodes_bind_lift:
  "r = Inr v \<Longrightarrow> decodes (f v) xs w \<Longrightarrow> decodes (bindS (liftS r) f) xs w"
  by simp

lemma sound_if:
  "(b \<Longrightarrow> sound d P) \<Longrightarrow> (\<not> b \<Longrightarrow> sound e P) \<Longrightarrow> sound (if b then d else e) P"
  by simp

lemma decodes_map_err [wire_intro]: "decodes d xs v \<Longrightarrow> decodes (map_errS f d) xs v"
  by (simp add: decodes_def map_errS_def)

lemma sound_map_err: "sound d P \<Longrightarrow> sound (map_errS f d) P"
  by (simp only: sound_def map_errS_Inr)

lemma writesD_fits:
  assumes "writes e xs" "length (eb_output b) + length xs \<le> eb_maximum b"
    "eb_maximum b < usize_limit"
  shows "e b = (Inr (), b\<lparr>eb_output := eb_output b @ xs\<rparr>)"
  using assms by (auto simp: writes_def)

lemma writesD_full:
  assumes "writes e xs" "length (eb_output b) \<le> eb_maximum b" "eb_maximum b < usize_limit"
    "\<not> length (eb_output b) + length xs \<le> eb_maximum b"
  shows "\<exists>err b'. e b = (Inl err, b')"
  using assms(1) [unfolded writes_def, rule_format, OF assms(2,3)] assms(4) by simp

lemma writes_ret [wire_intro]: "writes (retS ()) []"
  by (simp add: writes_def retS_def)

lemma writes_bytes [wire_intro]: "writes (write_bytes bs) bs"
  by (auto simp: writes_def write_bytes_def checked_add_def)

lemma writes_seq [wire_intro]:
  assumes "writes e xs" "writes f ys"
  shows "writes (seqS e f) (xs @ ys)"
  unfolding writes_def
proof (intro allI impI)
  fix b :: EncodeBuffer
  assume b: "length (eb_output b) \<le> eb_maximum b" "eb_maximum b < usize_limit"
  let ?b = "b\<lparr>eb_output := eb_output b @ xs\<rparr>"
  show "if length (eb_output b) + length (xs @ ys) \<le> eb_maximum b
    then seqS e f b = (Inr (), b\<lparr>eb_output := eb_output b @ xs @ ys\<rparr>)
    else \<exists>err b'. seqS e f b = (Inl err, b')"
  proof (cases "length (eb_output b) + length xs \<le> eb_maximum b")
    case True
    then have e: "e b = (Inr (), ?b)" using assms(1) b by (simp add: writesD_fits)
    have "if length (eb_output ?b) + length ys \<le> eb_maximum ?b
      then f ?b = (Inr (), ?b\<lparr>eb_output := eb_output ?b @ ys\<rparr>)
      else \<exists>err b'. f ?b = (Inl err, b')"
      using assms(2) b True unfolding writes_def by (elim allE [of _ ?b]) simp
    with e show ?thesis by (auto simp: seqS_run_Inr add.assoc split: if_splits)
  next
    case False
    then obtain err b' where "e b = (Inl err, b')" using writesD_full [OF assms(1) b] by blast
    with False show ?thesis by (simp add: seqS_run_Inl)
  qed
qed

lemma writes_lift [wire_intro]: "r = Inr () \<Longrightarrow> writes (liftS r) []"
  by (simp add: writes_def liftS_def)

lemma writes_bind_lift:
  assumes "r = Inr v" "writes (f v) xs"
  shows "writes (bindS (liftS r) f) xs"
  using assms by (simp add: writes_def bindS_def liftS_def)

lemma writes_each:
  assumes "\<And>x. x \<in> set xs \<Longrightarrow> writes (f x) (g x)"
  shows "writes (eachS f xs) (concat (map g xs))"
  using assms
proof (induction xs)
  case Nil
  show ?case by (simp add: writes_ret)
next
  case (Cons x xs)
  then show ?case using writes_seq [of "f x" "g x" "eachS f xs"] by simp
qed

subsection \<open>The primitives satisfy the laws\<close>

lemma decodes_take [wire_intro]: "length xs = n \<Longrightarrow> decodes (take_bytes n) xs xs"
  by (auto simp: decodes_def take_bytes_def)

lemma sound_take: "sound (take_bytes n) (\<lambda>v xs. v = xs \<and> length xs = n)"
  by (auto simp: sound_def take_bytes_def checked_add_def in_bounds_def
      split: if_splits)

lemma decodes_u8 [wire_intro]: "decodes read_u8 [w] w"
  unfolding read_u8_def by (rule decodes_bind_last [OF decodes_take]) (simp_all add: decodes_ret)

lemma sound_u8: "sound read_u8 (\<lambda>v xs. xs = [v])"
  unfolding read_u8_def
  by (rule sound_bind [OF sound_take], rule sound_ret) (auto simp: length_Suc_conv)

lemma power_256: "8 * n = k \<Longrightarrow> (256 :: nat) ^ n = 2 ^ k"
  using power_mult [of "2 :: nat" 8 n] by simp

lemma of_nat_be_decode_encode:
  "8 * n = LENGTH('w) \<Longrightarrow> (of_nat (be_decode (be_encode n (unat w))) :: 'w::len word) = w"
  using unat_lt_len [of w] by (simp add: be_decode_encode power_256)

lemma be_encode_of_nat_decode:
  assumes "8 * n = LENGTH('w)" "length xs = n"
  shows "be_encode n (unat (of_nat (be_decode xs) :: 'w::len word)) = xs"
proof -
  have "be_decode xs < 2 ^ LENGTH('w)"
    using be_decode_less [of xs] assms by (simp add: power_256)
  then have "unat (of_nat (be_decode xs) :: 'w word) = be_decode xs" by (simp add: unat_of_nat)
  with assms be_encode_decode [of xs] show ?thesis by simp
qed

lemma decodes_u16 [wire_intro]: "decodes read_u16 (be_encode 2 (unat w)) w"
  unfolding read_u16_def
  by (rule decodes_bind_last [OF decodes_take]) (simp_all add: of_nat_be_decode_encode decodes_ret)

lemma sound_u16: "sound read_u16 (\<lambda>v xs. xs = be_encode 2 (unat v))"
  unfolding read_u16_def
  by (rule sound_bind [OF sound_take], rule sound_ret) (simp add: be_encode_of_nat_decode)

lemma decodes_u32 [wire_intro]: "decodes read_u32 (be_encode 4 (unat w)) w"
  unfolding read_u32_def
  by (rule decodes_bind_last [OF decodes_take]) (simp_all add: of_nat_be_decode_encode decodes_ret)

lemma sound_u32: "sound read_u32 (\<lambda>v xs. xs = be_encode 4 (unat v))"
  unfolding read_u32_def
  by (rule sound_bind [OF sound_take], rule sound_ret) (simp add: be_encode_of_nat_decode)

lemma decodes_u64 [wire_intro]: "decodes read_u64 (be_encode 8 (unat w)) w"
  unfolding read_u64_def
  by (rule decodes_bind_last [OF decodes_take]) (simp_all add: of_nat_be_decode_encode decodes_ret)

lemma sound_u64: "sound read_u64 (\<lambda>v xs. xs = be_encode 8 (unat v))"
  unfolding read_u64_def
  by (rule sound_bind [OF sound_take], rule sound_ret) (simp add: be_encode_of_nat_decode)

text \<open>The wire form of a field with an 8-bit length prefix.\<close>

definition prefixed_u8 :: "bytes \<Rightarrow> bytes" where
  "prefixed_u8 bs = of_nat (length bs) # bs"

lemma length_prefixed_u8 [simp]: "length (prefixed_u8 bs) = Suc (length bs)"
  by (simp add: prefixed_u8_def)

lemma decodes_bytes_u8 [wire_intro]:
  assumes "length bs \<le> 255" "length bs \<le> maximum"
  shows "decodes (read_bytes_u8 maximum) (prefixed_u8 bs) bs"
proof -
  have "unat (of_nat (length bs) :: u8) = length bs" using assms by (simp add: unat_of_nat_u8)
  then have "decodes (read_length_prefixed (unat (of_nat (length bs) :: u8)) maximum) bs bs"
    using assms by (simp add: read_length_prefixed_def decodes_take)
  with decodes_bind [OF decodes_u8, where f = "\<lambda>n. read_length_prefixed (unat n) maximum"]
  show ?thesis unfolding read_bytes_u8_def prefixed_u8_def by force
qed

lemma sound_bytes_u8:
  "sound (read_bytes_u8 maximum)
     (\<lambda>v xs. xs = prefixed_u8 v \<and> length v \<le> 255 \<and> length v \<le> maximum)"
  unfolding read_bytes_u8_def
proof (rule sound_bind [OF sound_u8])
  fix w :: u8 and xs assume xs: "xs = [w]"
  have w: "unat w \<le> 255" using unat_u8_lt [of w] by linarith
  show "sound (read_length_prefixed (unat w) maximum)
     (\<lambda>v ys. xs @ ys = prefixed_u8 v \<and> length v \<le> 255 \<and> length v \<le> maximum)"
    unfolding read_length_prefixed_def
    by (auto intro!: sound_fail intro: sound_mono [OF sound_take] simp: xs prefixed_u8_def w)
qed

lemma decodes_utf8_u8 [wire_intro]:
  assumes "is_str s" "length s \<le> 255" "length s \<le> maximum"
  shows "decodes (read_utf8_u8 maximum) (prefixed_u8 s) s"
  unfolding read_utf8_u8_def
  by (rule decodes_bind_last [OF decodes_bytes_u8]; (rule decodes_get_bind decodes_lift)?)
    (use assms in \<open>simp_all add: read_utf8_def decodes_get_bind decodes_lift\<close>)

lemma sound_utf8_u8:
  "sound (read_utf8_u8 maximum)
     (\<lambda>v xs. xs = prefixed_u8 v \<and> is_str v \<and> length v \<le> 255 \<and> length v \<le> maximum)"
  unfolding read_utf8_u8_def
  by (rule sound_bind [OF sound_bytes_u8], rule sound_get_bind, rule sound_lift)
    (auto simp: read_utf8_def ok_or_eq_Inr from_utf8_eq_Some)

lemma decodes_repeat:
  assumes "\<And>v. v \<in> set vs \<Longrightarrow> decodes d (g v) v" "n = length vs"
  shows "decodes (repeatS n d) (concat (map g vs)) vs"
  using assms
proof (induction vs arbitrary: n)
  case Nil
  then show ?case by (simp add: decodes_ret)
next
  case (Cons v vs)
  have "decodes (repeatS (length vs) d) (concat (map g vs)) vs"
    by (rule Cons.IH) (use Cons.prems in auto)
  then have "decodes (bindS (repeatS (length vs) d) (\<lambda>us. retS (v # us))) (concat (map g vs)) (v # vs)"
    by (rule decodes_bind_last) (rule decodes_ret)
  moreover have "decodes d (g v) v" using Cons.prems by simp
  ultimately show ?case using Cons.prems(2) by (simp add: decodes_bind)
qed

lemma sound_repeat:
  assumes "sound d (\<lambda>v xs. xs = g v \<and> Q v)"
  shows "sound (repeatS n d) (\<lambda>vs xs. xs = concat (map g vs) \<and> length vs = n \<and> list_all Q vs)"
proof (induction n)
  case 0
  show ?case by (simp add: sound_ret)
next
  case (Suc n)
  show ?case
    unfolding repeatS.simps
    by (rule sound_bind [OF assms], rule sound_bind [OF Suc.IH], rule sound_ret) auto
qed

lemma writes_u8 [wire_intro]: "writes (write_u8 w) [w]"
  unfolding write_u8_def by (rule writes_bytes)

lemma writes_u16 [wire_intro]: "writes (write_u16 w) (be_encode 2 (unat w))"
  unfolding write_u16_def by (rule writes_bytes)

lemma writes_u32 [wire_intro]: "writes (write_u32 w) (be_encode 4 (unat w))"
  unfolding write_u32_def by (rule writes_bytes)

lemma writes_u64 [wire_intro]: "writes (write_u64 w) (be_encode 8 (unat w))"
  unfolding write_u64_def by (rule writes_bytes)

lemma writes_raw [wire_intro]: "writes (write_raw bs) bs"
  unfolding write_raw_def by (rule writes_bytes)

text \<open>
  The length-prefixed writer in closed form: it checks the whole field before it writes the
  prefix, so it either appends the complete field or leaves the buffer as it was.
\<close>

definition prefix_bytes :: "nat \<Rightarrow> nat \<Rightarrow> bytes" where
  "prefix_bytes width_maximum n =
     (if width_maximum = 255 then [of_nat n]
      else if width_maximum = 65535 then be_encode 2 (unat (of_nat n :: u16))
      else be_encode 4 (unat (of_nat n :: u32)))"

lemma length_prefix_bytes: "prefix_width w = Some k \<Longrightarrow> length (prefix_bytes w n) = k"
  by (auto simp: prefix_width_def prefix_bytes_def split: if_splits)

lemma write_prefix_bytes:
  "(if w = 255 then write_u8 (of_nat n) else if w = 65535 then write_u16 (of_nat n)
    else write_u32 (of_nat n)) = write_bytes (prefix_bytes w n)"
  by (simp add: write_u8_def write_u16_def write_u32_def prefix_bytes_def)

lemma write_length_prefixed_fits:
  assumes "prefix_width w = Some k" "length bs \<le> maximum" "length bs \<le> w"
    "length (eb_output b) + k + length bs \<le> eb_maximum b" "eb_maximum b < usize_limit"
  shows "write_length_prefixed bs maximum w ctx b =
    (Inr (), b\<lparr>eb_output := eb_output b @ prefix_bytes w (length bs) @ bs\<rparr>)"
proof -
  have "seqS (write_bytes (prefix_bytes w (length bs))) (write_bytes bs) b =
      (Inr (), b\<lparr>eb_output := eb_output b @ prefix_bytes w (length bs) @ bs\<rparr>)"
    using assms length_prefix_bytes [OF assms(1), of "length bs"]
    by (simp add: seqS_def bindS_def write_bytes_def)
  with assms show ?thesis
    by (simp add: write_length_prefixed_def Let_def write_prefix_bytes)
qed

lemma write_length_prefixed_fails:
  assumes "length bs > maximum \<or> length bs > w \<or> prefix_width w = None
    \<or> (\<exists>k. prefix_width w = Some k \<and> length (eb_output b) + k + length bs > eb_maximum b)"
  shows "\<exists>err. write_length_prefixed bs maximum w ctx b = (Inl err, b)"
  using assms
  by (auto simp: write_length_prefixed_def Let_def checked_add_def split: option.split)

lemma writes_length_prefixed:
  assumes "prefix_width w = Some k" "length bs \<le> maximum" "length bs \<le> w"
  shows "writes (write_length_prefixed bs maximum w ctx) (prefix_bytes w (length bs) @ bs)"
  unfolding writes_def
proof (intro allI impI)
  fix b :: EncodeBuffer
  assume "length (eb_output b) \<le> eb_maximum b" "eb_maximum b < usize_limit"
  then show "if length (eb_output b) + length (prefix_bytes w (length bs) @ bs) \<le> eb_maximum b
      then write_length_prefixed bs maximum w ctx b =
        (Inr (), b\<lparr>eb_output := eb_output b @ prefix_bytes w (length bs) @ bs\<rparr>)
      else \<exists>err b'. write_length_prefixed bs maximum w ctx b = (Inl err, b')"
    using write_length_prefixed_fits [OF assms, of b ctx]
      write_length_prefixed_fails [of maximum bs w b ctx] assms(1)
      length_prefix_bytes [OF assms(1), of "length bs"]
    by fastforce
qed

lemma writes_utf8_u8 [wire_intro]:
  assumes "length s \<le> 255" "length s \<le> maximum"
  shows "writes (write_utf8_u8 s maximum) (prefixed_u8 s)"
proof -
  have "prefixed_u8 s = prefix_bytes 255 (length s) @ s"
    by (simp add: prefixed_u8_def prefix_bytes_def)
  with assms show ?thesis
    by (simp add: write_utf8_u8_def writes_length_prefixed prefix_width_def)
qed

subsection \<open>Complete inputs\<close>

lemma decode_exact_decodes:
  assumes "decodes d xs v" "length xs \<le> maximum" "maximum < usize_limit"
  shows "decode_exact xs maximum d = Inr v"
  using assms decodes_run [OF assms(1)]
  by (simp add: decode_exact_def cursor_new_def cursor_finish_def cursor_is_empty_def
      remaining_def)

lemma decode_exact_sound:
  assumes "sound d P" "decode_exact bs maximum d = Inr v" "maximum < usize_limit"
  shows "P v bs \<and> length bs \<le> maximum"
proof -
  let ?c = "\<lparr>dc_input = bs, dc_offset = 0\<rparr>"
  from assms(2) obtain c' where l: "length bs \<le> maximum" and d: "d ?c = (Inr v, c')"
    and e: "cursor_finish c' = Inr ()"
    by (auto simp: decode_exact_def cursor_new_def bindR_eq_Inr split: if_splits prod.splits)
  have "in_bounds ?c" using l assms(3) by (simp add: in_bounds_def)
  with assms(1) d obtain xs where "dc_input c' = bs" "dc_offset c' = length xs"
    "take (length xs) bs = xs" "length xs \<le> length bs" "P v xs"
    unfolding sound_def by fastforce
  with e l show ?thesis
    by (auto simp: cursor_finish_def cursor_is_empty_def remaining_def split: if_splits)
qed

lemma encode_to_vec_writes:
  assumes "writes e xs" "maximum < usize_limit" "encode_to_vec maximum e = Inr bs"
  shows "bs = xs \<and> length xs \<le> maximum"
proof -
  let ?b = "\<lparr>eb_output = [], eb_start_len = 0, eb_maximum = maximum\<rparr>"
  have "length xs \<le> maximum"
  proof (rule ccontr)
    assume "\<not> length xs \<le> maximum"
    with writesD_full [OF assms(1), of ?b] assms(2) obtain err b' where "e ?b = (Inl err, b')" by auto
    with assms(3) show False by (simp add: encode_to_vec_def buffer_new_def)
  qed
  with writesD_fits [OF assms(1), of ?b] assms(2,3) show ?thesis
    by (simp add: encode_to_vec_def buffer_new_def)
qed

subsection \<open>The interface of a wire structure\<close>

text \<open>
  A structure provides a decoder, an encoder, the bytes it has on the wire and the values
  that are valid. The laws say that the decoder reads exactly the wire form of valid values,
  that whatever it accepts is the wire form of a valid value (canonicity), and that the
  encoder writes the wire form.
\<close>

locale wire_codec =
  fixes decode_from :: "'a decoder"
    and encode_into :: "'a \<Rightarrow> encoder"
    and wire :: "'a \<Rightarrow> bytes"
    and valid :: "'a \<Rightarrow> bool"
  assumes decodes_wire: "valid v \<Longrightarrow> decodes decode_from (wire v) v"
    and sound_wire: "sound decode_from (\<lambda>v xs. xs = wire v \<and> valid v)"
    and writes_wire: "valid v \<Longrightarrow> writes (encode_into v) (wire v)"
begin

lemma decode_wire:
  assumes "valid v" "length (wire v) \<le> maximum" "maximum < usize_limit"
  shows "decode_exact (wire v) maximum decode_from = Inr v"
  using decode_exact_decodes [OF decodes_wire] assms by blast

lemma encode_wire:
  assumes "valid v" "length (wire v) \<le> maximum" "maximum < usize_limit"
  shows "encode_to_vec maximum (encode_into v) = Inr (wire v)"
  using assms
  by (simp add: encode_to_vec_def buffer_new_def writesD_fits [OF writes_wire [OF assms(1)]])

lemma decode_canonical:
  assumes "decode_exact bs maximum decode_from = Inr v" "maximum < usize_limit"
  shows "bs = wire v" and "valid v" and "length bs \<le> maximum"
  using decode_exact_sound [OF sound_wire assms] by auto

lemma decode_then_encode:
  assumes "decode_exact bs maximum decode_from = Inr v" "maximum < usize_limit"
  shows "encode_to_vec maximum (encode_into v) = Inr bs"
  using decode_canonical [OF assms] encode_wire [of v maximum] assms(2) by simp

lemma encode_then_decode:
  assumes "valid v" "encode_to_vec maximum (encode_into v) = Inr bs" "maximum < usize_limit"
  shows "decode_exact bs maximum decode_from = Inr v"
proof -
  have "length (wire v) \<le> maximum"
  proof (rule ccontr)
    assume "\<not> length (wire v) \<le> maximum"
    with writesD_full [OF writes_wire [OF assms(1)],
        of "\<lparr>eb_output = [], eb_start_len = 0, eb_maximum = maximum\<rparr>"] assms(2,3)
    show False by (auto simp: encode_to_vec_def buffer_new_def)
  qed
  with assms encode_wire decode_wire show ?thesis by fastforce
qed

lemma decode_deterministic:
  assumes "decode_exact bs maximum decode_from = Inr v"
    "decode_exact bs' maximum decode_from = Inr v" "maximum < usize_limit"
  shows "bs = bs'"
  using decode_canonical(1) [OF assms(1,3)] decode_canonical(1) [OF assms(2,3)] by simp

end

end
