(* ===== verification/Common.thy ===== *)
theory Common
  imports Wire
begin

section \<open>Dates, hashes and shared helpers (i2pr-proto/src/common/mod.rs, date.rs, hash.rs)\<close>

text \<open>
  The limits and helper functions of common/mod.rs and the three fixed-size structures. SHA-256
  is the crate \<open>sha2\<close>, which is not part of the sources: \<open>Hash::digest\<close> takes the digest
  function as its first argument.
\<close>

definition MAX_COMMON_STRUCTURE_SIZE :: nat where
  "MAX_COMMON_STRUCTURE_SIZE = 1048576"

definition MAX_MAPPING_BODY_SIZE :: nat where
  "MAX_MAPPING_BODY_SIZE = 65535"

definition MAX_ROUTER_ADDRESSES :: nat where
  "MAX_ROUTER_ADDRESSES = 255"

definition MAX_LEASES :: nat where
  "MAX_LEASES = 16"

definition KEY_AREA_SIZE :: nat where
  "KEY_AREA_SIZE = 384"

definition LEGACY_PUBLIC_KEY_SIZE :: nat where
  "LEGACY_PUBLIC_KEY_SIZE = 256"

definition LEGACY_SIGNING_KEY_SIZE :: nat where
  "LEGACY_SIGNING_KEY_SIZE = 128"

lemmas common_limits =
  MAX_COMMON_STRUCTURE_SIZE_def MAX_MAPPING_BODY_SIZE_def MAX_ROUTER_ADDRESSES_def MAX_LEASES_def
  KEY_AREA_SIZE_def LEGACY_PUBLIC_KEY_SIZE_def LEGACY_SIGNING_KEY_SIZE_def

definition invalid :: "nat \<Rightarrow> string \<Rightarrow> CodecError" where
  "invalid offset context = InvalidFieldValue offset context"

definition unsupported :: "nat \<Rightarrow> string \<Rightarrow> u64 \<Rightarrow> CodecError" where
  "unsupported offset context value = Unsupported offset context value"

text \<open>
  \<open>take_array::<N>\<close>: the conversion of an \<open>N\<close>-byte slice into an array fails only when the
  lengths differ.
\<close>

definition take_array :: "nat \<Rightarrow> bytes decoder" where
  "take_array n =
     bindS (take_bytes n) (\<lambda>bs.
       if length bs = n then retS bs
       else failS (\<lambda>c. invalid (dc_offset c) ''fixed-size byte field''))"

definition java_string_cmp :: "str \<Rightarrow> str \<Rightarrow> ordering" where
  "java_string_cmp left right =
     (if encode_utf16 left < encode_utf16 right then Less
      else if encode_utf16 left = encode_utf16 right then Equal
      else Greater)"

definition validate_text :: "str \<Rightarrow> bool \<Rightarrow> string \<Rightarrow> CodecError + unit" where
  "validate_text value allow_empty context =
     (if (\<not> allow_empty \<and> length value = 0) \<or> length value > 255
      then Inl (LengthExceeded 0 (length value) 255 context)
      else if list_ex is_control (str_chars value) then Inl (invalid 0 context)
      else Inr ())"

text \<open>The text that \<open>validate_text\<close> lets through.\<close>

definition valid_text :: "bool \<Rightarrow> str \<Rightarrow> bool" where
  "valid_text allow_empty s \<longleftrightarrow>
     (allow_empty \<or> s \<noteq> []) \<and> length s \<le> 255 \<and> \<not> list_ex is_control (str_chars s)"

text \<open>The definitions that evaluate a check on a concrete string.\<close>

lemmas str_eval = java_string_cmp_def encode_utf16_def str_chars_def utf16_units_def
  is_cont_def is_str_def is_control_def valid_text_def validate_text_def

lemma validate_text_iff: "validate_text s a ctx = Inr u \<longleftrightarrow> valid_text a s"
  by (auto simp: validate_text_def valid_text_def)

lemma validate_text_ok [simp]: "valid_text a s \<Longrightarrow> validate_text s a ctx = Inr ()"
  by (simp add: validate_text_iff)

lemma valid_text_length: "valid_text a s \<Longrightarrow> length s \<le> 255"
  by (simp add: valid_text_def)

lemma decodes_take_array [wire_intro]: "length bs = n \<Longrightarrow> decodes (take_array n) bs bs"
  unfolding take_array_def by (rule decodes_bind_last [OF decodes_take]) (simp_all add: decodes_ret)

lemma sound_take_array: "sound (take_array n) (\<lambda>v xs. v = xs \<and> length xs = n)"
  unfolding take_array_def
  by (rule sound_bind [OF sound_take]) (auto intro: sound_ret sound_fail)

lemma java_string_cmp_Less_trans:
  "java_string_cmp a b = Less \<Longrightarrow> java_string_cmp b c = Less \<Longrightarrow> java_string_cmp a c = Less"
  by (auto simp: java_string_cmp_def split: if_splits)

lemma java_string_cmp_Equal:
  "is_str a \<Longrightarrow> is_str b \<Longrightarrow> java_string_cmp a b = Equal \<longleftrightarrow> a = b"
  by (auto simp: java_string_cmp_def intro: encode_utf16_inj)

subsection \<open>Date and Date32\<close>

datatype Date = Date u64

fun as_millis :: "Date \<Rightarrow> u64" where
  "as_millis (Date w) = w"

definition date_is_undefined :: "Date \<Rightarrow> bool" where
  "date_is_undefined d \<longleftrightarrow> as_millis d = 0"

definition date_decode_from :: "Date decoder" where
  "date_decode_from = bindS read_u64 (\<lambda>w. retS (Date w))"

definition date_encode_into :: "Date \<Rightarrow> encoder" where
  "date_encode_into d = write_u64 (as_millis d)"

definition date_wire :: "Date \<Rightarrow> bytes" where
  "date_wire d = be_encode 8 (unat (as_millis d))"

interpretation date: wire_codec date_decode_from date_encode_into date_wire "\<lambda>_. True"
proof
  fix d
  show "decodes date_decode_from (date_wire d) d"
    unfolding date_decode_from_def date_wire_def
    by (rule decodes_bind_last [OF decodes_u64]) (cases d, simp add: decodes_ret)
  show "sound date_decode_from (\<lambda>v xs. xs = date_wire v \<and> True)"
    unfolding date_decode_from_def
    by (rule sound_bind [OF sound_u64], rule sound_ret) (simp add: date_wire_def)
  show "writes (date_encode_into d) (date_wire d)"
    unfolding date_encode_into_def date_wire_def by (rule writes_u64)
qed

datatype Date32 = Date32 u32

fun as_seconds :: "Date32 \<Rightarrow> u32" where
  "as_seconds (Date32 w) = w"

definition date32_decode_from :: "Date32 decoder" where
  "date32_decode_from = bindS read_u32 (\<lambda>w. retS (Date32 w))"

definition date32_encode_into :: "Date32 \<Rightarrow> encoder" where
  "date32_encode_into d = write_u32 (as_seconds d)"

definition date32_wire :: "Date32 \<Rightarrow> bytes" where
  "date32_wire d = be_encode 4 (unat (as_seconds d))"

interpretation date32: wire_codec date32_decode_from date32_encode_into date32_wire "\<lambda>_. True"
proof
  fix d
  show "decodes date32_decode_from (date32_wire d) d"
    unfolding date32_decode_from_def date32_wire_def
    by (rule decodes_bind_last [OF decodes_u32]) (cases d, simp add: decodes_ret)
  show "sound date32_decode_from (\<lambda>v xs. xs = date32_wire v \<and> True)"
    unfolding date32_decode_from_def
    by (rule sound_bind [OF sound_u32], rule sound_ret) (simp add: date32_wire_def)
  show "writes (date32_encode_into d) (date32_wire d)"
    unfolding date32_encode_into_def date32_wire_def by (rule writes_u32)
qed

subsection \<open>Hash\<close>

datatype Hash = Hash bytes

fun hash_bytes :: "Hash \<Rightarrow> bytes" where
  "hash_bytes (Hash bs) = bs"

lemma Hash_hash_bytes [simp]: "Hash (hash_bytes h) = h"
  by (cases h) simp

text \<open>The type \<open>[u8; 32]\<close>.\<close>

definition hash_valid :: "Hash \<Rightarrow> bool" where
  "hash_valid h \<longleftrightarrow> length (hash_bytes h) = 32"

definition hash_digest :: "(bytes \<Rightarrow> bytes) \<Rightarrow> bytes \<Rightarrow> Hash" where
  "hash_digest sha256 input = Hash (sha256 input)"

definition hash_decode_from :: "Hash decoder" where
  "hash_decode_from = bindS (take_array 32) (\<lambda>bs. retS (Hash bs))"

definition hash_encode_into :: "Hash \<Rightarrow> encoder" where
  "hash_encode_into h = write_raw (hash_bytes h)"

interpretation hash: wire_codec hash_decode_from hash_encode_into hash_bytes hash_valid
proof
  fix h
  show "decodes hash_decode_from (hash_bytes h) h" if "hash_valid h"
    unfolding hash_decode_from_def
    by (rule decodes_bind_last [OF decodes_take_array])
      (use that in \<open>simp_all add: hash_valid_def decodes_ret\<close>)
  show "sound hash_decode_from (\<lambda>v xs. xs = hash_bytes v \<and> hash_valid v)"
    unfolding hash_decode_from_def
    by (rule sound_bind [OF sound_take_array], rule sound_ret) (simp add: hash_valid_def)
  show "writes (hash_encode_into h) (hash_bytes h)"
    unfolding hash_encode_into_def by (rule writes_raw)
qed

end
