(* ===== verification/I2P_Mapping.thy ===== *)
theory I2P_Mapping
  imports Common "HOL-Library.Multiset"
begin

section \<open>Canonical mappings and router addresses (common/mapping.rs, common/router_address.rs)\<close>

text \<open>
  \<open>Mapping\<close> is the sorted, duplicate-free key/value structure every I2P record carries; its
  decoder refuses every other order, and its builder sorts. The order is that of Java's
  \<open>String.compareTo\<close> (UTF-16 code units). \<open>RouterAddress\<close> is the first structure that
  contains one.
\<close>

subsection \<open>Entries\<close>

record MappingEntry =
  me_key :: str
  me_value :: str

definition mapping_entry_new :: "str \<Rightarrow> str \<Rightarrow> CodecError + MappingEntry" where
  "mapping_entry_new key value =
     bindR (validate_text key True ''mapping key'') (\<lambda>_.
     bindR (validate_text value True ''mapping value'') (\<lambda>_.
     Inr \<lparr>me_key = key, me_value = value\<rparr>))"

record Mapping =
  mp_entries :: "MappingEntry list"

definition mapping_empty :: Mapping where
  "mapping_empty = \<lparr>mp_entries = []\<rparr>"

fun mapping_total :: "nat \<Rightarrow> MappingEntry list \<Rightarrow> CodecError + nat" where
  "mapping_total acc [] = Inr acc"
| "mapping_total acc (entry # entries) =
     bindR (ok_or (checked_add acc (1 + length (me_key entry) + 1 + 1 + length (me_value entry) + 1))
              (ArithmeticOverflow 0 ''mapping body length''))
       (\<lambda>acc. mapping_total acc entries)"

definition encoded_body_len :: "Mapping \<Rightarrow> CodecError + nat" where
  "encoded_body_len m =
     bindR (mapping_total 0 (mp_entries m)) (\<lambda>acc.
       if acc > MAX_MAPPING_BODY_SIZE
       then Inl (LengthExceeded 0 acc MAX_MAPPING_BODY_SIZE ''mapping body'')
       else Inr acc)"

text \<open>\<open>collect::<Result<Vec<_>, _>>()\<close> over the entries: the first error wins.\<close>

fun collect_entries :: "(str \<times> str) list \<Rightarrow> CodecError + MappingEntry list" where
  "collect_entries [] = Inr []"
| "collect_entries ((key, value) # kvs) =
     bindR (mapping_entry_new key value) (\<lambda>entry.
     bindR (collect_entries kvs) (\<lambda>entries. Inr (entry # entries)))"

fun has_equal_neighbours :: "MappingEntry list \<Rightarrow> bool" where
  "has_equal_neighbours (a # b # es) \<longleftrightarrow>
     me_key a = me_key b \<or> has_equal_neighbours (b # es)"
| "has_equal_neighbours _ \<longleftrightarrow> False"

text \<open>\<open>sort_by\<close> with a comparison of keys is the stable sort by the UTF-16 key.\<close>

definition mapping_from_entries :: "(str \<times> str) list \<Rightarrow> CodecError + Mapping" where
  "mapping_from_entries kvs =
     bindR (collect_entries kvs) (\<lambda>entries.
     let entries = sort_key (\<lambda>e. encode_utf16 (me_key e)) entries in
     if has_equal_neighbours entries then Inl (DuplicateField 0 ''mapping key'')
     else bindR (encoded_body_len \<lparr>mp_entries = entries\<rparr>) (\<lambda>_.
       Inr \<lparr>mp_entries = entries\<rparr>))"

text \<open>
  \<open>slice::binary_search_by\<close> of the standard library, by halving: the comparison says how the
  probed element stands to the target.
\<close>

function binary_search_by :: "('a \<Rightarrow> ordering) \<Rightarrow> 'a list \<Rightarrow> nat option" where
  "binary_search_by f xs =
     (if xs = [] then None
      else let mid = length xs div 2 in
        case f (xs ! mid) of
          Equal \<Rightarrow> Some mid
        | Greater \<Rightarrow> binary_search_by f (take mid xs)
        | Less \<Rightarrow> map_option (\<lambda>i. mid + 1 + i) (binary_search_by f (drop (mid + 1) xs)))"
  by pat_completeness auto
termination by (relation "measure (\<lambda>(f, xs). length xs)") (auto simp: Let_def)

declare binary_search_by.simps [simp del]

definition mapping_get :: "Mapping \<Rightarrow> str \<Rightarrow> str option" where
  "mapping_get m key =
     map_option (\<lambda>index. me_value (mp_entries m ! index))
       (binary_search_by (\<lambda>entry. java_string_cmp (me_key entry) key) (mp_entries m))"

subsection \<open>Decoding\<close>

definition mapping_check_order :: "MappingEntry list \<Rightarrow> MappingEntry \<Rightarrow> nat \<Rightarrow> CodecError + unit" where
  "mapping_check_order entries entry key_offset =
     (if entries = [] then Inr ()
      else case java_string_cmp (me_key (last entries)) (me_key entry) of
          Equal \<Rightarrow> Inl (DuplicateField key_offset ''mapping key'')
        | Greater \<Rightarrow> Inl (NonCanonical key_offset ''mapping key order'')
        | Less \<Rightarrow> Inr ())"

definition mapping_step :: "MappingEntry list \<Rightarrow> MappingEntry decoder" where
  "mapping_step entries =
     bindS (getS dc_offset) (\<lambda>key_offset.
     bindS (read_utf8_u8 255) (\<lambda>key.
     bindS read_u8 (\<lambda>separator.
       if separator \<noteq> 61 then failS (\<lambda>c. invalid (dc_offset c - 1) ''mapping separator'')
       else
     bindS (read_utf8_u8 255) (\<lambda>value.
     bindS read_u8 (\<lambda>terminator.
       if terminator \<noteq> 59 then failS (\<lambda>c. invalid (dc_offset c - 1) ''mapping terminator'')
       else
     bindS (liftS (mapping_entry_new key value)) (\<lambda>entry.
     bindS (liftS (mapping_check_order entries entry key_offset)) (\<lambda>_.
     retS entry)))))))"

text \<open>Every pass of the loop consumes input, which is why it ends.\<close>

definition consumes :: "'a decoder \<Rightarrow> nat \<Rightarrow> bool" where
  "consumes d n \<longleftrightarrow> (\<forall>c v c'. d c = (Inr v, c') \<longrightarrow> remaining c' + n \<le> remaining c)"

lemma consumes_bind:
  assumes "consumes d m" "\<And>v. consumes (f v) n"
  shows "consumes (bindS d f) (m + n)"
  unfolding consumes_def
proof (intro allI impI)
  fix c w c'
  assume "bindS d f c = (Inr w, c')"
  then obtain v t where "d c = (Inr v, t)" "f v t = (Inr w, c')" by (rule bindS_InrE)
  with assms have "remaining t + m \<le> remaining c" "remaining c' + n \<le> remaining t"
    unfolding consumes_def by blast+
  then show "remaining c' + (m + n) \<le> remaining c" by linarith
qed

lemma consumes_0:
  "consumes (retS v) 0" "consumes (failS e) n" "consumes (getS g) 0" "consumes (liftS r) 0"
  by (simp_all add: consumes_def retS_def failS_def getS_def liftS_def)

lemma consumes_take: "consumes (take_bytes n) n"
  by (auto simp: consumes_def take_bytes_def remaining_def checked_add_eq_Some
      split: option.splits if_splits)

lemma consumes_mono: "consumes d m \<Longrightarrow> n \<le> m \<Longrightarrow> consumes d n"
  unfolding consumes_def by (meson add_left_mono le_trans)

lemma consumes_read_u8: "consumes read_u8 1"
  using consumes_bind [OF consumes_take consumes_0(1), of 1] by (simp add: read_u8_def)

lemma consumes_length_prefixed: "consumes (read_length_prefixed n maximum) 0"
  by (simp add: read_length_prefixed_def consumes_0 consumes_mono [OF consumes_take])

lemma consumes_read_utf8_u8: "consumes (read_utf8_u8 maximum) 1"
proof -
  have "consumes (read_bytes_u8 maximum) (1 + 0)"
    unfolding read_bytes_u8_def by (rule consumes_bind [OF consumes_read_u8 consumes_length_prefixed])
  then have "consumes (read_utf8_u8 maximum) (1 + 0 + (0 + 0))"
    unfolding read_utf8_u8_def by (intro consumes_bind consumes_0)
  then show ?thesis by simp
qed

lemmas consumes_bind_0 = consumes_bind [where m = 0 and n = 0, simplified]

lemma consumes_mapping_step: "consumes (mapping_step entries) 1"
proof -
  have "consumes (mapping_step entries) (0 + (1 + 0))"
    unfolding mapping_step_def
    by (intro consumes_bind consumes_0 consumes_read_utf8_u8)
      (auto intro!: consumes_bind_0 consumes_0
        consumes_mono [OF consumes_read_u8] consumes_mono [OF consumes_read_utf8_u8])
  then show ?thesis by simp
qed

function mapping_read_entries :: "MappingEntry list \<Rightarrow> MappingEntry list decoder" where
  "mapping_read_entries entries c =
     (if cursor_is_empty c then (Inr entries, c)
      else case mapping_step entries c of
          (Inl e, c') \<Rightarrow> (Inl e, c')
        | (Inr entry, c') \<Rightarrow> mapping_read_entries (entries @ [entry]) c')"
  by pat_completeness auto
termination
proof (relation "measure (\<lambda>(entries, c). remaining c)", goal_cases)
  case (2 entries c r c' entry)
  then have "mapping_step entries c = (Inr entry, c')" by simp
  with consumes_mapping_step [of entries] have "remaining c' + 1 \<le> remaining c"
    unfolding consumes_def by blast
  then show ?case by simp
qed simp

declare mapping_read_entries.simps [simp del]

definition mapping_decode_from :: "nat \<Rightarrow> Mapping decoder" where
  "mapping_decode_from maximum =
     bindS read_u16 (\<lambda>n.
     let body_len = unat n; body_limit = min maximum MAX_MAPPING_BODY_SIZE in
     if body_len > body_limit
     then failS (\<lambda>c. LengthExceeded (dc_offset c - 2) body_len body_limit ''mapping body'')
     else bindS (take_bytes body_len) (\<lambda>body.
       liftS (bindR (cursor_new body body_len) (\<lambda>inner.
         case mapping_read_entries [] inner of (r, inner') \<Rightarrow>
           bindR r (\<lambda>entries.
           bindR (cursor_finish inner') (\<lambda>_.
           Inr \<lparr>mp_entries = entries\<rparr>))))))"

definition mapping_decode :: "bytes \<Rightarrow> nat \<Rightarrow> CodecError + Mapping" where
  "mapping_decode input maximum = decode_exact input maximum (mapping_decode_from maximum)"

subsection \<open>Encoding\<close>

definition mapping_write_entry :: "MappingEntry \<Rightarrow> encoder" where
  "mapping_write_entry entry =
     seqS (write_utf8_u8 (me_key entry) 255)
     (seqS (write_raw [61])
     (seqS (write_utf8_u8 (me_value entry) 255)
           (write_raw [59])))"

definition u16_try_from :: "nat \<Rightarrow> u16 option" where
  "u16_try_from n = (if n < 65536 then Some (of_nat n) else None)"

definition mapping_encode_into :: "Mapping \<Rightarrow> encoder" where
  "mapping_encode_into m =
     bindS (liftS (encoded_body_len m)) (\<lambda>body_len.
     bindS (liftS (ok_or (u16_try_from body_len) (invalid 0 ''mapping body length''))) (\<lambda>body_len.
     seqS (write_u16 body_len)
          (eachS mapping_write_entry (mp_entries m))))"

definition mapping_encode_to_vec :: "Mapping \<Rightarrow> nat \<Rightarrow> CodecError + bytes" where
  "mapping_encode_to_vec m maximum = encode_to_vec maximum (mapping_encode_into m)"

text \<open>\<open>MappingBuilder\<close>: the entries so far.\<close>

record MappingBuilder =
  mb_entries :: "(str \<times> str) list"

definition mapping_builder :: MappingBuilder where
  "mapping_builder = \<lparr>mb_entries = []\<rparr>"

definition builder_insert :: "str \<Rightarrow> str \<Rightarrow> (MappingBuilder, CodecError, unit) rsm" where
  "builder_insert key value =
     bindS (liftS (mapping_entry_new key value)) (\<lambda>_.
     (\<lambda>b. (Inr (), b\<lparr>mb_entries := mb_entries b @ [(key, value)]\<rparr>)))"

definition builder_build :: "MappingBuilder \<Rightarrow> CodecError + Mapping" where
  "builder_build b = mapping_from_entries (mb_entries b)"

subsection \<open>The wire form\<close>

definition mapping_entry_ok :: "MappingEntry \<Rightarrow> bool" where
  "mapping_entry_ok e \<longleftrightarrow>
     is_str (me_key e) \<and> is_str (me_value e)
     \<and> valid_text True (me_key e) \<and> valid_text True (me_value e)"

definition entry_wire :: "MappingEntry \<Rightarrow> bytes" where
  "entry_wire e = prefixed_u8 (me_key e) @ [61] @ prefixed_u8 (me_value e) @ [59]"

definition key_less :: "MappingEntry \<Rightarrow> MappingEntry \<Rightarrow> bool" where
  "key_less a b \<longleftrightarrow> java_string_cmp (me_key a) (me_key b) = Less"

definition mapping_body :: "Mapping \<Rightarrow> bytes" where
  "mapping_body m = concat (map entry_wire (mp_entries m))"

definition mapping_wire :: "Mapping \<Rightarrow> bytes" where
  "mapping_wire m = be_encode 2 (length (mapping_body m)) @ mapping_body m"

definition mapping_canonical :: "Mapping \<Rightarrow> bool" where
  "mapping_canonical m \<longleftrightarrow>
     list_all mapping_entry_ok (mp_entries m) \<and> sorted_wrt key_less (mp_entries m)"

definition mapping_ok :: "nat \<Rightarrow> Mapping \<Rightarrow> bool" where
  "mapping_ok maximum m \<longleftrightarrow>
     mapping_canonical m \<and> length (mapping_body m) \<le> min maximum MAX_MAPPING_BODY_SIZE"

lemma length_entry_wire [simp]:
  "length (entry_wire e) = length (me_key e) + length (me_value e) + 4"
  by (simp add: entry_wire_def)

lemma mapping_entry_new_iff:
  "mapping_entry_new k v = Inr e \<longleftrightarrow>
     e = \<lparr>me_key = k, me_value = v\<rparr> \<and> valid_text True k \<and> valid_text True v"
  by (auto simp: mapping_entry_new_def bindR_eq_Inr validate_text_iff)

lemma mapping_check_order_iff:
  "mapping_check_order es e off = Inr u \<longleftrightarrow> es = [] \<or> key_less (last es) e"
  by (auto simp: mapping_check_order_def key_less_def split: ordering.splits)

lemma key_less_trans: "key_less a b \<Longrightarrow> key_less b c \<Longrightarrow> key_less a c"
  unfolding key_less_def by (rule java_string_cmp_Less_trans)

lemma sorted_wrt_snoc:
  assumes "sorted_wrt key_less es" "es = [] \<or> key_less (last es) e"
  shows "sorted_wrt key_less (es @ [e])"
proof -
  have "key_less x e" if "x \<in> set es" for x
  proof -
    from that have ne: "es \<noteq> []" by auto
    then obtain ys where ys: "es = ys @ [last es]" by (metis append_butlast_last_id)
    with assms(1) that have "x = last es \<or> key_less x (last es)"
      by (metis (no_types, lifting) Un_iff empty_iff list.set(1) list.set_intros(1) set_ConsD
          set_append sorted_wrt_append)
    with assms(2) ne show ?thesis by (auto intro: key_less_trans)
  qed
  with assms(1) show ?thesis by (auto simp: sorted_wrt_append)
qed

lemma decodes_mapping_step:
  assumes "mapping_entry_ok e" "es = [] \<or> key_less (last es) e"
  shows "decodes (mapping_step es) (entry_wire e) e"
  unfolding mapping_step_def entry_wire_def
proof (rule decodes_get_bind, rule decodes_bind [OF decodes_utf8_u8], goal_cases)
  case (4 off)
  have "decodes (bindS (liftS (mapping_entry_new (me_key e) (me_value e)))
      (\<lambda>e. bindS (liftS (mapping_check_order es e off)) (\<lambda>_. retS e))) [] e"
    using assms by (intro decodes_bind_last decodes_lift decodes_ret)
      (auto simp: mapping_entry_new_iff mapping_check_order_iff mapping_entry_ok_def decodes_ret)
  then have *: "decodes (bindS read_u8 (\<lambda>t. if t \<noteq> 59
        then failS (\<lambda>c. invalid (dc_offset c - 1) ''mapping terminator'')
        else bindS (liftS (mapping_entry_new (me_key e) (me_value e)))
          (\<lambda>e. bindS (liftS (mapping_check_order es e off)) (\<lambda>_. retS e)))) [59] e"
    by (intro decodes_bind_last [OF decodes_u8]) simp
  show ?case
    by (rule decodes_bind [OF decodes_u8], simp, rule decodes_bind [OF decodes_utf8_u8]; (rule *)?)
      (use assms in \<open>auto simp: mapping_entry_ok_def dest: valid_text_length\<close>)
qed (use assms in \<open>auto simp: mapping_entry_ok_def dest: valid_text_length\<close>)

lemma sound_mapping_step:
  "sound (mapping_step es) (\<lambda>e xs. xs = entry_wire e \<and> mapping_entry_ok e
     \<and> (es = [] \<or> key_less (last es) e))"
  unfolding mapping_step_def
  by (rule sound_get_bind, rule sound_bind [OF sound_utf8_u8], rule sound_bind [OF sound_u8],
      rule sound_if, rule sound_fail, rule sound_bind [OF sound_utf8_u8],
      rule sound_bind [OF sound_u8], rule sound_if, rule sound_fail,
      rule sound_bind_lift, rule sound_bind_lift, rule sound_ret)
    (auto simp: mapping_entry_new_iff mapping_check_order_iff mapping_entry_ok_def entry_wire_def)

lemma mapping_read_entries_run:
  assumes "list_all mapping_entry_ok rest" "sorted_wrt key_less (es @ rest)"
    "length pre + length (concat (map entry_wire rest)) < usize_limit"
  shows "mapping_read_entries es
      \<lparr>dc_input = pre @ concat (map entry_wire rest), dc_offset = length pre\<rparr> =
    (Inr (es @ rest), \<lparr>dc_input = pre @ concat (map entry_wire rest),
      dc_offset = length pre + length (concat (map entry_wire rest))\<rparr>)"
  using assms
proof (induction rest arbitrary: es pre)
  case Nil
  show ?case by (subst mapping_read_entries.simps) (simp add: cursor_is_empty_def remaining_def)
next
  case (Cons e rest)
  let ?in = "pre @ entry_wire e @ concat (map entry_wire rest)"
  have "es = [] \<or> key_less (last es) e"
    using Cons.prems(2) by (cases "es = []") (auto simp: sorted_wrt_append)
  with Cons.prems have "mapping_step es \<lparr>dc_input = ?in, dc_offset = length pre\<rparr> =
      (Inr e, \<lparr>dc_input = ?in, dc_offset = length pre + length (entry_wire e)\<rparr>)"
    by (intro decodesD [OF decodes_mapping_step]) auto
  moreover have "mapping_read_entries (es @ [e])
      \<lparr>dc_input = (pre @ entry_wire e) @ concat (map entry_wire rest),
       dc_offset = length (pre @ entry_wire e)\<rparr> =
    (Inr ((es @ [e]) @ rest), \<lparr>dc_input = (pre @ entry_wire e) @ concat (map entry_wire rest),
      dc_offset = length (pre @ entry_wire e) + length (concat (map entry_wire rest))\<rparr>)"
    by (rule Cons.IH) (use Cons.prems in \<open>simp_all add: add.assoc\<close>)
  ultimately show ?case
    by (subst mapping_read_entries.simps) (simp add: cursor_is_empty_def remaining_def add.assoc)
qed

lemma mapping_read_entries_sound:
  assumes "mapping_read_entries es c = (Inr es', c')" "in_bounds c" "sorted_wrt key_less es"
  shows "\<exists>rest. es' = es @ rest \<and> list_all mapping_entry_ok rest \<and> sorted_wrt key_less es'
    \<and> drop (dc_offset c) (dc_input c) = concat (map entry_wire rest)
    \<and> dc_input c' = dc_input c \<and> dc_offset c' = length (dc_input c)"
  using assms
proof (induction es c rule: mapping_read_entries.induct)
  case (1 es c)
  show ?case
  proof (cases "cursor_is_empty c")
    case True
    with 1 show ?thesis
      by (subst (asm) mapping_read_entries.simps)
        (auto simp: cursor_is_empty_def remaining_def in_bounds_def)
  next
    case False
    with "1.prems"(1) obtain e t where e: "mapping_step es c = (Inr e, t)"
      and rec: "mapping_read_entries (es @ [e]) t = (Inr es', c')"
      by (subst (asm) mapping_read_entries.simps) (auto split: prod.splits sum.splits)
    from sound_mapping_step [of es, unfolded sound_def, rule_format, OF "1.prems"(2) e]
    have t: "dc_input t = dc_input c" "dc_offset t = dc_offset c + length (entry_wire e)"
      "dc_offset t \<le> length (dc_input c)"
      "take (length (entry_wire e)) (drop (dc_offset c) (dc_input c)) = entry_wire e"
      and ok: "mapping_entry_ok e" "es = [] \<or> key_less (last es) e"
      by auto
    have "in_bounds t" using t "1.prems"(2) by (simp add: in_bounds_def)
    with "1.IH" [OF False e [symmetric] refl rec] sorted_wrt_snoc [OF "1.prems"(3) ok(2)]
    obtain rest where rest: "es' = (es @ [e]) @ rest" "list_all mapping_entry_ok rest"
      "sorted_wrt key_less es'" "drop (dc_offset t) (dc_input t) = concat (map entry_wire rest)"
      "dc_input c' = dc_input t" "dc_offset c' = length (dc_input t)"
      by blast
    have "drop (dc_offset c) (dc_input c) = entry_wire e @ concat (map entry_wire rest)"
      using t rest(4) append_take_drop_id [of "length (entry_wire e)" "drop (dc_offset c) (dc_input c)"]
      by (simp add: add.commute)
    with rest ok(1) t(1) show ?thesis by (intro exI [of _ "e # rest"]) simp
  qed
qed

lemma mapping_total_eq:
  "mapping_total acc es = Inr n \<longleftrightarrow>
     n = acc + length (concat (map entry_wire es)) \<and> (es = [] \<or> n < usize_limit)"
proof (induction es arbitrary: acc)
  case Nil
  show ?case by auto
next
  case (Cons e es)
  let ?k = "1 + length (me_key e) + 1 + 1 + length (me_value e) + 1"
  have "mapping_total acc (e # es) = Inr n \<longleftrightarrow>
      acc + ?k < usize_limit \<and> mapping_total (acc + ?k) es = Inr n"
    by (simp only: mapping_total.simps bindR_eq_Inr ok_or_eq_Inr checked_add_eq_Some) blast
  also have "\<dots> \<longleftrightarrow> acc + ?k < usize_limit
      \<and> n = acc + ?k + length (concat (map entry_wire es)) \<and> (es = [] \<or> n < usize_limit)"
    by (simp only: Cons.IH)
  also have "\<dots> \<longleftrightarrow> n = acc + length (concat (map entry_wire (e # es))) \<and> n < usize_limit"
    by auto
  finally show ?case by simp
qed

lemma encoded_body_len_iff:
  "encoded_body_len m = Inr n \<longleftrightarrow>
     n = length (mapping_body m) \<and> length (mapping_body m) \<le> MAX_MAPPING_BODY_SIZE"
  by (auto simp: encoded_body_len_def bindR_eq_Inr mapping_total_eq mapping_body_def
      common_limits usize_limit_def)

lemma mapping_ok_body_u16:
  "mapping_ok maximum m \<Longrightarrow> unat (of_nat (length (mapping_body m)) :: u16) = length (mapping_body m)"
  by (simp add: mapping_ok_def common_limits unat_of_nat_u16)

lemma decodes_mapping:
  assumes ok: "mapping_ok maximum m"
  shows "decodes (mapping_decode_from maximum) (mapping_wire m) m"
proof -
  note u16 = mapping_ok_body_u16 [OF ok]
  have "mapping_read_entries [] \<lparr>dc_input = mapping_body m, dc_offset = 0\<rparr> =
      (Inr (mp_entries m), \<lparr>dc_input = mapping_body m, dc_offset = length (mapping_body m)\<rparr>)"
    using ok mapping_read_entries_run [of "mp_entries m" "[]" "[]"]
    by (simp add: mapping_ok_def mapping_canonical_def mapping_body_def common_limits usize_limit_def)
  then show ?thesis
    unfolding mapping_decode_from_def mapping_wire_def Let_def
    using ok
    by (subst u16 [symmetric], intro decodes_bind [OF decodes_u16])
      (auto simp: u16 mapping_ok_def cursor_new_def cursor_finish_def cursor_is_empty_def
        remaining_def intro!: decodes_bind_last [OF decodes_take] decodes_lift)
qed

lemma sound_mapping:
  "sound (mapping_decode_from maximum) (\<lambda>m xs. xs = mapping_wire m \<and> mapping_ok maximum m)"
  unfolding mapping_decode_from_def Let_def
proof (rule sound_bind [OF sound_u16], rule sound_if, rule sound_fail,
    rule sound_bind [OF sound_take], rule sound_lift, goal_cases)
  case (1 n xs body ys m)
  let ?c = "\<lparr>dc_input = body, dc_offset = 0\<rparr>"
  from 1 obtain c' where run: "mapping_read_entries [] ?c = (Inr (mp_entries m), c')"
    by (auto simp: cursor_new_def bindR_eq_Inr split: if_splits prod.splits)
  have "length body < 65536" using 1 by simp
  then have "in_bounds ?c" by (simp add: in_bounds_def usize_limit_def)
  with mapping_read_entries_sound [OF run] 1 show ?case
    by (auto simp: mapping_wire_def mapping_ok_def mapping_canonical_def mapping_body_def)
qed

lemma writes_mapping_entry:
  "mapping_entry_ok e \<Longrightarrow> writes (mapping_write_entry e) (entry_wire e)"
  unfolding mapping_write_entry_def entry_wire_def
  by (intro writes_seq writes_utf8_u8 writes_raw)
    (auto simp: mapping_entry_ok_def dest: valid_text_length)

lemma writes_mapping:
  assumes ok: "mapping_ok maximum m"
  shows "writes (mapping_encode_into m) (mapping_wire m)"
proof -
  have "writes (eachS mapping_write_entry (mp_entries m)) (mapping_body m)"
    unfolding mapping_body_def
    by (rule writes_each, rule writes_mapping_entry)
      (use ok in \<open>auto simp: mapping_ok_def mapping_canonical_def list_all_iff\<close>)
  then have "writes (seqS (write_u16 (of_nat (length (mapping_body m))))
      (eachS mapping_write_entry (mp_entries m))) (mapping_wire m)"
    unfolding mapping_wire_def
    by (subst mapping_ok_body_u16 [OF ok, symmetric]) (rule writes_seq [OF writes_u16])
  then show ?thesis
    unfolding mapping_encode_into_def
    using ok by (intro writes_bind_lift [where v = "length (mapping_body m)"]
        writes_bind_lift [where v = "of_nat (length (mapping_body m))"])
      (auto simp: encoded_body_len_iff mapping_ok_def u16_try_from_def common_limits)
qed

interpretation mapping: wire_codec "mapping_decode_from maximum" mapping_encode_into mapping_wire
    "mapping_ok maximum" for maximum
  by unfold_locales (rule decodes_mapping sound_mapping writes_mapping, assumption?)+

subsection \<open>Building and searching\<close>

text \<open>A slice is partitioned by a comparison when the elements below the target come first and
  those above it last: what \<open>binary_search_by\<close> requires.\<close>

definition partitioned :: "('a \<Rightarrow> ordering) \<Rightarrow> 'a list \<Rightarrow> bool" where
  "partitioned f = sorted_wrt (\<lambda>a b. (f a = Greater \<longrightarrow> f b = Greater) \<and> (f b = Less \<longrightarrow> f a = Less))"

lemma binary_search_by_Some:
  "binary_search_by f xs = Some i \<Longrightarrow> i < length xs \<and> f (xs ! i) = Equal"
proof (induction f xs arbitrary: i rule: binary_search_by.induct)
  case (1 f xs)
  then have ne: "xs \<noteq> []" by (auto simp: binary_search_by.simps)
  then have mid: "length xs div 2 < length xs" by simp
  show ?case
  proof (cases "f (xs ! (length xs div 2))")
    case Less
    with "1.prems" ne obtain j where j: "i = length xs div 2 + 1 + j"
      "binary_search_by f (drop (length xs div 2 + 1) xs) = Some j"
      by (subst (asm) binary_search_by.simps) (auto simp: Let_def)
    with "1.IH"(1) [OF ne refl Less, of j] mid show ?thesis by (auto simp: nth_drop)
  next
    case Equal
    with "1.prems" ne mid show ?thesis by (subst (asm) binary_search_by.simps) (simp add: Let_def)
  next
    case Greater
    with "1.prems" ne have "binary_search_by f (take (length xs div 2) xs) = Some i"
      by (subst (asm) binary_search_by.simps) (simp add: Let_def)
    with "1.IH"(2) [OF ne refl Greater, of i] show ?thesis by auto
  qed
qed

lemma binary_search_by_None:
  assumes "partitioned f xs" "binary_search_by f xs = None" "i < length xs"
  shows "f (xs ! i) \<noteq> Equal"
  using assms
proof (induction f xs arbitrary: i rule: binary_search_by.induct)
  case (1 f xs)
  let ?m = "length xs div 2"
  from "1.prems" have ne: "xs \<noteq> []" by auto
  then have mid: "?m < length xs" by simp
  have part: "partitioned f (take ?m xs)" "partitioned f (drop (?m + 1) xs)"
    using "1.prems"(1) unfolding partitioned_def by (auto intro: sorted_wrt_take sorted_wrt_drop)
  have ord: "f (xs ! a) = Greater \<Longrightarrow> f (xs ! b) = Greater" "f (xs ! b) = Less \<Longrightarrow> f (xs ! a) = Less"
    if "a < b" "b < length xs" for a b
    using "1.prems"(1) that unfolding partitioned_def by (auto simp: sorted_wrt_iff_nth_less)
  show ?case
  proof (cases "f (xs ! ?m)")
    case Less
    then have "binary_search_by f (drop (?m + 1) xs) = None"
      using "1.prems"(2) ne by (subst (asm) binary_search_by.simps) (simp add: Let_def)
    with "1.IH"(1) [OF ne refl Less part(2), of "i - (?m + 1)"] "1.prems"(3)
    have "f (xs ! i) \<noteq> Equal" if "?m < i"
      using that by simp
    with Less ord(2) [of i ?m] mid show ?thesis by (cases i ?m rule: linorder_cases) auto
  next
    case Equal
    with "1.prems"(2) ne show ?thesis by (subst (asm) binary_search_by.simps) (simp add: Let_def)
  next
    case Greater
    then have "binary_search_by f (take ?m xs) = None"
      using "1.prems"(2) ne by (subst (asm) binary_search_by.simps) (simp add: Let_def)
    with "1.IH"(2) [OF ne refl Greater part(1), of i] have "f (xs ! i) \<noteq> Equal" if "i < ?m"
      using that mid by simp
    with Greater ord(1) [of ?m i] "1.prems"(3) show ?thesis
      by (cases i ?m rule: linorder_cases) auto
  qed
qed

lemma key_less_partitioned:
  "sorted_wrt key_less es \<Longrightarrow> partitioned (\<lambda>e. java_string_cmp (me_key e) key) es"
  unfolding partitioned_def
  by (erule sorted_wrt_mono_rel [rotated])
    (auto simp: key_less_def java_string_cmp_def split: if_splits)

lemma key_less_distinct: "sorted_wrt key_less es \<Longrightarrow> distinct (map me_key es)"
  by (induction es) (force simp: key_less_def java_string_cmp_def)+

abbreviation entry_pairs :: "MappingEntry list \<Rightarrow> (str \<times> str) list" where
  "entry_pairs es \<equiv> map (\<lambda>e. (me_key e, me_value e)) es"

lemma mapping_get_map_of:
  assumes "mapping_canonical m" "is_str key"
  shows "mapping_get m key = map_of (entry_pairs (mp_entries m)) key"
proof -
  let ?es = "mp_entries m" and ?f = "\<lambda>e. java_string_cmp (me_key e) key"
  have str: "is_str (me_key e)" if "e \<in> set ?es" for e
    using assms(1) that by (auto simp: mapping_canonical_def mapping_entry_ok_def list_all_iff)
  have sorted: "sorted_wrt key_less ?es" using assms(1) by (simp add: mapping_canonical_def)
  show ?thesis
  proof (cases "binary_search_by ?f ?es")
    case None
    have "me_key e \<noteq> key" if "e \<in> set ?es" for e
      using binary_search_by_None [OF key_less_partitioned [OF sorted] None] that
        java_string_cmp_Equal [OF str [OF that] assms(2)] by (auto simp: in_set_conv_nth)
    then have "map_of (entry_pairs ?es) key = None" by (simp add: map_of_eq_None_iff image_iff) blast
    with None show ?thesis by (simp add: mapping_get_def)
  next
    case (Some i)
    from binary_search_by_Some [OF Some] have i: "i < length ?es" "?f (?es ! i) = Equal" by simp_all
    with str [of "?es ! i"] assms(2) have "me_key (?es ! i) = key"
      by (simp add: java_string_cmp_Equal)
    with i(1) have "(key, me_value (?es ! i)) \<in> set (entry_pairs ?es)" by force
    moreover have "distinct (map fst (entry_pairs ?es))"
      using key_less_distinct [OF sorted] by (simp add: comp_def)
    ultimately show ?thesis using Some by (simp add: mapping_get_def)
  qed
qed

lemma sorted_neighbours_key_less:
  assumes "sorted (map (\<lambda>e. encode_utf16 (me_key e)) es)" "\<forall>e\<in>set es. is_str (me_key e)"
    "\<not> has_equal_neighbours es"
  shows "sorted_wrt key_less es"
  using assms
proof (induction es rule: has_equal_neighbours.induct)
  case (1 a b es)
  then have "encode_utf16 (me_key a) < encode_utf16 (me_key b)"
    using encode_utf16_inj [of "me_key a" "me_key b"] by (auto simp: order.strict_iff_order)
  then have "key_less a b" by (simp add: key_less_def java_string_cmp_def)
  with 1 show ?case by (auto intro: key_less_trans)
qed auto

lemma has_equal_neighbours_dup: "has_equal_neighbours es \<Longrightarrow> \<not> distinct (map me_key es)"
  by (induction es rule: has_equal_neighbours.induct) auto

lemma collect_entries_iff:
  "collect_entries kvs = Inr es \<longleftrightarrow>
     es = map (\<lambda>(k, v). \<lparr>me_key = k, me_value = v\<rparr>) kvs
     \<and> (\<forall>(k, v)\<in>set kvs. valid_text True k \<and> valid_text True v)"
  by (induction kvs arbitrary: es rule: collect_entries.induct)
    (auto simp: bindR_eq_Inr mapping_entry_new_iff)

lemma mapping_from_entries_iff:
  assumes "\<forall>(k, v)\<in>set kvs. is_str k \<and> is_str v"
  defines "es \<equiv> sort_key (\<lambda>e. encode_utf16 (me_key e)) (map (\<lambda>(k, v). \<lparr>me_key = k, me_value = v\<rparr>) kvs)"
  shows "mapping_from_entries kvs = Inr m \<longleftrightarrow>
      m = \<lparr>mp_entries = es\<rparr> \<and> (\<forall>(k, v)\<in>set kvs. valid_text True k \<and> valid_text True v)
      \<and> distinct (map fst kvs) \<and> (\<Sum>(k, v)\<leftarrow>kvs. length k + length v + 4) \<le> 65535"
    and "distinct (map fst kvs) \<Longrightarrow> sorted_wrt key_less es"
    and "distinct (map fst kvs) \<longleftrightarrow> distinct (map me_key es)"
    and "mset (entry_pairs es) = mset kvs"
proof -
  show pairs: "mset (entry_pairs es) = mset kvs"
    by (simp add: es_def image_mset.compositionality comp_def case_prod_beta)
  have "mset (map me_key es) = mset (map fst kvs)"
    using arg_cong [OF pairs, of "image_mset fst"] by (simp add: comp_def image_mset.compositionality)
  then show dist: "distinct (map fst kvs) \<longleftrightarrow> distinct (map me_key es)"
    by (metis mset_eq_imp_distinct_iff)
  have str: "\<forall>e\<in>set es. is_str (me_key e)" using assms(1) by (auto simp: es_def)
  have sorted: "sorted (map (\<lambda>e. encode_utf16 (me_key e)) es)" by (simp add: es_def)
  show less: "sorted_wrt key_less es" if "distinct (map fst kvs)"
    using sorted_neighbours_key_less [OF sorted str] has_equal_neighbours_dup that dist by blast
  have nb: "has_equal_neighbours es \<longleftrightarrow> \<not> distinct (map fst kvs)"
    using sorted_neighbours_key_less [OF sorted str] has_equal_neighbours_dup dist
      key_less_distinct by blast
  have "length (mapping_body \<lparr>mp_entries = es\<rparr>) = (\<Sum>e\<leftarrow>es. length (entry_wire e))"
    by (simp add: mapping_body_def length_concat comp_def)
  also have "\<dots> = (\<Sum>(k, v)\<leftarrow>entry_pairs es. length k + length v + 4)"
    by (simp add: comp_def)
  also have "\<dots> = (\<Sum>(k, v)\<leftarrow>kvs. length k + length v + 4)"
    using arg_cong [OF pairs, of "\<lambda>M. sum_mset (image_mset (\<lambda>(k, v). length k + length v + 4) M)"]
    by (simp only: mset_map [symmetric] sum_mset_sum_list)
  finally have len: "length (mapping_body \<lparr>mp_entries = es\<rparr>) = (\<Sum>(k, v)\<leftarrow>kvs. length k + length v + 4)" .
  show "mapping_from_entries kvs = Inr m \<longleftrightarrow>
      m = \<lparr>mp_entries = es\<rparr> \<and> (\<forall>(k, v)\<in>set kvs. valid_text True k \<and> valid_text True v)
      \<and> distinct (map fst kvs) \<and> (\<Sum>(k, v)\<leftarrow>kvs. length k + length v + 4) \<le> 65535"
    unfolding mapping_from_entries_def bindR_eq_Inr collect_entries_iff Let_def
    by (auto simp: es_def [symmetric] nb bindR_eq_Inr encoded_body_len_iff len common_limits)
qed

lemma mapping_from_entries_canonical:
  assumes "\<forall>(k, v)\<in>set kvs. is_str k \<and> is_str v" "mapping_from_entries kvs = Inr m"
  shows "mapping_ok MAX_MAPPING_BODY_SIZE m" and "mset (entry_pairs (mp_entries m)) = mset kvs"
    and "distinct (map fst kvs)"
proof -
  note iff = mapping_from_entries_iff [OF assms(1)]
  from assms(2) show pairs: "mset (entry_pairs (mp_entries m)) = mset kvs" and "distinct (map fst kvs)"
    using iff(1,4) by auto
  have "mapping_entry_ok e" if "e \<in> set (mp_entries m)" for e
  proof -
    from that have "(me_key e, me_value e) \<in> set (entry_pairs (mp_entries m))" by auto
    then have "(me_key e, me_value e) \<in> set kvs" using mset_eq_setD [OF pairs] by simp
    then show ?thesis using assms iff(1) by (auto simp: mapping_entry_ok_def)
  qed
  moreover have "sorted_wrt key_less (mp_entries m)" using assms(2) iff(1,2) by auto
  moreover have "length (mapping_body m) \<le> MAX_MAPPING_BODY_SIZE"
    using assms(2)
    by (auto simp: mapping_from_entries_def bindR_eq_Inr Let_def encoded_body_len_iff
        split: if_splits)
  ultimately show "mapping_ok MAX_MAPPING_BODY_SIZE m"
    by (simp add: mapping_ok_def mapping_canonical_def list_all_iff)
qed

subsection \<open>RouterAddress\<close>

record RouterAddress =
  ra_cost :: u8
  ra_expiration :: Date
  ra_transport_style :: str
  ra_options :: Mapping

definition router_address_new :: "u8 \<Rightarrow> Date \<Rightarrow> str \<Rightarrow> Mapping \<Rightarrow> CodecError + RouterAddress" where
  "router_address_new cost expiration transport_style options =
     bindR (validate_text transport_style False ''transport style'') (\<lambda>_.
     Inr \<lparr>ra_cost = cost, ra_expiration = expiration, ra_transport_style = transport_style,
          ra_options = options\<rparr>)"

definition router_address_decode_from :: "nat \<Rightarrow> RouterAddress decoder" where
  "router_address_decode_from maximum =
     bindS read_u8 (\<lambda>cost.
     bindS date_decode_from (\<lambda>expiration.
     bindS (read_utf8_u8 255) (\<lambda>transport_style.
     bindS (mapping_decode_from maximum) (\<lambda>options.
     liftS (router_address_new cost expiration transport_style options)))))"

definition router_address_encode_into :: "RouterAddress \<Rightarrow> encoder" where
  "router_address_encode_into a =
     seqS (write_u8 (ra_cost a))
     (seqS (date_encode_into (ra_expiration a))
     (seqS (write_utf8_u8 (ra_transport_style a) 255)
           (mapping_encode_into (ra_options a))))"

definition router_address_wire :: "RouterAddress \<Rightarrow> bytes" where
  "router_address_wire a =
     [ra_cost a] @ date_wire (ra_expiration a) @ prefixed_u8 (ra_transport_style a)
       @ mapping_wire (ra_options a)"

definition router_address_ok :: "nat \<Rightarrow> RouterAddress \<Rightarrow> bool" where
  "router_address_ok maximum a \<longleftrightarrow>
     is_str (ra_transport_style a) \<and> valid_text False (ra_transport_style a)
     \<and> mapping_ok maximum (ra_options a)"

lemma router_address_new_iff:
  "router_address_new c e t opts = Inr a \<longleftrightarrow> valid_text False t \<and>
     a = \<lparr>ra_cost = c, ra_expiration = e, ra_transport_style = t, ra_options = opts\<rparr>"
  by (auto simp: router_address_new_def bindR_eq_Inr validate_text_iff)

interpretation router_address: wire_codec "router_address_decode_from maximum"
    router_address_encode_into router_address_wire "router_address_ok maximum" for maximum
proof
  fix a assume a: "router_address_ok maximum a"
  show "decodes (router_address_decode_from maximum) (router_address_wire a) a"
    unfolding router_address_decode_from_def router_address_wire_def
    by (rule decodes_bind [OF decodes_u8], rule decodes_bind [OF date.decodes_wire], simp,
        rule decodes_bind [OF decodes_utf8_u8], goal_cases)
      (use a in \<open>auto intro!: decodes_bind_last [OF mapping.decodes_wire] decodes_lift
        simp: router_address_ok_def router_address_new_iff dest: valid_text_length\<close>)
  show "writes (router_address_encode_into a) (router_address_wire a)"
    unfolding router_address_encode_into_def router_address_wire_def
    by (intro writes_seq writes_u8 date.writes_wire writes_utf8_u8
        mapping.writes_wire [where maximum = maximum])
      (use a in \<open>auto simp: router_address_ok_def dest: valid_text_length\<close>)
next
  show "sound (router_address_decode_from maximum)
      (\<lambda>a xs. xs = router_address_wire a \<and> router_address_ok maximum a)"
    unfolding router_address_decode_from_def
    by (rule sound_bind [OF sound_u8], rule sound_bind [OF date.sound_wire],
        rule sound_bind [OF sound_utf8_u8], rule sound_bind [OF mapping.sound_wire],
        rule sound_lift)
      (auto simp: router_address_new_iff router_address_wire_def router_address_ok_def)
qed

end
