(* ===== verification/Identity.thy ===== *)
theory Identity
  imports I2P_Mapping
begin

section \<open>Keys, certificates and identities (common/keys.rs, certificate.rs, identity.rs)\<close>

text \<open>
  The typed key material of an I2P identity: algorithm identifiers with their encoded lengths,
  public keys and signatures that carry the length their algorithm requires, key certificates,
  and the 384-byte key area with its certificate that a router identity or a destination is.
\<close>

subsection \<open>Algorithm identifiers\<close>

datatype SigningKeyType =
    DsaSha1
  | EcdsaSha256P256
  | EcdsaSha384P384
  | EcdsaSha512P521
  | RsaSha2562048
  | RsaSha3843072
  | RsaSha5124096
  | EdDsaSha512Ed25519
  | EdDsaSha512Ed25519ph
  | RedDsaSha512Ed25519
  | SigningUnknown u16

definition signing_from_code :: "u16 \<Rightarrow> SigningKeyType" where
  "signing_from_code value =
     (if value = 0 then DsaSha1
      else if value = 1 then EcdsaSha256P256
      else if value = 2 then EcdsaSha384P384
      else if value = 3 then EcdsaSha512P521
      else if value = 4 then RsaSha2562048
      else if value = 5 then RsaSha3843072
      else if value = 6 then RsaSha5124096
      else if value = 7 then EdDsaSha512Ed25519
      else if value = 8 then EdDsaSha512Ed25519ph
      else if value = 11 then RedDsaSha512Ed25519
      else SigningUnknown value)"

fun signing_code :: "SigningKeyType \<Rightarrow> u16" where
  "signing_code DsaSha1 = 0"
| "signing_code EcdsaSha256P256 = 1"
| "signing_code EcdsaSha384P384 = 2"
| "signing_code EcdsaSha512P521 = 3"
| "signing_code RsaSha2562048 = 4"
| "signing_code RsaSha3843072 = 5"
| "signing_code RsaSha5124096 = 6"
| "signing_code EdDsaSha512Ed25519 = 7"
| "signing_code EdDsaSha512Ed25519ph = 8"
| "signing_code RedDsaSha512Ed25519 = 11"
| "signing_code (SigningUnknown value) = value"

fun signing_public_key_len :: "SigningKeyType \<Rightarrow> nat option" where
  "signing_public_key_len DsaSha1 = Some 128"
| "signing_public_key_len EcdsaSha256P256 = Some 64"
| "signing_public_key_len EcdsaSha384P384 = Some 96"
| "signing_public_key_len EcdsaSha512P521 = Some 132"
| "signing_public_key_len RsaSha2562048 = Some 256"
| "signing_public_key_len RsaSha3843072 = Some 384"
| "signing_public_key_len RsaSha5124096 = Some 512"
| "signing_public_key_len EdDsaSha512Ed25519 = Some 32"
| "signing_public_key_len EdDsaSha512Ed25519ph = Some 32"
| "signing_public_key_len RedDsaSha512Ed25519 = Some 32"
| "signing_public_key_len (SigningUnknown _) = None"

fun signature_len :: "SigningKeyType \<Rightarrow> nat option" where
  "signature_len DsaSha1 = Some 40"
| "signature_len EcdsaSha256P256 = Some 64"
| "signature_len EcdsaSha384P384 = Some 96"
| "signature_len EcdsaSha512P521 = Some 132"
| "signature_len RsaSha2562048 = Some 256"
| "signature_len RsaSha3843072 = Some 384"
| "signature_len RsaSha5124096 = Some 512"
| "signature_len EdDsaSha512Ed25519 = Some 64"
| "signature_len EdDsaSha512Ed25519ph = Some 64"
| "signature_len RedDsaSha512Ed25519 = Some 64"
| "signature_len (SigningUnknown _) = None"

datatype CryptoKeyType =
    ElGamal
  | P256
  | P384
  | P521
  | X25519
  | MlKem512X25519
  | MlKem768X25519
  | MlKem1024X25519
  | CryptoUnknown u16

definition crypto_from_code :: "u16 \<Rightarrow> CryptoKeyType" where
  "crypto_from_code value =
     (if value = 0 then ElGamal
      else if value = 1 then P256
      else if value = 2 then P384
      else if value = 3 then P521
      else if value = 4 then X25519
      else if value = 5 then MlKem512X25519
      else if value = 6 then MlKem768X25519
      else if value = 7 then MlKem1024X25519
      else CryptoUnknown value)"

fun crypto_code :: "CryptoKeyType \<Rightarrow> u16" where
  "crypto_code ElGamal = 0"
| "crypto_code P256 = 1"
| "crypto_code P384 = 2"
| "crypto_code P521 = 3"
| "crypto_code X25519 = 4"
| "crypto_code MlKem512X25519 = 5"
| "crypto_code MlKem768X25519 = 6"
| "crypto_code MlKem1024X25519 = 7"
| "crypto_code (CryptoUnknown value) = value"

fun crypto_public_key_len :: "CryptoKeyType \<Rightarrow> nat option" where
  "crypto_public_key_len ElGamal = Some 256"
| "crypto_public_key_len P256 = Some 64"
| "crypto_public_key_len P384 = Some 96"
| "crypto_public_key_len P521 = Some 132"
| "crypto_public_key_len X25519 = Some 32"
| "crypto_public_key_len MlKem512X25519 = Some 32"
| "crypto_public_key_len MlKem768X25519 = Some 32"
| "crypto_public_key_len MlKem1024X25519 = Some 32"
| "crypto_public_key_len (CryptoUnknown _) = None"

fun allowed_in_identity :: "CryptoKeyType \<Rightarrow> bool" where
  "allowed_in_identity ElGamal = True"
| "allowed_in_identity X25519 = True"
| "allowed_in_identity _ = False"

text \<open>\<open>code() as u64\<close>.\<close>

definition signing_code_u64 :: "SigningKeyType \<Rightarrow> u64" where
  "signing_code_u64 t = of_nat (unat (signing_code t))"

definition crypto_code_u64 :: "CryptoKeyType \<Rightarrow> u64" where
  "crypto_code_u64 t = of_nat (unat (crypto_code t))"

lemma signing_code_from_code [simp]: "signing_code (signing_from_code w) = w"
  by (simp add: signing_from_code_def)

lemma crypto_code_from_code [simp]: "crypto_code (crypto_from_code w) = w"
  by (simp add: crypto_from_code_def)

lemma signing_from_code_code: "signing_public_key_len t = Some n \<Longrightarrow> signing_from_code (signing_code t) = t"
  by (cases t) (simp_all add: signing_from_code_def)

lemma crypto_from_code_code: "crypto_public_key_len t = Some n \<Longrightarrow> crypto_from_code (crypto_code t) = t"
  by (cases t) (simp_all add: crypto_from_code_def)

lemma crypto_public_key_len_le: "crypto_public_key_len t = Some n \<Longrightarrow> n \<le> 256"
  by (cases t) auto

lemma signing_public_key_len_le: "signing_public_key_len t = Some n \<Longrightarrow> n \<le> 512"
  by (cases t) auto

lemma signature_len_le: "signature_len t = Some n \<Longrightarrow> n \<le> 512"
  by (cases t) auto

lemma signature_len_known:
  "(\<exists>n. signature_len t = Some n) \<longleftrightarrow> (\<exists>n. signing_public_key_len t = Some n)"
  by (cases t) auto

subsection \<open>Keys and signatures\<close>

record PublicKey =
  pk_key_type :: CryptoKeyType
  pk_bytes :: bytes

definition public_key_new :: "CryptoKeyType \<Rightarrow> bytes \<Rightarrow> CodecError + PublicKey" where
  "public_key_new key_type bs =
     bindR (ok_or (crypto_public_key_len key_type)
              (unsupported 0 ''encryption key type'' (crypto_code_u64 key_type))) (\<lambda>expected.
     if length bs \<noteq> expected then Inl (invalid 0 ''encryption public key length'')
     else Inr \<lparr>pk_key_type = key_type, pk_bytes = bs\<rparr>)"

record SigningPublicKey =
  sk_key_type :: SigningKeyType
  sk_bytes :: bytes

definition signing_public_key_new :: "SigningKeyType \<Rightarrow> bytes \<Rightarrow> CodecError + SigningPublicKey" where
  "signing_public_key_new key_type bs =
     bindR (ok_or (signing_public_key_len key_type)
              (unsupported 0 ''signing key type'' (signing_code_u64 key_type))) (\<lambda>expected.
     if length bs \<noteq> expected then Inl (invalid 0 ''signing public key length'')
     else Inr \<lparr>sk_key_type = key_type, sk_bytes = bs\<rparr>)"

record SignatureValue =
  sv_key_type :: SigningKeyType
  sv_bytes :: bytes

definition signature_value_new :: "SigningKeyType \<Rightarrow> bytes \<Rightarrow> CodecError + SignatureValue" where
  "signature_value_new key_type bs =
     bindR (ok_or (signature_len key_type)
              (unsupported 0 ''signature type'' (signing_code_u64 key_type))) (\<lambda>expected.
     if length bs \<noteq> expected then Inl (invalid 0 ''signature length'')
     else Inr \<lparr>sv_key_type = key_type, sv_bytes = bs\<rparr>)"

definition public_key_ok :: "PublicKey \<Rightarrow> bool" where
  "public_key_ok k \<longleftrightarrow> crypto_public_key_len (pk_key_type k) = Some (length (pk_bytes k))"

definition signing_key_ok :: "SigningPublicKey \<Rightarrow> bool" where
  "signing_key_ok k \<longleftrightarrow> signing_public_key_len (sk_key_type k) = Some (length (sk_bytes k))"

definition signature_ok :: "SignatureValue \<Rightarrow> bool" where
  "signature_ok s \<longleftrightarrow> signature_len (sv_key_type s) = Some (length (sv_bytes s))"

lemma public_key_new_iff:
  "public_key_new t bs = Inr k \<longleftrightarrow> k = \<lparr>pk_key_type = t, pk_bytes = bs\<rparr> \<and> public_key_ok k"
  by (auto simp: public_key_new_def public_key_ok_def bindR_eq_Inr ok_or_eq_Inr split: if_splits)

lemma signing_public_key_new_iff:
  "signing_public_key_new t bs = Inr k \<longleftrightarrow> k = \<lparr>sk_key_type = t, sk_bytes = bs\<rparr> \<and> signing_key_ok k"
  by (auto simp: signing_public_key_new_def signing_key_ok_def bindR_eq_Inr ok_or_eq_Inr split: if_splits)

lemma signature_value_new_iff:
  "signature_value_new t bs = Inr k \<longleftrightarrow> k = \<lparr>sv_key_type = t, sv_bytes = bs\<rparr> \<and> signature_ok k"
  by (auto simp: signature_value_new_def signature_ok_def bindR_eq_Inr ok_or_eq_Inr split: if_splits)

subsection \<open>Key certificates\<close>

record KeyCertificate =
  kc_signing_type :: SigningKeyType
  kc_crypto_type :: CryptoKeyType
  kc_excess_signing :: bytes
  kc_excess_crypto :: bytes

definition key_certificate_new ::
  "SigningKeyType \<Rightarrow> CryptoKeyType \<Rightarrow> bytes \<Rightarrow> bytes \<Rightarrow> CodecError + KeyCertificate" where
  "key_certificate_new signing_type crypto_type excess_signing excess_crypto =
     bindR (ok_or (signing_public_key_len signing_type)
              (unsupported 0 ''signing key type'' (signing_code_u64 signing_type))) (\<lambda>signing_len.
     bindR (ok_or (crypto_public_key_len crypto_type)
              (unsupported 0 ''encryption key type'' (crypto_code_u64 crypto_type))) (\<lambda>crypto_len.
     if length excess_signing \<noteq> saturating_sub signing_len LEGACY_SIGNING_KEY_SIZE
        \<or> length excess_crypto \<noteq> saturating_sub crypto_len LEGACY_PUBLIC_KEY_SIZE
     then Inl (invalid 0 ''key certificate excess data length'')
     else Inr \<lparr>kc_signing_type = signing_type, kc_crypto_type = crypto_type,
               kc_excess_signing = excess_signing, kc_excess_crypto = excess_crypto\<rparr>))"

definition key_certificate_for_types ::
  "SigningKeyType \<Rightarrow> CryptoKeyType \<Rightarrow> CodecError + KeyCertificate" where
  "key_certificate_for_types signing_type crypto_type =
     bindR (ok_or (signing_public_key_len signing_type)
              (unsupported 0 ''signing key type'' (signing_code_u64 signing_type))) (\<lambda>signing_len.
     bindR (ok_or (crypto_public_key_len crypto_type)
              (unsupported 0 ''encryption key type'' (crypto_code_u64 crypto_type))) (\<lambda>crypto_len.
     key_certificate_new signing_type crypto_type
       (replicate (saturating_sub signing_len LEGACY_SIGNING_KEY_SIZE) 0)
       (replicate (saturating_sub crypto_len LEGACY_PUBLIC_KEY_SIZE) 0)))"

text \<open>
  \<open>decode_payload\<close> reads the fields from a cursor over the payload, requires that nothing is
  left and hands them to \<open>new\<close>; cursor, fields and final check are \<open>decode_exact\<close>.
\<close>

definition key_certificate_fields :: "(SigningKeyType \<times> CryptoKeyType \<times> bytes \<times> bytes) decoder" where
  "key_certificate_fields =
     bindS read_u16 (\<lambda>signing_code.
     bindS read_u16 (\<lambda>crypto_code.
     let signing_type = signing_from_code signing_code; crypto_type = crypto_from_code crypto_code in
     bindS (liftS (ok_or (signing_public_key_len signing_type)
              (unsupported 0 ''signing key type'' (signing_code_u64 signing_type)))) (\<lambda>signing_len.
     bindS (liftS (ok_or (crypto_public_key_len crypto_type)
              (unsupported 2 ''encryption key type'' (crypto_code_u64 crypto_type)))) (\<lambda>crypto_len.
     bindS (take_bytes (saturating_sub signing_len LEGACY_SIGNING_KEY_SIZE)) (\<lambda>excess_signing.
     bindS (take_bytes (saturating_sub crypto_len LEGACY_PUBLIC_KEY_SIZE)) (\<lambda>excess_crypto.
     retS (signing_type, crypto_type, excess_signing, excess_crypto)))))))"

definition key_certificate_decode_payload :: "bytes \<Rightarrow> CodecError + KeyCertificate" where
  "key_certificate_decode_payload payload =
     bindR (decode_exact payload (length payload) key_certificate_fields)
       (\<lambda>(signing_type, crypto_type, excess_signing, excess_crypto).
          key_certificate_new signing_type crypto_type excess_signing excess_crypto)"

definition key_certificate_encode_payload :: "KeyCertificate \<Rightarrow> bytes" where
  "key_certificate_encode_payload key =
     be_encode 2 (unat (signing_code (kc_signing_type key)))
     @ be_encode 2 (unat (crypto_code (kc_crypto_type key)))
     @ kc_excess_signing key @ kc_excess_crypto key"

definition key_certificate_ok :: "KeyCertificate \<Rightarrow> bool" where
  "key_certificate_ok key \<longleftrightarrow>
     (case (signing_public_key_len (kc_signing_type key), crypto_public_key_len (kc_crypto_type key)) of
        (Some s, Some c) \<Rightarrow> length (kc_excess_signing key) = s - LEGACY_SIGNING_KEY_SIZE
          \<and> length (kc_excess_crypto key) = c - LEGACY_PUBLIC_KEY_SIZE
      | _ \<Rightarrow> False)"

lemma key_certificate_okE:
  assumes "key_certificate_ok key"
  obtains s c where "signing_public_key_len (kc_signing_type key) = Some s"
    "crypto_public_key_len (kc_crypto_type key) = Some c"
    "length (kc_excess_signing key) = s - 128" "length (kc_excess_crypto key) = c - 256"
    "s \<le> 512" "c \<le> 256"
  using assms signing_public_key_len_le crypto_public_key_len_le
  by (auto simp: key_certificate_ok_def common_limits split: option.splits)

lemma key_certificate_new_iff:
  "key_certificate_new st ct es ec = Inr key \<longleftrightarrow> key_certificate_ok key \<and>
     key = \<lparr>kc_signing_type = st, kc_crypto_type = ct, kc_excess_signing = es, kc_excess_crypto = ec\<rparr>"
  by (auto simp: key_certificate_new_def key_certificate_ok_def bindR_eq_Inr ok_or_eq_Inr
      split: option.splits if_splits)

lemma key_certificate_payload_length:
  "key_certificate_ok key \<Longrightarrow> length (key_certificate_encode_payload key) \<le> 388"
  by (erule key_certificate_okE) (simp add: key_certificate_encode_payload_def)

lemma decodes_key_certificate_fields:
  assumes "key_certificate_ok key"
  shows "decodes key_certificate_fields (key_certificate_encode_payload key)
    (kc_signing_type key, kc_crypto_type key, kc_excess_signing key, kc_excess_crypto key)"
proof -
  obtain s c where k: "signing_public_key_len (kc_signing_type key) = Some s"
    "crypto_public_key_len (kc_crypto_type key) = Some c"
    "length (kc_excess_signing key) = s - 128" "length (kc_excess_crypto key) = c - 256"
    using assms by (rule key_certificate_okE)
  have "decodes (bindS (take_bytes (s - 128)) (\<lambda>es. bindS (take_bytes (c - 256)) (\<lambda>ec.
      retS (kc_signing_type key, kc_crypto_type key, es, ec))))
      (kc_excess_signing key @ kc_excess_crypto key)
      (kc_signing_type key, kc_crypto_type key, kc_excess_signing key, kc_excess_crypto key)"
    by (rule decodes_bind [OF decodes_take], simp add: k, rule decodes_bind_last [OF decodes_take])
      (simp_all add: k decodes_ret)
  with k show ?thesis
    unfolding key_certificate_fields_def key_certificate_encode_payload_def
    by (intro decodes_bind [OF decodes_u16])
      (simp add: signing_from_code_code crypto_from_code_code common_limits)
qed

lemma sound_key_certificate_fields:
  "sound key_certificate_fields (\<lambda>(st, ct, es, ec) xs.
     xs = key_certificate_encode_payload \<lparr>kc_signing_type = st, kc_crypto_type = ct,
            kc_excess_signing = es, kc_excess_crypto = ec\<rparr>)"
  unfolding key_certificate_fields_def Let_def
  by (rule sound_bind [OF sound_u16], rule sound_bind [OF sound_u16], rule sound_bind_lift,
      rule sound_bind_lift, rule sound_bind [OF sound_take], rule sound_bind [OF sound_take],
      rule sound_ret) (simp add: key_certificate_encode_payload_def)

lemma key_certificate_payload_iff:
  assumes "length payload < usize_limit"
  shows "key_certificate_decode_payload payload = Inr key \<longleftrightarrow>
    key_certificate_ok key \<and> payload = key_certificate_encode_payload key"
proof
  assume "key_certificate_decode_payload payload = Inr key"
  then show "key_certificate_ok key \<and> payload = key_certificate_encode_payload key"
    using decode_exact_sound [OF sound_key_certificate_fields, of payload "length payload"] assms
    by (auto simp: key_certificate_decode_payload_def bindR_eq_Inr key_certificate_new_iff)
next
  assume "key_certificate_ok key \<and> payload = key_certificate_encode_payload key"
  then show "key_certificate_decode_payload payload = Inr key"
    using decode_exact_decodes [OF decodes_key_certificate_fields, of key "length payload"] assms
    by (simp add: key_certificate_decode_payload_def key_certificate_new_iff)
qed

subsection \<open>Certificates\<close>

datatype Certificate =
    CertNull
  | CertKey KeyCertificate
  | CertUnsupported u8 bytes \<comment> \<open>type code, payload\<close>

definition certificate_from_payload :: "u8 \<Rightarrow> bytes \<Rightarrow> CodecError + Certificate" where
  "certificate_from_payload type_code payload =
     (if type_code = 0 \<and> payload = [] then Inr CertNull
      else if type_code = 0 then Inl (invalid 0 ''null certificate payload'')
      else if type_code = 2 \<and> payload = [] then Inr (CertUnsupported type_code payload)
      else if type_code = 3 \<and> (length payload = 40 \<or> length payload = 72)
      then Inr (CertUnsupported type_code payload)
      else if type_code = 5
      then bindR (key_certificate_decode_payload payload) (\<lambda>key. Inr (CertKey key))
      else if type_code = 1 \<or> type_code = 4 then Inr (CertUnsupported type_code payload)
      else Inr (CertUnsupported type_code payload))"

definition certificate_decode_from :: "Certificate decoder" where
  "certificate_decode_from =
     bindS read_u8 (\<lambda>type_code.
     bindS read_u16 (\<lambda>payload_len.
     bindS (take_bytes (unat payload_len)) (\<lambda>payload.
     liftS (certificate_from_payload type_code payload))))"

definition write_certificate :: "u8 \<Rightarrow> bytes \<Rightarrow> string \<Rightarrow> encoder" where
  "write_certificate type_code payload context =
     seqS (write_u8 type_code)
     (bindS (liftS (ok_or (u16_try_from (length payload)) (invalid 0 context))) (\<lambda>n.
     seqS (write_u16 n) (write_raw payload)))"

fun certificate_encode_into :: "Certificate \<Rightarrow> encoder" where
  "certificate_encode_into CertNull = seqS (write_u8 0) (write_u16 0)"
| "certificate_encode_into (CertKey key) =
     write_certificate 5 (key_certificate_encode_payload key) ''key certificate''"
| "certificate_encode_into (CertUnsupported type_code payload) =
     write_certificate type_code payload ''certificate payload''"

fun certificate_type :: "Certificate \<Rightarrow> u8" where
  "certificate_type CertNull = 0"
| "certificate_type (CertKey _) = 5"
| "certificate_type (CertUnsupported type_code _) = type_code"

fun certificate_payload :: "Certificate \<Rightarrow> bytes" where
  "certificate_payload CertNull = []"
| "certificate_payload (CertKey key) = key_certificate_encode_payload key"
| "certificate_payload (CertUnsupported _ payload) = payload"

definition certificate_wire :: "Certificate \<Rightarrow> bytes" where
  "certificate_wire cert =
     [certificate_type cert] @ be_encode 2 (length (certificate_payload cert))
       @ certificate_payload cert"

fun certificate_ok :: "Certificate \<Rightarrow> bool" where
  "certificate_ok CertNull \<longleftrightarrow> True"
| "certificate_ok (CertKey key) \<longleftrightarrow> key_certificate_ok key"
| "certificate_ok (CertUnsupported type_code payload) \<longleftrightarrow>
     type_code \<noteq> 0 \<and> type_code \<noteq> 5 \<and> length payload < 65536"

lemma certificate_payload_length: "certificate_ok cert \<Longrightarrow> length (certificate_payload cert) < 65536"
  by (cases cert) (auto dest!: key_certificate_payload_length)

lemma certificate_from_payload_iff:
  assumes "length payload < 65536"
  shows "certificate_from_payload t payload = Inr cert \<longleftrightarrow>
    certificate_ok cert \<and> t = certificate_type cert \<and> payload = certificate_payload cert"
proof -
  have "length payload < usize_limit" using assms by (simp add: usize_limit_def)
  note key = key_certificate_payload_iff [OF this]
  show ?thesis
    using assms by (cases cert) (auto simp: certificate_from_payload_def bindR_eq_Inr key)
qed

lemma writes_certificate_payload:
  assumes "length payload < 65536"
  shows "writes (write_certificate t payload ctx) ([t] @ be_encode 2 (length payload) @ payload)"
proof -
  have "writes (seqS (write_u16 (of_nat (length payload))) (write_raw payload))
      (be_encode 2 (unat (of_nat (length payload) :: u16)) @ payload)"
    by (intro writes_seq writes_u16 writes_raw)
  with assms show ?thesis
    unfolding write_certificate_def
    by (intro writes_seq writes_u8) (simp add: u16_try_from_def unat_of_nat_u16)
qed

lemma writes_certificate:
  assumes "certificate_ok cert"
  shows "writes (certificate_encode_into cert) (certificate_wire cert)"
proof (cases cert)
  case CertNull
  have "be_encode 2 0 = be_encode 2 (unat (0 :: u16))" by simp
  then show ?thesis
    unfolding CertNull certificate_wire_def
    by (simp only: certificate_encode_into.simps certificate_type.simps certificate_payload.simps
        append_Nil2 list.size) (intro writes_seq writes_u8 writes_u16)
qed (use certificate_payload_length [OF assms] in \<open>auto simp: certificate_wire_def
  intro: writes_certificate_payload [simplified]\<close>)

interpretation certificate: wire_codec certificate_decode_from certificate_encode_into
    certificate_wire certificate_ok
proof
  fix cert assume ok: "certificate_ok cert"
  let ?p = "certificate_payload cert"
  have len: "unat (of_nat (length ?p) :: u16) = length ?p"
    using certificate_payload_length [OF ok] by (rule unat_of_nat_u16)
  have "decodes (bindS read_u16 (\<lambda>n. bindS (take_bytes (unat n)) (\<lambda>payload.
      liftS (certificate_from_payload (certificate_type cert) payload))))
      (be_encode 2 (unat (of_nat (length ?p) :: u16)) @ ?p) cert"
    by (rule decodes_bind [OF decodes_u16], rule decodes_bind_last [OF decodes_take])
      (use ok certificate_payload_length [OF ok] in
        \<open>simp_all add: len decodes_lift certificate_from_payload_iff\<close>)
  then show "decodes certificate_decode_from (certificate_wire cert) cert"
    unfolding certificate_decode_from_def certificate_wire_def len
    by (rule decodes_bind [OF decodes_u8])
  show "writes (certificate_encode_into cert) (certificate_wire cert)"
    by (rule writes_certificate [OF ok])
next
  show "sound certificate_decode_from (\<lambda>cert xs. xs = certificate_wire cert \<and> certificate_ok cert)"
    unfolding certificate_decode_from_def
    by (rule sound_bind [OF sound_u8], rule sound_bind [OF sound_u16],
        rule sound_bind [OF sound_take], rule sound_lift)
      (auto simp: certificate_from_payload_iff certificate_wire_def)
qed

subsection \<open>Key-and-certificate values\<close>

record KeyAndCert =
  kac_public_key :: PublicKey
  kac_signing_key :: SigningPublicKey
  kac_padding :: bytes
  kac_certificate :: Certificate

definition checked_sub :: "nat \<Rightarrow> nat \<Rightarrow> nat option" where
  "checked_sub a b = (if b \<le> a then Some (a - b) else None)"

fun validate_certificate :: "KeyAndCert \<Rightarrow> nat \<Rightarrow> nat \<Rightarrow> Certificate \<Rightarrow> CodecError + unit" where
  "validate_certificate k public_len signing_len CertNull =
     (if pk_key_type (kac_public_key k) \<noteq> ElGamal
         \<or> sk_key_type (kac_signing_key k) \<noteq> DsaSha1
         \<or> length (pk_bytes (kac_public_key k)) \<noteq> LEGACY_PUBLIC_KEY_SIZE
         \<or> length (sk_bytes (kac_signing_key k)) \<noteq> LEGACY_SIGNING_KEY_SIZE
         \<or> kac_padding k \<noteq> []
      then Inl (invalid 0 ''null certificate key material'')
      else Inr ())"
| "validate_certificate k public_len signing_len (CertKey key) =
     (if kc_crypto_type key \<noteq> pk_key_type (kac_public_key k)
         \<or> kc_signing_type key \<noteq> sk_key_type (kac_signing_key k)
      then Inl (invalid 0 ''key certificate algorithm binding'')
      else if drop (min LEGACY_PUBLIC_KEY_SIZE public_len) (pk_bytes (kac_public_key k))
                \<noteq> kc_excess_crypto key
         \<or> drop (min LEGACY_SIGNING_KEY_SIZE signing_len) (sk_bytes (kac_signing_key k))
                \<noteq> kc_excess_signing key
      then Inl (invalid 0 ''key certificate excess key material'')
      else Inr ())"
| "validate_certificate k public_len signing_len (CertUnsupported type_code _) =
     Inl (unsupported 0 ''identity certificate'' (of_nat (unat type_code)))"

definition key_and_cert_validate :: "KeyAndCert \<Rightarrow> CodecError + unit" where
  "key_and_cert_validate k =
     bindR (ok_or (crypto_public_key_len (pk_key_type (kac_public_key k)))
       (unsupported 0 ''encryption key type'' (crypto_code_u64 (pk_key_type (kac_public_key k)))))
       (\<lambda>public_len.
     bindR (ok_or (signing_public_key_len (sk_key_type (kac_signing_key k)))
       (unsupported 0 ''signing key type'' (signing_code_u64 (sk_key_type (kac_signing_key k)))))
       (\<lambda>signing_len.
     if public_len > LEGACY_PUBLIC_KEY_SIZE
     then Inl (unsupported 0 ''identity encryption key layout''
                 (crypto_code_u64 (pk_key_type (kac_public_key k))))
     else
     bindR (ok_or (Option.bind (checked_sub KEY_AREA_SIZE public_len)
                (\<lambda>remaining. checked_sub remaining (min signing_len LEGACY_SIGNING_KEY_SIZE)))
              (invalid 0 ''identity key area'')) (\<lambda>expected_padding.
     if length (kac_padding k) \<noteq> expected_padding
     then Inl (invalid 0 ''identity key padding length'')
     else validate_certificate k public_len signing_len (kac_certificate k))))"

definition key_and_cert_new ::
  "PublicKey \<Rightarrow> SigningPublicKey \<Rightarrow> bytes \<Rightarrow> Certificate \<Rightarrow> CodecError + KeyAndCert" where
  "key_and_cert_new public_key signing_key padding certificate =
     (let key = \<lparr>kac_public_key = public_key, kac_signing_key = signing_key,
                 kac_padding = padding, kac_certificate = certificate\<rparr> in
      bindR (key_and_cert_validate key) (\<lambda>_. Inr key))"

fun certificate_key_types :: "Certificate \<Rightarrow> CodecError + CryptoKeyType \<times> SigningKeyType" where
  "certificate_key_types CertNull = Inr (ElGamal, DsaSha1)"
| "certificate_key_types (CertKey key) = Inr (kc_crypto_type key, kc_signing_type key)"
| "certificate_key_types (CertUnsupported type_code _) =
     Inl (unsupported 384 ''identity certificate'' (of_nat (unat type_code)))"

fun certificate_excess :: "Certificate \<Rightarrow> bytes \<times> bytes" where
  "certificate_excess (CertKey key) = (kc_excess_crypto key, kc_excess_signing key)"
| "certificate_excess _ = ([], [])"

text \<open>
  What \<open>decode_from\<close> does with the key area and the certificate. For a certificate without
  key types the excess bytes are empty, which makes the two branches of the source one.
\<close>

definition key_and_cert_parse :: "bytes \<Rightarrow> Certificate \<Rightarrow> CodecError + KeyAndCert" where
  "key_and_cert_parse key_area certificate =
     bindR (certificate_key_types certificate) (\<lambda>(public_type, signing_type).
     bindR (ok_or (crypto_public_key_len public_type)
              (unsupported 0 ''encryption key type'' (crypto_code_u64 public_type))) (\<lambda>public_len.
     bindR (ok_or (signing_public_key_len signing_type)
              (unsupported 0 ''signing key type'' (signing_code_u64 signing_type))) (\<lambda>signing_len.
     if public_len > LEGACY_PUBLIC_KEY_SIZE
     then Inl (unsupported 0 ''identity encryption key layout'' (crypto_code_u64 public_type))
     else
     let signing_prefix_len = min signing_len LEGACY_SIGNING_KEY_SIZE in
     bindR (ok_or (checked_sub KEY_AREA_SIZE (public_len + signing_prefix_len))
              (invalid 0 ''identity key area'')) (\<lambda>padding_len.
     let public_bytes = take public_len key_area;
         signing_start = KEY_AREA_SIZE - signing_prefix_len;
         signing_bytes = drop signing_start key_area @ snd (certificate_excess certificate);
         full_public = public_bytes @ fst (certificate_excess certificate) in
     bindR (public_key_new public_type full_public) (\<lambda>public_key.
     bindR (signing_public_key_new signing_type signing_bytes) (\<lambda>signing_key.
     key_and_cert_new public_key signing_key
       (take padding_len (drop public_len key_area)) certificate))))))"

definition key_and_cert_decode_from :: "KeyAndCert decoder" where
  "key_and_cert_decode_from =
     bindS (take_bytes KEY_AREA_SIZE) (\<lambda>key_area.
     bindS certificate_decode_from (\<lambda>certificate.
     liftS (key_and_cert_parse key_area certificate)))"

definition key_and_cert_encode_into :: "KeyAndCert \<Rightarrow> encoder" where
  "key_and_cert_encode_into k =
     bindS (liftS (key_and_cert_validate k)) (\<lambda>_.
     let public_len = length (pk_bytes (kac_public_key k));
         signing_prefix_len = min (length (sk_bytes (kac_signing_key k))) LEGACY_SIGNING_KEY_SIZE in
     seqS (write_raw (take (min public_len LEGACY_PUBLIC_KEY_SIZE) (pk_bytes (kac_public_key k))))
     (seqS (write_raw (kac_padding k))
     (seqS (write_raw (take signing_prefix_len (sk_bytes (kac_signing_key k))))
           (certificate_encode_into (kac_certificate k)))))"

definition key_area :: "KeyAndCert \<Rightarrow> bytes" where
  "key_area k = pk_bytes (kac_public_key k) @ kac_padding k @ take 128 (sk_bytes (kac_signing_key k))"

definition key_and_cert_wire :: "KeyAndCert \<Rightarrow> bytes" where
  "key_and_cert_wire k = key_area k @ certificate_wire (kac_certificate k)"

definition key_and_cert_ok :: "KeyAndCert \<Rightarrow> bool" where
  "key_and_cert_ok k \<longleftrightarrow>
     public_key_ok (kac_public_key k) \<and> signing_key_ok (kac_signing_key k)
     \<and> certificate_ok (kac_certificate k) \<and> key_and_cert_validate k = Inr ()"

lemma validate_iff:
  assumes "public_key_ok (kac_public_key k)" "signing_key_ok (kac_signing_key k)"
  shows "key_and_cert_validate k = Inr u \<longleftrightarrow>
    certificate_key_types (kac_certificate k) =
      Inr (pk_key_type (kac_public_key k), sk_key_type (kac_signing_key k))
    \<and> certificate_excess (kac_certificate k) =
      (drop 256 (pk_bytes (kac_public_key k)), drop 128 (sk_bytes (kac_signing_key k)))
    \<and> length (kac_padding k) =
      384 - length (pk_bytes (kac_public_key k)) - min (length (sk_bytes (kac_signing_key k))) 128"
proof -
  let ?p = "length (pk_bytes (kac_public_key k))" and ?s = "length (sk_bytes (kac_signing_key k))"
  have p: "crypto_public_key_len (pk_key_type (kac_public_key k)) = Some ?p" "?p \<le> 256"
    using assms(1) crypto_public_key_len_le by (auto simp: public_key_ok_def)
  have s: "signing_public_key_len (sk_key_type (kac_signing_key k)) = Some ?s"
    using assms(2) by (simp add: signing_key_ok_def)
  have "min ?s 128 \<le> 384 - ?p" using p(2) by linarith
  then have "key_and_cert_validate k =
      (if length (kac_padding k) \<noteq> 384 - ?p - min ?s 128
       then Inl (invalid 0 ''identity key padding length'')
       else validate_certificate k ?p ?s (kac_certificate k))"
    using p s by (simp add: key_and_cert_validate_def checked_sub_def common_limits)
  moreover have "drop (min 256 ?p) (pk_bytes (kac_public_key k)) = drop 256 (pk_bytes (kac_public_key k))"
    "drop (min 128 ?s) (sk_bytes (kac_signing_key k)) = drop 128 (sk_bytes (kac_signing_key k))"
    by (simp_all add: min_def)
  moreover have "pk_key_type (kac_public_key k) = ElGamal \<Longrightarrow> ?p = 256"
    "sk_key_type (kac_signing_key k) = DsaSha1 \<Longrightarrow> ?s = 128"
    using p s by auto
  ultimately show ?thesis
    by (cases "kac_certificate k") (auto simp: common_limits)
qed

lemma length_key_area:
  assumes "key_and_cert_ok k"
  shows "length (key_area k) = 384"
proof -
  have "length (pk_bytes (kac_public_key k)) \<le> 256"
    using assms crypto_public_key_len_le by (auto simp: key_and_cert_ok_def public_key_ok_def)
  moreover have "length (kac_padding k) =
      384 - length (pk_bytes (kac_public_key k)) - min (length (sk_bytes (kac_signing_key k))) 128"
    using assms validate_iff [of k "()"] by (simp add: key_and_cert_ok_def)
  ultimately show ?thesis by (simp add: key_area_def)
qed

lemma certificate_excess_length:
  assumes "certificate_ok cert" "certificate_key_types cert = Inr (pt, st)"
    "crypto_public_key_len pt = Some p" "signing_public_key_len st = Some s"
  shows "length (fst (certificate_excess cert)) = p - 256"
    "length (snd (certificate_excess cert)) = s - 128"
  using assms by (cases cert; auto simp: key_certificate_ok_def common_limits)+

lemma key_area_split:
  assumes "length ka = 384" "p \<le> 256" "length es = s - 128"
  shows "take p ka @ take (384 - (p + min s 128)) (drop p ka)
      @ take 128 (drop (384 - min s 128) ka @ es) = ka"
    and "drop 128 (drop (384 - min s 128) ka @ es) = es"
    and "length (drop (384 - min s 128) ka @ es) = s"
proof -
  have len: "length (drop (384 - min s 128) ka) = min s 128" using assms(1) by simp
  have "take 128 (drop (384 - min s 128) ka @ es) = drop (384 - min s 128) ka"
    using len assms(3) by (cases "s \<le> 128") simp_all
  moreover have "drop (384 - (p + min s 128)) (drop p ka) = drop (384 - min s 128) ka"
    using assms(2) by (simp add: drop_drop)
  ultimately show "take p ka @ take (384 - (p + min s 128)) (drop p ka)
      @ take 128 (drop (384 - min s 128) ka @ es) = ka"
    by (metis append_take_drop_id)
  show "drop 128 (drop (384 - min s 128) ka @ es) = es"
    using len assms(3) by (cases "s \<le> 128") simp_all
  show "length (drop (384 - min s 128) ka @ es) = s" using len assms(3) by simp
qed

lemma key_and_cert_parse_sound:
  assumes "length ka = 384" "certificate_ok cert" "key_and_cert_parse ka cert = Inr k"
  shows "key_and_cert_ok k" "kac_certificate k = cert" "key_area k = ka"
proof -
  from assms(3) obtain pt st p s where types: "certificate_key_types cert = Inr (pt, st)"
    and p: "crypto_public_key_len pt = Some p" and s: "signing_public_key_len st = Some s"
    by (auto simp: key_and_cert_parse_def bindR_eq_Inr ok_or_eq_Inr split: prod.splits)
  note excess = certificate_excess_length [OF assms(2) types p s]
  have p256: "p \<le> 256" by (rule crypto_public_key_len_le [OF p])
  with excess have ec: "fst (certificate_excess cert) = []" by simp
  define es where "es = snd (certificate_excess cert)"
  define pk where "pk = \<lparr>pk_key_type = pt, pk_bytes = take p ka\<rparr>"
  define sk where "sk = \<lparr>sk_key_type = st, sk_bytes = drop (384 - min s 128) ka @ es\<rparr>"
  define pad where "pad = take (384 - (p + min s 128)) (drop p ka)"
  have "p + min s 128 \<le> 384" using p256 by linarith
  then have k: "k = \<lparr>kac_public_key = pk, kac_signing_key = sk, kac_padding = pad,
      kac_certificate = cert\<rparr>" and val: "key_and_cert_validate k = Inr ()"
    and ok: "public_key_ok pk" "signing_key_ok sk"
    using assms(3) types p s p256
    by (auto simp: key_and_cert_parse_def key_and_cert_new_def Let_def bindR_eq_Inr
        checked_sub_def common_limits public_key_new_iff signing_public_key_new_iff ec
        pk_def sk_def pad_def es_def)
  show "key_and_cert_ok k" "kac_certificate k = cert"
    using k val ok assms(2) by (simp_all add: key_and_cert_ok_def)
  show "key_area k = ka"
    using key_area_split(1) [OF assms(1) p256, of es s] excess(2)
    by (simp add: k pk_def sk_def pad_def key_area_def es_def)
qed

lemma key_and_cert_parse_complete:
  assumes ok: "key_and_cert_ok k"
  shows "key_and_cert_parse (key_area k) (kac_certificate k) = Inr k"
proof -
  let ?pk = "kac_public_key k" and ?sk = "kac_signing_key k" and ?cert = "kac_certificate k"
  let ?p = "length (pk_bytes ?pk)" and ?s = "length (sk_bytes ?sk)"
  have pk: "public_key_ok ?pk" and sk: "signing_key_ok ?sk" and val: "key_and_cert_validate k = Inr ()"
    using ok by (simp_all add: key_and_cert_ok_def)
  note v = val [unfolded validate_iff [OF pk sk]]
  have p: "crypto_public_key_len (pk_key_type ?pk) = Some ?p" "?p \<le> 256"
    and s: "signing_public_key_len (sk_key_type ?sk) = Some ?s"
    using pk sk crypto_public_key_len_le by (auto simp: public_key_ok_def signing_key_ok_def)
  have sum: "?p + min ?s 128 \<le> 384" using p(2) by linarith
  have sign: "drop (384 - min ?s 128) (key_area k) = take 128 (sk_bytes ?sk)"
  proof -
    have "384 - min ?s 128 = length (pk_bytes ?pk @ kac_padding k)" using v p(2) by simp
    then show ?thesis by (simp add: key_area_def)
  qed
  have pad: "take (384 - (?p + min ?s 128)) (drop ?p (key_area k)) = kac_padding k"
    using v by (simp add: key_area_def)
  have pkn: "public_key_new (pk_key_type ?pk) (pk_bytes ?pk) = Inr ?pk"
    and skn: "signing_public_key_new (sk_key_type ?sk) (sk_bytes ?sk) = Inr ?sk"
    using pk sk by (simp_all add: public_key_new_iff signing_public_key_new_iff)
  have excess: "fst (certificate_excess ?cert) = []" "snd (certificate_excess ?cert) = drop 128 (sk_bytes ?sk)"
    using v p(2) by simp_all
  have new: "key_and_cert_new ?pk ?sk (kac_padding k) ?cert = Inr k"
    using val by (cases k) (simp add: key_and_cert_new_def)
  show ?thesis
    unfolding key_and_cert_parse_def
    using p s sum v
    by (simp add: checked_sub_def common_limits Let_def excess sign pad)
      (simp add: key_area_def pkn skn new)
qed

interpretation key_and_cert: wire_codec key_and_cert_decode_from key_and_cert_encode_into
    key_and_cert_wire key_and_cert_ok
proof
  fix k assume ok: "key_and_cert_ok k"
  show "decodes key_and_cert_decode_from (key_and_cert_wire k) k"
    unfolding key_and_cert_decode_from_def key_and_cert_wire_def
    by (rule decodes_bind [OF decodes_take], simp add: length_key_area [OF ok] common_limits,
        rule decodes_bind_last [OF certificate.decodes_wire])
      (use ok in \<open>simp_all add: key_and_cert_ok_def decodes_lift key_and_cert_parse_complete [OF ok]\<close>)
  have pk: "public_key_ok (kac_public_key k)" and cert: "certificate_ok (kac_certificate k)"
    and val: "key_and_cert_validate k = Inr ()"
    using ok by (simp_all add: key_and_cert_ok_def)
  then have "length (pk_bytes (kac_public_key k)) \<le> 256"
    using crypto_public_key_len_le by (auto simp: public_key_ok_def)
  then have bytes: "take (min (length (pk_bytes (kac_public_key k))) 256) (pk_bytes (kac_public_key k)) =
      pk_bytes (kac_public_key k)"
    "take (min (length (sk_bytes (kac_signing_key k))) 128) (sk_bytes (kac_signing_key k)) =
      take 128 (sk_bytes (kac_signing_key k))"
    by (simp_all add: min_def)
  show "writes (key_and_cert_encode_into k) (key_and_cert_wire k)"
    unfolding key_and_cert_encode_into_def key_and_cert_wire_def key_area_def Let_def common_limits
      bytes val
    by (simp add: append_assoc) (intro writes_seq writes_raw certificate.writes_wire [OF cert])
next
  show "sound key_and_cert_decode_from (\<lambda>k xs. xs = key_and_cert_wire k \<and> key_and_cert_ok k)"
    unfolding key_and_cert_decode_from_def
    by (rule sound_bind [OF sound_take], rule sound_bind [OF certificate.sound_wire],
        rule sound_lift)
      (auto simp: key_and_cert_wire_def common_limits dest: key_and_cert_parse_sound)
qed

subsection \<open>Router identities and destinations\<close>

record RouterIdentity =
  ri_keys :: KeyAndCert

definition router_identity_new :: "KeyAndCert \<Rightarrow> CodecError + RouterIdentity" where
  "router_identity_new keys =
     (if \<not> allowed_in_identity (pk_key_type (kac_public_key keys))
      then Inl (PolicyRejected 0 ''router identity encryption algorithm'')
      else Inr \<lparr>ri_keys = keys\<rparr>)"

definition router_identity_decode_from :: "RouterIdentity decoder" where
  "router_identity_decode_from =
     bindS key_and_cert_decode_from (\<lambda>keys. liftS (router_identity_new keys))"

definition router_identity_encode_into :: "RouterIdentity \<Rightarrow> encoder" where
  "router_identity_encode_into i = key_and_cert_encode_into (ri_keys i)"

definition router_identity_encode_to_vec :: "RouterIdentity \<Rightarrow> nat \<Rightarrow> CodecError + bytes" where
  "router_identity_encode_to_vec i maximum = encode_to_vec maximum (router_identity_encode_into i)"

definition router_identity_hash :: "(bytes \<Rightarrow> bytes) \<Rightarrow> RouterIdentity \<Rightarrow> CodecError + Hash" where
  "router_identity_hash sha256 i =
     bindR (router_identity_encode_to_vec i MAX_COMMON_STRUCTURE_SIZE) (\<lambda>bs.
     Inr (hash_digest sha256 bs))"

definition router_identity_wire :: "RouterIdentity \<Rightarrow> bytes" where
  "router_identity_wire i = key_and_cert_wire (ri_keys i)"

definition identity_keys_ok :: "KeyAndCert \<Rightarrow> bool" where
  "identity_keys_ok keys \<longleftrightarrow>
     key_and_cert_ok keys \<and> allowed_in_identity (pk_key_type (kac_public_key keys))"

definition router_identity_ok :: "RouterIdentity \<Rightarrow> bool" where
  "router_identity_ok i \<longleftrightarrow> identity_keys_ok (ri_keys i)"

record Destination =
  dest_keys :: KeyAndCert

definition destination_new :: "KeyAndCert \<Rightarrow> CodecError + Destination" where
  "destination_new keys =
     (if \<not> allowed_in_identity (pk_key_type (kac_public_key keys))
      then Inl (PolicyRejected 0 ''destination encryption algorithm'')
      else Inr \<lparr>dest_keys = keys\<rparr>)"

definition destination_decode_from :: "Destination decoder" where
  "destination_decode_from =
     bindS key_and_cert_decode_from (\<lambda>keys. liftS (destination_new keys))"

definition destination_encode_into :: "Destination \<Rightarrow> encoder" where
  "destination_encode_into d = key_and_cert_encode_into (dest_keys d)"

definition destination_encode_to_vec :: "Destination \<Rightarrow> nat \<Rightarrow> CodecError + bytes" where
  "destination_encode_to_vec d maximum = encode_to_vec maximum (destination_encode_into d)"

definition destination_decode_from_cursor :: "bytes \<Rightarrow> nat \<Rightarrow> CodecError + Destination" where
  "destination_decode_from_cursor input maximum =
     bindR (cursor_new input maximum) (\<lambda>cursor. fst (destination_decode_from cursor))"

definition destination_hash :: "(bytes \<Rightarrow> bytes) \<Rightarrow> Destination \<Rightarrow> CodecError + Hash" where
  "destination_hash sha256 d =
     bindR (destination_encode_to_vec d MAX_COMMON_STRUCTURE_SIZE) (\<lambda>bs.
     Inr (hash_digest sha256 bs))"

definition destination_wire :: "Destination \<Rightarrow> bytes" where
  "destination_wire d = key_and_cert_wire (dest_keys d)"

definition destination_ok :: "Destination \<Rightarrow> bool" where
  "destination_ok d \<longleftrightarrow> identity_keys_ok (dest_keys d)"

interpretation router_identity: wire_codec router_identity_decode_from router_identity_encode_into
    router_identity_wire router_identity_ok
proof
  fix i assume ok: "router_identity_ok i"
  then show "decodes router_identity_decode_from (router_identity_wire i) i"
    unfolding router_identity_decode_from_def router_identity_wire_def
    by (intro decodes_bind_last [OF key_and_cert.decodes_wire] decodes_lift)
      (simp_all add: router_identity_ok_def identity_keys_ok_def router_identity_new_def)
  from ok show "writes (router_identity_encode_into i) (router_identity_wire i)"
    unfolding router_identity_encode_into_def router_identity_wire_def
    by (intro key_and_cert.writes_wire) (simp add: router_identity_ok_def identity_keys_ok_def)
next
  show "sound router_identity_decode_from (\<lambda>i xs. xs = router_identity_wire i \<and> router_identity_ok i)"
    unfolding router_identity_decode_from_def
    by (rule sound_bind [OF key_and_cert.sound_wire], rule sound_lift)
      (auto simp: router_identity_new_def router_identity_wire_def router_identity_ok_def
        identity_keys_ok_def split: if_splits)
qed

interpretation destination: wire_codec destination_decode_from destination_encode_into
    destination_wire destination_ok
proof
  fix d assume ok: "destination_ok d"
  then show "decodes destination_decode_from (destination_wire d) d"
    unfolding destination_decode_from_def destination_wire_def
    by (intro decodes_bind_last [OF key_and_cert.decodes_wire] decodes_lift)
      (simp_all add: destination_ok_def identity_keys_ok_def destination_new_def)
  from ok show "writes (destination_encode_into d) (destination_wire d)"
    unfolding destination_encode_into_def destination_wire_def
    by (intro key_and_cert.writes_wire) (simp add: destination_ok_def identity_keys_ok_def)
next
  show "sound destination_decode_from (\<lambda>d xs. xs = destination_wire d \<and> destination_ok d)"
    unfolding destination_decode_from_def
    by (rule sound_bind [OF key_and_cert.sound_wire], rule sound_lift)
      (auto simp: destination_new_def destination_wire_def destination_ok_def
        identity_keys_ok_def split: if_splits)
qed

end
