(* ===== verification/Records.thy ===== *)
theory Records
  imports Identity
begin

section \<open>Signed records: LeaseSet and RouterInfo (common/lease.rs, common/router_info.rs)\<close>

text \<open>
  Both records are decoded field by field, and both retain the exact bytes that the signature
  covers next to the decoded fields. The lemmas show that the retained region is the canonical
  encoding of the fields, so what is verified is what is used. \<open>decode_lease_set2_variant\<close> and
  the LeaseSet2 family are not in this theory.
\<close>

definition u8_try_from :: "nat \<Rightarrow> u8 option" where
  "u8_try_from n = (if n < 256 then Some (of_nat n) else None)"

subsection \<open>A record with a trailing signature\<close>

text \<open>
  The tail that \<open>LeaseSet::decode\<close> and \<open>RouterInfo::decode\<close> share: after the fields \<open>u\<close>, the
  offset is the end of the signed region, and the signature's length follows from the signing
  key type. \<open>err\<close> is the error for a type without a known signature length.
\<close>

definition signed_from ::
  "bytes \<Rightarrow> 'u decoder \<Rightarrow> ('u \<Rightarrow> SigningKeyType) \<Rightarrow> (nat \<Rightarrow> SigningKeyType \<Rightarrow> CodecError)
     \<Rightarrow> ('u \<Rightarrow> bytes \<Rightarrow> SignatureValue \<Rightarrow> 'r) \<Rightarrow> 'r decoder" where
  "signed_from input body signing_type err mk =
     bindS body (\<lambda>u.
     bindS (getS dc_offset) (\<lambda>signed_end.
     bindS (liftS (ok_or (signature_len (signing_type u)) (err signed_end (signing_type u)))) (\<lambda>n.
     bindS (take_bytes n) (\<lambda>bs.
     bindS (liftS (signature_value_new (signing_type u) bs)) (\<lambda>signature.
     retS (mk u (take signed_end input) signature))))))"

lemma decode_signed_complete:
  assumes "decodes body xs u" "signature_ok sig" "sv_key_type sig = signing_type u"
    "length (xs @ sv_bytes sig) \<le> maximum" "maximum < usize_limit"
  shows "decode_exact (xs @ sv_bytes sig) maximum
    (signed_from (xs @ sv_bytes sig) body signing_type err mk) = Inr (mk u xs sig)"
proof -
  let ?in = "xs @ sv_bytes sig"
  have len: "length xs + length (sv_bytes sig) < usize_limit" using assms(4,5) by simp
  then have f: "body \<lparr>dc_input = ?in, dc_offset = 0\<rparr> =
      (Inr u, \<lparr>dc_input = ?in, dc_offset = length xs\<rparr>)"
    using decodesD [OF assms(1), of "[]" "sv_bytes sig"] by simp
  have t: "take_bytes (length (sv_bytes sig)) \<lparr>dc_input = ?in, dc_offset = length xs\<rparr> =
      (Inr (sv_bytes sig), \<lparr>dc_input = ?in, dc_offset = length ?in\<rparr>)"
    using decodesD [OF decodes_take [of "sv_bytes sig" "length (sv_bytes sig)", OF refl], of xs "[]"] len
    by simp
  have n: "signature_len (signing_type u) = Some (length (sv_bytes sig))"
    using assms(2,3) by (simp add: signature_ok_def)
  have s: "signature_value_new (signing_type u) (sv_bytes sig) = Inr sig"
    using assms(2,3) by (simp add: signature_value_new_iff)
  have "signed_from ?in body signing_type err mk \<lparr>dc_input = ?in, dc_offset = 0\<rparr> =
      (Inr (mk u xs sig), \<lparr>dc_input = ?in, dc_offset = length ?in\<rparr>)"
    unfolding signed_from_def
    by (simp add: bindS_def f getS_def liftS_def n t s retS_def)
  with assms(4) show ?thesis
    by (simp add: decode_exact_def cursor_new_def cursor_finish_def cursor_is_empty_def
        remaining_def)
qed

lemma decode_signed_sound:
  assumes "sound body P" "maximum < usize_limit"
    and run: "decode_exact input maximum (signed_from input body signing_type err mk) = Inr r"
  shows "\<exists>u xs sig. input = xs @ sv_bytes sig \<and> r = mk u xs sig \<and> P u xs
    \<and> signature_ok sig \<and> sv_key_type sig = signing_type u \<and> length input \<le> maximum"
proof -
  let ?c = "\<lparr>dc_input = input, dc_offset = 0\<rparr>"
  from run have len: "length input \<le> maximum"
    by (auto simp: decode_exact_def cursor_new_def split: if_splits)
  with assms(2) have c: "in_bounds ?c" by (simp add: in_bounds_def)
  from run len obtain c' where "signed_from input body signing_type err mk ?c = (Inr r, c')"
    and fin: "cursor_finish c' = Inr ()"
    by (auto simp: decode_exact_def cursor_new_def bindR_eq_Inr split: prod.splits)
  then obtain u t n bs sig where f: "body ?c = (Inr u, t)"
    and n: "signature_len (signing_type u) = Some n" and b: "take_bytes n t = (Inr bs, c')"
    and s: "signature_value_new (signing_type u) bs = Inr sig"
    and r: "r = mk u (take (dc_offset t) input) sig"
    unfolding signed_from_def
    by (elim bindS_InrE) (auto simp: getS_def liftS_def retS_def ok_or_eq_Inr)
  from assms(1) c f obtain xs where xs: "dc_input t = input" "dc_offset t = length xs"
    "length xs \<le> length input" "take (length xs) input = xs" "P u xs"
    unfolding sound_def by fastforce
  from b xs have bs: "length xs + n \<le> length input" "bs = take n (drop (length xs) input)"
    "c' = t\<lparr>dc_offset := length xs + n\<rparr>"
    by (auto simp: take_bytes_def checked_add_eq_Some split: option.splits if_splits)
  with fin xs have "length input = length xs + n"
    by (auto simp: cursor_finish_def cursor_is_empty_def remaining_def split: if_splits)
  then have "input = xs @ bs" using xs(4) bs(2) by (metis append_take_drop_id length_drop
        add_diff_cancel_left' order_refl take_all)
  with s r xs len show ?thesis
    by (intro exI [of _ u] exI [of _ xs] exI [of _ sig]) (auto simp: signature_value_new_iff)
qed

subsection \<open>Leases\<close>

record Lease =
  le_tunnel_gateway :: Hash
  le_tunnel_id :: u32
  le_end_date :: Date

definition lease_decode_from :: "Lease decoder" where
  "lease_decode_from =
     bindS hash_decode_from (\<lambda>tunnel_gateway.
     bindS read_u32 (\<lambda>tunnel_id.
     bindS date_decode_from (\<lambda>end_date.
     retS \<lparr>le_tunnel_gateway = tunnel_gateway, le_tunnel_id = tunnel_id, le_end_date = end_date\<rparr>)))"

definition lease_encode_into :: "Lease \<Rightarrow> encoder" where
  "lease_encode_into l =
     seqS (hash_encode_into (le_tunnel_gateway l))
     (seqS (write_u32 (le_tunnel_id l))
           (date_encode_into (le_end_date l)))"

definition lease_wire :: "Lease \<Rightarrow> bytes" where
  "lease_wire l =
     hash_bytes (le_tunnel_gateway l) @ be_encode 4 (unat (le_tunnel_id l)) @ date_wire (le_end_date l)"

definition lease_ok :: "Lease \<Rightarrow> bool" where
  "lease_ok l \<longleftrightarrow> hash_valid (le_tunnel_gateway l)"

interpretation lease: wire_codec lease_decode_from lease_encode_into lease_wire lease_ok
proof
  fix l assume ok: "lease_ok l"
  show "decodes lease_decode_from (lease_wire l) l"
    unfolding lease_decode_from_def lease_wire_def
    by (rule decodes_bind [OF hash.decodes_wire], use ok in \<open>simp add: lease_ok_def\<close>,
        rule decodes_bind [OF decodes_u32], rule decodes_bind_last [OF date.decodes_wire], simp)
      (cases l, simp add: decodes_ret)
  show "writes (lease_encode_into l) (lease_wire l)"
    unfolding lease_encode_into_def lease_wire_def
    by (intro writes_seq hash.writes_wire writes_u32 date.writes_wire)
      (use ok in \<open>simp_all add: lease_ok_def\<close>)
next
  show "sound lease_decode_from (\<lambda>l xs. xs = lease_wire l \<and> lease_ok l)"
    unfolding lease_decode_from_def
    by (rule sound_bind [OF hash.sound_wire], rule sound_bind [OF sound_u32],
        rule sound_bind [OF date.sound_wire], rule sound_ret)
      (simp add: lease_wire_def lease_ok_def)
qed

subsection \<open>LeaseSet\<close>

record LeaseSet =
  ls_destination :: Destination
  ls_encryption_key :: PublicKey
  ls_signing_key :: SigningPublicKey
  ls_leases :: "Lease list"
  ls_signed_bytes :: bytes
  ls_signature :: SignatureValue

type_synonym lease_set_body = "Destination \<times> PublicKey \<times> SigningPublicKey \<times> Lease list"

abbreviation destination_signing_type :: "Destination \<Rightarrow> SigningKeyType" where
  "destination_signing_type d \<equiv> sk_key_type (kac_signing_key (dest_keys d))"

fun lease_set_encode_unsigned :: "lease_set_body \<Rightarrow> encoder" where
  "lease_set_encode_unsigned (destination, encryption_key, signing_key, leases) =
     seqS (destination_encode_into destination)
     (seqS (write_raw (pk_bytes encryption_key))
     (seqS (write_raw (sk_bytes signing_key))
     (seqS (bindS (liftS (ok_or (u8_try_from (length leases)) (invalid 0 ''LeaseSet lease count'')))
              write_u8)
           (eachS lease_encode_into leases))))"

definition lease_set_new ::
  "Destination \<Rightarrow> PublicKey \<Rightarrow> SigningPublicKey \<Rightarrow> Lease list \<Rightarrow> SignatureValue \<Rightarrow> CodecError + LeaseSet" where
  "lease_set_new destination encryption_key signing_key leases signature =
     (if pk_key_type encryption_key \<noteq> ElGamal
         \<or> length (pk_bytes encryption_key) \<noteq> LEGACY_PUBLIC_KEY_SIZE
      then Inl (PolicyRejected 0 ''classic LeaseSet encryption key'')
      else if sk_key_type signing_key \<noteq> destination_signing_type destination
         \<or> sv_key_type signature \<noteq> destination_signing_type destination
      then Inl (invalid 0 ''LeaseSet signing type'')
      else if length leases > MAX_LEASES
      then Inl (LengthExceeded 0 (length leases) MAX_LEASES ''LeaseSet lease count'')
      else
        bindR (encode_to_vec MAX_COMMON_STRUCTURE_SIZE
                 (lease_set_encode_unsigned (destination, encryption_key, signing_key, leases)))
          (\<lambda>signed_bytes.
        bindR (ok_or (checked_add (length signed_bytes) (length (sv_bytes signature)))
                 (ArithmeticOverflow (length signed_bytes) ''LeaseSet length'')) (\<lambda>acc.
        if acc > MAX_COMMON_STRUCTURE_SIZE
        then Inl (LengthExceeded (length signed_bytes) acc MAX_COMMON_STRUCTURE_SIZE ''LeaseSet'')
        else Inr \<lparr>ls_destination = destination, ls_encryption_key = encryption_key,
                  ls_signing_key = signing_key, ls_leases = leases,
                  ls_signed_bytes = signed_bytes, ls_signature = signature\<rparr>)))"

text \<open>The fields before the signature, in the order of \<open>LeaseSet::decode\<close>.\<close>

definition lease_set_body_from :: "lease_set_body decoder" where
  "lease_set_body_from =
     bindS destination_decode_from (\<lambda>destination.
     bindS (take_bytes LEGACY_PUBLIC_KEY_SIZE) (\<lambda>key_bytes.
     bindS (liftS (public_key_new ElGamal key_bytes)) (\<lambda>encryption_key.
     let signing_type = destination_signing_type destination in
     bindS (liftS (ok_or (signing_public_key_len signing_type)
              (unsupported 0 ''LeaseSet signing type'' (signing_code_u64 signing_type)))) (\<lambda>n.
     bindS (take_bytes n) (\<lambda>signing_bytes.
     bindS (liftS (signing_public_key_new signing_type signing_bytes)) (\<lambda>signing_key.
     bindS read_u8 (\<lambda>lease_count.
     if unat lease_count > MAX_LEASES
     then failS (\<lambda>c. PolicyRejected (dc_offset c - 1) ''LeaseSet lease count'')
     else
     bindS (repeatS (unat lease_count) lease_decode_from) (\<lambda>leases.
     retS (destination, encryption_key, signing_key, leases)))))))))"

fun lease_set_make :: "lease_set_body \<Rightarrow> bytes \<Rightarrow> SignatureValue \<Rightarrow> LeaseSet" where
  "lease_set_make (destination, encryption_key, signing_key, leases) signed_bytes signature =
     \<lparr>ls_destination = destination, ls_encryption_key = encryption_key,
      ls_signing_key = signing_key, ls_leases = leases,
      ls_signed_bytes = signed_bytes, ls_signature = signature\<rparr>"

definition lease_set_decode :: "bytes \<Rightarrow> nat \<Rightarrow> CodecError + LeaseSet" where
  "lease_set_decode input maximum =
     decode_exact input maximum
       (signed_from input lease_set_body_from (\<lambda>u. destination_signing_type (fst u))
          (\<lambda>_ signing_type. unsupported 0 ''LeaseSet signature type'' (signing_code_u64 signing_type))
          lease_set_make)"

definition lease_set_encode_to_vec :: "LeaseSet \<Rightarrow> nat \<Rightarrow> CodecError + bytes" where
  "lease_set_encode_to_vec ls maximum =
     encode_to_vec maximum
       (seqS (write_raw (ls_signed_bytes ls)) (write_raw (sv_bytes (ls_signature ls))))"

definition decode_lease_set_variant :: "u8 \<Rightarrow> bytes \<Rightarrow> nat \<Rightarrow> CodecError + LeaseSet" where
  "decode_lease_set_variant store_type input maximum =
     (if store_type = 1 then lease_set_decode input maximum
      else if store_type = 3 then Inl (unsupported 0 ''LeaseSet2 variant'' 3)
      else if store_type = 5 then Inl (unsupported 0 ''EncryptedLeaseSet variant'' 5)
      else if store_type = 7 then Inl (unsupported 0 ''MetaLeaseSet variant'' 7)
      else Inl (unsupported 0 ''LeaseSet DatabaseStore type'' (of_nat (unat store_type))))"

fun lease_set_body_wire :: "lease_set_body \<Rightarrow> bytes" where
  "lease_set_body_wire (destination, encryption_key, signing_key, leases) =
     destination_wire destination @ pk_bytes encryption_key @ sk_bytes signing_key
       @ [of_nat (length leases)] @ concat (map lease_wire leases)"

fun lease_set_body_ok :: "lease_set_body \<Rightarrow> bool" where
  "lease_set_body_ok (destination, encryption_key, signing_key, leases) \<longleftrightarrow>
     destination_ok destination
     \<and> public_key_ok encryption_key \<and> pk_key_type encryption_key = ElGamal
     \<and> signing_key_ok signing_key
     \<and> sk_key_type signing_key = destination_signing_type destination
     \<and> length leases \<le> MAX_LEASES \<and> list_all lease_ok leases"

lemma writes_count:
  assumes "n < 256"
  shows "writes (bindS (liftS (ok_or (u8_try_from n) e)) write_u8) [of_nat n]"
  using assms by (simp add: u8_try_from_def writes_u8)

interpretation lease_set_body: wire_codec lease_set_body_from lease_set_encode_unsigned
    lease_set_body_wire lease_set_body_ok
proof
  fix u assume ok: "lease_set_body_ok u"
  obtain d e s ls where u: "u = (d, e, s, ls)" by (cases u) auto
  have len: "length ls \<le> 16" "unat (of_nat (length ls) :: u8) = length ls"
    using ok by (simp_all add: u common_limits unat_of_nat_u8)
  have e: "length (pk_bytes e) = 256" "public_key_new ElGamal (pk_bytes e) = Inr e"
    using ok by (auto simp: u public_key_ok_def public_key_new_iff)
  have s: "signing_public_key_len (destination_signing_type d) = Some (length (sk_bytes s))"
    "signing_public_key_new (destination_signing_type d) (sk_bytes s) = Inr s"
    using ok by (auto simp: u signing_key_ok_def signing_public_key_new_iff)
  have leases: "decodes (bindS (repeatS (length ls) lease_decode_from) (\<lambda>ls. retS (d, e, s, ls)))
      (concat (map lease_wire ls)) u"
    by (rule decodes_bind_last [OF decodes_repeat [OF lease.decodes_wire]])
      (use ok in \<open>auto simp: u list_all_iff decodes_ret\<close>)
  have "decodes (bindS read_u8 (\<lambda>n. if unat n > MAX_LEASES
      then failS (\<lambda>c. PolicyRejected (dc_offset c - 1) ''LeaseSet lease count'')
      else bindS (repeatS (unat n) lease_decode_from) (\<lambda>ls. retS (d, e, s, ls))))
      ([of_nat (length ls)] @ concat (map lease_wire ls)) u"
    by (rule decodes_bind [OF decodes_u8]) (use leases len in \<open>simp add: common_limits\<close>)
  then show "decodes lease_set_body_from (lease_set_body_wire u) u"
    unfolding lease_set_body_from_def u lease_set_body_wire.simps Let_def
    by (intro decodes_bind [OF destination.decodes_wire] decodes_bind [OF decodes_take]
        decodes_bind_lift [OF e(2)] decodes_bind_lift [OF s(2)] decodes_bind_lift)
      (use ok e s in \<open>simp_all add: u common_limits\<close>)
  show "writes (lease_set_encode_unsigned u) (lease_set_body_wire u)"
    unfolding u lease_set_body_wire.simps lease_set_encode_unsigned.simps
    by (intro writes_seq destination.writes_wire writes_raw writes_count writes_each lease.writes_wire)
      (use ok len in \<open>auto simp: u list_all_iff\<close>)
next
  show "sound lease_set_body_from (\<lambda>u xs. xs = lease_set_body_wire u \<and> lease_set_body_ok u)"
    unfolding lease_set_body_from_def Let_def
    by (rule sound_bind [OF destination.sound_wire], rule sound_bind [OF sound_take],
        rule sound_bind_lift, rule sound_bind_lift, rule sound_bind [OF sound_take],
        rule sound_bind_lift, rule sound_bind [OF sound_u8], rule sound_if, rule sound_fail,
        rule sound_bind [OF sound_repeat [OF lease.sound_wire]], rule sound_ret)
      (auto simp: public_key_new_iff signing_public_key_new_iff)
qed

subsection \<open>RouterInfo\<close>

datatype ProtocolVersion = ProtocolVersion str

definition is_ascii_digit :: "u8 \<Rightarrow> bool" where
  "is_ascii_digit b \<longleftrightarrow> 48 \<le> b \<and> b \<le> 57"

definition is_ascii_whitespace :: "u8 \<Rightarrow> bool" where
  "is_ascii_whitespace b \<longleftrightarrow> b = 9 \<or> b = 10 \<or> b = 12 \<or> b = 13 \<or> b = 32"

definition protocol_version_new :: "str \<Rightarrow> CodecError + ProtocolVersion" where
  "protocol_version_new value =
     bindR (validate_text value False ''router version'') (\<lambda>_.
     if \<not> list_all (\<lambda>b. is_ascii_digit b \<or> b = 46) value
     then Inl (invalid 0 ''router version'')
     else Inr (ProtocolVersion value))"

datatype Capabilities = Capabilities str

definition capabilities_new :: "str \<Rightarrow> CodecError + Capabilities" where
  "capabilities_new value =
     bindR (validate_text value True ''router capabilities'') (\<lambda>_.
     if list_ex is_ascii_whitespace value
     then Inl (invalid 0 ''router capabilities'')
     else Inr (Capabilities value))"

text \<open>The string literals \<open>"router.version"\<close> and \<open>"caps"\<close>.\<close>

definition str_lit :: "string \<Rightarrow> str" where
  "str_lit cs = map of_char cs"

definition validate_router_options :: "Mapping \<Rightarrow> CodecError + unit" where
  "validate_router_options options =
     bindR (case mapping_get options (str_lit ''router.version'') of
              Some version \<Rightarrow> bindR (protocol_version_new version) (\<lambda>_. Inr ())
            | None \<Rightarrow> Inr ()) (\<lambda>_.
     case mapping_get options (str_lit ''caps'') of
       Some capabilities \<Rightarrow> bindR (capabilities_new capabilities) (\<lambda>_. Inr ())
     | None \<Rightarrow> Inr ())"

record RouterInfo =
  rinfo_identity :: RouterIdentity
  rinfo_published :: Date
  rinfo_addresses :: "RouterAddress list"
  rinfo_peers :: "Hash list"
  rinfo_options :: Mapping
  rinfo_signed_bytes :: bytes
  rinfo_signature :: SignatureValue

type_synonym router_info_body =
  "RouterIdentity \<times> Date \<times> RouterAddress list \<times> Hash list \<times> Mapping"

abbreviation router_signing_type :: "RouterIdentity \<Rightarrow> SigningKeyType" where
  "router_signing_type i \<equiv> sk_key_type (kac_signing_key (ri_keys i))"

fun router_info_encode_unsigned :: "router_info_body \<Rightarrow> encoder" where
  "router_info_encode_unsigned (router_identity, published, addresses, peers, options) =
     seqS (router_identity_encode_into router_identity)
     (seqS (date_encode_into published)
     (seqS (bindS (liftS (ok_or (u8_try_from (length addresses))
              (invalid 0 ''RouterInfo address count''))) write_u8)
     (seqS (eachS router_address_encode_into addresses)
     (seqS (bindS (liftS (ok_or (u8_try_from (length peers))
              (invalid 0 ''RouterInfo peer count''))) write_u8)
     (seqS (eachS hash_encode_into peers)
           (mapping_encode_into options))))))"

definition router_info_new ::
  "RouterIdentity \<Rightarrow> Date \<Rightarrow> RouterAddress list \<Rightarrow> Hash list \<Rightarrow> Mapping \<Rightarrow> SignatureValue
     \<Rightarrow> CodecError + RouterInfo" where
  "router_info_new router_identity published addresses peers options signature =
     (if length addresses > MAX_ROUTER_ADDRESSES \<or> length peers > 255
      then Inl (LengthExceeded 0 (max (length addresses) (length peers)) MAX_ROUTER_ADDRESSES
                  ''RouterInfo entry count'')
      else if sv_key_type signature \<noteq> router_signing_type router_identity
      then Inl (invalid 0 ''RouterInfo signature type'')
      else
        bindR (validate_router_options options) (\<lambda>_.
        bindR (encode_to_vec MAX_COMMON_STRUCTURE_SIZE
                 (router_info_encode_unsigned (router_identity, published, addresses, peers, options)))
          (\<lambda>signed_bytes.
        bindR (ok_or (checked_add (length signed_bytes) (length (sv_bytes signature)))
                 (ArithmeticOverflow (length signed_bytes) ''RouterInfo length'')) (\<lambda>acc.
        if acc > MAX_COMMON_STRUCTURE_SIZE
        then Inl (LengthExceeded (length signed_bytes) acc MAX_COMMON_STRUCTURE_SIZE ''RouterInfo'')
        else Inr \<lparr>rinfo_identity = router_identity, rinfo_published = published,
                  rinfo_addresses = addresses, rinfo_peers = peers, rinfo_options = options,
                  rinfo_signed_bytes = signed_bytes, rinfo_signature = signature\<rparr>))))"

text \<open>The fields before the signature, in the order of \<open>RouterInfo::decode\<close>.\<close>

definition router_info_body_from :: "nat \<Rightarrow> router_info_body decoder" where
  "router_info_body_from maximum =
     bindS router_identity_decode_from (\<lambda>router_identity.
     bindS date_decode_from (\<lambda>published.
     bindS read_u8 (\<lambda>address_count.
     if unat address_count > MAX_ROUTER_ADDRESSES
     then failS (\<lambda>c. PolicyRejected (dc_offset c - 1) ''RouterInfo address count'')
     else
     bindS (repeatS (unat address_count) (router_address_decode_from maximum)) (\<lambda>addresses.
     bindS read_u8 (\<lambda>peer_count.
     bindS (repeatS (unat peer_count) hash_decode_from) (\<lambda>peers.
     bindS (mapping_decode_from maximum) (\<lambda>options.
     bindS (liftS (validate_router_options options)) (\<lambda>_.
     retS (router_identity, published, addresses, peers, options)))))))))"

fun router_info_make :: "router_info_body \<Rightarrow> bytes \<Rightarrow> SignatureValue \<Rightarrow> RouterInfo" where
  "router_info_make (router_identity, published, addresses, peers, options) signed_bytes signature =
     \<lparr>rinfo_identity = router_identity, rinfo_published = published,
      rinfo_addresses = addresses, rinfo_peers = peers, rinfo_options = options,
      rinfo_signed_bytes = signed_bytes, rinfo_signature = signature\<rparr>"

definition router_info_decode :: "bytes \<Rightarrow> nat \<Rightarrow> CodecError + RouterInfo" where
  "router_info_decode input maximum =
     (if length input > maximum
      then Inl (LengthExceeded 0 (length input) maximum ''RouterInfo'')
      else decode_exact input maximum
        (signed_from input (router_info_body_from maximum) (\<lambda>u. router_signing_type (fst u))
           (\<lambda>signed_end signing_type.
              unsupported signed_end ''RouterInfo signature type'' (signing_code_u64 signing_type))
           router_info_make))"

definition router_info_encode_to_vec :: "RouterInfo \<Rightarrow> nat \<Rightarrow> CodecError + bytes" where
  "router_info_encode_to_vec info maximum =
     encode_to_vec maximum
       (seqS (write_raw (rinfo_signed_bytes info)) (write_raw (sv_bytes (rinfo_signature info))))"

definition router_info_protocol_version :: "RouterInfo \<Rightarrow> CodecError + ProtocolVersion option" where
  "router_info_protocol_version info =
     (case mapping_get (rinfo_options info) (str_lit ''router.version'') of
        None \<Rightarrow> Inr None
      | Some version \<Rightarrow> bindR (protocol_version_new version) (\<lambda>v. Inr (Some v)))"

definition router_info_capabilities :: "RouterInfo \<Rightarrow> CodecError + Capabilities option" where
  "router_info_capabilities info =
     (case mapping_get (rinfo_options info) (str_lit ''caps'') of
        None \<Rightarrow> Inr None
      | Some caps \<Rightarrow> bindR (capabilities_new caps) (\<lambda>v. Inr (Some v)))"

fun router_info_body_wire :: "router_info_body \<Rightarrow> bytes" where
  "router_info_body_wire (router_identity, published, addresses, peers, options) =
     router_identity_wire router_identity @ date_wire published
       @ [of_nat (length addresses)] @ concat (map router_address_wire addresses)
       @ [of_nat (length peers)] @ concat (map hash_bytes peers) @ mapping_wire options"

fun router_info_body_ok :: "nat \<Rightarrow> router_info_body \<Rightarrow> bool" where
  "router_info_body_ok maximum (router_identity, published, addresses, peers, options) \<longleftrightarrow>
     router_identity_ok router_identity
     \<and> length addresses \<le> MAX_ROUTER_ADDRESSES \<and> list_all (router_address_ok maximum) addresses
     \<and> length peers \<le> 255 \<and> list_all hash_valid peers
     \<and> mapping_ok maximum options \<and> validate_router_options options = Inr ()"

interpretation router_info_body: wire_codec "router_info_body_from maximum"
    router_info_encode_unsigned router_info_body_wire "router_info_body_ok maximum" for maximum
proof
  fix u assume ok: "router_info_body_ok maximum u"
  obtain i p as ps os where u: "u = (i, p, as, ps, os)" by (cases u) auto
  have len: "length as \<le> 255" "unat (of_nat (length as) :: u8) = length as"
    "unat (of_nat (length ps) :: u8) = length ps" "length ps \<le> 255"
    using ok by (simp_all add: u common_limits unat_of_nat_u8)
  have opts: "decodes (bindS (mapping_decode_from maximum) (\<lambda>os.
      bindS (liftS (validate_router_options os)) (\<lambda>_. retS (i, p, as, ps, os)))) (mapping_wire os) u"
    by (rule decodes_bind_last [OF mapping.decodes_wire]) (use ok in \<open>simp_all add: u decodes_ret\<close>)
  have "decodes (bindS read_u8 (\<lambda>n. bindS (repeatS (unat n) hash_decode_from) (\<lambda>ps.
      bindS (mapping_decode_from maximum) (\<lambda>os.
      bindS (liftS (validate_router_options os)) (\<lambda>_. retS (i, p, as, ps, os))))))
      ([of_nat (length ps)] @ concat (map hash_bytes ps) @ mapping_wire os) u"
    by (rule decodes_bind [OF decodes_u8], unfold len,
        rule decodes_bind [OF decodes_repeat [OF hash.decodes_wire]])
      (use ok opts in \<open>auto simp: u list_all_iff\<close>)
  then show "decodes (router_info_body_from maximum) (router_info_body_wire u) u"
    unfolding router_info_body_from_def u router_info_body_wire.simps
    by (intro decodes_bind [OF router_identity.decodes_wire] decodes_bind [OF date.decodes_wire]
        decodes_bind [OF decodes_u8])
      (use ok len in \<open>auto simp: u list_all_iff common_limits
        intro!: decodes_bind [OF decodes_repeat [OF router_address.decodes_wire]]\<close>)
  show "writes (router_info_encode_unsigned u) (router_info_body_wire u)"
    unfolding u router_info_body_wire.simps router_info_encode_unsigned.simps
    by (intro writes_seq router_identity.writes_wire date.writes_wire writes_count writes_each
        router_address.writes_wire [where maximum = maximum] hash.writes_wire
        mapping.writes_wire [where maximum = maximum])
      (use ok len in \<open>auto simp: u list_all_iff\<close>)
next
  show "sound (router_info_body_from maximum)
      (\<lambda>u xs. xs = router_info_body_wire u \<and> router_info_body_ok maximum u)"
    unfolding router_info_body_from_def
    by (rule sound_bind [OF router_identity.sound_wire], rule sound_bind [OF date.sound_wire],
        rule sound_bind [OF sound_u8], rule sound_if, rule sound_fail,
        rule sound_bind [OF sound_repeat [OF router_address.sound_wire]],
        rule sound_bind [OF sound_u8],
        rule sound_bind [OF sound_repeat [OF hash.sound_wire]],
        rule sound_bind [OF mapping.sound_wire], rule sound_bind_lift, rule sound_ret)
      (auto simp: less_Suc_eq_le [symmetric])
qed

subsection \<open>What the decoders accept\<close>

lemma encode_signed:
  assumes "maximum < usize_limit"
  shows "encode_to_vec maximum (seqS (write_raw xs) (write_raw ys)) = Inr bs \<longleftrightarrow>
    bs = xs @ ys \<and> length xs + length ys \<le> maximum"
proof -
  have w: "writes (seqS (write_raw xs) (write_raw ys)) (xs @ ys)"
    by (intro writes_seq writes_raw)
  let ?b = "\<lparr>eb_output = [], eb_start_len = 0, eb_maximum = maximum\<rparr>"
  show ?thesis
    using writesD_fits [OF w, of ?b] writesD_full [OF w, of ?b] assms
    by (cases "length xs + length ys \<le> maximum")
      (auto simp: encode_to_vec_def buffer_new_def bindR_eq_Inr)
qed

lemma router_info_decode_iff:
  assumes "maximum < usize_limit"
  shows "router_info_decode input maximum = Inr info \<longleftrightarrow>
    (\<exists>u sig. router_info_body_ok maximum u \<and> signature_ok sig
      \<and> sv_key_type sig = router_signing_type (fst u)
      \<and> input = router_info_body_wire u @ sv_bytes sig \<and> length input \<le> maximum
      \<and> info = router_info_make u (router_info_body_wire u) sig)" (is "?D \<longleftrightarrow> ?W")
proof
  assume ?D
  then show ?W
    using decode_signed_sound [OF router_info_body.sound_wire assms, of input]
    unfolding router_info_decode_def by (fastforce split: if_splits)
next
  assume ?W
  then obtain u sig where *: "router_info_body_ok maximum u" "signature_ok sig"
    "sv_key_type sig = router_signing_type (fst u)"
    "input = router_info_body_wire u @ sv_bytes sig" "length input \<le> maximum"
    "info = router_info_make u (router_info_body_wire u) sig" by blast
  show ?D
    unfolding router_info_decode_def
    using decode_signed_complete [where signing_type = "\<lambda>u. router_signing_type (fst u)",
        OF router_info_body.decodes_wire [OF *(1)] *(2) *(3)] * assms
    by simp
qed

lemma lease_set_decode_iff:
  assumes "maximum < usize_limit"
  shows "lease_set_decode input maximum = Inr ls \<longleftrightarrow>
    (\<exists>u sig. lease_set_body_ok u \<and> signature_ok sig
      \<and> sv_key_type sig = destination_signing_type (fst u)
      \<and> input = lease_set_body_wire u @ sv_bytes sig \<and> length input \<le> maximum
      \<and> ls = lease_set_make u (lease_set_body_wire u) sig)" (is "?D \<longleftrightarrow> ?W")
proof
  assume ?D
  then show ?W
    using decode_signed_sound [OF lease_set_body.sound_wire assms, of input]
    unfolding lease_set_decode_def by fastforce
next
  assume ?W
  then obtain u sig where *: "lease_set_body_ok u" "signature_ok sig"
    "sv_key_type sig = destination_signing_type (fst u)"
    "input = lease_set_body_wire u @ sv_bytes sig" "length input \<le> maximum"
    "ls = lease_set_make u (lease_set_body_wire u) sig" by blast
  show ?D
    unfolding lease_set_decode_def
    using decode_signed_complete [where signing_type = "\<lambda>u. destination_signing_type (fst u)",
        OF lease_set_body.decodes_wire [OF *(1)] *(2) *(3)] * assms
    by simp
qed

lemma router_info_decode_wire:
  assumes "router_info_body_ok maximum u" "signature_ok sig"
    "sv_key_type sig = router_signing_type (fst u)"
    "length (router_info_body_wire u) + length (sv_bytes sig) \<le> maximum" "maximum < usize_limit"
  shows "router_info_decode (router_info_body_wire u @ sv_bytes sig) maximum =
    Inr (router_info_make u (router_info_body_wire u) sig)"
  unfolding router_info_decode_iff [OF assms(5)] using assms
  by (intro exI [of _ u] exI [of _ sig]) simp

lemma lease_set_decode_wire:
  assumes "lease_set_body_ok u" "signature_ok sig"
    "sv_key_type sig = destination_signing_type (fst u)"
    "length (lease_set_body_wire u) + length (sv_bytes sig) \<le> maximum" "maximum < usize_limit"
  shows "lease_set_decode (lease_set_body_wire u @ sv_bytes sig) maximum =
    Inr (lease_set_make u (lease_set_body_wire u) sig)"
  unfolding lease_set_decode_iff [OF assms(5)] using assms
  by (intro exI [of _ u] exI [of _ sig]) simp

lemma structure_limit: "MAX_COMMON_STRUCTURE_SIZE < usize_limit"
  by (simp add: common_limits usize_limit_def)

lemma mapping_ok_limit [simp]: "mapping_ok MAX_COMMON_STRUCTURE_SIZE m \<longleftrightarrow> mapping_ok MAX_MAPPING_BODY_SIZE m"
  by (simp add: mapping_ok_def common_limits)

subsection \<open>Sample records\<close>

text \<open>A legacy identity, a destination and records over them, on which the properties are
  instantiated.\<close>

definition sample_keys :: KeyAndCert where
  "sample_keys =
     \<lparr>kac_public_key = \<lparr>pk_key_type = ElGamal, pk_bytes = replicate 256 7\<rparr>,
      kac_signing_key = \<lparr>sk_key_type = DsaSha1, sk_bytes = replicate 128 9\<rparr>,
      kac_padding = [], kac_certificate = CertNull\<rparr>"

definition sample_options :: Mapping where
  "sample_options = \<lparr>mp_entries =
     [\<lparr>me_key = str_lit ''caps'', me_value = str_lit ''fR''\<rparr>,
      \<lparr>me_key = str_lit ''router.version'', me_value = str_lit ''0.9.66''\<rparr>]\<rparr>"

definition sample_address :: RouterAddress where
  "sample_address = \<lparr>ra_cost = 5, ra_expiration = Date 0, ra_transport_style = str_lit ''NTCP2'',
     ra_options = mapping_empty\<rparr>"

definition sample_signature :: SignatureValue where
  "sample_signature = \<lparr>sv_key_type = DsaSha1, sv_bytes = replicate 40 1\<rparr>"

definition sample_router_info_body :: router_info_body where
  "sample_router_info_body = (\<lparr>ri_keys = sample_keys\<rparr>, Date 1700000000000, [sample_address],
     [Hash (replicate 32 3)], sample_options)"

definition sample_lease_set_body :: lease_set_body where
  "sample_lease_set_body = (\<lparr>dest_keys = sample_keys\<rparr>,
     \<lparr>pk_key_type = ElGamal, pk_bytes = replicate 256 4\<rparr>,
     \<lparr>sk_key_type = DsaSha1, sk_bytes = replicate 128 6\<rparr>,
     [\<lparr>le_tunnel_gateway = Hash (replicate 32 2), le_tunnel_id = 77, le_end_date = Date 9\<rparr>])"

lemma sample_keys_ok: "identity_keys_ok sample_keys"
  by (simp add: identity_keys_ok_def key_and_cert_ok_def public_key_ok_def signing_key_ok_def
      key_and_cert_validate_def checked_sub_def common_limits sample_keys_def)

lemma sample_options_ok: "mapping_ok n sample_options \<longleftrightarrow> 34 \<le> n"
proof -
  have "mapping_canonical sample_options"
    by (simp add: mapping_canonical_def sample_options_def mapping_entry_ok_def key_less_def str_eval str_lit_def)
  moreover have "length (mapping_body sample_options) = 34" 
    by (simp add: mapping_body_def sample_options_def str_lit_def)
  ultimately show ?thesis by (simp add: mapping_ok_def common_limits)
qed

lemma sample_options_valid: "validate_router_options sample_options = Inr ()"
  by (simp add: validate_router_options_def mapping_get_def sample_options_def binary_search_by.simps
      protocol_version_new_def capabilities_new_def is_ascii_digit_def is_ascii_whitespace_def str_eval str_lit_def)

lemma sample_address_ok: "router_address_ok n sample_address"
proof -
  have "is_str (str_lit ''NTCP2'')" "valid_text False (str_lit ''NTCP2'')" by (simp_all add: str_eval str_lit_def)
  then show ?thesis
    by (simp add: router_address_ok_def sample_address_def mapping_ok_def mapping_canonical_def
        mapping_empty_def mapping_body_def)
qed

lemma sample_router_info_body_ok: "router_info_body_ok MAX_COMMON_STRUCTURE_SIZE sample_router_info_body"
  by (simp add: sample_router_info_body_def router_identity_ok_def sample_keys_ok sample_address_ok
      sample_options_ok sample_options_valid hash_valid_def common_limits del: mapping_ok_limit)

lemma sample_lease_set_body_ok: "lease_set_body_ok sample_lease_set_body"
  using sample_keys_ok
  by (simp add: sample_lease_set_body_def destination_ok_def public_key_ok_def signing_key_ok_def
      lease_ok_def hash_valid_def common_limits sample_keys_def)

lemma sample_signature_ok: "signature_ok sample_signature"
  by (simp add: signature_ok_def sample_signature_def)

lemma sample_wire_length:
  "length (router_info_body_wire sample_router_info_body) \<le> 1000"
  "length (lease_set_body_wire sample_lease_set_body) \<le> 1000"
  by (simp_all add: sample_router_info_body_def sample_lease_set_body_def router_identity_wire_def
      destination_wire_def key_and_cert_wire_def key_area_def certificate_wire_def date_wire_def
      router_address_wire_def mapping_wire_def mapping_body_def sample_address_def mapping_empty_def
      sample_options_def str_lit_def sample_keys_def lease_wire_def)
end
