(* ===== verification/Proto_Properties.thy ===== *)
theory Proto_Properties
  imports Records
begin

section \<open>Properties of the common structures\<close>

text \<open>
  The properties of i2pr-proto: canonical mappings, identities and the two signed records. Each
  follows from the wire laws of its structure through the interpretations of \<open>wire_codec\<close>.
\<close>

subsection \<open>Signed records\<close>

text \<open>
  C25. A RouterInfo that decodes retains exactly the bytes its signature covers: the retained
  signed region followed by the signature is the input, the signed region is the canonical
  encoding of the decoded fields, the signature has the length its key type requires, and
  encoding the record gives the input back, byte for byte.
\<close>

theorem router_info_decode_canonical:
  assumes "router_info_decode input maximum = Inr info" "maximum < usize_limit"
  shows "rinfo_signed_bytes info @ sv_bytes (rinfo_signature info) = input
    \<and> encode_to_vec maximum (router_info_encode_unsigned (rinfo_identity info, rinfo_published info,
        rinfo_addresses info, rinfo_peers info, rinfo_options info)) = Inr (rinfo_signed_bytes info)
    \<and> sv_key_type (rinfo_signature info) = router_signing_type (rinfo_identity info)
    \<and> signature_len (sv_key_type (rinfo_signature info)) = Some (length (sv_bytes (rinfo_signature info)))
    \<and> router_info_encode_to_vec info maximum = Inr input"
proof -
  from assms obtain u sig where u: "router_info_body_ok maximum u" "signature_ok sig"
    "sv_key_type sig = router_signing_type (fst u)"
    "input = router_info_body_wire u @ sv_bytes sig" "length input \<le> maximum"
    "info = router_info_make u (router_info_body_wire u) sig"
    unfolding router_info_decode_iff [OF assms(2)] by blast
  have "encode_to_vec maximum (router_info_encode_unsigned u) = Inr (router_info_body_wire u)"
    by (rule router_info_body.encode_wire [OF u(1)]) (use u assms(2) in simp_all)
  with u assms(2) show ?thesis
    by (cases u) (simp add: router_info_encode_to_vec_def encode_signed signature_ok_def)
qed

definition sample_router_info_input :: bytes where
  "sample_router_info_input = router_info_body_wire sample_router_info_body @ sv_bytes sample_signature"

definition sample_router_info :: RouterInfo where
  "sample_router_info = router_info_make sample_router_info_body
     (router_info_body_wire sample_router_info_body) sample_signature"

lemma sample_router_info_decodes: "router_info_decode sample_router_info_input 4096 = Inr sample_router_info"
  unfolding sample_router_info_input_def sample_router_info_def
proof (rule router_info_decode_wire)
  show "router_info_body_ok 4096 sample_router_info_body"
    by (simp add: sample_router_info_body_def router_identity_ok_def sample_keys_ok
        sample_address_ok sample_options_ok sample_options_valid hash_valid_def common_limits)
  show "length (router_info_body_wire sample_router_info_body) + length (sv_bytes sample_signature) \<le> 4096"
    using sample_wire_length(1) by (simp add: sample_signature_def)
  show "sv_key_type sample_signature = router_signing_type (fst sample_router_info_body)"
    by (simp add: sample_signature_def sample_router_info_body_def sample_keys_def)
qed (simp_all add: sample_signature_ok usize_limit_def)

theorem router_info_decode_canonical_witness:
  "router_info_encode_to_vec sample_router_info 4096 = Inr sample_router_info_input"
  using router_info_decode_canonical [OF sample_router_info_decodes] by (simp add: usize_limit_def)

text \<open>
  C26. A RouterInfo built from valid fields by \<open>RouterInfo::new\<close> survives the wire: it encodes
  within the structure limit, and decoding that encoding gives the record back.
\<close>

theorem router_info_new_roundtrip:
  assumes "router_identity_ok i" "list_all (router_address_ok MAX_COMMON_STRUCTURE_SIZE) addresses"
    "list_all hash_valid peers" "mapping_ok MAX_COMMON_STRUCTURE_SIZE options" "signature_ok sig"
    "router_info_new i published addresses peers options sig = Inr info"
  shows "\<exists>bs. router_info_encode_to_vec info MAX_COMMON_STRUCTURE_SIZE = Inr bs
    \<and> router_info_decode bs MAX_COMMON_STRUCTURE_SIZE = Inr info"
proof -
  let ?u = "(i, published, addresses, peers, options)"
  have ok: "router_info_body_ok MAX_COMMON_STRUCTURE_SIZE ?u"
    and ty: "sv_key_type sig = router_signing_type i"
    using assms
    by (auto simp: router_info_new_def bindR_eq_Inr not_less common_limits split: if_splits)
  have rest: "\<exists>xs. encode_to_vec MAX_COMMON_STRUCTURE_SIZE (router_info_encode_unsigned ?u) = Inr xs
      \<and> length xs + length (sv_bytes sig) \<le> MAX_COMMON_STRUCTURE_SIZE
      \<and> info = router_info_make ?u xs sig"
    using assms(6)
    by (auto simp: router_info_new_def bindR_eq_Inr ok_or_eq_Inr checked_add_eq_Some split: if_splits)
  then obtain xs where xs: "encode_to_vec MAX_COMMON_STRUCTURE_SIZE (router_info_encode_unsigned ?u) = Inr xs"
    and len: "length xs + length (sv_bytes sig) \<le> MAX_COMMON_STRUCTURE_SIZE"
    and info: "info = router_info_make ?u xs sig" by blast
  from router_info_body.decode_canonical(1)
    [OF router_info_body.encode_then_decode [OF ok xs structure_limit] structure_limit]
  have "xs = router_info_body_wire ?u" .
  with router_info_decode_wire [OF ok assms(5) _ _ structure_limit] ty len info show ?thesis
    by (auto simp: router_info_encode_to_vec_def encode_signed [OF structure_limit])
qed

theorem router_info_new_roundtrip_witness:
  "\<exists>info bs. router_info_new \<lparr>ri_keys = sample_keys\<rparr> (Date 1700000000000) [sample_address]
       [Hash (replicate 32 3)] sample_options sample_signature = Inr info
     \<and> router_info_encode_to_vec info MAX_COMMON_STRUCTURE_SIZE = Inr bs
     \<and> router_info_decode bs MAX_COMMON_STRUCTURE_SIZE = Inr info"
proof -
  let ?new = "router_info_new \<lparr>ri_keys = sample_keys\<rparr> (Date 1700000000000) [sample_address]
       [Hash (replicate 32 3)] sample_options sample_signature"
  let ?u = sample_router_info_body
  have "encode_to_vec MAX_COMMON_STRUCTURE_SIZE (router_info_encode_unsigned ?u) =
      Inr (router_info_body_wire ?u)"
    using sample_wire_length(1)
    by (intro router_info_body.encode_wire [OF sample_router_info_body_ok] structure_limit)
      (simp add: common_limits)
  then have "?new = Inr (router_info_make ?u (router_info_body_wire ?u) sample_signature)"
    using sample_wire_length(1)
    by (simp add: router_info_new_def sample_options_valid sample_router_info_body_def
        sample_signature_def sample_keys_def common_limits usize_limit_def
        del: router_info_encode_unsigned.simps router_info_body_wire.simps)
  then obtain info where info: "?new = Inr info" by blast
  from router_info_new_roundtrip [OF _ _ _ _ sample_signature_ok info] info show ?thesis
    using sample_router_info_body_ok by (simp add: sample_router_info_body_def)
qed

text \<open>
  C27. The same for classic LeaseSets: what \<open>LeaseSet::decode\<close> accepts is the canonical encoding
  of its fields followed by a signature of the right length, the retained signed region is that
  encoding, at most 16 leases are accepted, and encoding gives the input back.
\<close>

theorem lease_set_decode_canonical:
  assumes "lease_set_decode input maximum = Inr ls" "maximum < usize_limit"
  shows "ls_signed_bytes ls @ sv_bytes (ls_signature ls) = input
    \<and> encode_to_vec maximum (lease_set_encode_unsigned (ls_destination ls, ls_encryption_key ls,
        ls_signing_key ls, ls_leases ls)) = Inr (ls_signed_bytes ls)
    \<and> length (ls_leases ls) \<le> 16
    \<and> sk_key_type (ls_signing_key ls) = destination_signing_type (ls_destination ls)
    \<and> sv_key_type (ls_signature ls) = destination_signing_type (ls_destination ls)
    \<and> lease_set_encode_to_vec ls maximum = Inr input"
proof -
  from assms obtain u sig where u: "lease_set_body_ok u" "signature_ok sig"
    "sv_key_type sig = destination_signing_type (fst u)"
    "input = lease_set_body_wire u @ sv_bytes sig" "length input \<le> maximum"
    "ls = lease_set_make u (lease_set_body_wire u) sig"
    unfolding lease_set_decode_iff [OF assms(2)] by blast
  have "encode_to_vec maximum (lease_set_encode_unsigned u) = Inr (lease_set_body_wire u)"
    by (rule lease_set_body.encode_wire [OF u(1)]) (use u assms(2) in simp_all)
  with u assms(2) show ?thesis
    by (cases u) (simp add: lease_set_encode_to_vec_def encode_signed common_limits)
qed

definition sample_lease_set_input :: bytes where
  "sample_lease_set_input = lease_set_body_wire sample_lease_set_body @ sv_bytes sample_signature"

definition sample_lease_set :: LeaseSet where
  "sample_lease_set = lease_set_make sample_lease_set_body
     (lease_set_body_wire sample_lease_set_body) sample_signature"

lemma sample_lease_set_decodes: "lease_set_decode sample_lease_set_input 4096 = Inr sample_lease_set"
  unfolding sample_lease_set_input_def sample_lease_set_def
proof (rule lease_set_decode_wire)
  show "length (lease_set_body_wire sample_lease_set_body) + length (sv_bytes sample_signature) \<le> 4096"
    using sample_wire_length(2) by (simp add: sample_signature_def)
  show "sv_key_type sample_signature = destination_signing_type (fst sample_lease_set_body)"
    by (simp add: sample_signature_def sample_lease_set_body_def sample_keys_def)
qed (simp_all add: sample_lease_set_body_ok sample_signature_ok usize_limit_def)

theorem lease_set_decode_canonical_witness:
  "lease_set_encode_to_vec sample_lease_set 4096 = Inr sample_lease_set_input
     \<and> length (ls_leases sample_lease_set) \<le> 16"
  using lease_set_decode_canonical [OF sample_lease_set_decodes] by (simp add: usize_limit_def)

subsection \<open>Identities\<close>

text \<open>
  C28. A router identity decodes exactly when it is the canonical encoding of a valid identity:
  the decoder inverts the encoder on valid identities, and whatever it accepts is such an
  encoding, so two inputs never decode to the same identity.
\<close>

theorem router_identity_roundtrip:
  assumes "maximum < usize_limit"
  shows "decode_exact input maximum router_identity_decode_from = Inr i \<longleftrightarrow>
    router_identity_ok i \<and> router_identity_encode_to_vec i maximum = Inr input"
proof
  assume d: "decode_exact input maximum router_identity_decode_from = Inr i"
  show "router_identity_ok i \<and> router_identity_encode_to_vec i maximum = Inr input"
    using router_identity.decode_canonical(2) [OF d assms]
      router_identity.decode_then_encode [OF d assms]
    by (simp add: router_identity_encode_to_vec_def)
next
  assume "router_identity_ok i \<and> router_identity_encode_to_vec i maximum = Inr input"
  then show "decode_exact input maximum router_identity_decode_from = Inr i"
    using router_identity.encode_then_decode assms
    by (simp add: router_identity_encode_to_vec_def)
qed

lemma sample_keys_wire_length: "length (key_and_cert_wire sample_keys) = 387"
  by (simp add: key_and_cert_wire_def key_area_def certificate_wire_def sample_keys_def)

lemma sample_identity_encodes:
  "router_identity_encode_to_vec \<lparr>ri_keys = sample_keys\<rparr> 4096 =
     Inr (router_identity_wire \<lparr>ri_keys = sample_keys\<rparr>)"
  unfolding router_identity_encode_to_vec_def
  by (rule router_identity.encode_wire)
    (simp_all add: router_identity_ok_def sample_keys_ok router_identity_wire_def
      sample_keys_wire_length usize_limit_def)

theorem router_identity_roundtrip_witness:
  "decode_exact (router_identity_wire \<lparr>ri_keys = sample_keys\<rparr>) 4096 router_identity_decode_from =
     Inr \<lparr>ri_keys = sample_keys\<rparr>"
  by (subst router_identity_roundtrip)
    (simp_all add: usize_limit_def router_identity_ok_def sample_keys_ok sample_identity_encodes)

text \<open>
  C29. The hash of a decoded router identity or destination is the digest of exactly the bytes it
  was decoded from, for every digest function.
\<close>

theorem identity_hash_exact:
  "(decode_exact input MAX_COMMON_STRUCTURE_SIZE router_identity_decode_from = Inr i \<longrightarrow>
      router_identity_hash sha256 i = Inr (Hash (sha256 input)))
   \<and> (decode_exact input MAX_COMMON_STRUCTURE_SIZE destination_decode_from = Inr d \<longrightarrow>
      destination_hash sha256 d = Inr (Hash (sha256 input)))"
  using router_identity.decode_then_encode [OF _ structure_limit]
    destination.decode_then_encode [OF _ structure_limit]
  by (simp add: router_identity_hash_def router_identity_encode_to_vec_def hash_digest_def
      destination_hash_def destination_encode_to_vec_def)

theorem identity_hash_exact_witness:
  "router_identity_hash rev \<lparr>ri_keys = sample_keys\<rparr> = Inr (Hash (rev (key_and_cert_wire sample_keys)))
     \<and> destination_hash rev \<lparr>dest_keys = sample_keys\<rparr> = Inr (Hash (rev (key_and_cert_wire sample_keys)))"
proof -
  have "decode_exact (router_identity_wire \<lparr>ri_keys = sample_keys\<rparr>) MAX_COMMON_STRUCTURE_SIZE
      router_identity_decode_from = Inr \<lparr>ri_keys = sample_keys\<rparr>"
    by (rule router_identity.decode_wire [OF _ _ structure_limit])
      (simp_all add: router_identity_ok_def sample_keys_ok router_identity_wire_def
        sample_keys_wire_length common_limits)
  moreover have "decode_exact (destination_wire \<lparr>dest_keys = sample_keys\<rparr>) MAX_COMMON_STRUCTURE_SIZE
      destination_decode_from = Inr \<lparr>dest_keys = sample_keys\<rparr>"
    by (rule destination.decode_wire [OF _ _ structure_limit])
      (simp_all add: destination_ok_def sample_keys_ok destination_wire_def
        sample_keys_wire_length common_limits)
  ultimately show ?thesis
    using identity_hash_exact
    by (simp add: router_identity_wire_def destination_wire_def)
qed

subsection \<open>Mappings\<close>

text \<open>
  C30. The mapping decoder and encoder are inverse on canonical mappings and the decoder accepts
  nothing else: an input decodes to \<open>m\<close> exactly when \<open>m\<close> is canonical (valid entries, keys
  strictly increasing in Java order, body within the limit) and encodes to that input.
\<close>

theorem mapping_roundtrip:
  assumes "maximum < usize_limit"
  shows "mapping_decode input maximum = Inr m \<longleftrightarrow>
    mapping_ok maximum m \<and> mapping_encode_to_vec m maximum = Inr input"
proof
  assume d: "mapping_decode input maximum = Inr m"
  then show "mapping_ok maximum m \<and> mapping_encode_to_vec m maximum = Inr input"
    using mapping.decode_canonical(2) [OF _ assms] mapping.decode_then_encode [OF _ assms]
    by (simp add: mapping_decode_def mapping_encode_to_vec_def)
next
  assume "mapping_ok maximum m \<and> mapping_encode_to_vec m maximum = Inr input"
  then show "mapping_decode input maximum = Inr m"
    using mapping.encode_then_decode assms
    by (simp add: mapping_decode_def mapping_encode_to_vec_def)
qed

theorem mapping_roundtrip_witness:
  "mapping_decode (mapping_wire sample_options) 1000 = Inr sample_options"
proof (subst mapping_roundtrip)
  have "mapping_ok 1000 sample_options" by (simp add: sample_options_ok)
  moreover have "length (mapping_wire sample_options) \<le> 1000"
    by (simp add: mapping_wire_def mapping_body_def sample_options_def str_lit_def)
  ultimately show "mapping_ok 1000 sample_options
      \<and> mapping_encode_to_vec sample_options 1000 = Inr (mapping_wire sample_options)"
    using mapping.encode_wire [of 1000 sample_options 1000]
    by (simp add: mapping_encode_to_vec_def usize_limit_def)
qed (simp add: usize_limit_def)

text \<open>
  C31. \<open>Mapping::from_entries\<close> on key/value strings succeeds exactly when all texts are valid, no
  key occurs twice and the body fits 65535 bytes; the result is canonical, has exactly the given
  entries, and looking a key up returns the value it was given with.
\<close>

theorem mapping_from_entries_correct:
  assumes "\<forall>(k, v)\<in>set kvs. is_str k \<and> is_str v"
  shows "((\<exists>m. mapping_from_entries kvs = Inr m) \<longleftrightarrow>
      (\<forall>(k, v)\<in>set kvs. valid_text True k \<and> valid_text True v)
      \<and> distinct (map fst kvs) \<and> (\<Sum>(k, v)\<leftarrow>kvs. length k + length v + 4) \<le> 65535)
    \<and> (\<forall>m. mapping_from_entries kvs = Inr m \<longrightarrow>
        mapping_ok 65535 m \<and> mset (entry_pairs (mp_entries m)) = mset kvs
        \<and> (\<forall>k. is_str k \<longrightarrow> mapping_get m k = map_of kvs k))"
proof (intro conjI allI impI)
  show "(\<exists>m. mapping_from_entries kvs = Inr m) \<longleftrightarrow>
      (\<forall>(k, v)\<in>set kvs. valid_text True k \<and> valid_text True v)
      \<and> distinct (map fst kvs) \<and> (\<Sum>(k, v)\<leftarrow>kvs. length k + length v + 4) \<le> 65535"
    unfolding mapping_from_entries_iff [OF assms] by blast
next
  fix m assume m: "mapping_from_entries kvs = Inr m"
  note c = mapping_from_entries_canonical [OF assms m]
  show ok: "mapping_ok 65535 m" "mset (entry_pairs (mp_entries m)) = mset kvs"
    using c by (simp_all add: common_limits)
  fix k :: str assume k: "is_str k"
  have canon: "mapping_canonical m" using ok(1) by (simp add: mapping_ok_def)
  then have "distinct (map fst (entry_pairs (mp_entries m)))"
    using key_less_distinct by (simp add: mapping_canonical_def comp_def)
  then have "map_of (entry_pairs (mp_entries m)) = map_of kvs"
    using c(3) mset_eq_setD [OF ok(2)] by (simp add: map_of_inject_set)
  with mapping_get_map_of [OF canon k] show "mapping_get m k = map_of kvs k" by simp
qed

theorem mapping_from_entries_correct_witness:
  "\<exists>m. mapping_from_entries [(str_lit ''router.version'', str_lit ''0.9.66''), (str_lit ''caps'', str_lit ''fR'')]
       = Inr m \<and> mapping_get m (str_lit ''caps'') = Some (str_lit ''fR'')
       \<and> mapping_get m (str_lit ''router.version'') = Some (str_lit ''0.9.66'')"
proof -
  let ?kvs = "[(str_lit ''router.version'', str_lit ''0.9.66''), (str_lit ''caps'', str_lit ''fR'')]"
  have str: "\<forall>(k, v)\<in>set ?kvs. is_str k \<and> is_str v" by (simp add: str_eval str_lit_def)
  have "(\<forall>(k, v)\<in>set ?kvs. valid_text True k \<and> valid_text True v) \<and> distinct (map fst ?kvs)
      \<and> (\<Sum>(k, v)\<leftarrow>?kvs. length k + length v + 4) \<le> 65535"
    by (simp add: str_eval str_lit_def)
  with mapping_from_entries_correct [OF str] str show ?thesis
    by (auto simp: str_lit_def)
qed

subsection \<open>The codec\<close>

text \<open>
  C32. Writing a length-prefixed field is all or nothing: when the field is within the caller's
  limit, its length fits the prefix and prefix and field fit the buffer, exactly the big-endian
  prefix and the bytes are appended; in every other case the buffer is unchanged and an error is
  returned.
\<close>

theorem write_length_prefixed_transactional:
  assumes "eb_maximum b < usize_limit"
  shows "(case prefix_width w of
      Some k \<Rightarrow>
        if length bs \<le> maximum \<and> length bs \<le> w \<and> length (eb_output b) + k + length bs \<le> eb_maximum b
        then write_length_prefixed bs maximum w ctx b =
          (Inr (), b\<lparr>eb_output := eb_output b @ be_encode k (length bs) @ bs\<rparr>)
        else \<exists>err. write_length_prefixed bs maximum w ctx b = (Inl err, b)
    | None \<Rightarrow> \<exists>err. write_length_prefixed bs maximum w ctx b = (Inl err, b))"
proof (cases "prefix_width w")
  case None
  then show ?thesis using write_length_prefixed_fails [of maximum bs w b ctx] by simp
next
  case (Some k)
  have "prefix_bytes w (length bs) = be_encode k (length bs)" if "length bs \<le> w"
    using Some that
    by (auto simp: prefix_width_def prefix_bytes_def unat_of_nat_u16 unat_of_nat_u32 split: if_splits)
  with Some assms write_length_prefixed_fits [OF Some, of bs maximum b ctx]
    write_length_prefixed_fails [of maximum bs w b ctx]
  show ?thesis by (auto simp: not_le)
qed

theorem write_length_prefixed_transactional_witness:
  "write_length_prefixed [1, 2, 3] 10 65535 ''field'' \<lparr>eb_output = [9], eb_start_len = 0, eb_maximum = 6\<rparr>
     = (Inr (), \<lparr>eb_output = [9, 0, 3, 1, 2, 3], eb_start_len = 0, eb_maximum = 6\<rparr>)
   \<and> (\<exists>err. write_length_prefixed [1, 2, 3, 4] 10 65535 ''field'' \<lparr>eb_output = [9], eb_start_len = 0, eb_maximum = 6\<rparr>
     = (Inl err, \<lparr>eb_output = [9], eb_start_len = 0, eb_maximum = 6\<rparr>))"
  using write_length_prefixed_transactional
    [of "\<lparr>eb_output = [9], eb_start_len = 0, eb_maximum = 6\<rparr>" "[1, 2, 3]" 10 65535 "''field''"]
    write_length_prefixed_transactional
    [of "\<lparr>eb_output = [9], eb_start_len = 0, eb_maximum = 6\<rparr>" "[1, 2, 3, 4]" 10 65535 "''field''"]
  by (simp add: prefix_width_def usize_limit_def numeral_2_eq_2)

end
