(* ===== verification/BTree.thy ===== *)
theory BTree
  imports Prelude
begin

section \<open>Ordered maps (std::collections::BTreeMap)\<close>

text \<open>
  \<open>BTreeMap<K, V>\<close> as the association list that its iterator yields: strictly increasing keys.
  \<open>bt_insert\<close>, \<open>bt_remove\<close> and \<open>bt_get\<close> are the operations the sources use; \<open>bt_retain\<close> keeps the
  entries that satisfy a predicate. The locale \<open>ordered_map\<close> is the interface the components
  rely on: the map laws, the number of entries, and how a weight summed over the values (the
  bytes a buffer retains) changes with an update.
\<close>

type_synonym ('k, 'v) btree = "('k \<times> 'v) list"

definition bt_wf :: "('k::linorder, 'v) btree \<Rightarrow> bool" where
  "bt_wf m \<longleftrightarrow> sorted_wrt (<) (map fst m)"

definition bt_get :: "('k, 'v) btree \<Rightarrow> 'k \<Rightarrow> 'v option" where
  "bt_get m k = map_of m k"

fun bt_insert :: "'k::linorder \<Rightarrow> 'v \<Rightarrow> ('k, 'v) btree \<Rightarrow> ('k, 'v) btree" where
  "bt_insert k v [] = [(k, v)]"
| "bt_insert k v ((a, b) # m) =
     (if k < a then (k, v) # (a, b) # m
      else if k = a then (k, v) # m
      else (a, b) # bt_insert k v m)"

fun bt_remove :: "'k \<Rightarrow> ('k, 'v) btree \<Rightarrow> ('k, 'v) btree" where
  "bt_remove k [] = []"
| "bt_remove k ((a, b) # m) = (if k = a then m else (a, b) # bt_remove k m)"

definition bt_contains :: "('k, 'v) btree \<Rightarrow> 'k \<Rightarrow> bool" where
  "bt_contains m k \<longleftrightarrow> bt_get m k \<noteq> None"

definition bt_keys :: "('k, 'v) btree \<Rightarrow> 'k list" where
  "bt_keys m = map fst m"

definition bt_values :: "('k, 'v) btree \<Rightarrow> 'v list" where
  "bt_values m = map snd m"

definition bt_retain :: "('k \<Rightarrow> 'v \<Rightarrow> bool) \<Rightarrow> ('k, 'v) btree \<Rightarrow> ('k, 'v) btree" where
  "bt_retain P m = filter (\<lambda>(k, v). P k v) m"

text \<open>The sum of a weight over the values.\<close>

definition bt_sum :: "('v \<Rightarrow> nat) \<Rightarrow> ('k, 'v) btree \<Rightarrow> nat" where
  "bt_sum f m = sum_list (map (\<lambda>(k, v). f v) m)"

subsection \<open>The laws\<close>

lemma bt_get_Nil [simp]: "bt_get [] k = None"
  by (simp add: bt_get_def)

lemma bt_wf_Nil [simp]: "bt_wf []"
  by (simp add: bt_wf_def)

lemma bt_wf_Cons: "bt_wf ((a, b) # m) \<longleftrightarrow> (\<forall>k\<in>fst ` set m. a < k) \<and> bt_wf m"
  by (auto simp: bt_wf_def)

lemma bt_sum_Nil [simp]: "bt_sum f [] = 0"
  by (simp add: bt_sum_def)

lemma bt_sum_Cons [simp]: "bt_sum f ((a, b) # m) = f b + bt_sum f m"
  by (simp add: bt_sum_def)

lemma bt_get_insert: "bt_get (bt_insert k v m) j = (if j = k then Some v else bt_get m j)"
  by (induction k v m rule: bt_insert.induct) (auto simp: bt_get_def)

lemma set_bt_insert: "fst ` set (bt_insert k v m) = Set.insert k (fst ` set m)"
  by (induction k v m rule: bt_insert.induct) auto

lemma bt_wf_insert: "bt_wf m \<Longrightarrow> bt_wf (bt_insert k v m)"
  by (induction k v m rule: bt_insert.induct) (auto simp: bt_wf_Cons set_bt_insert)

lemma set_bt_remove: "set (bt_remove k m) \<subseteq> set m"
  by (induction m rule: bt_remove.induct) auto

lemma bt_wf_remove: "bt_wf m \<Longrightarrow> bt_wf (bt_remove k m)"
proof (induction m rule: bt_remove.induct)
  case (2 k a b m)
  then show ?case using set_bt_remove [of k m] by (auto simp: bt_wf_Cons)
qed simp

lemma bt_get_fresh: "\<forall>j\<in>fst ` set m. k < j \<Longrightarrow> bt_get m k = None" for k :: "'k::linorder"
  by (force simp: bt_get_def map_of_eq_None_iff)

lemma bt_get_remove: "bt_wf m \<Longrightarrow> bt_get (bt_remove k m) j = (if j = k then None else bt_get m j)"
proof (induction m rule: bt_remove.induct)
  case (2 k a b m)
  then show ?case
    using bt_get_fresh [of m a] by (auto simp: bt_wf_Cons bt_get_def)
qed simp

lemma length_bt_insert:
  "bt_wf m \<Longrightarrow> length (bt_insert k v m) = (if bt_get m k = None then Suc (length m) else length m)"
proof (induction k v m rule: bt_insert.induct)
  case (2 k v a b m)
  then show ?case
    using bt_get_fresh [of m k] by (auto simp: bt_wf_Cons bt_get_def dest: less_trans)
qed simp

lemma length_bt_remove:
  "length (bt_remove k m) = (if bt_get m k = None then length m else length m - 1)"
proof (induction m rule: bt_remove.induct)
  case (2 k a b m)
  then show ?case by (cases m) (auto simp: bt_get_def)
qed simp

lemma bt_get_le_sum: "bt_get m k = Some v \<Longrightarrow> f v \<le> bt_sum f m"
  by (induction m) (auto simp: bt_get_def split: if_splits)

lemma bt_sum_insert:
  "bt_wf m \<Longrightarrow> bt_sum f (bt_insert k v m) + (case bt_get m k of None \<Rightarrow> 0 | Some w \<Rightarrow> f w) = bt_sum f m + f v"
proof (induction k v m rule: bt_insert.induct)
  case (2 k v a b m)
  have "map_of m k = None" if "k < a"
    using 2 that bt_get_fresh [of m k] by (auto simp: bt_wf_Cons bt_get_def dest: less_trans)
  with 2 show ?case by (auto simp: bt_wf_Cons bt_get_def)
qed simp

lemma bt_sum_remove:
  "bt_sum f (bt_remove k m) + (case bt_get m k of None \<Rightarrow> 0 | Some w \<Rightarrow> f w) = bt_sum f m"
  by (induction m rule: bt_remove.induct) (auto simp: bt_get_def)

lemma bt_wf_retain: "bt_wf m \<Longrightarrow> bt_wf (bt_retain P m)"
  by (induction m) (auto simp: bt_retain_def bt_wf_Cons)

lemma bt_get_retain:
  "bt_wf m \<Longrightarrow> bt_get (bt_retain P m) k =
     (case bt_get m k of Some v \<Rightarrow> if P k v then Some v else None | None \<Rightarrow> None)"
proof (induction m)
  case (Cons x m)
  obtain a b where x: "x = (a, b)" by (cases x)
  with Cons have IH: "bt_get (bt_retain P m) k =
      (case bt_get m k of Some v \<Rightarrow> if P k v then Some v else None | None \<Rightarrow> None)"
    by (simp add: bt_wf_Cons)
  have "bt_get m a = None" using Cons.prems bt_get_fresh [of m a] by (simp add: x bt_wf_Cons)
  with IH show ?case by (auto simp: x bt_get_def bt_retain_def split: option.splits)
qed (simp add: bt_retain_def)

lemma length_bt_retain: "length (bt_retain P m) \<le> length m"
  by (simp add: bt_retain_def)

lemma bt_sum_retain: "bt_sum f (bt_retain P m) + bt_sum f (bt_retain (\<lambda>k v. \<not> P k v) m) = bt_sum f m"
  by (induction m) (auto simp: bt_retain_def)

lemma bt_get_set: "bt_wf m \<Longrightarrow> (k, v) \<in> set m \<longleftrightarrow> bt_get m k = Some v"
proof (induction m)
  case (Cons x m)
  obtain a b where x: "x = (a, b)" by (cases x)
  have "bt_get m a = None" using Cons.prems bt_get_fresh [of m a] by (simp add: x bt_wf_Cons)
  moreover have "(k, v) \<in> set m \<longleftrightarrow> bt_get m k = Some v"
    using Cons by (simp add: x bt_wf_Cons)
  ultimately show ?case by (auto simp: x bt_get_def)
qed simp

lemma bt_retain_all: "\<forall>(k, v)\<in>set m. P k v \<Longrightarrow> bt_retain P m = m"
  by (auto simp: bt_retain_def filter_id_conv)

lemma bt_remove_not_in: "bt_get m k = None \<Longrightarrow> bt_remove k m = m"
  by (induction m rule: bt_remove.induct) (auto simp: bt_get_def split: if_splits)

lemma bt_remove_insert: "bt_get m k = None \<Longrightarrow> bt_wf m \<Longrightarrow> bt_remove k (bt_insert k v m) = m"
  by (induction k v m rule: bt_insert.induct) (auto simp: bt_get_def bt_wf_Cons split: if_splits)

lemma bt_remove_insert_same: "bt_wf m \<Longrightarrow> bt_remove k (bt_insert k v m) = bt_remove k m"
proof (induction k v m rule: bt_insert.induct)
  case (2 k v a b m)
  have "bt_remove k m = m" if "k < a"
    using 2 that by (intro bt_remove_not_in bt_get_fresh) (auto simp: bt_wf_Cons dest: less_trans)
  with 2 show ?case by (auto simp: bt_wf_Cons)
qed simp

lemma bt_insert_insert: "bt_insert k v (bt_insert k w m) = bt_insert k v m"
  by (induction k w m rule: bt_insert.induct) auto

text \<open>A map is determined by its lookups.\<close>

lemma bt_ext: "bt_wf m \<Longrightarrow> bt_wf n \<Longrightarrow> (\<And>k. bt_get m k = bt_get n k) \<Longrightarrow> m = n"
proof -
  assume wf: "bt_wf m" "bt_wf n" and eq: "\<And>k. bt_get m k = bt_get n k"
  have "set m = set n" using bt_get_set [OF wf(1)] bt_get_set [OF wf(2)] eq by auto
  moreover have "sorted_wrt (\<lambda>x y. fst x < fst y) m" "sorted_wrt (\<lambda>x y. fst x < fst y) n"
    using wf by (simp_all add: bt_wf_def sorted_wrt_map)
  ultimately show "m = n"
  proof (induction m arbitrary: n)
    case (Cons x m)
    then obtain y n' where n: "n = y # n'" by (cases n) auto
    have "x = y"
      using Cons.prems n by (metis list.set_intros(1) order_less_asym set_ConsD sorted_wrt.simps(2))
    moreover have "x \<notin> set m" "y \<notin> set n'" using Cons.prems(2,3) n by auto
    ultimately have "set m = set n'" using Cons.prems(1) n by (metis insert_ident list.simps(15))
    with Cons n \<open>x = y\<close> show ?case by simp
  qed simp
qed

lemma bt_wf_fold_remove: "bt_wf m \<Longrightarrow> bt_wf (fold bt_remove ks m)"
  by (induction ks arbitrary: m) (simp_all add: bt_wf_remove)

lemma bt_get_fold_remove:
  "bt_wf m \<Longrightarrow> bt_get (fold bt_remove ks m) k = (if k \<in> set ks then None else bt_get m k)"
  by (induction ks arbitrary: m) (auto simp: bt_wf_remove bt_get_remove)

lemma bt_get_values: "bt_get m k = Some v \<Longrightarrow> v \<in> set (bt_values m)"
  by (force simp: bt_get_def bt_values_def dest: map_of_SomeD)

lemma bt_contains_keys: "bt_contains m k \<longleftrightarrow> k \<in> set (bt_keys m)"
  by (auto simp: bt_contains_def bt_keys_def bt_get_def map_of_eq_None_iff)

subsection \<open>The interface\<close>

locale ordered_map =
  fixes get :: "'m \<Rightarrow> 'k::linorder \<Rightarrow> 'v option"
    and ins :: "'k \<Rightarrow> 'v \<Rightarrow> 'm \<Rightarrow> 'm"
    and rem :: "'k \<Rightarrow> 'm \<Rightarrow> 'm"
    and size_of :: "'m \<Rightarrow> nat"
    and weight :: "'m \<Rightarrow> nat"
    and w :: "'v \<Rightarrow> nat"
    and wf :: "'m \<Rightarrow> bool"
  assumes get_ins: "wf m \<Longrightarrow> get (ins k v m) j = (if j = k then Some v else get m j)"
    and get_rem: "wf m \<Longrightarrow> get (rem k m) j = (if j = k then None else get m j)"
    and wf_ins: "wf m \<Longrightarrow> wf (ins k v m)"
    and wf_rem: "wf m \<Longrightarrow> wf (rem k m)"
    and size_ins: "wf m \<Longrightarrow> size_of (ins k v m) = (if get m k = None then Suc (size_of m) else size_of m)"
    and size_rem: "wf m \<Longrightarrow> size_of (rem k m) = (if get m k = None then size_of m else size_of m - 1)"
    and weight_ins: "wf m \<Longrightarrow> weight (ins k v m) + (case get m k of None \<Rightarrow> 0 | Some x \<Rightarrow> w x) = weight m + w v"
    and weight_rem: "wf m \<Longrightarrow> weight (rem k m) + (case get m k of None \<Rightarrow> 0 | Some x \<Rightarrow> w x) = weight m"
begin

lemma weight_ins_fresh: "wf m \<Longrightarrow> get m k = None \<Longrightarrow> weight (ins k v m) = weight m + w v"
  using weight_ins [of m k v] by simp

lemma weight_ins_update: "wf m \<Longrightarrow> get m k = Some x \<Longrightarrow> weight (ins k v m) = weight m - w x + w v"
  using weight_ins [of m k v] weight_rem [of m k] by simp

lemma weight_rem_found: "wf m \<Longrightarrow> get m k = Some x \<Longrightarrow> weight (rem k m) = weight m - w x"
  using weight_rem [of m k] by simp

lemma weight_get: "wf m \<Longrightarrow> get m k = Some x \<Longrightarrow> w x \<le> weight m"
  using weight_rem [of m k] by simp

lemma rem_ins_weight: "wf m \<Longrightarrow> get m k = None \<Longrightarrow> weight (rem k (ins k v m)) = weight m"
  using weight_rem [of "ins k v m" k] weight_ins_fresh [of m k v] by (simp add: get_ins wf_ins)

end

interpretation bt: ordered_map bt_get bt_insert bt_remove length "bt_sum f" f bt_wf for f
  by unfold_locales
    (simp_all add: bt_get_insert bt_get_remove bt_wf_insert bt_wf_remove length_bt_insert
      length_bt_remove bt_sum_insert bt_sum_remove)

lemma bt_sum_values: "bt_sum f m = (\<Sum>v\<leftarrow>bt_values m. f v)"
  by (induction m) (auto simp: bt_sum_def bt_values_def)

end
