(* ===== verification/Tunnel_Fragment.thy ===== *)
theory Tunnel_Fragment
  imports Common BTree
begin

section \<open>Bounded fragment reassembly (i2pr-tunnel/src/fragment.rs)\<close>

text \<open>
  The fragment descriptors of tunnel messages and \<open>BoundedReassembler\<close>, with every operation
  that changes its state. Partial messages are kept in ordered maps; time is supplied by the
  caller. The delivery instructions of data.rs are declared here because fragments carry them.
  \<open>Display\<close> and the \<open>Duration\<close> conversion are not modelled.
\<close>

subsection \<open>Fragments\<close>

definition MAX_REASSEMBLY_MESSAGES :: nat where
  "MAX_REASSEMBLY_MESSAGES = 1024"

definition MAX_REASSEMBLY_BYTES_PER_MESSAGE :: nat where
  "MAX_REASSEMBLY_BYTES_PER_MESSAGE = 62708 + 64"

definition FOLLOW_ON_SEQUENCE_MIN :: u8 where
  "FOLLOW_ON_SEQUENCE_MIN = 1"

definition FOLLOW_ON_SEQUENCE_MAX :: u8 where
  "FOLLOW_ON_SEQUENCE_MAX = 63"

definition MAX_REASSEMBLY_AGGREGATE_BYTES :: nat where
  "MAX_REASSEMBLY_AGGREGATE_BYTES = (MAX_REASSEMBLY_BYTES_PER_MESSAGE + 1) * MAX_REASSEMBLY_MESSAGES div 8"

lemmas reassembly_limits =
  MAX_REASSEMBLY_MESSAGES_def MAX_REASSEMBLY_BYTES_PER_MESSAGE_def FOLLOW_ON_SEQUENCE_MIN_def
  FOLLOW_ON_SEQUENCE_MAX_def MAX_REASSEMBLY_AGGREGATE_BYTES_def

datatype DeliveryInstruction =
    DeliverLocal
  | DeliverTunnel u32 Hash \<comment> \<open>tunnel id, gateway\<close>
  | DeliverRouter Hash

datatype TunnelFragment =
    Unfragmented bytes
  | First u32 bytes \<comment> \<open>message id, body\<close>
  | FollowOn u32 u8 bool bytes \<comment> \<open>message id, sequence, is last, body\<close>

fun fragment_message_id :: "TunnelFragment \<Rightarrow> u32 option" where
  "fragment_message_id (Unfragmented _) = None"
| "fragment_message_id (First message_id _) = Some message_id"
| "fragment_message_id (FollowOn message_id _ _ _) = Some message_id"

fun fragment_body :: "TunnelFragment \<Rightarrow> bytes" where
  "fragment_body (Unfragmented body) = body"
| "fragment_body (First _ body) = body"
| "fragment_body (FollowOn _ _ _ body) = body"

definition fragment_body_len :: "TunnelFragment \<Rightarrow> nat" where
  "fragment_body_len f = length (fragment_body f)"

fun fragment_is_last :: "TunnelFragment \<Rightarrow> bool" where
  "fragment_is_last (Unfragmented _) = True"
| "fragment_is_last (First _ _) = False"
| "fragment_is_last (FollowOn _ _ is_last _) = is_last"

record ReassembledFragment =
  rf_message :: bytes
  rf_delivery :: "DeliveryInstruction option"

text \<open>The derived order of \<open>ReassemblyKey\<close>: context first, then message.\<close>

datatype ReassemblyKey = ReassemblyKey (context_id: u32) (key_message_id: u32)

instantiation ReassemblyKey :: linorder
begin

definition less_ReassemblyKey :: "ReassemblyKey \<Rightarrow> ReassemblyKey \<Rightarrow> bool" where
  "less_ReassemblyKey a b \<longleftrightarrow>
     context_id a < context_id b
     \<or> (context_id a = context_id b \<and> key_message_id a < key_message_id b)"

definition less_eq_ReassemblyKey :: "ReassemblyKey \<Rightarrow> ReassemblyKey \<Rightarrow> bool" where
  "less_eq_ReassemblyKey a b \<longleftrightarrow> a < b \<or> a = b"

instance
  by intro_classes
    (auto simp: less_ReassemblyKey_def less_eq_ReassemblyKey_def intro: ReassemblyKey.expand)

end

datatype FragmentInsertDisposition =
    Inserted nat \<comment> \<open>added bytes\<close>
  | ExactDuplicate

datatype ReassemblyError =
    ConflictingDuplicate u8
  | ConflictingFirstMetadata
  | ConflictingFollowOnTerminalFlag u8 bool bool
  | UnexpectedFollowOnDeliveryInstruction
  | DuplicateFragment u8
  | SequenceOutOfRange u8
  | LastBelowObservedMax u8 u8
  | MessageTooLarge nat nat
  | CapacityExceeded nat
  | UnknownMessage u32 u32
  | AggregateBytesExceeded nat nat

subsection \<open>Partial messages\<close>

record PartialMessage =
  pm_total_fragments :: "u8 option"
  pm_received :: "(u8, bytes) btree"
  pm_last_flags :: "(u8, bool) btree"
  pm_bytes :: nat
  pm_observed_max_sequence :: u8
  pm_has_last :: bool
  pm_last_touched_ms :: u64
  pm_first_delivery :: "DeliveryInstruction option"

definition partial_new :: "u64 \<Rightarrow> PartialMessage" where
  "partial_new now_ms =
     \<lparr>pm_total_fragments = None, pm_received = [], pm_last_flags = [], pm_bytes = 0,
      pm_observed_max_sequence = 0, pm_has_last = False, pm_last_touched_ms = now_ms,
      pm_first_delivery = None\<rparr>"

fun delivery_matches :: "DeliveryInstruction option \<Rightarrow> DeliveryInstruction option \<Rightarrow> bool" where
  "delivery_matches None None = True"
| "delivery_matches (Some left) (Some right) = (left = right)"
| "delivery_matches _ _ = False"

fun classify ::
  "PartialMessage \<Rightarrow> TunnelFragment \<Rightarrow> DeliveryInstruction option
     \<Rightarrow> ReassemblyError + FragmentInsertDisposition" where
  "classify p (Unfragmented body) delivery =
     (case bt_get (pm_received p) 0 of
        Some existing \<Rightarrow>
          if existing \<noteq> body then Inl (ConflictingDuplicate 0) else Inr ExactDuplicate
      | None \<Rightarrow> Inr (Inserted (length body)))"
| "classify p (First _ body) delivery =
     (case bt_get (pm_received p) 0 of
        Some existing \<Rightarrow>
          if existing \<noteq> body then Inl (ConflictingDuplicate 0)
          else if \<not> delivery_matches (pm_first_delivery p) delivery
          then Inl ConflictingFirstMetadata
          else Inr ExactDuplicate
      | None \<Rightarrow> Inr (Inserted (length body)))"
| "classify p (FollowOn _ sequence is_last body) delivery =
     (if delivery \<noteq> None then Inl UnexpectedFollowOnDeliveryInstruction
      else if sequence < FOLLOW_ON_SEQUENCE_MIN \<or> sequence > FOLLOW_ON_SEQUENCE_MAX
      then Inl (SequenceOutOfRange sequence)
      else case bt_get (pm_received p) sequence of
        Some existing \<Rightarrow>
          if existing \<noteq> body then Inl (ConflictingDuplicate sequence)
          else let prior_last = (case bt_get (pm_last_flags p) sequence of Some l \<Rightarrow> l | None \<Rightarrow> False) in
            if prior_last \<noteq> is_last
            then Inl (ConflictingFollowOnTerminalFlag sequence prior_last is_last)
            else Inr ExactDuplicate
      | None \<Rightarrow>
          if is_last \<and> sequence < pm_observed_max_sequence p
          then Inl (LastBelowObservedMax sequence (pm_observed_max_sequence p))
          else Inr (Inserted (length body)))"

fun partial_apply ::
  "TunnelFragment \<Rightarrow> DeliveryInstruction option \<Rightarrow> (PartialMessage, ReassemblyError, unit) rsm" where
  "partial_apply (Unfragmented body) delivery p =
     (let added = length body;
          p = p\<lparr>pm_bytes := saturating_add (pm_bytes p) added\<rparr> in
      if pm_bytes p > MAX_REASSEMBLY_BYTES_PER_MESSAGE
      then let p = p\<lparr>pm_bytes := saturating_sub (pm_bytes p) added\<rparr> in
        (Inl (MessageTooLarge (saturating_add (pm_bytes p) added) MAX_REASSEMBLY_BYTES_PER_MESSAGE), p)
      else (Inr (), p\<lparr>pm_received := bt_insert 0 body (pm_received p)\<rparr>))"
| "partial_apply (First _ body) delivery p =
     (let added = length body;
          p = p\<lparr>pm_bytes := saturating_add (pm_bytes p) added\<rparr> in
      if pm_bytes p > MAX_REASSEMBLY_BYTES_PER_MESSAGE
      then let p = p\<lparr>pm_bytes := saturating_sub (pm_bytes p) added\<rparr> in
        (Inl (MessageTooLarge (saturating_add (pm_bytes p) added) MAX_REASSEMBLY_BYTES_PER_MESSAGE), p)
      else (Inr (), p\<lparr>pm_received := bt_insert 0 body (pm_received p), pm_first_delivery := delivery\<rparr>))"
| "partial_apply (FollowOn _ sequence is_last body) delivery p =
     (let added = length body;
          prior_max = pm_observed_max_sequence p;
          p = p\<lparr>pm_observed_max_sequence := max (pm_observed_max_sequence p) sequence,
                pm_bytes := saturating_add (pm_bytes p) added\<rparr> in
      if pm_bytes p > MAX_REASSEMBLY_BYTES_PER_MESSAGE
      then let p = p\<lparr>pm_bytes := saturating_sub (pm_bytes p) added,
                     pm_observed_max_sequence := prior_max\<rparr> in
        (Inl (MessageTooLarge (saturating_add (pm_bytes p) added) MAX_REASSEMBLY_BYTES_PER_MESSAGE), p)
      else let p = p\<lparr>pm_received := bt_insert sequence body (pm_received p),
                     pm_last_flags := bt_insert sequence is_last (pm_last_flags p)\<rparr> in
        if is_last
        then (Inr (), p\<lparr>pm_has_last := True, pm_total_fragments := Some (sequence + 1)\<rparr>)
        else (Inr (), p))"

definition is_complete :: "PartialMessage \<Rightarrow> bool" where
  "is_complete p \<longleftrightarrow>
     (case pm_total_fragments p of
        Some total' \<Rightarrow> length (pm_received p) = unat total'
      | None \<Rightarrow> False)"

text \<open>The loop of \<open>assemble\<close>: \<open>?\<close> on a missing sequence gives \<open>None\<close>.\<close>

fun assemble_from :: "(u8, bytes) btree \<Rightarrow> nat list \<Rightarrow> bytes option" where
  "assemble_from m [] = Some []"
| "assemble_from m (sequence # rest) =
     (case bt_get m (of_nat sequence) of
        None \<Rightarrow> None
      | Some body \<Rightarrow> map_option (\<lambda>out. body @ out) (assemble_from m rest))"

definition assemble :: "PartialMessage \<Rightarrow> bytes option" where
  "assemble p =
     (if \<not> is_complete p then None
      else case pm_total_fragments p of
        None \<Rightarrow> None
      | Some total' \<Rightarrow> assemble_from (pm_received p) [0..<unat total'])"

subsection \<open>The reassembler\<close>

record BoundedReassembler =
  br_capacity :: nat
  br_aggregate_bytes_max :: nat
  br_partials :: "(ReassemblyKey, PartialMessage) btree"
  br_expiry_ms :: u64
  br_now_ms :: u64
  br_aggregate_bytes :: nat

definition reassembler_new :: "nat \<Rightarrow> nat \<Rightarrow> u64 \<Rightarrow> u64 \<Rightarrow> BoundedReassembler" where
  "reassembler_new capacity aggregate_bytes_max expiry_ms now_ms =
     \<lparr>br_capacity = min capacity MAX_REASSEMBLY_MESSAGES,
      br_aggregate_bytes_max = min aggregate_bytes_max MAX_REASSEMBLY_AGGREGATE_BYTES,
      br_partials = [], br_expiry_ms = expiry_ms, br_now_ms = now_ms, br_aggregate_bytes = 0\<rparr>"

definition set_now :: "u64 \<Rightarrow> BoundedReassembler \<Rightarrow> BoundedReassembler" where
  "set_now now_ms r = r\<lparr>br_now_ms := now_ms\<rparr>"

fun extract_unfragmented_body :: "TunnelFragment \<Rightarrow> bytes" where
  "extract_unfragmented_body (Unfragmented body) = body"
| "extract_unfragmented_body _ = []"

fun classify_new_partial ::
  "TunnelFragment \<Rightarrow> DeliveryInstruction option \<Rightarrow> ReassemblyError + FragmentInsertDisposition" where
  "classify_new_partial (Unfragmented body) delivery = Inr (Inserted (length body))"
| "classify_new_partial (First _ body) delivery = Inr (Inserted (length body))"
| "classify_new_partial (FollowOn _ sequence _ body) delivery =
     (if delivery \<noteq> None then Inl UnexpectedFollowOnDeliveryInstruction
      else if sequence < FOLLOW_ON_SEQUENCE_MIN \<or> sequence > FOLLOW_ON_SEQUENCE_MAX
      then Inl (SequenceOutOfRange sequence)
      else Inr (Inserted (length body)))"

definition partial_expired :: "BoundedReassembler \<Rightarrow> PartialMessage \<Rightarrow> bool" where
  "partial_expired r p \<longleftrightarrow> br_expiry_ms r \<le> word_sat_sub (br_now_ms r) (pm_last_touched_ms p)"

text \<open>The keys are collected first and removed one by one, summing the bytes of what was found.\<close>

definition remove_counted ::
  "(ReassemblyKey, PartialMessage) btree \<times> nat \<Rightarrow> ReassemblyKey
     \<Rightarrow> (ReassemblyKey, PartialMessage) btree \<times> nat" where
  "remove_counted acc key =
     (case bt_get (fst acc) key of
        Some p \<Rightarrow> (bt_remove key (fst acc), snd acc + pm_bytes p)
      | None \<Rightarrow> acc)"

definition expire_due :: "BoundedReassembler \<Rightarrow> BoundedReassembler" where
  "expire_due r =
     (if br_partials r = [] then r
      else let expired = map fst (filter (\<lambda>(key, p). partial_expired r p) (br_partials r));
               result = foldl remove_counted (br_partials r, 0) expired in
        r\<lparr>br_partials := fst result,
          br_aggregate_bytes := saturating_sub (br_aggregate_bytes r) (snd result)\<rparr>)"

definition purge :: "BoundedReassembler \<Rightarrow> BoundedReassembler" where
  "purge r = r\<lparr>br_partials := [], br_aggregate_bytes := 0\<rparr>"

text \<open>\<open>if let Some(p) = self.partials.remove(&key)\<close> with its accounting.\<close>

definition drop_partial :: "ReassemblyKey \<Rightarrow> BoundedReassembler \<Rightarrow> BoundedReassembler" where
  "drop_partial key r =
     (case bt_get (br_partials r) key of
        Some p \<Rightarrow> r\<lparr>br_partials := bt_remove key (br_partials r),
                    br_aggregate_bytes := saturating_sub (br_aggregate_bytes r) (pm_bytes p)\<rparr>
      | None \<Rightarrow> r)"

definition reassembler_classify ::
  "ReassemblyKey \<Rightarrow> TunnelFragment \<Rightarrow> DeliveryInstruction option
     \<Rightarrow> (BoundedReassembler, ReassemblyError, FragmentInsertDisposition) rsm" where
  "reassembler_classify key fragment delivery = (\<lambda>r.
     case bt_get (br_partials r) key of
       Some p \<Rightarrow>
         (case classify p fragment delivery of
            Inr disposition \<Rightarrow> (Inr disposition, r)
          | Inl e \<Rightarrow> (Inl e, drop_partial key r))
     | None \<Rightarrow>
         if length (br_partials r) \<ge> br_capacity r
         then (Inl (CapacityExceeded (br_capacity r)), r)
         else (classify_new_partial fragment delivery, r))"

definition reassembler_store ::
  "ReassemblyKey \<Rightarrow> TunnelFragment \<Rightarrow> DeliveryInstruction option \<Rightarrow> nat
     \<Rightarrow> (BoundedReassembler, ReassemblyError, ReassembledFragment option) rsm" where
  "reassembler_store key fragment delivery added_bytes = (\<lambda>r.
     if (case checked_add (br_aggregate_bytes r) added_bytes of
           Some s \<Rightarrow> s > br_aggregate_bytes_max r | None \<Rightarrow> True)
     then (Inl (AggregateBytesExceeded (saturating_add (br_aggregate_bytes r) added_bytes)
                  (br_aggregate_bytes_max r)), r)
     else
       let p = (case bt_get (br_partials r) key of Some p \<Rightarrow> p | None \<Rightarrow> partial_new (br_now_ms r));
           p = p\<lparr>pm_last_touched_ms := br_now_ms r\<rparr> in
       case partial_apply fragment delivery p of
         (Inl e, p') \<Rightarrow>
           (Inl e, drop_partial key (r\<lparr>br_partials := bt_insert key p' (br_partials r)\<rparr>))
       | (Inr _, p') \<Rightarrow>
           let r = r\<lparr>br_partials := bt_insert key p' (br_partials r),
                     br_aggregate_bytes := saturating_add (br_aggregate_bytes r) added_bytes\<rparr> in
           case assemble p' of
             Some message \<Rightarrow>
               (Inr (Some \<lparr>rf_message = message, rf_delivery = pm_first_delivery p'\<rparr>),
                r\<lparr>br_partials := bt_remove key (br_partials r),
                  br_aggregate_bytes := saturating_sub (br_aggregate_bytes r) (pm_bytes p')\<rparr>)
           | None \<Rightarrow> (Inr None, r))"

definition insert_with_delivery ::
  "ReassemblyKey \<Rightarrow> TunnelFragment \<Rightarrow> DeliveryInstruction option
     \<Rightarrow> (BoundedReassembler, ReassemblyError, ReassembledFragment option) rsm" where
  "insert_with_delivery key fragment delivery = (\<lambda>r.
     let message_id = (case fragment_message_id fragment of Some i \<Rightarrow> i | None \<Rightarrow> 0) in
     case fragment of
       Unfragmented _ \<Rightarrow>
         (Inr (Some \<lparr>rf_message = extract_unfragmented_body fragment, rf_delivery = delivery\<rparr>), r)
     | _ \<Rightarrow>
         if message_id = 0 then (Inl (SequenceOutOfRange 0), r)
         else bindS (reassembler_classify key fragment delivery) (\<lambda>disposition.
                case disposition of
                  ExactDuplicate \<Rightarrow> retS None
                | Inserted added_bytes \<Rightarrow> reassembler_store key fragment delivery added_bytes)
              (expire_due r))"

text \<open>
  \<open>insert\<close> repeats the body of \<open>insert_with_delivery\<close> with no delivery instruction and returns the
  bare message.
\<close>

definition reassembler_insert ::
  "ReassemblyKey \<Rightarrow> TunnelFragment \<Rightarrow> (BoundedReassembler, ReassemblyError, bytes option) rsm" where
  "reassembler_insert key fragment =
     bindS (insert_with_delivery key fragment None) (\<lambda>out. retS (map_option rf_message out))"

subsection \<open>Expiry in closed form\<close>

lemma bt_retain_Cons:
  "bt_retain P ((a, b) # m) = (if P a b then (a, b) # bt_retain P m else bt_retain P m)"
  by (simp add: bt_retain_def)

lemma bt_remove_skip: "k \<notin> fst ` set pre \<Longrightarrow> bt_remove k (pre @ (k, v) # m) = pre @ m"
  by (induction pre) auto

lemma bt_get_skip: "k \<notin> fst ` set pre \<Longrightarrow> bt_get (pre @ (k, v) # m) k = Some v"
  by (induction pre) (auto simp: bt_get_def)

lemma foldl_remove_counted:
  assumes "distinct (map fst (pre @ m))"
  shows "foldl remove_counted (pre @ m, n) (map fst (filter (\<lambda>(k, v). P v) m)) =
    (pre @ bt_retain (\<lambda>k v. \<not> P v) m, n + bt_sum pm_bytes (bt_retain (\<lambda>k v. P v) m))"
  using assms
proof (induction m arbitrary: pre n)
  case Nil
  show ?case by (simp add: bt_retain_def)
next
  case (Cons x m)
  obtain k v where x: "x = (k, v)" by (cases x)
  have k: "k \<notin> fst ` set pre" using Cons.prems by (auto simp: x)
  show ?case
  proof (cases "P v")
    case True
    have "distinct (map fst (pre @ m))" using Cons.prems by (auto simp: x)
    from Cons.IH [OF this] True k show ?thesis
      by (simp add: x remove_counted_def bt_get_skip bt_remove_skip bt_retain_Cons add.assoc)
  next
    case False
    have "distinct (map fst ((pre @ [x]) @ m))" using Cons.prems by simp
    from Cons.IH [OF this] False show ?thesis by (simp add: x bt_retain_Cons)
  qed
qed

lemma bt_wf_distinct: "bt_wf m \<Longrightarrow> distinct (map fst m)"
  by (simp add: bt_wf_def strict_sorted_iff)

lemma expire_due_eq:
  assumes "bt_wf (br_partials r)"
  shows "expire_due r =
    r\<lparr>br_partials := bt_retain (\<lambda>k p. \<not> partial_expired r p) (br_partials r),
      br_aggregate_bytes := br_aggregate_bytes r
        - bt_sum pm_bytes (bt_retain (\<lambda>k p. partial_expired r p) (br_partials r))\<rparr>"
  using foldl_remove_counted [of "[]" "br_partials r" 0 "partial_expired r"] bt_wf_distinct [OF assms]
  by (simp add: expire_due_def bt_retain_def)

subsection \<open>The invariant\<close>

fun fragment_sequence :: "TunnelFragment \<Rightarrow> u8" where
  "fragment_sequence (FollowOn _ sequence _ _) = sequence"
| "fragment_sequence _ = 0"

definition partial_wf :: "PartialMessage \<Rightarrow> bool" where
  "partial_wf p \<longleftrightarrow>
     bt_wf (pm_received p) \<and> bt_wf (pm_last_flags p)
     \<and> pm_bytes p = bt_sum length (pm_received p)
     \<and> pm_bytes p \<le> MAX_REASSEMBLY_BYTES_PER_MESSAGE
     \<and> (\<forall>k. bt_get (pm_received p) k \<noteq> None \<longrightarrow> k \<le> 63)"

definition reassembler_wf :: "BoundedReassembler \<Rightarrow> bool" where
  "reassembler_wf r \<longleftrightarrow>
     bt_wf (br_partials r)
     \<and> length (br_partials r) \<le> br_capacity r \<and> br_capacity r \<le> MAX_REASSEMBLY_MESSAGES
     \<and> br_aggregate_bytes r = bt_sum pm_bytes (br_partials r)
     \<and> br_aggregate_bytes r \<le> br_aggregate_bytes_max r
     \<and> br_aggregate_bytes_max r \<le> MAX_REASSEMBLY_AGGREGATE_BYTES
     \<and> (\<forall>k p. bt_get (br_partials r) k = Some p \<longrightarrow> partial_wf p)"

lemma partial_wf_new [simp]: "partial_wf (partial_new now)"
  by (simp add: partial_wf_def partial_new_def)

lemma partial_wf_touch [simp]: "partial_wf (p\<lparr>pm_last_touched_ms := t\<rparr>) \<longleftrightarrow> partial_wf p"
  by (simp add: partial_wf_def)

lemma classify_Inserted:
  "classify p f d = Inr (Inserted n) \<Longrightarrow>
     n = length (fragment_body f) \<and> bt_get (pm_received p) (fragment_sequence f) = None
     \<and> fragment_sequence f \<le> 63"
  by (induction p f d rule: classify.induct)
    (auto simp: reassembly_limits Let_def split: option.splits if_splits)

lemma classify_new_Inserted:
  "classify_new_partial f d = Inr x \<Longrightarrow>
     x = Inserted (length (fragment_body f)) \<and> fragment_sequence f \<le> 63"
  by (induction f d rule: classify_new_partial.induct)
    (auto simp: reassembly_limits split: if_splits)

text \<open>A fragment that was classified as new is either stored whole or the partial is as before.\<close>

lemma partial_apply_result:
  assumes "pm_bytes p + length (fragment_body f) < usize_limit"
  shows "pm_bytes p + length (fragment_body f) \<le> MAX_REASSEMBLY_BYTES_PER_MESSAGE \<Longrightarrow>
      \<exists>p'. partial_apply f d p = (Inr (), p')
        \<and> pm_received p' = bt_insert (fragment_sequence f) (fragment_body f) (pm_received p)
        \<and> pm_bytes p' = pm_bytes p + length (fragment_body f)
        \<and> (pm_last_flags p' = pm_last_flags p
           \<or> (\<exists>l. pm_last_flags p' = bt_insert (fragment_sequence f) l (pm_last_flags p)))"
    and "\<not> pm_bytes p + length (fragment_body f) \<le> MAX_REASSEMBLY_BYTES_PER_MESSAGE \<Longrightarrow>
      partial_apply f d p = (Inl (MessageTooLarge (pm_bytes p + length (fragment_body f))
        MAX_REASSEMBLY_BYTES_PER_MESSAGE), p)"
  using assms by (cases f; auto simp: Let_def)+

lemma partial_wf_apply:
  assumes wf: "partial_wf p" and fresh: "bt_get (pm_received p) (fragment_sequence f) = None"
    and seq: "fragment_sequence f \<le> 63"
    and fits: "pm_bytes p + length (fragment_body f) \<le> MAX_REASSEMBLY_BYTES_PER_MESSAGE"
    and run: "partial_apply f d p = (Inr (), p')"
  shows "partial_wf p'" and "pm_bytes p' = pm_bytes p + length (fragment_body f)"
proof -
  have "pm_bytes p + length (fragment_body f) < usize_limit"
    using fits by (simp add: reassembly_limits usize_limit_def)
  from partial_apply_result(1) [OF this fits, of d] run
  have p': "pm_received p' = bt_insert (fragment_sequence f) (fragment_body f) (pm_received p)"
    "pm_bytes p' = pm_bytes p + length (fragment_body f)"
    "pm_last_flags p' = pm_last_flags p
      \<or> (\<exists>l. pm_last_flags p' = bt_insert (fragment_sequence f) l (pm_last_flags p))"
    by auto
  then show "pm_bytes p' = pm_bytes p + length (fragment_body f)" by simp
  have "bt_wf (pm_last_flags p')" using p'(3) wf by (auto simp: partial_wf_def bt_wf_insert)
  with p' wf fresh seq fits show "partial_wf p'"
    by (auto simp: partial_wf_def bt_wf_insert bt_get_insert bt.weight_ins_fresh split: if_splits)
qed

subsection \<open>Every operation keeps the invariant\<close>

lemma reassembler_wf_new: "reassembler_wf (reassembler_new capacity maximum expiry now)"
  by (simp add: reassembler_wf_def reassembler_new_def)

lemma reassembler_wf_set_now: "reassembler_wf r \<Longrightarrow> reassembler_wf (set_now now r)"
  by (simp add: reassembler_wf_def set_now_def)

lemma reassembler_wf_purge: "reassembler_wf r \<Longrightarrow> reassembler_wf (purge r)"
  by (simp add: reassembler_wf_def purge_def)

lemma reassembler_wf_expire_due:
  assumes "reassembler_wf r"
  shows "reassembler_wf (expire_due r)"
proof -
  have wf: "bt_wf (br_partials r)" using assms by (simp add: reassembler_wf_def)
  show ?thesis
    using assms bt_sum_retain [of pm_bytes "\<lambda>k p. partial_expired r p" "br_partials r"]
      length_bt_retain [of "\<lambda>k p. \<not> partial_expired r p" "br_partials r"]
    unfolding expire_due_eq [OF wf] reassembler_wf_def
    by (auto simp: bt_wf_retain bt_get_retain [OF wf] split: option.splits if_splits)
qed

lemma reassembler_wf_drop_partial:
  assumes "reassembler_wf r"
  shows "reassembler_wf (drop_partial key r)"
proof (cases "bt_get (br_partials r) key")
  case None
  with assms show ?thesis by (simp add: drop_partial_def)
next
  case (Some p)
  have wf: "bt_wf (br_partials r)" using assms by (simp add: reassembler_wf_def)
  have "bt_sum pm_bytes (bt_remove key (br_partials r)) = bt_sum pm_bytes (br_partials r) - pm_bytes p"
    by (rule bt.weight_rem_found [OF wf Some])
  with assms Some show ?thesis
    by (auto simp: reassembler_wf_def drop_partial_def bt_wf_remove length_bt_remove
        bt_get_remove [OF wf])
qed

lemma reassembler_wf_classify:
  assumes "reassembler_wf r" "reassembler_classify key f d r = (x, r')"
  shows "reassembler_wf r'"
  using assms reassembler_wf_drop_partial [of r key]
  by (auto simp: reassembler_classify_def split: option.splits sum.splits if_splits)

lemma reassembler_classify_Inserted:
  assumes "reassembler_classify key f d r = (Inr (Inserted n), r')" "reassembler_wf r"
  shows "r' = r" and "n = length (fragment_body f)" and "fragment_sequence f \<le> 63"
    and "bt_get (br_partials r) key = None \<Longrightarrow> length (br_partials r) < br_capacity r"
    and "bt_get (br_partials r) key = Some p \<Longrightarrow> bt_get (pm_received p) (fragment_sequence f) = None"
  using assms
  by (auto simp: reassembler_classify_def not_le dest: classify_Inserted classify_new_Inserted
      split: option.splits sum.splits if_splits)

lemma drop_partial_inserted:
  assumes "bt_wf m"
  shows "drop_partial key (r\<lparr>br_partials := bt_insert key p m\<rparr>) =
    r\<lparr>br_partials := bt_remove key (bt_insert key p m),
      br_aggregate_bytes := br_aggregate_bytes r - pm_bytes p\<rparr>"
  using assms by (simp add: drop_partial_def bt_get_insert)

text \<open>The partial message an insertion starts from.\<close>

definition current_partial :: "BoundedReassembler \<Rightarrow> ReassemblyKey \<Rightarrow> PartialMessage" where
  "current_partial r key =
     (case bt_get (br_partials r) key of Some p \<Rightarrow> p | None \<Rightarrow> partial_new (br_now_ms r))
       \<lparr>pm_last_touched_ms := br_now_ms r\<rparr>"

lemma current_partial_wf: "reassembler_wf r \<Longrightarrow> partial_wf (current_partial r key)"
  by (auto simp: current_partial_def reassembler_wf_def split: option.splits)

lemma current_partial_bytes:
  assumes "reassembler_wf r"
  shows "pm_bytes (current_partial r key) \<le> br_aggregate_bytes r"
    and "bt_sum pm_bytes (bt_insert key p (br_partials r)) + pm_bytes (current_partial r key) =
      br_aggregate_bytes r + pm_bytes p"
proof -
  have wf: "bt_wf (br_partials r)" and agg: "br_aggregate_bytes r = bt_sum pm_bytes (br_partials r)"
    using assms by (simp_all add: reassembler_wf_def)
  show "pm_bytes (current_partial r key) \<le> br_aggregate_bytes r"
    using bt_get_le_sum [of "br_partials r" key _ pm_bytes] agg
    by (auto simp: current_partial_def partial_new_def split: option.splits)
  show "bt_sum pm_bytes (bt_insert key p (br_partials r)) + pm_bytes (current_partial r key) =
      br_aggregate_bytes r + pm_bytes p"
    using bt.weight_ins [OF wf, of pm_bytes key p] agg
    by (simp add: current_partial_def partial_new_def split: option.splits)
qed

text \<open>The three outcomes of storing a new fragment within the budget.\<close>

lemma reassembler_store_eq:
  fixes key :: ReassemblyKey
  assumes wf: "reassembler_wf r" and n: "n = length (fragment_body f)"
    and fits: "br_aggregate_bytes r + n \<le> br_aggregate_bytes_max r"
  defines "p \<equiv> current_partial r key"
  shows "\<not> pm_bytes p + n \<le> MAX_REASSEMBLY_BYTES_PER_MESSAGE \<Longrightarrow>
      reassembler_store key f d n r =
        (Inl (MessageTooLarge (pm_bytes p + n) MAX_REASSEMBLY_BYTES_PER_MESSAGE),
         r\<lparr>br_partials := bt_remove key (bt_insert key p (br_partials r)),
           br_aggregate_bytes := br_aggregate_bytes r - pm_bytes p\<rparr>)"
    and "pm_bytes p + n \<le> MAX_REASSEMBLY_BYTES_PER_MESSAGE \<Longrightarrow> partial_apply f d p = (Inr (), p') \<Longrightarrow>
      reassembler_store key f d n r =
        (let r1 = r\<lparr>br_partials := bt_insert key p' (br_partials r),
                    br_aggregate_bytes := br_aggregate_bytes r + n\<rparr> in
         case assemble p' of
           Some message \<Rightarrow>
             (Inr (Some \<lparr>rf_message = message, rf_delivery = pm_first_delivery p'\<rparr>),
              r\<lparr>br_partials := bt_remove key (bt_insert key p' (br_partials r)),
                br_aggregate_bytes := br_aggregate_bytes r + n - pm_bytes p'\<rparr>)
         | None \<Rightarrow> (Inr None, r1))"
proof -
  have bt: "bt_wf (br_partials r)" using wf by (simp add: reassembler_wf_def)
  have limit: "br_aggregate_bytes r + n < usize_limit"
    using wf fits by (simp add: reassembler_wf_def reassembly_limits usize_limit_def)
  have p: "(case bt_get (br_partials r) key of Some p \<Rightarrow> p | None \<Rightarrow> partial_new (br_now_ms r))
      \<lparr>pm_last_touched_ms := br_now_ms r\<rparr> = p"
    by (simp add: p_def current_partial_def)
  have pl: "pm_bytes p + length (fragment_body f) < usize_limit"
    using current_partial_bytes(1) [OF wf, of key] limit by (simp add: p_def n)
  show "reassembler_store key f d n r =
        (Inl (MessageTooLarge (pm_bytes p + n) MAX_REASSEMBLY_BYTES_PER_MESSAGE),
         r\<lparr>br_partials := bt_remove key (bt_insert key p (br_partials r)),
           br_aggregate_bytes := br_aggregate_bytes r - pm_bytes p\<rparr>)"
    if "\<not> pm_bytes p + n \<le> MAX_REASSEMBLY_BYTES_PER_MESSAGE"
    using partial_apply_result(2) [OF pl, of d] that fits limit
    by (simp add: reassembler_store_def Let_def p n not_less drop_partial_inserted [OF bt])
  show "reassembler_store key f d n r =
        (let r1 = r\<lparr>br_partials := bt_insert key p' (br_partials r),
                    br_aggregate_bytes := br_aggregate_bytes r + n\<rparr> in
         case assemble p' of
           Some message \<Rightarrow>
             (Inr (Some \<lparr>rf_message = message, rf_delivery = pm_first_delivery p'\<rparr>),
              r\<lparr>br_partials := bt_remove key (bt_insert key p' (br_partials r)),
                br_aggregate_bytes := br_aggregate_bytes r + n - pm_bytes p'\<rparr>)
         | None \<Rightarrow> (Inr None, r1))"
    if "pm_bytes p + n \<le> MAX_REASSEMBLY_BYTES_PER_MESSAGE" "partial_apply f d p = (Inr (), p')"
    using that fits limit
    by (simp add: reassembler_store_def Let_def p n not_less split: option.split)
qed

lemma reassembler_store_over:
  assumes "reassembler_wf r" "\<not> br_aggregate_bytes r + n \<le> br_aggregate_bytes_max r"
  shows "\<exists>e. reassembler_store key f d n r = (Inl e, r)"
  using assms by (auto simp: reassembler_store_def checked_add_def not_le)

lemma reassembler_wf_store:
  assumes wf: "reassembler_wf r" and n: "n = length (fragment_body f)"
    and seq: "fragment_sequence f \<le> 63"
    and room: "bt_get (br_partials r) key = None \<Longrightarrow> length (br_partials r) < br_capacity r"
    and fresh: "\<And>p. bt_get (br_partials r) key = Some p \<Longrightarrow>
      bt_get (pm_received p) (fragment_sequence f) = None"
    and store: "reassembler_store key f d n r = (x, r')"
  shows "reassembler_wf r'"
proof (cases "br_aggregate_bytes r + n \<le> br_aggregate_bytes_max r")
  case False
  with reassembler_store_over [OF wf False, of key f d] store wf show ?thesis by auto
next
  case fits: True
  let ?p = "current_partial r key" and ?m = "br_partials r"
  have bt: "bt_wf ?m" using wf by (simp add: reassembler_wf_def)
  note acc = current_partial_bytes [OF wf, of key]
  have removed: "reassembler_wf (r\<lparr>br_partials := bt_remove key (bt_insert key q ?m),
      br_aggregate_bytes := br_aggregate_bytes r - pm_bytes ?p\<rparr>)" for q
    using wf acc(2) [of q] bt_sum_remove [of pm_bytes key "bt_insert key q ?m"]
    by (auto simp: reassembler_wf_def bt_wf_remove bt_wf_insert bt_get_remove bt_get_insert
        length_bt_remove length_bt_insert split: if_splits)
  show ?thesis
  proof (cases "pm_bytes ?p + n \<le> MAX_REASSEMBLY_BYTES_PER_MESSAGE")
    case False
    with reassembler_store_eq(1) [OF wf n fits, of key d] store removed [of ?p] show ?thesis by auto
  next
    case small: True
    have pl: "pm_bytes ?p + length (fragment_body f) < usize_limit"
      using small by (simp add: n reassembly_limits usize_limit_def)
    have fresh': "bt_get (pm_received ?p) (fragment_sequence f) = None"
      using fresh by (auto simp: current_partial_def partial_new_def split: option.splits)
    obtain p' where p': "partial_apply f d ?p = (Inr (), p')"
      using partial_apply_result(1) [OF pl, of d] small by (auto simp: n)
    note w = partial_wf_apply [OF current_partial_wf [OF wf] fresh' seq small [unfolded n] p']
    have stored: "reassembler_wf (r\<lparr>br_partials := bt_insert key p' ?m,
        br_aggregate_bytes := br_aggregate_bytes r + n\<rparr>)"
      using wf w acc(2) [of p'] fits room
      by (auto simp: reassembler_wf_def bt_wf_insert bt_get_insert length_bt_insert n
          split: if_splits)
    have "br_aggregate_bytes r + n - pm_bytes p' = br_aggregate_bytes r - pm_bytes ?p"
      using w(2) by (simp add: n)
    with reassembler_store_eq(2) [OF wf n fits small p'] store stored removed [of p']
    show ?thesis by (auto simp: Let_def split: option.splits)
  qed
qed

lemma reassembler_wf_insert:
  assumes wf: "reassembler_wf r" and run: "insert_with_delivery key f d r = (x, r')"
  shows "reassembler_wf r'"
proof -
  let ?go = "bindS (reassembler_classify key f d) (\<lambda>disposition.
      case disposition of ExactDuplicate \<Rightarrow> retS None
        | Inserted n \<Rightarrow> reassembler_store key f d n) (expire_due r)"
  note wf' = reassembler_wf_expire_due [OF wf]
  have go: "reassembler_wf r''" if go: "?go = (y, r'')" for y r''
  proof (cases "reassembler_classify key f d (expire_due r)")
    case (Pair c s)
    show ?thesis
    proof (cases c)
      case (Inl e)
      with go Pair reassembler_wf_classify [OF wf' Pair] show ?thesis by (simp add: bindS_def)
    next
      case (Inr disp)
      show ?thesis
      proof (cases disp)
        case ExactDuplicate
        with go Pair Inr reassembler_wf_classify [OF wf' Pair] show ?thesis
          by (simp add: bindS_def retS_def)
      next
        case (Inserted n)
        note i = reassembler_classify_Inserted [OF Pair [unfolded Inr Inserted] wf']
        from go Pair Inr Inserted i(1) have "reassembler_store key f d n (expire_due r) = (y, r'')"
          by (simp add: bindS_def)
        from reassembler_wf_store [OF wf' i(2,3,4,5) this] show ?thesis by blast
      qed
    qed
  qed
  show ?thesis using run wf go by (cases f) (auto simp: insert_with_delivery_def split: if_splits)
qed

lemma reassembler_wf_plain_insert:
  assumes "reassembler_wf r" "reassembler_insert key f r = (x, r')"
  shows "reassembler_wf r'"
  using assms reassembler_wf_insert [of r key f None]
  by (cases "insert_with_delivery key f None r")
    (auto simp: reassembler_insert_def bindS_def retS_def split: sum.splits)

subsection \<open>Runs\<close>

text \<open>The operations of the reassembler as events.\<close>

datatype ReassemblerEvent =
    EvInsertWithDelivery ReassemblyKey TunnelFragment "DeliveryInstruction option"
  | EvInsert ReassemblyKey TunnelFragment
  | EvSetNow u64
  | EvExpireDue
  | EvPurge

fun reassembler_step :: "ReassemblerEvent \<Rightarrow> BoundedReassembler \<Rightarrow> BoundedReassembler" where
  "reassembler_step (EvInsertWithDelivery key f d) r = snd (insert_with_delivery key f d r)"
| "reassembler_step (EvInsert key f) r = snd (reassembler_insert key f r)"
| "reassembler_step (EvSetNow now) r = set_now now r"
| "reassembler_step EvExpireDue r = expire_due r"
| "reassembler_step EvPurge r = purge r"

interpretation reassembler: event_machine reassembler_step reassembler_wf
proof
  fix r e assume wf: "reassembler_wf r"
  show "reassembler_wf (reassembler_step e r)"
  proof (cases e)
    case (EvInsertWithDelivery key f d)
    then show ?thesis
      using reassembler_wf_insert [OF wf, of key f d] by (cases "insert_with_delivery key f d r") auto
  next
    case (EvInsert key f)
    then show ?thesis
      using reassembler_wf_plain_insert [OF wf, of key f] by (cases "reassembler_insert key f r") auto
  qed (simp_all add: wf reassembler_wf_set_now reassembler_wf_expire_due reassembler_wf_purge)
qed

subsection \<open>An insertion touches one message\<close>

lemma drop_partial_frame:
  "bt_wf (br_partials r) \<Longrightarrow> k \<noteq> key \<Longrightarrow>
     bt_get (br_partials (drop_partial key r)) k = bt_get (br_partials r) k"
  by (auto simp: drop_partial_def bt_get_remove split: option.splits)

lemma reassembler_store_frame:
  assumes "bt_wf (br_partials r)" "k \<noteq> key" "reassembler_store key f d n r = (x, r')"
  shows "bt_get (br_partials r') k = bt_get (br_partials r) k"
  using assms
  by (auto simp: reassembler_store_def Let_def drop_partial_inserted bt_get_remove bt_get_insert
      bt_wf_insert split: prod.splits sum.splits option.splits if_splits)

lemma reassembler_classify_frame:
  assumes "bt_wf (br_partials r)" "k \<noteq> key" "reassembler_classify key f d r = (x, r')"
  shows "bt_get (br_partials r') k = bt_get (br_partials r) k"
  using assms drop_partial_frame [OF assms(1,2)]
  by (auto simp: reassembler_classify_def split: option.splits sum.splits if_splits)

lemma classify_then_store_frame:
  assumes wf: "bt_wf (br_partials r)" and k: "k \<noteq> key"
    and go: "bindS (reassembler_classify key f d) (\<lambda>disposition.
      case disposition of ExactDuplicate \<Rightarrow> retS None
        | Inserted n \<Rightarrow> reassembler_store key f d n) r = (y, r'')"
  shows "bt_get (br_partials r'') k = bt_get (br_partials r) k"
proof (cases "reassembler_classify key f d r")
  case (Pair c s)
  note frame = reassembler_classify_frame [OF wf k Pair]
  show ?thesis
  proof (cases c)
    case (Inl e)
    with go Pair frame show ?thesis by (simp add: bindS_def)
  next
    case (Inr disp)
    with Pair have s: "s = r"
      by (auto simp: reassembler_classify_def split: option.splits sum.splits if_splits)
    with go Pair Inr reassembler_store_frame [OF wf k] show ?thesis
      by (cases disp) (auto simp: bindS_def retS_def)
  qed
qed

lemma insert_frame:
  assumes wf: "reassembler_wf r" and k: "k \<noteq> key"
    and run: "insert_with_delivery key f d r = (x, r')"
  shows "bt_get (br_partials r') k = bt_get (br_partials r) k
    \<or> bt_get (br_partials r') k = bt_get (br_partials (expire_due r)) k"
proof -
  have "bt_wf (br_partials (expire_due r))"
    using reassembler_wf_expire_due [OF wf] by (simp add: reassembler_wf_def)
  from classify_then_store_frame [OF this k] run show ?thesis
    by (cases f) (auto simp: insert_with_delivery_def split: if_splits)
qed

subsection \<open>Limits\<close>

lemma expire_due_limits:
  "br_capacity (expire_due r) = br_capacity r" "br_aggregate_bytes_max (expire_due r) = br_aggregate_bytes_max r"
  by (simp_all add: expire_due_def Let_def)

lemma insert_limits:
  assumes "insert_with_delivery key f d r = (x, r')"
  shows "br_capacity r' = br_capacity r \<and> br_aggregate_bytes_max r' = br_aggregate_bytes_max r"
proof -
  have c: "br_capacity s' = br_capacity s \<and> br_aggregate_bytes_max s' = br_aggregate_bytes_max s"
    if "reassembler_classify key f d s = (y, s')" for s y s'
    using that by (auto simp: reassembler_classify_def drop_partial_def split: option.splits sum.splits if_splits)
  have t: "br_capacity s' = br_capacity s \<and> br_aggregate_bytes_max s' = br_aggregate_bytes_max s"
    if "reassembler_store key f d n s = (y, s')" for s y s' n
    using that by (auto simp: reassembler_store_def drop_partial_def Let_def
        split: option.splits sum.splits if_splits prod.splits)
  have "br_capacity s' = br_capacity s \<and> br_aggregate_bytes_max s' = br_aggregate_bytes_max s"
    if "bindS (reassembler_classify key f d) (\<lambda>disposition.
      case disposition of ExactDuplicate \<Rightarrow> retS None
        | Inserted n \<Rightarrow> reassembler_store key f d n) s = (y, s')" for s y s'
    using that c t
    by (auto simp: bindS_def retS_def split: prod.splits sum.splits FragmentInsertDisposition.splits)
  with assms show ?thesis
    by (cases f) (auto simp: insert_with_delivery_def expire_due_limits split: if_splits)
qed

lemma reassembler_step_limits:
  "br_capacity (reassembler_step e r) = br_capacity r \<and> br_aggregate_bytes_max (reassembler_step e r) = br_aggregate_bytes_max r"
proof (cases e)
  case (EvInsertWithDelivery key f d)
  then show ?thesis
    using insert_limits [of key f d r] by (cases "insert_with_delivery key f d r") auto
next
  case (EvInsert key f)
  then show ?thesis
    using insert_limits [of key f None r] by (cases "insert_with_delivery key f None r")
      (auto simp: reassembler_insert_def bindS_def retS_def split: sum.splits)
qed (simp_all add: set_now_def expire_due_limits purge_def)

lemma reassembler_run_limits:
  "br_capacity (fold reassembler_step es r) = br_capacity r"
  "br_aggregate_bytes_max (fold reassembler_step es r) = br_aggregate_bytes_max r"
  by (induction es arbitrary: r) (simp_all add: reassembler_step_limits)

lemma partial_wf_length:
  assumes "partial_wf p"
  shows "length (pm_received p) \<le> 64"
proof -
  have keys: "distinct (map fst (pm_received p))" using assms by (simp add: partial_wf_def bt_wf_distinct)
  have inj: "inj_on unat A" for A :: "u8 set" by (rule inj_onI) (simp add: word_unat_eq_iff)
  have "k \<le> 63" if "k \<in> set (map fst (pm_received p))" for k
    using assms that by (auto simp: partial_wf_def bt_get_set)
  then have "unat ` set (map fst (pm_received p)) \<subseteq> {..<64}" by (force simp: word_le_nat_alt)
  from card_mono [OF _ this] have "card (set (map fst (pm_received p))) \<le> 64"
    using card_image [OF inj, of "set (map fst (pm_received p))"] by simp
  with distinct_card [OF keys] show ?thesis by simp
qed

lemma reassembler_wf_partials:
  assumes "reassembler_wf r"
  shows "list_all (\<lambda>p. length (pm_received p) \<le> 64 \<and> pm_bytes p = bt_sum length (pm_received p)
    \<and> pm_bytes p \<le> MAX_REASSEMBLY_BYTES_PER_MESSAGE) (bt_values (br_partials r))"
proof -
  have "partial_wf p" if v: "p \<in> set (bt_values (br_partials r))" for p
  proof -
    obtain k where "(k, p) \<in> set (br_partials r)" using v by (auto simp: bt_values_def)
    then have "bt_get (br_partials r) k = Some p" using assms by (simp add: reassembler_wf_def bt_get_set)
    with assms show ?thesis by (simp add: reassembler_wf_def)
  qed
  then show ?thesis using partial_wf_length unfolding list_all_iff partial_wf_def by blast
qed

lemma assemble_from_keys: "assemble_from m xs \<noteq> None \<Longrightarrow> \<forall>i\<in>set xs. bt_get m (of_nat i) \<noteq> None"
  by (induction xs) (auto split: option.splits)

lemma assemble_overrun:
  assumes "bt_wf (pm_received p)" "pm_total_fragments p = Some t" "bt_get (pm_received p) s \<noteq> None" "t \<le> s"
  shows "assemble p = None"
proof (rule ccontr)
  assume "assemble p \<noteq> None"
  then have len: "length (pm_received p) = unat t"
    and all: "\<forall>i<unat t. bt_get (pm_received p) (of_nat i) \<noteq> None"
    using assms(2) assemble_from_keys [of "pm_received p" "[0..<unat t]"]
    by (auto simp: assemble_def is_complete_def split: if_splits)
  let ?K = "set (map fst (pm_received p))"
  have mem: "k \<in> ?K \<longleftrightarrow> bt_get (pm_received p) k \<noteq> None" for k
    using bt_get_set [OF assms(1)] by force
  have "insert s (of_nat ` {..<unat t}) \<subseteq> ?K" using all assms(3) mem by auto
  from card_mono [OF _ this] have "card (insert s (of_nat ` {..<unat t})) \<le> unat t"
    using len card_length [of "map fst (pm_received p)"] by simp
  moreover have "s \<notin> of_nat ` {..<unat t}"
  proof
    assume "s \<in> of_nat ` {..<unat t}"
    then obtain i where "s = of_nat i" "i < unat t" by auto
    with assms(4) unat_u8_lt [of t] unat_of_nat_u8 [of i] show False by (simp add: word_le_nat_alt)
  qed
  moreover have "inj_on (of_nat :: nat \<Rightarrow> u8) {..<unat t}"
    using unat_u8_lt [of t] by (intro inj_onI) (metis lessThan_iff order_less_trans unat_of_nat_u8)
  ultimately show False by (simp add: card_image)
qed

end
