(* ===== verification/Tunnel_Data.thy ===== *)
theory Tunnel_Data
  imports Tunnel_Fragment
begin

section \<open>TunnelData payloads (i2pr-tunnel/src/data.rs)\<close>

text \<open>
  The builder and the parser of the 1008-byte decrypted payload: a four-byte checksum, nonzero
  padding, a zero delimiter and the fragment records, and the split of a complete message into
  records. SHA-256 and the random number generator are not part of the sources: \<open>sha256\<close> is a
  function on bytes, and a generator is a function \<open>fill\<close> that returns the requested number of
  bytes and its next state, or \<open>None\<close> when it fails. The delivery instructions are declared in
  the theory Tunnel-Fragment.
\<close>

unbundle bit_operations_syntax

definition MAX_PLAINTEXT_DATA_BYTES :: nat where
  "MAX_PLAINTEXT_DATA_BYTES = 1008"

definition CHECKSUM_LEN :: nat where
  "CHECKSUM_LEN = 4"

definition MAX_TUNNEL_MESSAGE_PAYLOAD_BYTES :: nat where
  "MAX_TUNNEL_MESSAGE_PAYLOAD_BYTES = 62708"

definition MAX_FRAGMENT_COUNT :: u8 where
  "MAX_FRAGMENT_COUNT = 64"

definition MAX_FRAGMENT_BODY_BYTES :: nat where
  "MAX_FRAGMENT_BODY_BYTES = MAX_PLAINTEXT_DATA_BYTES - 32"

definition MAX_PADDING_RETRY_PER_BYTE :: nat where
  "MAX_PADDING_RETRY_PER_BYTE = 32"

definition FOLLOW_ON_OVERHEAD :: nat where
  "FOLLOW_ON_OVERHEAD = 1 + 4 + 2"

lemmas data_limits =
  MAX_PLAINTEXT_DATA_BYTES_def CHECKSUM_LEN_def MAX_TUNNEL_MESSAGE_PAYLOAD_BYTES_def
  MAX_FRAGMENT_COUNT_def MAX_FRAGMENT_BODY_BYTES_def MAX_PADDING_RETRY_PER_BYTE_def
  FOLLOW_ON_OVERHEAD_def

record FragmentDelivery =
  fd_delivery :: "DeliveryInstruction option"
  fd_fragment :: TunnelFragment

record TunnelPayloadHeader =
  tph_delivery :: DeliveryInstruction
  tph_message_id :: u32
  tph_expiration_ms :: u64

datatype TunnelMessageError =
    PayloadLength nat nat
  | ChecksumMismatch
  | PaddingByteZero
  | DelimiterMissing
  | ReservedDeliveryType u8
  | DelayBitUnsupported
  | ExtendedOptionsBitUnsupported
  | ReservedControlBits u8
  | FragmentSequenceOutOfRange u8
  | TunnelLastBelowObservedMax u8 u8
  | ZeroFragmentLength
  | FragmentLengthExceedsRemaining nat nat
  | TunnelMessageTooLarge nat nat
  | EmptyMessage
  | ZeroMessageId
  | ZeroTunnelId
  | RandomnessUnavailable
  | TooManyFragments u8 u8
  | FragmentBodyTooLarge nat nat
  | PaddingRetryExhausted nat
  | FragmentRangeExhausted

subsection \<open>Records\<close>

fun validate_delivery :: "DeliveryInstruction \<Rightarrow> TunnelMessageError + unit" where
  "validate_delivery DeliverLocal = Inr ()"
| "validate_delivery (DeliverTunnel tunnel_id _) = (if tunnel_id = 0 then Inl ZeroTunnelId else Inr ())"
| "validate_delivery (DeliverRouter _) = Inr ()"

definition validate_header :: "TunnelPayloadHeader \<Rightarrow> TunnelMessageError + unit" where
  "validate_header header =
     (if tph_message_id header = 0 then Inl ZeroMessageId
      else bindR (validate_delivery (tph_delivery header)) (\<lambda>_. Inr ()))"

fun delivery_control :: "DeliveryInstruction \<Rightarrow> u8" where
  "delivery_control DeliverLocal = 0"
| "delivery_control (DeliverTunnel _ _) = 0x20"
| "delivery_control (DeliverRouter _) = 0x40"

fun append_delivery_extra :: "DeliveryInstruction \<Rightarrow> bytes" where
  "append_delivery_extra DeliverLocal = []"
| "append_delivery_extra (DeliverTunnel tunnel_id gateway) =
     be_encode 4 (unat tunnel_id) @ hash_bytes gateway"
| "append_delivery_extra (DeliverRouter router) = hash_bytes router"

text \<open>The size field and the body, for a body whose length fits 16 bits.\<close>

definition encode_sized :: "bytes \<Rightarrow> TunnelMessageError + bytes" where
  "encode_sized body =
     (if length body < 65536 then Inr (be_encode 2 (length body) @ body)
      else Inl (FragmentLengthExceedsRemaining (length body) 65535))"

fun encode_record_parts ::
  "TunnelFragment \<Rightarrow> DeliveryInstruction option \<Rightarrow> TunnelMessageError + bytes" where
  "encode_record_parts (Unfragmented body) (Some delivery) =
     bindR (encode_sized body) (\<lambda>sized.
     Inr ([delivery_control delivery] @ append_delivery_extra delivery @ sized))"
| "encode_record_parts (First message_id body) (Some delivery) =
     bindR (encode_sized body) (\<lambda>sized.
     Inr ([delivery_control delivery OR 0x08] @ append_delivery_extra delivery
            @ be_encode 4 (unat message_id) @ sized))"
| "encode_record_parts (FollowOn message_id sequence is_last body) None =
     bindR (encode_sized body) (\<lambda>sized.
     Inr ([0x80 OR push_bit 1 (sequence AND 0x3F) OR (if is_last then 0x01 else 0x00)]
            @ be_encode 4 (unat message_id) @ sized))"
| "encode_record_parts _ _ = Inl (ReservedControlBits 0)"

definition encode_record :: "FragmentDelivery \<Rightarrow> TunnelMessageError + bytes" where
  "encode_record record = encode_record_parts (fd_fragment record) (fd_delivery record)"

subsection \<open>Packing a payload\<close>

text \<open>
  The retry loop of \<open>fill_nonzero\<close> for one slot ends because \<open>local_attempts\<close> grows up to its bound.
\<close>

function fill_slot ::
  "('r \<Rightarrow> nat \<Rightarrow> (bytes \<times> 'r) option) \<Rightarrow> nat \<Rightarrow> u8 \<Rightarrow> nat \<Rightarrow> nat \<Rightarrow> ('r, TunnelMessageError, u8 \<times> nat) rsm" where
  "fill_slot fill max_total slot local_attempts attempts rng =
     (if slot \<noteq> 0 then (Inr (slot, attempts), rng)
      else if local_attempts \<ge> MAX_PADDING_RETRY_PER_BYTE \<or> attempts \<ge> max_total
      then (Inl (PaddingRetryExhausted (max local_attempts attempts)), rng)
      else case fill rng 1 of
        None \<Rightarrow> (Inl RandomnessUnavailable, rng)
      | Some (bs, rng') \<Rightarrow>
          fill_slot fill max_total (bs ! 0) (saturating_add local_attempts 1)
            (saturating_add attempts 1) rng')"
  by pat_completeness auto
termination
  by (relation "measure (\<lambda>(fill, max_total, slot, local_attempts, attempts, rng).
        MAX_PADDING_RETRY_PER_BYTE - local_attempts)")
    (auto simp: data_limits saturating_add_def usize_limit_def)

declare fill_slot.simps [simp del]

fun fill_slots ::
  "('r \<Rightarrow> nat \<Rightarrow> (bytes \<times> 'r) option) \<Rightarrow> nat \<Rightarrow> nat \<Rightarrow> bytes \<Rightarrow> ('r, TunnelMessageError, bytes) rsm" where
  "fill_slots fill max_total attempts [] = retS []"
| "fill_slots fill max_total attempts (slot # slots) =
     bindS (fill_slot fill max_total slot 0 attempts) (\<lambda>(b, attempts).
     bindS (fill_slots fill max_total attempts slots) (\<lambda>bs.
     retS (b # bs)))"

definition fill_nonzero ::
  "('r \<Rightarrow> nat \<Rightarrow> (bytes \<times> 'r) option) \<Rightarrow> nat \<Rightarrow> ('r, TunnelMessageError, bytes) rsm" where
  "fill_nonzero fill len = (\<lambda>rng.
     if len = 0 then (Inr [], rng)
     else case fill rng len of
       None \<Rightarrow> (Inl RandomnessUnavailable, rng)
     | Some (buf, rng') \<Rightarrow> fill_slots fill (MAX_PADDING_RETRY_PER_BYTE * len) 0 buf rng')"

definition pack_payload ::
  "(bytes \<Rightarrow> bytes) \<Rightarrow> ('r \<Rightarrow> nat \<Rightarrow> (bytes \<times> 'r) option) \<Rightarrow> FragmentDelivery \<Rightarrow> bytes
     \<Rightarrow> ('r, TunnelMessageError, bytes) rsm" where
  "pack_payload sha256 fill record iv =
     bindS (liftS (encode_record record)) (\<lambda>body.
     if length body + CHECKSUM_LEN + 1 > MAX_PLAINTEXT_DATA_BYTES
     then failS (\<lambda>_. FragmentLengthExceedsRemaining (length body + CHECKSUM_LEN + 1) MAX_PLAINTEXT_DATA_BYTES)
     else
     bindS (fill_nonzero fill (MAX_PLAINTEXT_DATA_BYTES - CHECKSUM_LEN - 1 - length body)) (\<lambda>padding.
     retS (take CHECKSUM_LEN (sha256 (body @ iv)) @ padding @ [0] @ body)))"

subsection \<open>Fragmenting a complete message\<close>

fun unfragmented_overhead :: "DeliveryInstruction \<Rightarrow> nat" where
  "unfragmented_overhead DeliverLocal = 1 + 2"
| "unfragmented_overhead (DeliverRouter _) = 1 + 32 + 2"
| "unfragmented_overhead (DeliverTunnel _ _) = 1 + 4 + 32 + 2"

fun fragmented_first_overhead :: "DeliveryInstruction \<Rightarrow> nat" where
  "fragmented_first_overhead DeliverLocal = 1 + 4 + 2"
| "fragmented_first_overhead (DeliverRouter _) = 1 + 32 + 4 + 2"
| "fragmented_first_overhead (DeliverTunnel _ _) = 1 + 4 + 32 + 4 + 2"

text \<open>
  The follow-on loop ends because each round takes a new sequence number, at most 63 of them.
\<close>

lemma unat_u8_Suc: "s \<noteq> 255 \<Longrightarrow> unat ((s::u8) + 1) = Suc (unat s)"
proof -
  assume "s \<noteq> 255"
  then have "unat s \<noteq> unat (255::u8)"
    by (metis word_unat_eq_iff)
  moreover have "unat (255::u8) = 255" by simp
  ultimately have "Suc (unat s) < 256" using unat_u8_lt [of s] by linarith
  then show ?thesis by (simp add: unat_word_ariths)
qed

lemma u8_next_less: "s \<noteq> 255 \<Longrightarrow> 256 - unat ((s::u8) + 1) < 256 - unat s"
proof -
  assume "s \<noteq> 255"
  then have "unat (s + 1) = Suc (unat s)" by (rule unat_u8_Suc)
  then show ?thesis using unat_u8_lt [of s] by linarith
qed

function follow_on_records ::
  "u32 \<Rightarrow> bytes \<Rightarrow> nat \<Rightarrow> nat \<Rightarrow> u8 \<Rightarrow> TunnelMessageError + FragmentDelivery list" where
  "follow_on_records message_id complete_message budget cursor sequence =
     (if \<not> cursor < length complete_message then Inr []
      else if sequence = 255 then Inl FragmentRangeExhausted
      else let sequence = sequence + 1 in
        if sequence > MAX_FRAGMENT_COUNT - 1
        then Inl (TooManyFragments MAX_FRAGMENT_COUNT MAX_FRAGMENT_COUNT)
        else let end = min (cursor + budget) (length complete_message) in
          bindR (follow_on_records message_id complete_message budget end sequence) (\<lambda>rest.
          Inr (\<lparr>fd_delivery = None,
                fd_fragment = FollowOn message_id sequence (end = length complete_message)
                  (take (end - cursor) (drop cursor complete_message))\<rparr> # rest)))"
  by pat_completeness auto
termination
  by (relation "measure (\<lambda>(message_id, complete_message, budget, cursor, sequence).
        256 - unat sequence)")
    (simp_all add: data_limits u8_next_less)

declare follow_on_records.simps [simp del]

definition fragment_complete_message ::
  "DeliveryInstruction \<Rightarrow> u32 \<Rightarrow> bytes \<Rightarrow> TunnelMessageError + FragmentDelivery list" where
  "fragment_complete_message delivery message_id complete_message =
     bindR (validate_delivery delivery) (\<lambda>_.
     if complete_message = [] then Inl EmptyMessage
     else if length complete_message > MAX_TUNNEL_MESSAGE_PAYLOAD_BYTES
     then Inl (TunnelMessageTooLarge (length complete_message) MAX_TUNNEL_MESSAGE_PAYLOAD_BYTES)
     else if message_id = 0 then Inl ZeroMessageId
     else
     let cell_body_budget = MAX_PLAINTEXT_DATA_BYTES - CHECKSUM_LEN - 1 in
     if length complete_message + unfragmented_overhead delivery \<le> cell_body_budget
     then Inr [\<lparr>fd_delivery = Some delivery, fd_fragment = Unfragmented complete_message\<rparr>]
     else
     let first_body_budget = saturating_sub cell_body_budget (fragmented_first_overhead delivery) in
     if first_body_budget = 0
     then Inl (FragmentBodyTooLarge (length complete_message) MAX_FRAGMENT_BODY_BYTES)
     else
     let first_len = min first_body_budget (length complete_message) in
     bindR (follow_on_records message_id complete_message
              (saturating_sub cell_body_budget FOLLOW_ON_OVERHEAD) first_len 0) (\<lambda>rest.
     Inr (\<lparr>fd_delivery = Some delivery,
           fd_fragment = First message_id (take first_len complete_message)\<rparr> # rest)))"

definition build_single ::
  "(bytes \<Rightarrow> bytes) \<Rightarrow> ('r \<Rightarrow> nat \<Rightarrow> (bytes \<times> 'r) option) \<Rightarrow> TunnelPayloadHeader \<Rightarrow> bytes \<Rightarrow> bytes
     \<Rightarrow> ('r, TunnelMessageError, bytes) rsm" where
  "build_single sha256 fill header complete_message iv =
     bindS (liftS (validate_header header)) (\<lambda>_.
     if complete_message = [] then failS (\<lambda>_. EmptyMessage)
     else if length complete_message > MAX_TUNNEL_MESSAGE_PAYLOAD_BYTES
     then failS (\<lambda>_. TunnelMessageTooLarge (length complete_message) MAX_TUNNEL_MESSAGE_PAYLOAD_BYTES)
     else
     bindS (liftS (fragment_complete_message (tph_delivery header) (tph_message_id header) complete_message))
       (\<lambda>fragments.
     if length fragments \<noteq> 1
     then failS (\<lambda>_. TunnelMessageTooLarge (length complete_message) MAX_FRAGMENT_BODY_BYTES)
     else pack_payload sha256 fill (hd fragments) iv))"

definition build_cell ::
  "(bytes \<Rightarrow> bytes) \<Rightarrow> ('r \<Rightarrow> nat \<Rightarrow> (bytes \<times> 'r) option) \<Rightarrow> FragmentDelivery
     \<Rightarrow> ('r, TunnelMessageError, bytes \<times> bytes) rsm" where
  "build_cell sha256 fill fragment =
     bindS (liftS (case fd_delivery fragment of Some delivery \<Rightarrow> validate_delivery delivery | None \<Rightarrow> Inr ()))
       (\<lambda>_.
     bindS (\<lambda>rng. case fill rng 16 of
              None \<Rightarrow> (Inl RandomnessUnavailable, rng)
            | Some (iv, rng') \<Rightarrow> (Inr iv, rng')) (\<lambda>iv.
     bindS (pack_payload sha256 fill fragment iv) (\<lambda>payload.
     retS (iv, payload))))"

primrec mapS :: "('a \<Rightarrow> ('s, 'e, 'b) rsm) \<Rightarrow> 'a list \<Rightarrow> ('s, 'e, 'b list) rsm" where
  "mapS f [] = retS []"
| "mapS f (x # xs) = bindS (f x) (\<lambda>y. bindS (mapS f xs) (\<lambda>ys. retS (y # ys)))"

definition build_cells ::
  "(bytes \<Rightarrow> bytes) \<Rightarrow> ('r \<Rightarrow> nat \<Rightarrow> (bytes \<times> 'r) option) \<Rightarrow> FragmentDelivery list
     \<Rightarrow> ('r, TunnelMessageError, (bytes \<times> bytes) list) rsm" where
  "build_cells sha256 fill fragments =
     (if fragments = [] then failS (\<lambda>_. EmptyMessage)
      else if length fragments > unat MAX_FRAGMENT_COUNT
      then failS (\<lambda>_. TooManyFragments (of_nat (length fragments)) MAX_FRAGMENT_COUNT)
      else mapS (build_cell sha256 fill) fragments)"

subsection \<open>Parsing a payload\<close>

datatype FirstDelivery = FirstLocal | FirstTunnel | FirstRouter

definition parse_first_control :: "u8 \<Rightarrow> TunnelMessageError + FirstDelivery" where
  "parse_first_control b =
     (let delivery_type = drop_bit 5 b AND 0x03 in
      if b AND 0x10 \<noteq> 0 then Inl DelayBitUnsupported
      else if b AND 0x04 \<noteq> 0 then Inl ExtendedOptionsBitUnsupported
      else if b AND 0x03 \<noteq> 0 then Inl (ReservedControlBits (b AND 0x03))
      else if delivery_type = 0 then Inr FirstLocal
      else if delivery_type = 1 then Inr FirstTunnel
      else if delivery_type = 2 then Inr FirstRouter
      else Inl (ReservedDeliveryType delivery_type))"

fun first_zero :: "nat \<Rightarrow> bytes \<Rightarrow> nat option" where
  "first_zero index [] = None"
| "first_zero index (b # bs) = (if b = 0 then Some index else first_zero (index + 1) bs)"

definition locate_delimiter :: "bytes \<Rightarrow> TunnelMessageError + (nat \<times> bytes)" where
  "locate_delimiter plaintext =
     (case first_zero CHECKSUM_LEN (drop CHECKSUM_LEN plaintext) of
        Some index \<Rightarrow> Inr (index, drop (index + 1) plaintext)
      | None \<Rightarrow> Inl DelimiterMissing)"

definition verify_checksum :: "(bytes \<Rightarrow> bytes) \<Rightarrow> bytes \<Rightarrow> bytes \<Rightarrow> bytes \<Rightarrow> TunnelMessageError + unit" where
  "verify_checksum sha256 checksum_bytes post_zero iv =
     (if length checksum_bytes \<noteq> CHECKSUM_LEN
      then Inl (PayloadLength (length checksum_bytes) CHECKSUM_LEN)
      else
      let digest = sha256 (post_zero @ iv);
          diff = fold (\<lambda>index diff. diff OR (checksum_bytes ! index XOR digest ! index))
                   [0..<CHECKSUM_LEN] 0
      in if diff \<noteq> 0 then Inl ChecksumMismatch else Inr ())"

text \<open>
  The steps of the record loop. Each takes the bytes that remain and returns the ones after it:
  the delivery instruction of an initial record, a size and body, an initial record and a
  follow-on record.
\<close>

definition be_u32 :: "bytes \<Rightarrow> u32" where
  "be_u32 bs = of_nat (be_decode (take 4 bs))"

fun parse_delivery :: "FirstDelivery \<Rightarrow> bytes \<Rightarrow> TunnelMessageError + (DeliveryInstruction \<times> bytes)" where
  "parse_delivery FirstLocal left = Inr (DeliverLocal, drop 1 left)"
| "parse_delivery FirstTunnel left =
     (if length left < 1 + 4 + 32
      then Inl (FragmentLengthExceedsRemaining (1 + 4 + 32) (length left))
      else let tunnel_id = be_u32 (drop 1 left) in
        if tunnel_id = 0 then Inl ZeroTunnelId
        else Inr (DeliverTunnel tunnel_id (Hash (take 32 (drop 5 left))), drop 37 left))"
| "parse_delivery FirstRouter left =
     (if length left < 1 + 32
      then Inl (FragmentLengthExceedsRemaining (1 + 32) (length left))
      else Inr (DeliverRouter (Hash (take 32 (drop 1 left))), drop 33 left))"

text \<open>
  The size at offset \<open>at\<close> and the body after it, as all three kinds of record read them.
\<close>

definition parse_sized :: "nat \<Rightarrow> bytes \<Rightarrow> TunnelMessageError + (bytes \<times> bytes)" where
  "parse_sized at left =
     (let frag_len = be_decode (take 2 (drop at left)); start = at + 2 in
      if frag_len = 0 then Inl ZeroFragmentLength
      else if frag_len + start > length left
      then Inl (FragmentLengthExceedsRemaining (frag_len + start) (length left))
      else Inr (take frag_len (drop start left), drop (start + frag_len) left))"

definition parse_initial :: "bytes \<Rightarrow> TunnelMessageError + (FragmentDelivery \<times> bytes)" where
  "parse_initial left =
     (let first_byte = hd left in
      bindR (parse_first_control first_byte) (\<lambda>delivery.
      bindR (parse_delivery delivery left) (\<lambda>(delivery, left).
      if first_byte AND 0x08 \<noteq> 0 then
        (if length left < 4 + 2
         then Inl (FragmentLengthExceedsRemaining (4 + 2) (length left))
         else let message_id = be_u32 left in
           if message_id = 0 then Inl ZeroMessageId
           else bindR (parse_sized 4 left) (\<lambda>(body, rest).
             Inr (\<lparr>fd_delivery = Some delivery, fd_fragment = First message_id body\<rparr>, rest)))
      else
        (if length left < 2
         then Inl (FragmentLengthExceedsRemaining 2 (length left))
         else bindR (parse_sized 0 left) (\<lambda>(body, rest).
           Inr (\<lparr>fd_delivery = Some delivery, fd_fragment = Unfragmented body\<rparr>, rest))))))"

definition parse_follow_on ::
  "u8 \<Rightarrow> bytes \<Rightarrow> TunnelMessageError + (FragmentDelivery \<times> u8 \<times> bytes)" where
  "parse_follow_on observed_max left =
     (let first_byte = hd left;
          sequence = drop_bit 1 (first_byte AND 0x7E);
          is_last = (first_byte AND 0x01 \<noteq> 0) in
      if sequence = 0 \<or> sequence > 63 then Inl (FragmentSequenceOutOfRange sequence)
      else if is_last \<and> sequence < observed_max
      then Inl (TunnelLastBelowObservedMax sequence observed_max)
      else let observed_max = max observed_max sequence in
        if length left < 1 + 4 + 2
        then Inl (FragmentLengthExceedsRemaining (1 + 4 + 2) (length left))
        else let message_id = be_u32 (drop 1 left) in
          if message_id = 0 then Inl ZeroMessageId
          else bindR (parse_sized 5 left) (\<lambda>(body, rest).
            Inr (\<lparr>fd_delivery = None, fd_fragment = FollowOn message_id sequence is_last body\<rparr>,
                 observed_max, rest)))"

lemma parse_sized_shorter: "parse_sized at bs = Inr (body, rest) \<Longrightarrow> length rest < length bs"
  by (auto simp: parse_sized_def Let_def split: if_splits)

lemma parse_delivery_shorter: "parse_delivery d bs = Inr (delivery, rest) \<Longrightarrow> length rest \<le> length bs"
  by (cases d) (auto simp: Let_def split: if_splits)

lemma parse_initial_shorter:
  "parse_initial bs = Inr (record, rest) \<Longrightarrow> length rest < length bs"
  by (auto simp: parse_initial_def Let_def bindR_def split: sum.splits if_splits
      dest!: parse_delivery_shorter parse_sized_shorter)

lemma parse_follow_on_shorter:
  "parse_follow_on m bs = Inr (record, m', rest) \<Longrightarrow> length rest < length bs"
  by (auto simp: parse_follow_on_def Let_def bindR_def split: sum.splits if_splits
      dest!: parse_sized_shorter)

function parse_records ::
  "u8 \<Rightarrow> bool \<Rightarrow> FragmentDelivery list \<Rightarrow> bytes \<Rightarrow> TunnelMessageError + FragmentDelivery list" where
  "parse_records observed_max observed_first records left =
     (if left = [] then Inr records
      else if hd left AND 0x80 = 0 then
        (if observed_first then Inl (ReservedControlBits 0)
         else case parse_initial left of
           Inl e \<Rightarrow> Inl e
         | Inr (record, rest) \<Rightarrow> parse_records observed_max True (records @ [record]) rest)
      else case parse_follow_on observed_max left of
           Inl e \<Rightarrow> Inl e
         | Inr (record, observed_max, rest) \<Rightarrow>
             parse_records observed_max observed_first (records @ [record]) rest)"
  by pat_completeness auto
termination
  by (relation "measure (\<lambda>(observed_max, observed_first, records, left). length left)")
    (auto simp: parse_initial_shorter parse_follow_on_shorter)

declare parse_records.simps [simp del]

definition parse_payload ::
  "(bytes \<Rightarrow> bytes) \<Rightarrow> bytes \<Rightarrow> bytes \<Rightarrow> TunnelMessageError + FragmentDelivery list" where
  "parse_payload sha256 iv plaintext =
     bindR (locate_delimiter plaintext) (\<lambda>(delimiter_index, post_zero).
     bindR (verify_checksum sha256 (take CHECKSUM_LEN plaintext) post_zero iv) (\<lambda>_.
     parse_records 0 False [] (drop (delimiter_index + 1) plaintext)))"

end
