(* ===== verification/Tunnel_Layer.thy ===== *)
theory Tunnel_Layer
  imports Tunnel_Data
begin

section \<open>Layer transforms and the replay window (i2pr-tunnel/src/layer.rs)\<close>

text \<open>
  One participant layer, its inverse at the tunnel's creator, the chains over the hops, and the
  bounded window of duplicate tokens. AES-256 is not part of the sources: its four block and
  chaining functions are the fields of a record that every transform takes. The identifiers of
  identity.rs and the established tunnel of established.rs follow.
\<close>

unbundle bit_operations_syntax

definition TUNNEL_IV_LEN :: nat where
  "TUNNEL_IV_LEN = 16"

definition TUNNEL_PAYLOAD_LEN :: nat where
  "TUNNEL_PAYLOAD_LEN = 1008"

definition MAX_DUPLICATE_WINDOW :: nat where
  "MAX_DUPLICATE_WINDOW = 1024"

lemmas layer_limits = TUNNEL_IV_LEN_def TUNNEL_PAYLOAD_LEN_def MAX_DUPLICATE_WINDOW_def

record Aes =
  ecb_encrypt :: "bytes \<Rightarrow> bytes \<Rightarrow> bytes"
  ecb_decrypt :: "bytes \<Rightarrow> bytes \<Rightarrow> bytes"
  cbc_encrypt :: "bytes \<Rightarrow> bytes \<Rightarrow> bytes \<Rightarrow> bytes"
  cbc_decrypt :: "bytes \<Rightarrow> bytes \<Rightarrow> bytes \<Rightarrow> bytes"

record LayerKeys =
  lk_reply_key :: bytes
  lk_layer_key :: bytes
  lk_iv_key :: bytes
  lk_garlic_reply_key :: "bytes option"
  lk_garlic_reply_tag :: "bytes option"

definition layer_keys_new :: "bytes \<Rightarrow> bytes \<Rightarrow> bytes \<Rightarrow> LayerKeys" where
  "layer_keys_new reply_key layer_key iv_key =
     \<lparr>lk_reply_key = reply_key, lk_layer_key = layer_key, lk_iv_key = iv_key,
      lk_garlic_reply_key = None, lk_garlic_reply_tag = None\<rparr>"

definition participant_forward :: "Aes \<Rightarrow> LayerKeys \<Rightarrow> bytes \<Rightarrow> bytes \<Rightarrow> bytes \<times> bytes" where
  "participant_forward aes layer_keys received_iv received_data =
     (let working_iv = ecb_encrypt aes (lk_iv_key layer_keys) received_iv;
          new_data = cbc_encrypt aes (lk_layer_key layer_keys) working_iv received_data;
          next_iv = ecb_encrypt aes (lk_iv_key layer_keys) working_iv
      in (next_iv, new_data))"

definition creator_inverse_one_hop :: "Aes \<Rightarrow> LayerKeys \<Rightarrow> bytes \<Rightarrow> bytes \<Rightarrow> bytes \<times> bytes" where
  "creator_inverse_one_hop aes layer_keys received_iv received_data =
     (let working_iv = ecb_decrypt aes (lk_iv_key layer_keys) received_iv;
          new_data = cbc_decrypt aes (lk_layer_key layer_keys) working_iv received_data;
          prev_iv = ecb_decrypt aes (lk_iv_key layer_keys) working_iv
      in (prev_iv, new_data))"

fun outbound_preprocess :: "Aes \<Rightarrow> LayerKeys list \<Rightarrow> bytes \<Rightarrow> bytes \<Rightarrow> bytes \<times> bytes" where
  "outbound_preprocess aes [] iv data = (iv, data)"
| "outbound_preprocess aes (keys # hops_reverse) iv data =
     (case creator_inverse_one_hop aes keys iv data of (next_iv, next_data) \<Rightarrow>
        outbound_preprocess aes hops_reverse next_iv next_data)"

definition inbound_endpoint_decrypt :: "Aes \<Rightarrow> LayerKeys list \<Rightarrow> bytes \<Rightarrow> bytes \<Rightarrow> bytes \<times> bytes" where
  "inbound_endpoint_decrypt aes hops_reverse received_iv received_data =
     outbound_preprocess aes hops_reverse received_iv received_data"

subsection \<open>The replay window\<close>

datatype DuplicateToken = DuplicateToken bytes

definition token_compute :: "bytes \<Rightarrow> bytes \<Rightarrow> DuplicateToken" where
  "token_compute received_iv received_data =
     DuplicateToken (map (\<lambda>index. received_iv ! index XOR received_data ! index) [0..<TUNNEL_IV_LEN])"

datatype DuplicateWindowError = DuplicateCapacityExceeded nat

text \<open>The \<open>BTreeSet\<close> is only tested for members, counted and extended: a list without repetition.\<close>

record DuplicateWindow =
  dw_capacity :: nat
  dw_tokens :: "DuplicateToken list"

definition duplicate_window_new :: "nat \<Rightarrow> DuplicateWindow" where
  "duplicate_window_new capacity = \<lparr>dw_capacity = min capacity MAX_DUPLICATE_WINDOW, dw_tokens = []\<rparr>"

definition duplicate_contains :: "DuplicateToken \<Rightarrow> DuplicateWindow \<Rightarrow> bool" where
  "duplicate_contains token w \<longleftrightarrow> token \<in> set (dw_tokens w)"

definition observe :: "DuplicateToken \<Rightarrow> (DuplicateWindow, DuplicateWindowError, bool) rsm" where
  "observe token = (\<lambda>w.
     if duplicate_contains token w then (Inr False, w)
     else if length (dw_tokens w) \<ge> dw_capacity w
     then (Inl (DuplicateCapacityExceeded (dw_capacity w)), w)
     else (Inr True, w\<lparr>dw_tokens := List.insert token (dw_tokens w)\<rparr>))"

definition duplicate_clear :: "DuplicateWindow \<Rightarrow> DuplicateWindow" where
  "duplicate_clear w = w\<lparr>dw_tokens := []\<rparr>"

definition window_wf :: "DuplicateWindow \<Rightarrow> bool" where
  "window_wf w \<longleftrightarrow> distinct (dw_tokens w) \<and> length (dw_tokens w) \<le> dw_capacity w
     \<and> dw_capacity w \<le> MAX_DUPLICATE_WINDOW"

lemma window_wf_new [simp]: "window_wf (duplicate_window_new capacity)"
  by (simp add: window_wf_def duplicate_window_new_def)

lemma window_wf_clear [simp]: "window_wf w \<Longrightarrow> window_wf (duplicate_clear w)"
  by (simp add: window_wf_def duplicate_clear_def)

lemma window_wf_observe: "window_wf w \<Longrightarrow> window_wf (snd (observe token w))"
  by (auto simp: window_wf_def observe_def duplicate_contains_def)

text \<open>A window that has admitted a token never admits it again until it is cleared.\<close>

lemma observe_keeps: "duplicate_contains t w \<Longrightarrow> duplicate_contains t (snd (observe token w))"
  by (auto simp: observe_def duplicate_contains_def)

lemma observe_admits: "observe token w = (Inr True, w') \<Longrightarrow> duplicate_contains token w'"
  by (auto simp: observe_def duplicate_contains_def split: if_splits)

lemma observe_seen: "duplicate_contains token w \<Longrightarrow> observe token w = (Inr False, w)"
  by (simp add: observe_def)

subsection \<open>Layers undone\<close>

text \<open>
  What the sources rely on of AES-256: block and chaining encryption keep the length, and decryption
  under the same key and initialisation vector inverts encryption and is inverted by it.
\<close>

definition aes_inverse :: "Aes \<Rightarrow> bool" where
  "aes_inverse aes \<longleftrightarrow>
     (\<forall>key block. length block = TUNNEL_IV_LEN \<longrightarrow>
        length (ecb_encrypt aes key block) = TUNNEL_IV_LEN \<and> length (ecb_decrypt aes key block) = TUNNEL_IV_LEN
        \<and> ecb_decrypt aes key (ecb_encrypt aes key block) = block
        \<and> ecb_encrypt aes key (ecb_decrypt aes key block) = block)
     \<and> (\<forall>key iv data. length iv = TUNNEL_IV_LEN \<longrightarrow> length data = TUNNEL_PAYLOAD_LEN \<longrightarrow>
        length (cbc_encrypt aes key iv data) = TUNNEL_PAYLOAD_LEN
        \<and> length (cbc_decrypt aes key iv data) = TUNNEL_PAYLOAD_LEN
        \<and> cbc_decrypt aes key iv (cbc_encrypt aes key iv data) = data
        \<and> cbc_encrypt aes key iv (cbc_decrypt aes key iv data) = data)"

definition cell_sized :: "bytes \<times> bytes \<Rightarrow> bool" where
  "cell_sized c \<longleftrightarrow> length (fst c) = TUNNEL_IV_LEN \<and> length (snd c) = TUNNEL_PAYLOAD_LEN"

abbreviation forward_step :: "Aes \<Rightarrow> LayerKeys \<Rightarrow> bytes \<times> bytes \<Rightarrow> bytes \<times> bytes" where
  "forward_step aes keys c \<equiv> participant_forward aes keys (fst c) (snd c)"

abbreviation inverse_step :: "Aes \<Rightarrow> LayerKeys \<Rightarrow> bytes \<times> bytes \<Rightarrow> bytes \<times> bytes" where
  "inverse_step aes keys c \<equiv> creator_inverse_one_hop aes keys (fst c) (snd c)"

lemma forward_inverse:
  assumes "aes_inverse aes" "cell_sized c"
  shows "forward_step aes keys (inverse_step aes keys c) = c"
    and "inverse_step aes keys (forward_step aes keys c) = c"
    and "cell_sized (forward_step aes keys c)" and "cell_sized (inverse_step aes keys c)"
  using assms
  by (cases c; simp add: aes_inverse_def cell_sized_def participant_forward_def
      creator_inverse_one_hop_def Let_def)+

lemma outbound_preprocess_fold:
  "outbound_preprocess aes ks iv data = fold (inverse_step aes) ks (iv, data)"
  by (induction ks arbitrary: iv data) (auto split: prod.splits)

lemma fold_inverse_sized:
  "aes_inverse aes \<Longrightarrow> cell_sized c \<Longrightarrow> cell_sized (fold (inverse_step aes) ks c)"
  by (induction ks arbitrary: c) (simp_all add: forward_inverse)

lemma fold_forward_sized:
  "aes_inverse aes \<Longrightarrow> cell_sized c \<Longrightarrow> cell_sized (fold (forward_step aes) ks c)"
  by (induction ks arbitrary: c) (simp_all add: forward_inverse)

lemma forward_chain_undoes_preprocess:
  assumes "aes_inverse aes" "cell_sized c"
  shows "fold (forward_step aes) ks (fold (inverse_step aes) (rev ks) c) = c"
  using assms(2)
  by (induction ks arbitrary: c) (simp_all add: forward_inverse fold_inverse_sized assms(1))

lemma inverse_chain_undoes_forward:
  assumes "aes_inverse aes" "cell_sized c"
  shows "fold (inverse_step aes) (rev ks) (fold (forward_step aes) ks c) = c"
  using assms(2)
  by (induction ks arbitrary: c) (simp_all add: forward_inverse fold_forward_sized assms(1))

end
