(* ===== verification/Tunnel_Established.thy ===== *)
theory Tunnel_Established
  imports Tunnel_Layer
begin

section \<open>Identifiers and established tunnels (i2pr-tunnel/src/identity.rs, established.rs)\<close>

text \<open>
  The nonzero tunnel identifier, the peer, the lifetime, the hops of an established tunnel with
  the checks of its constructor, and the one-shot material the registrar extracts. Wiping secrets
  on drop has no counterpart in the model.
\<close>

datatype TunnelId = TunnelId (tunnel_id_get: u32)

datatype TunnelIdError = TunnelIdZero

definition tunnel_id_new :: "u32 \<Rightarrow> TunnelIdError + TunnelId" where
  "tunnel_id_new value = (if value = 0 then Inl TunnelIdZero else Inr (TunnelId value))"

instantiation TunnelId :: linorder
begin

definition less_TunnelId :: "TunnelId \<Rightarrow> TunnelId \<Rightarrow> bool" where
  "less_TunnelId a b \<longleftrightarrow> tunnel_id_get a < tunnel_id_get b"

definition less_eq_TunnelId :: "TunnelId \<Rightarrow> TunnelId \<Rightarrow> bool" where
  "less_eq_TunnelId a b \<longleftrightarrow> tunnel_id_get a \<le> tunnel_id_get b"

instance
  by intro_classes (auto simp: less_TunnelId_def less_eq_TunnelId_def intro: TunnelId.expand)

end

datatype TunnelDirection = Inbound | Outbound

datatype TunnelPeer = TunnelPeer (peer_hash: Hash)

definition MAX_LIFETIME_SECONDS :: u32 where
  "MAX_LIFETIME_SECONDS = 30 * 60"

datatype TunnelLifetime = TunnelLifetime (lifetime_seconds: u32)

datatype TunnelLifetimeError = LifetimeZero | LifetimeExceedsMaximum u32 u32

definition lifetime_from_seconds :: "u32 \<Rightarrow> TunnelLifetimeError + TunnelLifetime" where
  "lifetime_from_seconds seconds =
     (if seconds = 0 then Inl LifetimeZero
      else if seconds > MAX_LIFETIME_SECONDS then Inl (LifetimeExceedsMaximum seconds MAX_LIFETIME_SECONDS)
      else Inr (TunnelLifetime seconds))"

subsection \<open>Hops\<close>

record EstablishedNextHop =
  nh_router :: TunnelPeer
  nh_tunnel :: TunnelId

datatype EstablishedRole = Participant | OutboundEndpoint | InboundGateway

record EstablishedHop =
  hop_peer :: TunnelPeer
  hop_role :: EstablishedRole
  hop_receive_tunnel :: TunnelId
  hop_layer_keys :: LayerKeys
  hop_next :: "EstablishedNextHop option"

definition hop_with_next ::
  "TunnelPeer \<Rightarrow> EstablishedRole \<Rightarrow> TunnelId \<Rightarrow> LayerKeys \<Rightarrow> EstablishedNextHop \<Rightarrow> EstablishedHop" where
  "hop_with_next peer role receive_tunnel layer_keys nxt =
     \<lparr>hop_peer = peer, hop_role = role, hop_receive_tunnel = receive_tunnel,
      hop_layer_keys = layer_keys, hop_next = Some nxt\<rparr>"

definition hop_terminal ::
  "TunnelPeer \<Rightarrow> EstablishedRole \<Rightarrow> TunnelId \<Rightarrow> LayerKeys \<Rightarrow> EstablishedHop" where
  "hop_terminal peer role receive_tunnel layer_keys =
     \<lparr>hop_peer = peer, hop_role = role, hop_receive_tunnel = receive_tunnel,
      hop_layer_keys = layer_keys, hop_next = None\<rparr>"

definition hop_next_tunnel :: "EstablishedHop \<Rightarrow> TunnelId option" where
  "hop_next_tunnel hop = map_option nh_tunnel (hop_next hop)"

definition zero_hash :: Hash where
  "zero_hash = Hash (replicate 32 0)"

definition zero_peer :: TunnelPeer where
  "zero_peer = TunnelPeer zero_hash"

text \<open>The identifier that stands for no tunnel is the largest one.\<close>

definition zero_id :: TunnelId where
  "zero_id = TunnelId (- 1)"

subsection \<open>Established tunnels\<close>

definition MAX_HOPS_PER_TUNNEL :: u8 where
  "MAX_HOPS_PER_TUNNEL = 8"

record EstablishedTunnel =
  et_direction :: TunnelDirection
  et_creator_tunnel_id :: TunnelId
  et_hops :: "EstablishedHop list"
  et_created_at_seconds :: u64
  et_inbound_gateway :: "TunnelPeer \<times> TunnelId"
  et_local_inbound_receive :: TunnelId

datatype EstablishedTunnelError =
    EmptyHopList
  | TooManyHops nat nat
  | MissingInboundGateway
  | MissingLocalInboundReceive
  | OutboundGatewaySpecified
  | OutboundLocalReceiveSpecified
  | FirstHopRoleInvalid EstablishedRole EstablishedRole
  | LastHopRoleInvalid EstablishedRole EstablishedRole
  | FirstHopRouterMismatch TunnelPeer TunnelPeer
  | FirstHopReceiveTunnelMismatch TunnelId TunnelId
  | LocalInboundReceiveMismatch TunnelId TunnelId
  | EstablishedMissingNextHop nat
  | MissingIntermediateHopNext
  | OutboundEndpointHasNext

text \<open>The loop over the hops of an inbound tunnel reports the first hop without a successor.\<close>

fun check_all_next :: "nat \<Rightarrow> EstablishedHop list \<Rightarrow> EstablishedTunnelError + unit" where
  "check_all_next index [] = Inr ()"
| "check_all_next index (hop # hops) =
     (if hop_next hop = None then Inl (EstablishedMissingNextHop index) else check_all_next (index + 1) hops)"

definition check_inbound_hops ::
  "EstablishedHop list \<Rightarrow> (TunnelPeer \<times> TunnelId) option \<Rightarrow> TunnelId option \<Rightarrow> EstablishedTunnelError + unit" where
  "check_inbound_hops hops inbound_gateway local_inbound_receive =
     (if inbound_gateway = None then Inl MissingInboundGateway
      else if local_inbound_receive = None then Inl MissingLocalInboundReceive
      else if hop_role (hops ! 0) \<noteq> InboundGateway
      then Inl (FirstHopRoleInvalid InboundGateway (hop_role (hops ! 0)))
      else check_all_next 0 hops)"

definition check_outbound_hops ::
  "EstablishedHop list \<Rightarrow> (TunnelPeer \<times> TunnelId) option \<Rightarrow> TunnelId option \<Rightarrow> EstablishedTunnelError + unit" where
  "check_outbound_hops hops inbound_gateway local_inbound_receive =
     (if inbound_gateway \<noteq> None then Inl OutboundGatewaySpecified
      else if local_inbound_receive \<noteq> None then Inl OutboundLocalReceiveSpecified
      else let last_index = length hops - 1 in
        if hop_role (hops ! last_index) \<noteq> OutboundEndpoint
        then Inl (LastHopRoleInvalid OutboundEndpoint (hop_role (hops ! last_index)))
        else if hop_next (hops ! last_index) \<noteq> None then Inl OutboundEndpointHasNext
        else if list_ex (\<lambda>hop. hop_next hop = None) (take last_index hops) then Inl MissingIntermediateHopNext
        else Inr ())"

definition check_gateway :: "EstablishedHop list \<Rightarrow> (TunnelPeer \<times> TunnelId) option \<Rightarrow> EstablishedTunnelError + unit" where
  "check_gateway hops inbound_gateway =
     (case inbound_gateway of
        None \<Rightarrow> Inr ()
      | Some (expected_router, expected_tunnel) \<Rightarrow>
          if hop_peer (hops ! 0) \<noteq> expected_router
          then Inl (FirstHopRouterMismatch expected_router (hop_peer (hops ! 0)))
          else if hop_receive_tunnel (hops ! 0) \<noteq> expected_tunnel
          then Inl (FirstHopReceiveTunnelMismatch expected_tunnel (hop_receive_tunnel (hops ! 0)))
          else Inr ())"

definition check_local_receive :: "EstablishedHop list \<Rightarrow> TunnelId option \<Rightarrow> EstablishedTunnelError + unit" where
  "check_local_receive hops local_inbound_receive =
     (case local_inbound_receive of
        None \<Rightarrow> Inr ()
      | Some expected \<Rightarrow>
          let next_tunnel = (case hop_next_tunnel (hops ! (length hops - 1)) of Some t \<Rightarrow> t | None \<Rightarrow> zero_id) in
          if next_tunnel \<noteq> expected then Inl (LocalInboundReceiveMismatch expected next_tunnel) else Inr ())"

definition established_tunnel_new ::
  "TunnelDirection \<Rightarrow> TunnelId \<Rightarrow> EstablishedHop list \<Rightarrow> u64 \<Rightarrow> (TunnelPeer \<times> TunnelId) option \<Rightarrow> TunnelId option
     \<Rightarrow> EstablishedTunnelError + EstablishedTunnel" where
  "established_tunnel_new direction creator_tunnel_id hops created_at_seconds inbound_gateway local_inbound_receive =
     (if hops = [] then Inl EmptyHopList
      else if length hops > unat MAX_HOPS_PER_TUNNEL
      then Inl (TooManyHops (length hops) (unat MAX_HOPS_PER_TUNNEL))
      else
      bindR (case direction of
          Inbound \<Rightarrow> check_inbound_hops hops inbound_gateway local_inbound_receive
        | Outbound \<Rightarrow> check_outbound_hops hops inbound_gateway local_inbound_receive) (\<lambda>_.
      bindR (check_gateway hops inbound_gateway) (\<lambda>_.
      bindR (check_local_receive hops local_inbound_receive) (\<lambda>_.
      Inr \<lparr>et_direction = direction, et_creator_tunnel_id = creator_tunnel_id, et_hops = hops,
           et_created_at_seconds = created_at_seconds,
           et_inbound_gateway = (case inbound_gateway of Some g \<Rightarrow> g | None \<Rightarrow> (zero_peer, zero_id)),
           et_local_inbound_receive = (case local_inbound_receive of Some t \<Rightarrow> t | None \<Rightarrow> zero_id)\<rparr>))))"

definition first_hop_router :: "EstablishedTunnel \<Rightarrow> TunnelPeer" where
  "first_hop_router tunnel = hop_peer (et_hops tunnel ! 0)"

definition first_hop_receive_tunnel :: "EstablishedTunnel \<Rightarrow> TunnelId" where
  "first_hop_receive_tunnel tunnel = hop_receive_tunnel (et_hops tunnel ! 0)"

record EstablishedMaterial =
  em_direction :: TunnelDirection
  em_creator_tunnel_id :: TunnelId
  em_hops :: "EstablishedHop list"
  em_created_at_seconds :: u64
  em_inbound_gateway :: "TunnelPeer \<times> TunnelId"
  em_local_inbound_receive :: TunnelId
  em_extracted :: bool

definition into_extracted :: "EstablishedTunnel \<Rightarrow> EstablishedMaterial" where
  "into_extracted tunnel =
     \<lparr>em_direction = et_direction tunnel, em_creator_tunnel_id = et_creator_tunnel_id tunnel,
      em_hops = et_hops tunnel, em_created_at_seconds = et_created_at_seconds tunnel,
      em_inbound_gateway = et_inbound_gateway tunnel,
      em_local_inbound_receive = et_local_inbound_receive tunnel, em_extracted = True\<rparr>"

definition into_established_tunnel :: "EstablishedMaterial \<Rightarrow> EstablishedTunnel option \<times> EstablishedMaterial" where
  "into_established_tunnel material =
     (if \<not> em_extracted material then (None, material)
      else (Some \<lparr>et_direction = em_direction material, et_creator_tunnel_id = em_creator_tunnel_id material,
                  et_hops = em_hops material, et_created_at_seconds = em_created_at_seconds material,
                  et_inbound_gateway = em_inbound_gateway material,
                  et_local_inbound_receive = em_local_inbound_receive material\<rparr>,
            material\<lparr>em_hops := [], em_extracted := False\<rparr>))"

subsection \<open>What the constructor checks\<close>

text \<open>
  The conditions are those of the code. Its comments give the hops as \<open>[IBGW, Participant*]\<close> inbound
  and \<open>[Participant*, OBEP]\<close> outbound; that the remaining hops are participants is not among them.
\<close>

definition tunnel_wf :: "EstablishedTunnel \<Rightarrow> bool" where
  "tunnel_wf tunnel \<longleftrightarrow>
     et_hops tunnel \<noteq> [] \<and> length (et_hops tunnel) \<le> 8
     \<and> (case et_direction tunnel of
          Inbound \<Rightarrow>
            hop_role (hd (et_hops tunnel)) = InboundGateway
            \<and> (\<forall>hop\<in>set (et_hops tunnel). hop_next hop \<noteq> None)
            \<and> et_inbound_gateway tunnel = (hop_peer (hd (et_hops tunnel)), hop_receive_tunnel (hd (et_hops tunnel)))
            \<and> hop_next_tunnel (last (et_hops tunnel)) = Some (et_local_inbound_receive tunnel)
        | Outbound \<Rightarrow>
            hop_role (last (et_hops tunnel)) = OutboundEndpoint
            \<and> hop_next (last (et_hops tunnel)) = None
            \<and> (\<forall>hop\<in>set (butlast (et_hops tunnel)). hop_next hop \<noteq> None)
            \<and> et_inbound_gateway tunnel = (zero_peer, zero_id)
            \<and> et_local_inbound_receive tunnel = zero_id)"

lemma check_all_next_ok: "check_all_next i hops = Inr () \<longleftrightarrow> (\<forall>hop\<in>set hops. hop_next hop \<noteq> None)"
  by (induction hops arbitrary: i) auto

lemma established_tunnel_new_wf:
  assumes "established_tunnel_new direction creator hops created gateway receive = Inr tunnel"
  shows "tunnel_wf tunnel \<and> et_hops tunnel = hops \<and> et_direction tunnel = direction"
proof -
  have ne: "hops \<noteq> []" and len: "length hops \<le> 8"
    using assms by (auto simp: established_tunnel_new_def MAX_HOPS_PER_TUNNEL_def split: if_splits)
  have ends: "hops ! 0 = hd hops" "hops ! (length hops - 1) = last hops" "take (length hops - 1) hops = butlast hops"
    using ne by (simp_all add: hd_conv_nth last_conv_nth butlast_conv_take)
  show ?thesis
  proof (cases direction)
    case Inbound
    with assms ne obtain g r where "gateway = Some g" "receive = Some r" and
      c: "check_inbound_hops hops gateway receive = Inr ()" "check_gateway hops gateway = Inr ()"
      "check_local_receive hops receive = Inr ()"
      by (auto simp: established_tunnel_new_def bindR_eq_Inr check_inbound_hops_def split: if_splits)
    moreover have all: "\<forall>hop\<in>set hops. hop_next hop \<noteq> None"
      using c(1) by (auto simp: check_inbound_hops_def check_all_next_ok split: if_splits)
    moreover obtain n where "hop_next (last hops) = Some n" using all ne by force
    ultimately show ?thesis
      using assms ne len ends Inbound
      by (cases g)
        (auto simp: established_tunnel_new_def tunnel_wf_def check_inbound_hops_def check_gateway_def
          check_local_receive_def hop_next_tunnel_def bindR_eq_Inr Let_def split: if_splits)
  next
    case Outbound
    with assms ne len ends show ?thesis
      by (cases gateway)
        (auto simp: established_tunnel_new_def tunnel_wf_def check_outbound_hops_def list_ex_iff bindR_eq_Inr
          Let_def split: if_splits)
  qed
qed

lemma into_established_tunnel_once:
  "into_established_tunnel (into_extracted tunnel) =
     (Some tunnel, (into_extracted tunnel)\<lparr>em_hops := [], em_extracted := False\<rparr>)"
  "fst (into_established_tunnel (snd (into_established_tunnel (into_extracted tunnel)))) = None"
  by (cases tunnel; simp add: into_established_tunnel_def into_extracted_def)+

lemma established_tunnel_new_complete:
  assumes "tunnel_wf tunnel"
  shows "established_tunnel_new (et_direction tunnel) (et_creator_tunnel_id tunnel) (et_hops tunnel)
    (et_created_at_seconds tunnel)
    (if et_direction tunnel = Inbound then Some (et_inbound_gateway tunnel) else None)
    (if et_direction tunnel = Inbound then Some (et_local_inbound_receive tunnel) else None) = Inr tunnel"
proof -
  have ne: "et_hops tunnel \<noteq> []" and len: "length (et_hops tunnel) \<le> 8" using assms by (simp_all add: tunnel_wf_def)
  have ends: "et_hops tunnel ! 0 = hd (et_hops tunnel)" "et_hops tunnel ! (length (et_hops tunnel) - 1) = last (et_hops tunnel)"
    "take (length (et_hops tunnel) - 1) (et_hops tunnel) = butlast (et_hops tunnel)"
    using ne by (simp_all add: hd_conv_nth last_conv_nth butlast_conv_take)
  show ?thesis
  proof (cases "et_direction tunnel")
    case Inbound
    have "check_all_next 0 (et_hops tunnel) = Inr ()"
      using assms Inbound by (simp add: check_all_next_ok tunnel_wf_def)
    with assms ne len ends Inbound show ?thesis
      by (cases tunnel)
        (simp add: established_tunnel_new_def tunnel_wf_def check_inbound_hops_def check_gateway_def check_local_receive_def
          MAX_HOPS_PER_TUNNEL_def)
  next
    case Outbound
    with assms ne len ends show ?thesis
      by (cases tunnel)
        (auto simp: established_tunnel_new_def tunnel_wf_def check_outbound_hops_def check_gateway_def check_local_receive_def
          list_ex_iff MAX_HOPS_PER_TUNNEL_def Let_def)
  qed
qed

lemma established_tunnel_new_fields:
  assumes "established_tunnel_new direction creator hops created gateway receive = Inr tunnel"
  shows "creator = et_creator_tunnel_id tunnel \<and> created = et_created_at_seconds tunnel
    \<and> gateway = (if direction = Inbound then Some (et_inbound_gateway tunnel) else None)
    \<and> receive = (if direction = Inbound then Some (et_local_inbound_receive tunnel) else None)"
proof -
  have t: "tunnel = \<lparr>et_direction = direction, et_creator_tunnel_id = creator, et_hops = hops,
       et_created_at_seconds = created,
       et_inbound_gateway = (case gateway of Some g \<Rightarrow> g | None \<Rightarrow> (zero_peer, zero_id)),
       et_local_inbound_receive = (case receive of Some t \<Rightarrow> t | None \<Rightarrow> zero_id)\<rparr>"
    and checked: "(case direction of Inbound \<Rightarrow> check_inbound_hops hops gateway receive
      | Outbound \<Rightarrow> check_outbound_hops hops gateway receive) = Inr ()"
    using assms by (auto simp: established_tunnel_new_def bindR_eq_Inr split: if_splits)
  show ?thesis
  proof (cases direction)
    case Inbound
    with checked have "gateway \<noteq> None" "receive \<noteq> None" by (auto simp: check_inbound_hops_def split: if_splits)
    with t Inbound show ?thesis by auto
  next
    case Outbound
    with checked have "gateway = None" "receive = None" by (cases gateway; auto simp: check_outbound_hops_def split: if_splits)+
    with t Outbound show ?thesis by simp
  qed
qed

lemma check_all_next_role: "check_all_next index (hops[i := (hops ! i)\<lparr>hop_role := role\<rparr>]) = check_all_next index hops"
proof (induction hops arbitrary: index i)
  case (Cons hop hops)
  then show ?case by (cases i) auto
qed simp

lemma list_ex_update_same: "P (xs ! i) = P x \<Longrightarrow> list_ex P (xs[i := x]) \<longleftrightarrow> list_ex P xs"
proof (induction xs arbitrary: i)
  case (Cons y ys)
  then show ?case by (cases i) auto
qed simp

text \<open>
  The role is looked at in one place only: the first hop inbound, the last hop outbound. The comments
  of the constructor describe the other hops as participants; it does not check that.
\<close>

lemma established_tunnel_new_role:
  fixes role :: EstablishedRole
  assumes "case direction of Inbound \<Rightarrow> 0 < i | Outbound \<Rightarrow> i \<noteq> length hops - 1"
  defines "hops' \<equiv> hops[i := (hops ! i)\<lparr>hop_role := role\<rparr>]"
  shows "established_tunnel_new direction creator hops' created gateway receive =
    map_sum id (\<lambda>tunnel. tunnel\<lparr>et_hops := hops'\<rparr>) (established_tunnel_new direction creator hops created gateway receive)"
proof (cases "hops = []")
  case False
  have upd: "hops' ! k = (if k = i \<and> i < length hops then (hops ! k)\<lparr>hop_role := role\<rparr> else hops ! k)" for k
    by (cases "i < length hops") (auto simp: hops'_def list_update_beyond)
  have same: "hop_peer (hops' ! k) = hop_peer (hops ! k)" "hop_receive_tunnel (hops' ! k) = hop_receive_tunnel (hops ! k)"
    "hop_next (hops' ! k) = hop_next (hops ! k)" "hop_next_tunnel (hops' ! k) = hop_next_tunnel (hops ! k)"
    "k \<noteq> i \<Longrightarrow> hop_role (hops' ! k) = hop_role (hops ! k)" for k
    by (simp_all add: upd hop_next_tunnel_def)
  have len: "length hops' = length hops" "hops' \<noteq> []" using False by (simp_all add: hops'_def)
  have ends: "check_gateway hops' gateway = check_gateway hops gateway"
    "check_local_receive hops' receive = check_local_receive hops receive"
    unfolding check_gateway_def check_local_receive_def same(1-4) len(1) by (rule refl)+
  have "(case direction of Inbound \<Rightarrow> check_inbound_hops hops' gateway receive | Outbound \<Rightarrow> check_outbound_hops hops' gateway receive) =
      (case direction of Inbound \<Rightarrow> check_inbound_hops hops gateway receive | Outbound \<Rightarrow> check_outbound_hops hops gateway receive)"
  proof (cases direction)
    case Inbound
    with assms(1) show ?thesis
      by (simp add: check_inbound_hops_def same check_all_next_role [of _ hops i role, folded hops'_def])
  next
    case Outbound
    have "list_ex (\<lambda>hop. hop_next hop = None) (take k hops') = list_ex (\<lambda>hop. hop_next hop = None) (take k hops)" for k
      unfolding hops'_def take_update_swap
      by (cases "i < k"; cases "i < length hops") (simp_all add: list_ex_update_same list_update_beyond)
    with Outbound assms(1) show ?thesis by (simp add: check_outbound_hops_def same len Let_def)
  qed
  then show ?thesis
    using False len ends by (auto simp: established_tunnel_new_def bindR_def split: sum.splits)
qed (simp add: established_tunnel_new_def hops'_def)

end
