(* ===== verification/Tunnel_Roles.thy ===== *)
theory Tunnel_Roles
  imports Tunnel_Established
begin

section \<open>Data-plane roles (i2pr-tunnel/src/roles.rs)\<close>

text \<open>
  The outbound gateway, the participants, the outbound endpoint, the inbound gateway and the local
  inbound endpoint. A role's mutable fields are the state of its operations; a random number
  generator is threaded as in the theory of the payload format. The standard encoding of an I2NP
  message is a parameter of the inbound gateway, \<open>None\<close> when it fails.
\<close>

datatype RouterDeliveryKind = KindRouter | KindTunnelGateway | KindLocal

record RouterDeliveryAction =
  ra_target_router :: Hash
  ra_kind :: RouterDeliveryKind
  ra_tunnel_id :: "TunnelId option"
  ra_message :: bytes
  ra_message_id :: u32
  ra_expiration_ms :: u64

datatype TunnelRoleError =
    TunnelUnavailable
  | DuplicateCell
  | ReceiveTunnelMismatch TunnelId TunnelId
  | PreviousPeerMismatch
  | RoleDuplicateWindow DuplicateWindowError
  | RoleReassembly ReassemblyError
  | RoleTunnelMessage TunnelMessageError
  | NotTunnelGateway
  | RoleZeroTunnelId
  | GatewayTunnelMismatch TunnelId TunnelId
  | UnsupportedDeliveryInstruction
  | LocalInboundNonLocalDelivery
  | MissingNextHop
  | UnspecifiedDeliveryInstruction u32

record TunnelDataMessage =
  td_tunnel_id :: u32
  td_data :: bytes

record 'm TunnelGatewayMessage =
  tg_tunnel_id :: u32
  tg_message :: 'm

definition split_cell :: "TunnelDataMessage \<Rightarrow> bytes \<times> bytes" where
  "split_cell cell = (take TUNNEL_IV_LEN (td_data cell), drop TUNNEL_IV_LEN (td_data cell))"

definition join_cell :: "u32 \<Rightarrow> bytes \<Rightarrow> bytes \<Rightarrow> TunnelDataMessage" where
  "join_cell tunnel_id iv payload = \<lparr>td_tunnel_id = tunnel_id, td_data = iv @ payload\<rparr>"

definition fresh_iv :: "('r \<Rightarrow> nat \<Rightarrow> (bytes \<times> 'r) option) \<Rightarrow> ('r, TunnelMessageError, bytes) rsm" where
  "fresh_iv fill = (\<lambda>rng. case fill rng TUNNEL_IV_LEN of
     None \<Rightarrow> (Inl RandomnessUnavailable, rng)
   | Some (iv, rng') \<Rightarrow> (Inr iv, rng'))"

text \<open>A call on a field of the state.\<close>

definition fieldS :: "('t \<Rightarrow> 's) \<Rightarrow> ('s \<Rightarrow> 't \<Rightarrow> 't) \<Rightarrow> ('s, 'e, 'a) rsm \<Rightarrow> ('t, 'e, 'a) rsm" where
  "fieldS field update m = (\<lambda>t. case m (field t) of (r, s') \<Rightarrow> (r, update s' t))"

subsection \<open>Outbound gateway\<close>

record OutboundGatewayRole =
  og_established :: EstablishedTunnel
  og_expires_at_ms :: u64

definition og_is_usable :: "u64 \<Rightarrow> OutboundGatewayRole \<Rightarrow> bool" where
  "og_is_usable now_ms role \<longleftrightarrow> now_ms < og_expires_at_ms role"

record OBGWRouterDelivery =
  ob_target_router :: TunnelPeer
  ob_receive_tunnel :: TunnelId
  ob_cell :: TunnelDataMessage

definition og_fragment ::
  "(bytes \<Rightarrow> bytes) \<Rightarrow> ('r \<Rightarrow> nat \<Rightarrow> (bytes \<times> 'r) option) \<Rightarrow> OutboundGatewayRole \<Rightarrow> TunnelPayloadHeader \<Rightarrow> bytes
     \<Rightarrow> ('r, TunnelRoleError, (bytes \<times> bytes) list) rsm" where
  "og_fragment sha256 fill role header complete_message =
     (if \<not> og_is_usable 0 role then failS (\<lambda>_. TunnelUnavailable)
      else if tph_delivery header = DeliverLocal then failS (\<lambda>_. UnsupportedDeliveryInstruction)
      else
      bindS (map_errS RoleTunnelMessage
               (liftS (fragment_complete_message (tph_delivery header) (tph_message_id header) complete_message)))
        (\<lambda>fragments.
      map_errS RoleTunnelMessage (build_cells sha256 fill fragments)))"

text \<open>The layered cell for the first hop, as all three forwarding functions end.\<close>

definition og_deliver :: "Aes \<Rightarrow> OutboundGatewayRole \<Rightarrow> bytes \<Rightarrow> bytes \<Rightarrow> OBGWRouterDelivery" where
  "og_deliver aes role iv plaintext =
     (let established = og_established role;
          hops_reverse = rev (map hop_layer_keys (et_hops established));
          receive_tunnel = first_hop_receive_tunnel established
      in case outbound_preprocess aes hops_reverse iv plaintext of (cell_iv, cell_data) \<Rightarrow>
        \<lparr>ob_target_router = first_hop_router established, ob_receive_tunnel = receive_tunnel,
         ob_cell = join_cell (tunnel_id_get receive_tunnel) cell_iv cell_data\<rparr>)"

definition forward_with_iv ::
  "Aes \<Rightarrow> (bytes \<Rightarrow> bytes) \<Rightarrow> ('r \<Rightarrow> nat \<Rightarrow> (bytes \<times> 'r) option) \<Rightarrow> OutboundGatewayRole \<Rightarrow> TunnelPayloadHeader
     \<Rightarrow> bytes \<Rightarrow> bytes \<Rightarrow> u64 \<Rightarrow> ('r, TunnelRoleError, OBGWRouterDelivery) rsm" where
  "forward_with_iv aes sha256 fill role header complete_message iv now_ms =
     (if \<not> og_is_usable now_ms role then failS (\<lambda>_. TunnelUnavailable)
      else if tph_delivery header = DeliverLocal then failS (\<lambda>_. UnsupportedDeliveryInstruction)
      else
      bindS (map_errS RoleTunnelMessage (build_single sha256 fill header complete_message iv)) (\<lambda>plaintext.
      retS (og_deliver aes role iv plaintext)))"

definition og_forward ::
  "Aes \<Rightarrow> (bytes \<Rightarrow> bytes) \<Rightarrow> ('r \<Rightarrow> nat \<Rightarrow> (bytes \<times> 'r) option) \<Rightarrow> OutboundGatewayRole \<Rightarrow> TunnelPayloadHeader
     \<Rightarrow> bytes \<Rightarrow> u64 \<Rightarrow> ('r, TunnelRoleError, OBGWRouterDelivery) rsm" where
  "og_forward aes sha256 fill role header complete_message now_ms =
     (if \<not> og_is_usable now_ms role then failS (\<lambda>_. TunnelUnavailable)
      else if tph_delivery header = DeliverLocal then failS (\<lambda>_. UnsupportedDeliveryInstruction)
      else
      bindS (map_errS RoleTunnelMessage (fresh_iv fill)) (\<lambda>iv.
      bindS (map_errS RoleTunnelMessage (build_single sha256 fill header complete_message iv)) (\<lambda>plaintext.
      retS (og_deliver aes role iv plaintext))))"

definition forward_fragment ::
  "Aes \<Rightarrow> (bytes \<Rightarrow> bytes) \<Rightarrow> ('r \<Rightarrow> nat \<Rightarrow> (bytes \<times> 'r) option) \<Rightarrow> OutboundGatewayRole \<Rightarrow> FragmentDelivery
     \<Rightarrow> ('r, TunnelRoleError, OBGWRouterDelivery) rsm" where
  "forward_fragment aes sha256 fill role fragment =
     bindS (map_errS RoleTunnelMessage (fresh_iv fill)) (\<lambda>iv.
     bindS (map_errS RoleTunnelMessage (pack_payload sha256 fill fragment iv)) (\<lambda>plaintext.
     retS (og_deliver aes role iv plaintext)))"

definition forward_cells ::
  "Aes \<Rightarrow> (bytes \<Rightarrow> bytes) \<Rightarrow> ('r \<Rightarrow> nat \<Rightarrow> (bytes \<times> 'r) option) \<Rightarrow> OutboundGatewayRole \<Rightarrow> TunnelPayloadHeader
     \<Rightarrow> bytes \<Rightarrow> u64 \<Rightarrow> ('r, TunnelRoleError, OBGWRouterDelivery list) rsm" where
  "forward_cells aes sha256 fill role header complete_message now_ms =
     (if \<not> og_is_usable now_ms role then failS (\<lambda>_. TunnelUnavailable)
      else if tph_delivery header = DeliverLocal then failS (\<lambda>_. UnsupportedDeliveryInstruction)
      else
      bindS (map_errS RoleTunnelMessage
               (liftS (fragment_complete_message (tph_delivery header) (tph_message_id header) complete_message)))
        (\<lambda>fragments.
      mapS (forward_fragment aes sha256 fill role) fragments))"

subsection \<open>Participants\<close>

record ParticipantState =
  pt_direction :: TunnelDirection
  pt_receive_tunnel :: TunnelId
  pt_next :: EstablishedNextHop
  pt_layer_keys :: LayerKeys
  pt_locked_previous_peer :: "Hash option"
  pt_duplicates :: DuplicateWindow
  pt_expires_at_ms :: u64

definition participant_new ::
  "TunnelDirection \<Rightarrow> EstablishedHop \<Rightarrow> DuplicateWindow \<Rightarrow> u64 \<Rightarrow> TunnelRoleError + ParticipantState" where
  "participant_new direction hop duplicates expires_at_ms =
     bindR (ok_or (hop_next hop) MissingNextHop) (\<lambda>nxt.
     Inr \<lparr>pt_direction = direction, pt_receive_tunnel = hop_receive_tunnel hop, pt_next = nxt,
          pt_layer_keys = hop_layer_keys hop, pt_locked_previous_peer = None,
          pt_duplicates = duplicates, pt_expires_at_ms = expires_at_ms\<rparr>)"

text \<open>The two guards on a cell's identifier that the participants and both endpoints share.\<close>

definition check_cell_id :: "TunnelId \<Rightarrow> TunnelDataMessage \<Rightarrow> TunnelRoleError + unit" where
  "check_cell_id receive_tunnel cell =
     (if td_tunnel_id cell = 0 then Inl RoleZeroTunnelId
      else case tunnel_id_new (td_tunnel_id cell) of
        Inl _ \<Rightarrow> Inl RoleZeroTunnelId
      | Inr cell_tunnel_id \<Rightarrow>
          if cell_tunnel_id \<noteq> receive_tunnel
          then Inl (ReceiveTunnelMismatch cell_tunnel_id receive_tunnel)
          else Inr ())"

definition lock_previous_peer :: "Hash \<Rightarrow> (ParticipantState, TunnelRoleError, unit) rsm" where
  "lock_previous_peer previous_peer = (\<lambda>p.
     case pt_locked_previous_peer p of
       None \<Rightarrow> (Inr (), p\<lparr>pt_locked_previous_peer := Some previous_peer\<rparr>)
     | Some locked \<Rightarrow> if locked \<noteq> previous_peer then (Inl PreviousPeerMismatch, p) else (Inr (), p))"

text \<open>\<open>if !self.duplicates.observe(token)?\<close>.\<close>

definition admit :: "DuplicateToken \<Rightarrow> (DuplicateWindow, TunnelRoleError, unit) rsm" where
  "admit token =
     bindS (map_errS RoleDuplicateWindow (observe token)) (\<lambda>first.
     if first then retS () else failS (\<lambda>_. DuplicateCell))"

definition participant_process ::
  "Aes \<Rightarrow> Hash \<Rightarrow> TunnelDataMessage \<Rightarrow> u64 \<Rightarrow> (ParticipantState, TunnelRoleError, TunnelDataMessage) rsm" where
  "participant_process aes previous_peer cell now_ms = (\<lambda>p.
     if now_ms \<ge> pt_expires_at_ms p then (Inl TunnelUnavailable, p)
     else
     (bindS (liftS (check_cell_id (pt_receive_tunnel p) cell)) (\<lambda>_.
      bindS (lock_previous_peer previous_peer) (\<lambda>_.
      case split_cell cell of (iv, ciphertext) \<Rightarrow>
      bindS (fieldS pt_duplicates (\<lambda>w p. p\<lparr>pt_duplicates := w\<rparr>) (admit (token_compute iv ciphertext))) (\<lambda>_.
      case participant_forward aes (pt_layer_keys p) iv ciphertext of (next_iv, next_data) \<Rightarrow>
      retS (join_cell (tunnel_id_get (nh_tunnel (pt_next p))) next_iv next_data))))) p)"

text \<open>The two public participant roles wrap this state; their \<open>process\<close> is the one above.\<close>

definition outbound_participant_new ::
  "EstablishedHop \<Rightarrow> DuplicateWindow \<Rightarrow> u64 \<Rightarrow> TunnelRoleError + ParticipantState" where
  "outbound_participant_new = participant_new Outbound"

definition inbound_participant_new ::
  "EstablishedHop \<Rightarrow> DuplicateWindow \<Rightarrow> u64 \<Rightarrow> TunnelRoleError + ParticipantState" where
  "inbound_participant_new = participant_new Inbound"

definition participant_is_usable :: "u64 \<Rightarrow> ParticipantState \<Rightarrow> bool" where
  "participant_is_usable now_ms p \<longleftrightarrow> pt_expires_at_ms p > now_ms"

definition participant_next_router :: "ParticipantState \<Rightarrow> TunnelPeer" where
  "participant_next_router p = nh_router (pt_next p)"

subsection \<open>Outbound endpoint\<close>

record OutboundEndpointRole =
  oe_receive_tunnel :: TunnelId
  oe_layer_keys :: LayerKeys
  oe_duplicates :: DuplicateWindow
  oe_expires_at_ms :: u64
  oe_reassembler :: BoundedReassembler
  oe_last_action :: "RouterDeliveryAction option"

definition outbound_endpoint_new ::
  "EstablishedHop \<Rightarrow> DuplicateWindow \<Rightarrow> nat \<Rightarrow> nat \<Rightarrow> u64 \<Rightarrow> u64 \<Rightarrow> u64 \<Rightarrow> OutboundEndpointRole" where
  "outbound_endpoint_new hop duplicates reassembler_capacity reassembler_aggregate_bytes
       reassembler_expiry_ms expires_at_ms now_ms =
     \<lparr>oe_receive_tunnel = hop_receive_tunnel hop, oe_layer_keys = hop_layer_keys hop,
      oe_duplicates = duplicates, oe_expires_at_ms = expires_at_ms,
      oe_reassembler = reassembler_new reassembler_capacity reassembler_aggregate_bytes
        reassembler_expiry_ms now_ms,
      oe_last_action = None\<rparr>"

definition oe_is_usable :: "u64 \<Rightarrow> OutboundEndpointRole \<Rightarrow> bool" where
  "oe_is_usable now_ms role \<longleftrightarrow> now_ms < oe_expires_at_ms role"

fun action_from_delivery ::
  "DeliveryInstruction \<Rightarrow> bytes \<Rightarrow> u32 \<Rightarrow> u64 \<Rightarrow> TunnelRoleError + RouterDeliveryAction" where
  "action_from_delivery DeliverLocal message message_id expiration_ms =
     Inr \<lparr>ra_target_router = zero_hash, ra_kind = KindLocal, ra_tunnel_id = None,
          ra_message = message, ra_message_id = message_id, ra_expiration_ms = expiration_ms\<rparr>"
| "action_from_delivery (DeliverRouter router) message message_id expiration_ms =
     Inr \<lparr>ra_target_router = router, ra_kind = KindRouter, ra_tunnel_id = None,
          ra_message = message, ra_message_id = message_id, ra_expiration_ms = expiration_ms\<rparr>"
| "action_from_delivery (DeliverTunnel tunnel_id gateway) message message_id expiration_ms =
     (case tunnel_id_new tunnel_id of
        Inl _ \<Rightarrow> Inl RoleZeroTunnelId
      | Inr tid \<Rightarrow> Inr \<lparr>ra_target_router = gateway, ra_kind = KindTunnelGateway, ra_tunnel_id = Some tid,
          ra_message = message, ra_message_id = message_id, ra_expiration_ms = expiration_ms\<rparr>)"

abbreviation oe_insert ::
  "ReassemblyKey \<Rightarrow> TunnelFragment \<Rightarrow> DeliveryInstruction option
     \<Rightarrow> (OutboundEndpointRole, TunnelRoleError, ReassembledFragment option) rsm" where
  "oe_insert key fragment delivery \<equiv>
     fieldS oe_reassembler (\<lambda>r role. role\<lparr>oe_reassembler := r\<rparr>)
       (map_errS RoleReassembly (insert_with_delivery key fragment delivery))"

fun assemble_record ::
  "TunnelFragment \<Rightarrow> DeliveryInstruction option
     \<Rightarrow> (OutboundEndpointRole, TunnelRoleError, RouterDeliveryAction option) rsm" where
  "assemble_record (Unfragmented body) delivery =
     bindS (liftS (ok_or delivery UnsupportedDeliveryInstruction)) (\<lambda>delivery.
     bindS (liftS (action_from_delivery delivery body 0 0)) (\<lambda>action.
     retS (Some action)))"
| "assemble_record (First message_id body) delivery =
     bindS (liftS (ok_or delivery UnsupportedDeliveryInstruction)) (\<lambda>delivery.
     bindS (getS (\<lambda>role. ReassemblyKey (tunnel_id_get (oe_receive_tunnel role)) message_id)) (\<lambda>key.
     bindS (oe_insert key (First message_id body) (Some delivery)) (\<lambda>outcome.
     case outcome of
       None \<Rightarrow> retS None
     | Some reassembled \<Rightarrow>
         let delivery_instruction = (case rf_delivery reassembled of Some d \<Rightarrow> d | None \<Rightarrow> delivery) in
         bindS (liftS (action_from_delivery delivery_instruction (rf_message reassembled) message_id 0))
           (\<lambda>action. retS (Some action)))))"
| "assemble_record (FollowOn message_id sequence is_last body) delivery =
     bindS (getS (\<lambda>role. ReassemblyKey (tunnel_id_get (oe_receive_tunnel role)) message_id)) (\<lambda>key.
     bindS (oe_insert key (FollowOn message_id sequence is_last body) delivery) (\<lambda>outcome.
     case outcome of
       None \<Rightarrow> retS None
     | Some reassembled \<Rightarrow>
         bindS (liftS (ok_or (rf_delivery reassembled) (UnspecifiedDeliveryInstruction message_id)))
           (\<lambda>delivery_instruction.
         bindS (liftS (action_from_delivery delivery_instruction (rf_message reassembled) message_id 0))
           (\<lambda>action. retS (Some action)))))"

text \<open>
  The loop keeps the last action of a record that produced one. \<open>completed\<close> and \<open>last_action\<close> of the
  source take the same values, and an early return leaves the stored action as it was.
\<close>

fun assemble_loop ::
  "FragmentDelivery list \<Rightarrow> RouterDeliveryAction option
     \<Rightarrow> (OutboundEndpointRole, TunnelRoleError, RouterDeliveryAction option) rsm" where
  "assemble_loop [] completed = retS completed"
| "assemble_loop (record # records) completed =
     bindS (assemble_record (fd_fragment record) (fd_delivery record)) (\<lambda>outcome.
     assemble_loop records (case outcome of Some action \<Rightarrow> Some action | None \<Rightarrow> completed))"

definition assemble_actions ::
  "FragmentDelivery list \<Rightarrow> u64 \<Rightarrow> (OutboundEndpointRole, TunnelRoleError, RouterDeliveryAction option) rsm" where
  "assemble_actions records now_ms = (\<lambda>role.
     bindS (assemble_loop records None) (\<lambda>completed role.
       (Inr completed, role\<lparr>oe_last_action := completed\<rparr>))
     (role\<lparr>oe_reassembler := set_now now_ms (oe_reassembler role)\<rparr>))"

definition outbound_endpoint_process ::
  "Aes \<Rightarrow> (bytes \<Rightarrow> bytes) \<Rightarrow> Hash \<Rightarrow> TunnelDataMessage \<Rightarrow> u64
     \<Rightarrow> (OutboundEndpointRole, TunnelRoleError, RouterDeliveryAction option) rsm" where
  "outbound_endpoint_process aes sha256 previous_peer cell now_ms = (\<lambda>role.
     if \<not> oe_is_usable now_ms role then (Inl TunnelUnavailable, role)
     else
     (bindS (liftS (check_cell_id (oe_receive_tunnel role) cell)) (\<lambda>_.
      case split_cell cell of (iv, ciphertext) \<Rightarrow>
      bindS (fieldS oe_duplicates (\<lambda>w role. role\<lparr>oe_duplicates := w\<rparr>) (admit (token_compute iv ciphertext))) (\<lambda>_.
      case participant_forward aes (oe_layer_keys role) iv ciphertext of (next_iv, plaintext) \<Rightarrow>
      bindS (map_errS RoleTunnelMessage (liftS (parse_payload sha256 next_iv plaintext))) (\<lambda>records.
      assemble_actions records now_ms)))) role)"

subsection \<open>Inbound gateway\<close>

record InboundGatewayRole =
  ig_receive_tunnel :: TunnelId
  ig_next :: EstablishedNextHop
  ig_layer_keys :: LayerKeys
  ig_duplicates :: DuplicateWindow
  ig_expires_at_ms :: u64
  ig_next_fragment_id :: u32

record OutboundCell =
  oc_target_router :: TunnelPeer
  oc_tunnel_id :: TunnelId
  oc_iv :: bytes
  oc_data :: bytes
  oc_cell :: TunnelDataMessage

definition inbound_gateway_new ::
  "EstablishedHop \<Rightarrow> DuplicateWindow \<Rightarrow> u64 \<Rightarrow> TunnelRoleError + InboundGatewayRole" where
  "inbound_gateway_new hop duplicates expires_at_ms =
     bindR (ok_or (hop_next hop) MissingNextHop) (\<lambda>nxt.
     Inr \<lparr>ig_receive_tunnel = hop_receive_tunnel hop, ig_next = nxt, ig_layer_keys = hop_layer_keys hop,
          ig_duplicates = duplicates, ig_expires_at_ms = expires_at_ms, ig_next_fragment_id = 0\<rparr>)"

definition ig_is_usable :: "u64 \<Rightarrow> InboundGatewayRole \<Rightarrow> bool" where
  "ig_is_usable now_ms role \<longleftrightarrow> now_ms < ig_expires_at_ms role"

text \<open>
  The state of the gateway's operations is the role and the generator: the fragment counter is a
  cell. \<open>next_u32\<close> of the generator is a parameter beside \<open>fill\<close>.
\<close>

definition next_fragment_id :: "u32 \<Rightarrow> u32" where
  "next_fragment_id claimed = (let advanced = claimed + 1 in if advanced = 0 then 1 else advanced)"

definition claim_fragment_id ::
  "('r \<Rightarrow> u32 \<times> 'r) \<Rightarrow> InboundGatewayRole \<times> 'r \<Rightarrow> u32 \<times> InboundGatewayRole \<times> 'r" where
  "claim_fragment_id next_u32 = (\<lambda>(role, rng).
     let (claimed, rng) =
       (if ig_next_fragment_id role = 0
        then (case next_u32 rng of (seed, rng) \<Rightarrow> (if seed = 0 then 1 else seed, rng))
        else (ig_next_fragment_id role, rng))
     in (claimed, role\<lparr>ig_next_fragment_id := next_fragment_id claimed\<rparr>, rng))"

definition claimS :: "('r \<Rightarrow> u32 \<times> 'r) \<Rightarrow> (InboundGatewayRole \<times> 'r, 'e, u32) rsm" where
  "claimS next_u32 = (\<lambda>s. case claim_fragment_id next_u32 s of (claimed, s') \<Rightarrow> (Inr claimed, s'))"

abbreviation rngS :: "('r, 'e, 'a) rsm \<Rightarrow> (InboundGatewayRole \<times> 'r, 'e, 'a) rsm" where
  "rngS \<equiv> fieldS snd (\<lambda>rng s. (fst s, rng))"

definition ig_guard ::
  "'m TunnelGatewayMessage \<Rightarrow> u64 \<Rightarrow> InboundGatewayRole \<Rightarrow> TunnelRoleError + unit" where
  "ig_guard gateway now_ms role =
     (if \<not> ig_is_usable now_ms role then Inl TunnelUnavailable
      else case tunnel_id_new (tg_tunnel_id gateway) of
        Inl _ \<Rightarrow> Inl RoleZeroTunnelId
      | Inr actual \<Rightarrow>
          if actual \<noteq> ig_receive_tunnel role
          then Inl (GatewayTunnelMismatch actual (ig_receive_tunnel role))
          else Inr ())"

definition ig_outbound_cell :: "Aes \<Rightarrow> InboundGatewayRole \<Rightarrow> bytes \<times> bytes \<Rightarrow> OutboundCell" where
  "ig_outbound_cell aes role = (\<lambda>(iv, plaintext).
     case participant_forward aes (ig_layer_keys role) iv plaintext of (next_iv, next_data) \<Rightarrow>
     \<lparr>oc_target_router = nh_router (ig_next role), oc_tunnel_id = nh_tunnel (ig_next role),
      oc_iv = next_iv, oc_data = next_data,
      oc_cell = join_cell (tunnel_id_get (nh_tunnel (ig_next role))) next_iv next_data\<rparr>)"

definition inbound_gateway_process ::
  "Aes \<Rightarrow> (bytes \<Rightarrow> bytes) \<Rightarrow> ('r \<Rightarrow> nat \<Rightarrow> (bytes \<times> 'r) option) \<Rightarrow> ('r \<Rightarrow> u32 \<times> 'r) \<Rightarrow> ('m \<Rightarrow> bytes option)
     \<Rightarrow> 'm TunnelGatewayMessage \<Rightarrow> u64 \<Rightarrow> (InboundGatewayRole \<times> 'r, TunnelRoleError, OutboundCell) rsm" where
  "inbound_gateway_process aes sha256 fill next_u32 encode_standard gateway now_ms = (\<lambda>s.
     (bindS (liftS (ig_guard gateway now_ms (fst s))) (\<lambda>_.
      bindS (rngS (map_errS RoleTunnelMessage (fresh_iv fill))) (\<lambda>iv.
      bindS (claimS next_u32) (\<lambda>message_id.
      bindS (liftS (ok_or (encode_standard (tg_message gateway)) (RoleTunnelMessage EmptyMessage))) (\<lambda>inner_bytes.
      bindS (rngS (map_errS RoleTunnelMessage (build_single sha256 fill
               \<lparr>tph_delivery = DeliverLocal, tph_message_id = message_id, tph_expiration_ms = 0\<rparr>
               inner_bytes iv))) (\<lambda>plaintext.
      retS (ig_outbound_cell aes (fst s) (iv, plaintext)))))))) s)"

definition process_cells ::
  "Aes \<Rightarrow> (bytes \<Rightarrow> bytes) \<Rightarrow> ('r \<Rightarrow> nat \<Rightarrow> (bytes \<times> 'r) option) \<Rightarrow> ('r \<Rightarrow> u32 \<times> 'r) \<Rightarrow> ('m \<Rightarrow> bytes option)
     \<Rightarrow> 'm TunnelGatewayMessage \<Rightarrow> u64 \<Rightarrow> (InboundGatewayRole \<times> 'r, TunnelRoleError, OutboundCell list) rsm" where
  "process_cells aes sha256 fill next_u32 encode_standard gateway now_ms = (\<lambda>s.
     (bindS (liftS (ig_guard gateway now_ms (fst s))) (\<lambda>_.
      bindS (claimS next_u32) (\<lambda>message_id.
      bindS (liftS (ok_or (encode_standard (tg_message gateway)) (RoleTunnelMessage EmptyMessage))) (\<lambda>inner_bytes.
      bindS (map_errS RoleTunnelMessage (liftS (fragment_complete_message DeliverLocal message_id inner_bytes)))
        (\<lambda>fragments.
      bindS (rngS (map_errS RoleTunnelMessage (build_cells sha256 fill fragments))) (\<lambda>cells.
      retS (map (ig_outbound_cell aes (fst s)) cells))))))) s)"

subsection \<open>Local inbound endpoint\<close>

record LocalInboundEndpointRole =
  li_established :: EstablishedTunnel
  li_reassembler :: BoundedReassembler
  li_expires_at_ms :: u64

definition local_inbound_new ::
  "EstablishedTunnel \<Rightarrow> nat \<Rightarrow> nat \<Rightarrow> u64 \<Rightarrow> u64 \<Rightarrow> u64 \<Rightarrow> LocalInboundEndpointRole" where
  "local_inbound_new established reassembler_capacity reassembler_aggregate_bytes reassembly_expiry_ms
       now_ms expires_at_ms =
     \<lparr>li_established = established,
      li_reassembler = reassembler_new reassembler_capacity reassembler_aggregate_bytes
        reassembly_expiry_ms now_ms,
      li_expires_at_ms = expires_at_ms\<rparr>"

definition local_receive_tunnel :: "LocalInboundEndpointRole \<Rightarrow> TunnelId" where
  "local_receive_tunnel role = et_local_inbound_receive (li_established role)"

definition li_is_usable :: "u64 \<Rightarrow> LocalInboundEndpointRole \<Rightarrow> bool" where
  "li_is_usable now_ms role \<longleftrightarrow>
     now_ms < li_expires_at_ms role \<and> et_direction (li_established role) = Inbound"

definition local_record ::
  "FragmentDelivery \<Rightarrow> (LocalInboundEndpointRole, TunnelRoleError, bytes option) rsm" where
  "local_record record =
     (case fd_delivery record of
        Some (DeliverRouter _) \<Rightarrow> failS (\<lambda>_. LocalInboundNonLocalDelivery)
      | Some (DeliverTunnel _ _) \<Rightarrow> failS (\<lambda>_. LocalInboundNonLocalDelivery)
      | _ \<Rightarrow>
        let message_id = (case fragment_message_id (fd_fragment record) of Some m \<Rightarrow> m | None \<Rightarrow> 0) in
        bindS (getS (\<lambda>role. ReassemblyKey (tunnel_id_get (local_receive_tunnel role)) message_id)) (\<lambda>key.
        bindS (fieldS li_reassembler (\<lambda>r role. role\<lparr>li_reassembler := r\<rparr>)
                 (map_errS RoleReassembly (insert_with_delivery key (fd_fragment record) (fd_delivery record))))
          (\<lambda>outcome.
        case outcome of
          None \<Rightarrow> retS None
        | Some reassembled \<Rightarrow>
            (case rf_delivery reassembled of
               Some DeliverLocal \<Rightarrow> retS (Some (rf_message reassembled))
             | Some _ \<Rightarrow> failS (\<lambda>_. LocalInboundNonLocalDelivery)
             | None \<Rightarrow> failS (\<lambda>_. UnspecifiedDeliveryInstruction message_id)))))"

fun local_loop ::
  "FragmentDelivery list \<Rightarrow> bytes option \<Rightarrow> (LocalInboundEndpointRole, TunnelRoleError, bytes option) rsm" where
  "local_loop [] completed = retS completed"
| "local_loop (record # records) completed =
     bindS (local_record record) (\<lambda>outcome.
     local_loop records (case outcome of Some message \<Rightarrow> Some message | None \<Rightarrow> completed))"

definition local_inbound_process ::
  "Aes \<Rightarrow> (bytes \<Rightarrow> bytes) \<Rightarrow> Hash \<Rightarrow> TunnelDataMessage \<Rightarrow> u64
     \<Rightarrow> (LocalInboundEndpointRole, TunnelRoleError, bytes option) rsm" where
  "local_inbound_process aes sha256 previous_peer cell now_ms = (\<lambda>role.
     if \<not> li_is_usable now_ms role then (Inl TunnelUnavailable, role)
     else
     (bindS (liftS (check_cell_id (local_receive_tunnel role) cell)) (\<lambda>_.
      let hops_reverse = rev (map hop_layer_keys (et_hops (li_established role))) in
      case split_cell cell of (iv, ciphertext) \<Rightarrow>
      case inbound_endpoint_decrypt aes hops_reverse iv ciphertext of (recovered_iv, plaintext) \<Rightarrow>
      bindS (map_errS RoleTunnelMessage (liftS (parse_payload sha256 recovered_iv plaintext))) (\<lambda>records.
      if records = [] then retS None
      else (\<lambda>role. local_loop records None
              (role\<lparr>li_reassembler := set_now now_ms (li_reassembler role)\<rparr>))))) role)"

end
