(* ===== verification/Tunnel_Data_Laws.thy ===== *)
theory Tunnel_Data_Laws
  imports Tunnel_Data
begin

section \<open>The payload format: packing and parsing\<close>

text \<open>
  The laws of the TunnelData payload: the padding is nonzero, packing and parsing are inverse on
  valid records, and the parser accepts exactly the payloads with the builder's layout. The control
  bytes are a finite table, checked value by value.
\<close>

unbundle bit_operations_syntax

subsection \<open>Random padding\<close>

text \<open>What the generator promises: as many bytes as were asked for.\<close>

definition rng_fills :: "('r \<Rightarrow> nat \<Rightarrow> (bytes \<times> 'r) option) \<Rightarrow> bool" where
  "rng_fills fill \<longleftrightarrow> (\<forall>rng n bs rng'. fill rng n = Some (bs, rng') \<longrightarrow> length bs = n)"

lemma fill_slot_nonzero:
  "fill_slot fill max_total slot k attempts rng = (Inr (b, attempts'), rng') \<Longrightarrow> b \<noteq> 0"
proof (induction fill max_total slot k attempts rng arbitrary: b attempts' rng' rule: fill_slot.induct)
  case (1 fill max_total slot k attempts rng)
  from "1.prems" show ?case
    by (subst (asm) fill_slot.simps) (auto split: if_splits option.splits dest!: "1.IH" [simplified])
qed

lemma fill_slots_nonzero:
  "fill_slots fill max_total attempts slots rng = (Inr bs, rng') \<Longrightarrow>
     length bs = length slots \<and> 0 \<notin> set bs"
  by (induction slots arbitrary: attempts rng bs rng')
    (auto simp: rsm_simps elim!: bindS_InrE, metis fill_slot_nonzero)

lemma fill_nonzero_padding:
  assumes "rng_fills fill" "fill_nonzero fill len rng = (Inr bs, rng')"
  shows "length bs = len \<and> 0 \<notin> set bs"
  using assms by (auto simp: fill_nonzero_def rng_fills_def split: if_splits option.splits
      dest: fill_slots_nonzero)

subsection \<open>Control bytes\<close>

lemma delivery_control_parse:
  "parse_first_control (delivery_control d) = Inr (case d of DeliverLocal \<Rightarrow> FirstLocal
     | DeliverTunnel _ _ \<Rightarrow> FirstTunnel | DeliverRouter _ \<Rightarrow> FirstRouter)"
  "parse_first_control (delivery_control d OR 0x08) = Inr (case d of DeliverLocal \<Rightarrow> FirstLocal
     | DeliverTunnel _ _ \<Rightarrow> FirstTunnel | DeliverRouter _ \<Rightarrow> FirstRouter)"
  by (cases d; simp add: parse_first_control_def)+

lemma delivery_control_bits:
  "delivery_control d AND 0x80 = 0" "(delivery_control d OR 0x08) AND 0x80 = 0"
  "delivery_control d AND 0x08 = 0" "(delivery_control d OR 0x08) AND 0x08 \<noteq> 0"
  by (cases d; simp)+

abbreviation follow_on_control :: "u8 \<Rightarrow> bool \<Rightarrow> u8" where
  "follow_on_control s l \<equiv> 0x80 OR push_bit 1 (s AND 0x3F) OR (if l then 0x01 else 0x00)"

lemma follow_on_control_table:
  "list_all (\<lambda>s. drop_bit 1 (follow_on_control s l AND 0x7E) = s
      \<and> (follow_on_control s l AND 0x01 \<noteq> 0 \<longleftrightarrow> l) \<and> follow_on_control s l AND 0x80 \<noteq> 0)
    (map of_nat [0..<64])"
  by (cases l) (simp_all only:, code_simp+)

lemma follow_on_control_bits:
  assumes "(s::u8) \<le> 63"
  shows "drop_bit 1 (follow_on_control s l AND 0x7E) = s"
    and "follow_on_control s l AND 0x01 \<noteq> 0 \<longleftrightarrow> l"
    and "follow_on_control s l AND 0x80 \<noteq> 0"
proof -
  have "unat s \<le> 63" using assms by (simp add: word_le_nat_alt)
  then have "unat s \<in> set [0..<64]" by simp
  then have "s \<in> set (map of_nat [0..<64])" unfolding set_map by (intro image_eqI [of _ _ "unat s"]) simp_all
  with follow_on_control_table [of l, unfolded list_all_iff]
  show "drop_bit 1 (follow_on_control s l AND 0x7E) = s"
    "follow_on_control s l AND 0x01 \<noteq> 0 \<longleftrightarrow> l" "follow_on_control s l AND 0x80 \<noteq> 0"
    by blast+
qed

subsection \<open>Round trip of one record\<close>

fun delivery_valid :: "DeliveryInstruction \<Rightarrow> bool" where
  "delivery_valid DeliverLocal = True"
| "delivery_valid (DeliverTunnel tunnel_id gateway) = (tunnel_id \<noteq> 0 \<and> hash_valid gateway)"
| "delivery_valid (DeliverRouter router) = hash_valid router"

fun record_valid_parts :: "TunnelFragment \<Rightarrow> DeliveryInstruction option \<Rightarrow> bool" where
  "record_valid_parts (Unfragmented body) (Some d) = (delivery_valid d \<and> body \<noteq> [])"
| "record_valid_parts (First message_id body) (Some d) =
     (delivery_valid d \<and> message_id \<noteq> 0 \<and> body \<noteq> [])"
| "record_valid_parts (FollowOn message_id sequence is_last body) None =
     (message_id \<noteq> 0 \<and> 1 \<le> sequence \<and> sequence \<le> 63 \<and> body \<noteq> [])"
| "record_valid_parts _ _ = False"

definition record_valid :: "FragmentDelivery \<Rightarrow> bool" where
  "record_valid record = record_valid_parts (fd_fragment record) (fd_delivery record)"

lemma delivery_valid_validate: "delivery_valid d \<Longrightarrow> validate_delivery d = Inr ()"
  by (cases d) auto

lemma be_u32_encode [simp]: "be_u32 (be_encode 4 (unat w) @ rest) = w"
  by (simp add: be_u32_def be_decode_encode)

lemma parse_sized_encode:
  assumes "encode_sized body = Inr bs" "body \<noteq> []" "length pre = at"
  shows "parse_sized at (pre @ bs @ rest) = Inr (body, rest)"
  using assms by (auto simp: encode_sized_def parse_sized_def be_decode_encode split: if_splits)

lemma parse_sized_encode0:
  assumes "encode_sized body = Inr bs" "body \<noteq> []"
  shows "parse_sized 0 (bs @ rest) = Inr (body, rest)"
  using parse_sized_encode [OF assms, of "[]"] by simp

lemma length_encode_sized: "encode_sized body = Inr bs \<Longrightarrow> length bs = 2 + length body"
  by (auto simp: encode_sized_def split: if_splits)

lemma parse_delivery_extra:
  assumes "delivery_valid d"
  shows "parse_delivery (case d of DeliverLocal \<Rightarrow> FirstLocal | DeliverTunnel _ _ \<Rightarrow> FirstTunnel
       | DeliverRouter _ \<Rightarrow> FirstRouter) (c # append_delivery_extra d @ rest) = Inr (d, rest)"
  using assms by (cases d) (auto simp: hash_valid_def)

lemma parse_initial_encode:
  assumes "encode_record_parts f (Some d) = Inr bs" "record_valid_parts f (Some d)"
  shows "parse_initial (bs @ rest) = Inr (\<lparr>fd_delivery = Some d, fd_fragment = f\<rparr>, rest)"
    and "hd (bs @ rest) AND 0x80 = 0" and "bs \<noteq> []"
proof -
  show "parse_initial (bs @ rest) = Inr (\<lparr>fd_delivery = Some d, fd_fragment = f\<rparr>, rest)"
  proof (cases f)
    case (Unfragmented body)
    then obtain sized where "encode_sized body = Inr sized"
      "bs = delivery_control d # append_delivery_extra d @ sized"
      using assms(1) by (auto simp: bindR_eq_Inr)
    with Unfragmented assms(2) show ?thesis
      by (simp add: parse_initial_def delivery_control_parse delivery_control_bits
          parse_delivery_extra parse_sized_encode0 length_encode_sized)
  next
    case (First mid body)
    then obtain sized where "encode_sized body = Inr sized"
      "bs = (delivery_control d OR 0x08) # append_delivery_extra d @ be_encode 4 (unat mid) @ sized"
      using assms(1) by (auto simp: bindR_eq_Inr)
    with First assms(2) show ?thesis
      by (simp add: parse_initial_def delivery_control_parse delivery_control_bits
          parse_delivery_extra parse_sized_encode length_encode_sized)
  qed (use assms in auto)
  show "hd (bs @ rest) AND 0x80 = 0" "bs \<noteq> []"
    using assms by (cases f; auto simp: bindR_eq_Inr delivery_control_bits)+
qed

lemma parse_follow_on_encode:
  assumes "encode_record_parts f None = Inr bs" "record_valid_parts f None"
    and "fragment_is_last f \<longrightarrow> observed_max \<le> fragment_sequence f"
  shows "parse_follow_on observed_max (bs @ rest) =
      Inr (\<lparr>fd_delivery = None, fd_fragment = f\<rparr>, max observed_max (fragment_sequence f), rest)"
    and "hd (bs @ rest) AND 0x80 \<noteq> 0" and "bs \<noteq> []"
proof -
  obtain mid s l body where f: "f = FollowOn mid s l body" using assms(2) by (cases f) auto
  then obtain sized where sized: "encode_sized body = Inr sized"
    and bs: "bs = follow_on_control s l # be_encode 4 (unat mid) @ sized"
    using assms(1) by (auto simp: bindR_eq_Inr)
  have v: "mid \<noteq> 0" "1 \<le> s" "s \<le> 63" "body \<noteq> []" using assms(2) f by auto
  define c where "c = follow_on_control s l"
  note bits = follow_on_control_bits [OF v(3), of l, folded c_def]
  have bs': "bs @ rest = c # be_encode 4 (unat mid) @ sized @ rest" using bs by (simp add: c_def)
  have sz: "parse_sized 5 (c # be_encode 4 (unat mid) @ sized @ rest) = Inr (body, rest)"
    using parse_sized_encode [OF sized v(4), of "c # be_encode 4 (unat mid)"] by simp
  have "\<not> (l \<and> s < observed_max)" using assms(3) f by (auto simp: not_less)
  with sz v show "parse_follow_on observed_max (bs @ rest) =
      Inr (\<lparr>fd_delivery = None, fd_fragment = f\<rparr>, max observed_max (fragment_sequence f), rest)"
    unfolding parse_follow_on_def Let_def bs' list.sel bits f
    by (auto simp: length_encode_sized [OF sized])
  show "hd (bs @ rest) AND 0x80 \<noteq> 0" "bs \<noteq> []" using bits(3) bs bs' by simp_all
qed

subsection \<open>Parsing back what was encoded\<close>

text \<open>The records of a payload: at most one initial record, and a last fragment above all before it.\<close>

fun records_ordered :: "u8 \<Rightarrow> bool \<Rightarrow> FragmentDelivery list \<Rightarrow> bool" where
  "records_ordered m seen [] = True"
| "records_ordered m seen (r # rs) =
     (if fd_delivery r = None
      then (fragment_is_last (fd_fragment r) \<longrightarrow> m \<le> fragment_sequence (fd_fragment r))
           \<and> records_ordered (max m (fragment_sequence (fd_fragment r))) seen rs
      else \<not> seen \<and> records_ordered m True rs)"

abbreviation encodes_to :: "FragmentDelivery \<Rightarrow> bytes \<Rightarrow> bool" where
  "encodes_to r bs \<equiv> record_valid r \<and> encode_record r = Inr bs"

lemma parse_records_encode:
  assumes "list_all2 encodes_to rs encs" "records_ordered m seen rs"
  shows "parse_records m seen acc (concat encs) = Inr (acc @ rs)"
  using assms
proof (induction rs encs arbitrary: m seen acc rule: list_all2_induct)
  case Nil
  then show ?case by (simp add: parse_records.simps)
next
  case (Cons r rs enc encs)
  have r: "\<lparr>fd_delivery = fd_delivery r, fd_fragment = fd_fragment r\<rparr> = r" by (cases r) simp
  show ?case
  proof (cases "fd_delivery r")
    case None
    with Cons have e: "encode_record_parts (fd_fragment r) None = Inr enc"
      "record_valid_parts (fd_fragment r) None"
      "fragment_is_last (fd_fragment r) \<longrightarrow> m \<le> fragment_sequence (fd_fragment r)"
      by (auto simp: record_valid_def encode_record_def)
    show ?thesis
      using parse_follow_on_encode(1,2) [OF e, of "concat encs"] parse_follow_on_encode(3) [OF e] Cons None r
      by (subst parse_records.simps) simp
  next
    case (Some d)
    with Cons have e: "encode_record_parts (fd_fragment r) (Some d) = Inr enc"
      "record_valid_parts (fd_fragment r) (Some d)"
      by (auto simp: record_valid_def encode_record_def)
    show ?thesis
      using parse_initial_encode(1,2) [OF e, of "concat encs"] parse_initial_encode(3) [OF e] Cons Some r
      by (subst parse_records.simps) simp
  qed
qed

lemma first_zero_padding: "0 \<notin> set xs \<Longrightarrow> first_zero i (xs @ 0 # ys) = Some (i + length xs)"
  by (induction xs arbitrary: i) auto

lemma first_zero_Some:
  "first_zero i bs = Some j \<Longrightarrow> \<exists>xs ys. bs = xs @ 0 # ys \<and> 0 \<notin> set xs \<and> j = i + length xs"
proof (induction i bs rule: first_zero.induct)
  case (2 i b bs)
  show ?case
  proof (cases "b = 0")
    case True
    with 2 show ?thesis by (intro exI [of _ "[]"] exI [of _ bs]) auto
  next
    case False
    with 2 obtain xs ys where "bs = xs @ 0 # ys \<and> 0 \<notin> set xs \<and> j = i + 1 + length xs" by auto
    with False show ?thesis by (intro exI [of _ "b # xs"] exI [of _ ys]) auto
  qed
qed simp

lemma locate_delimiter_padding:
  assumes "length cs = CHECKSUM_LEN" "0 \<notin> set padding"
  shows "locate_delimiter (cs @ padding @ 0 # body) = Inr (CHECKSUM_LEN + length padding, body)"
  using assms by (simp add: locate_delimiter_def first_zero_padding)

lemma locate_delimiter_eq:
  assumes "locate_delimiter p = Inr (index, post)" "CHECKSUM_LEN \<le> length p"
  obtains padding where "p = take CHECKSUM_LEN p @ padding @ 0 # post" "0 \<notin> set padding"
    "index = CHECKSUM_LEN + length padding"
proof -
  obtain xs ys where xs: "drop CHECKSUM_LEN p = xs @ 0 # ys" "0 \<notin> set xs" "index = CHECKSUM_LEN + length xs"
    "post = drop (index + 1) p"
    using assms(1) by (auto simp: locate_delimiter_def split: option.splits dest!: first_zero_Some)
  have p: "p = take CHECKSUM_LEN p @ xs @ 0 # ys"
    using xs(1) append_take_drop_id [of CHECKSUM_LEN p] by simp
  have "drop (index + 1) p = drop (1 + length xs) (drop CHECKSUM_LEN p)"
    using xs(3) by (simp add: add.commute add.left_commute)
  then have "post = ys" using xs(1,4) by simp
  with p xs that show thesis by metis
qed

lemma word_xor_eq_0: "(a :: 'w::len word) XOR b = 0 \<longleftrightarrow> a = b"
proof
  assume "a XOR b = 0"
  then have "(a XOR b) XOR b = b" by simp
  then show "a = b" by (simp add: xor.assoc)
qed simp

lemma checksum_fold_zero:
  "fold (\<lambda>i diff. diff OR (f i XOR g i)) xs (d :: u8) = 0 \<longleftrightarrow> d = 0 \<and> (\<forall>i\<in>set xs. f i = g i)"
  by (induction xs arbitrary: d) (auto simp: or_eq_0_iff word_xor_eq_0)

lemma verify_checksum_eq:
  assumes "CHECKSUM_LEN \<le> length (sha256 (post @ iv))" "length cs = CHECKSUM_LEN"
  shows "verify_checksum sha256 cs post iv =
    (if cs = take CHECKSUM_LEN (sha256 (post @ iv)) then Inr () else Inl ChecksumMismatch)"
proof -
  have "cs = take CHECKSUM_LEN (sha256 (post @ iv)) \<longleftrightarrow>
      (\<forall>i\<in>set [0..<CHECKSUM_LEN]. cs ! i = sha256 (post @ iv) ! i)"
    using assms by (auto simp: list_eq_iff_nth_eq)
  with assms(2) show ?thesis
    by (simp add: verify_checksum_def Let_def checksum_fold_zero del: set_upt)
qed

text \<open>What the sources rely on of SHA-256: the digest has at least the four bytes that are kept.\<close>

definition digest_wide :: "(bytes \<Rightarrow> bytes) \<Rightarrow> bool" where
  "digest_wide sha256 \<longleftrightarrow> (\<forall>x. CHECKSUM_LEN \<le> length (sha256 x))"

definition payload_layout :: "(bytes \<Rightarrow> bytes) \<Rightarrow> bytes \<Rightarrow> bytes \<Rightarrow> bytes \<Rightarrow> bytes" where
  "payload_layout sha256 iv padding body =
     take CHECKSUM_LEN (sha256 (body @ iv)) @ padding @ [0] @ body"

lemma parse_payload_layout:
  assumes "digest_wide sha256" "0 \<notin> set padding"
    "list_all2 encodes_to rs encs" "records_ordered 0 False rs"
  shows "parse_payload sha256 iv (payload_layout sha256 iv padding (concat encs)) = Inr rs"
proof -
  let ?cs = "take CHECKSUM_LEN (sha256 (concat encs @ iv))"
  have cs: "length ?cs = CHECKSUM_LEN" using assms(1) by (simp add: digest_wide_def)
  have "verify_checksum sha256 ?cs (concat encs) iv = Inr ()"
    using assms(1) cs by (simp add: verify_checksum_eq digest_wide_def)
  then show ?thesis
    using cs locate_delimiter_padding [OF cs assms(2), of "concat encs"]
      parse_records_encode [OF assms(3,4), of "[]"]
    by (simp add: parse_payload_def payload_layout_def digest_wide_def)
qed

lemma pack_payload_layout:
  assumes "rng_fills fill" "pack_payload sha256 fill record iv rng = (Inr payload, rng')"
  obtains body padding where "encode_record record = Inr body"
    "payload = payload_layout sha256 iv padding body" "0 \<notin> set padding"
    "length padding + CHECKSUM_LEN + 1 + length body = MAX_PLAINTEXT_DATA_BYTES"
proof -
  obtain body padding where r: "encode_record record = Inr body"
    "\<not> length body + CHECKSUM_LEN + 1 > MAX_PLAINTEXT_DATA_BYTES"
    "fill_nonzero fill (MAX_PLAINTEXT_DATA_BYTES - CHECKSUM_LEN - 1 - length body) rng = (Inr padding, rng')"
    "payload = payload_layout sha256 iv padding body"
    using assms(2)
    by (auto simp: pack_payload_def payload_layout_def rsm_simps elim!: bindS_InrE split: if_splits)
  with fill_nonzero_padding [OF assms(1) r(3)] that show thesis by simp
qed

lemma pack_payload_parse:
  assumes "rng_fills fill" "digest_wide sha256" "record_valid record"
    "pack_payload sha256 fill record iv rng = (Inr payload, rng')"
  shows "length payload = MAX_PLAINTEXT_DATA_BYTES \<and> parse_payload sha256 iv payload = Inr [record]"
proof -
  obtain body padding where r: "encode_record record = Inr body"
    "payload = payload_layout sha256 iv padding body" "0 \<notin> set padding"
    "length padding + CHECKSUM_LEN + 1 + length body = MAX_PLAINTEXT_DATA_BYTES"
    using pack_payload_layout [OF assms(1,4)] by metis
  have "records_ordered 0 False [record]" by simp
  then have "parse_payload sha256 iv payload = Inr [record]"
    using parse_payload_layout [OF assms(2) r(3), of "[record]" "[body]" iv] assms(3) r(1,2) by simp
  moreover have "length payload = MAX_PLAINTEXT_DATA_BYTES"
    using r(2,4) assms(2) by (simp add: payload_layout_def digest_wide_def)
  ultimately show ?thesis by simp
qed

subsection \<open>Every accepted payload has the builder's layout\<close>

lemma first_control_table:
  "list_all (\<lambda>b :: u8. b AND 0x80 = 0 \<longrightarrow>
     (case parse_first_control b of Inl _ \<Rightarrow> True
      | Inr FirstLocal \<Rightarrow> b = 0 OR (b AND 0x08)
      | Inr FirstTunnel \<Rightarrow> b = 0x20 OR (b AND 0x08)
      | Inr FirstRouter \<Rightarrow> b = 0x40 OR (b AND 0x08))
     \<and> (b AND 0x08 = 0 \<or> b AND 0x08 = 0x08)) (map of_nat [0..<256])"
  by code_simp

lemma follow_on_byte_table:
  "list_all (\<lambda>b :: u8. b AND 0x80 \<noteq> 0 \<longrightarrow>
     b = follow_on_control (drop_bit 1 (b AND 0x7E)) (b AND 0x01 \<noteq> 0)) (map of_nat [0..<256])"
  by code_simp

lemma u8_in_table: "(b :: u8) \<in> set (map of_nat [0..<256])"
  unfolding set_map by (rule image_eqI [of _ _ "unat b"]) simp_all


lemma take_take_drop: "bs = take n bs @ take m (drop n bs) @ drop (n + m) bs"
  by (metis append_take_drop_id drop_drop add.commute)

lemma be_u32_bytes:
  assumes "4 \<le> length bs"
  shows "be_encode 4 (unat (be_u32 bs)) = take 4 bs"
proof -
  have "be_decode (take 4 bs) < 256 ^ 4" using be_decode_less [of "take 4 bs"] assms by simp
  then have "unat (be_u32 bs) = be_decode (take 4 bs)"
    unfolding be_u32_def by (intro unat_of_nat_u32) simp
  then show ?thesis using be_encode_decode [of "take 4 bs"] assms by simp
qed

lemma parse_sized_sound:
  assumes "parse_sized at bs = Inr (body, rest)"
  obtains sized where "encode_sized body = Inr sized" "body \<noteq> []" "bs = take at bs @ sized @ rest"
proof -
  let ?n = "be_decode (take 2 (drop at bs))"
  have n: "?n \<noteq> 0" "?n + (at + 2) \<le> length bs" "body = take ?n (drop (at + 2) bs)"
    "rest = drop (at + 2 + ?n) bs"
    using assms by (auto simp: parse_sized_def Let_def split: if_splits)
  then have len: "length body = ?n" by simp
  have two: "length (take 2 (drop at bs)) = 2" using n(2) by simp
  then have "?n < 65536" using be_decode_less [of "take 2 (drop at bs)"] by simp
  moreover have "be_encode 2 ?n = take 2 (drop at bs)"
    using be_encode_decode [of "take 2 (drop at bs)"] two by simp
  ultimately have "encode_sized body = Inr (take 2 (drop at bs) @ body)"
    using len by (simp add: encode_sized_def)
  moreover have "body \<noteq> []" using len n(1) by auto
  moreover have "bs = take at bs @ (take 2 (drop at bs) @ body) @ rest"
    using take_take_drop [of bs at 2] take_take_drop [of "drop (at + 2) bs" 0 ?n] n(3,4)
    by (simp add: add.commute add.left_commute)
  ultimately show thesis using that by blast
qed

abbreviation kind_of :: "DeliveryInstruction \<Rightarrow> FirstDelivery" where
  "kind_of d \<equiv> (case d of DeliverLocal \<Rightarrow> FirstLocal | DeliverTunnel _ _ \<Rightarrow> FirstTunnel
     | DeliverRouter _ \<Rightarrow> FirstRouter)"

lemma parse_delivery_sound:
  assumes "parse_delivery k bs = Inr (d, rest)" "bs \<noteq> []"
  shows "delivery_valid d \<and> k = kind_of d \<and> bs = hd bs # append_delivery_extra d @ rest"
proof (cases k)
  case FirstLocal
  with assms show ?thesis by (cases bs) auto
next
  case FirstTunnel
  with assms have d: "37 \<le> length bs" "be_u32 (drop 1 bs) \<noteq> 0" "rest = drop 37 bs"
    "d = DeliverTunnel (be_u32 (drop 1 bs)) (Hash (take 32 (drop 5 bs)))"
    by (auto simp: Let_def split: if_splits)
  have "be_encode 4 (unat (be_u32 (drop 1 bs))) = take 4 (drop 1 bs)"
    using d(1) by (intro be_u32_bytes) simp
  moreover have "bs = take 1 bs @ take 4 (drop 1 bs) @ take 32 (drop 5 bs) @ drop 37 bs"
    using take_take_drop [of bs 1 4] take_take_drop [of "drop 5 bs" 0 32] by simp
  moreover have "take 1 bs = [hd bs]" using assms(2) by (cases bs) auto
  ultimately show ?thesis using d FirstTunnel by (simp add: hash_valid_def)
next
  case FirstRouter
  with assms have d: "33 \<le> length bs" "rest = drop 33 bs" "d = DeliverRouter (Hash (take 32 (drop 1 bs)))"
    by (auto split: if_splits)
  moreover have "bs = take 1 bs @ take 32 (drop 1 bs) @ drop 33 bs"
    using take_take_drop [of bs 1 32] by simp
  moreover have "take 1 bs = [hd bs]" using assms(2) by (cases bs) auto
  ultimately show ?thesis using FirstRouter by (simp add: hash_valid_def)
qed

lemma first_control_sound:
  assumes "parse_first_control b = Inr (kind_of d)" "b AND 0x80 = 0"
  shows "b = (if b AND 0x08 \<noteq> 0 then delivery_control d OR 0x08 else delivery_control d)"
  using first_control_table [unfolded list_all_iff, rule_format, OF u8_in_table, of b] assms
  by (cases d) auto

lemma parse_initial_sound:
  assumes "parse_initial bs = Inr (r, rest)" "bs \<noteq> []" "hd bs AND 0x80 = 0"
  obtains enc where "encodes_to r enc" "bs = enc @ rest" "fd_delivery r \<noteq> None"
proof -
  let ?b = "hd bs"
  obtain k d mid_bytes where k: "parse_first_control ?b = Inr k" "parse_delivery k bs = Inr (d, mid_bytes)"
    using assms(1) by (auto simp: parse_initial_def Let_def bindR_eq_Inr)
  have d: "delivery_valid d" "k = kind_of d" "bs = ?b # append_delivery_extra d @ mid_bytes"
    using parse_delivery_sound [OF k(2) assms(2)] by auto
  have b: "?b = (if ?b AND 0x08 \<noteq> 0 then delivery_control d OR 0x08 else delivery_control d)"
    using first_control_sound k(1) d(2) assms(3) by simp
  show thesis
  proof (cases "?b AND 0x08 = 0")
    case True
    then obtain body where body: "parse_sized 0 mid_bytes = Inr (body, rest)"
      "r = \<lparr>fd_delivery = Some d, fd_fragment = Unfragmented body\<rparr>"
      using assms(1) k by (auto simp: parse_initial_def Let_def bindR_eq_Inr split: if_splits)
    obtain sized where "encode_sized body = Inr sized" "body \<noteq> []" "mid_bytes = sized @ rest"
      using parse_sized_sound [OF body(1)] by auto
    with body(2) d b True show thesis
      by (intro that [of "?b # append_delivery_extra d @ sized"]) (auto simp: record_valid_def encode_record_def)
  next
    case False
    then obtain body where body: "6 \<le> length mid_bytes" "be_u32 mid_bytes \<noteq> 0"
      "parse_sized 4 mid_bytes = Inr (body, rest)"
      "r = \<lparr>fd_delivery = Some d, fd_fragment = First (be_u32 mid_bytes) body\<rparr>"
      using assms(1) k by (auto simp: parse_initial_def Let_def bindR_eq_Inr split: if_splits)
    obtain sized where "encode_sized body = Inr sized" "body \<noteq> []" "mid_bytes = take 4 mid_bytes @ sized @ rest"
      using parse_sized_sound [OF body(3)] by auto
    moreover have "be_encode 4 (unat (be_u32 mid_bytes)) = take 4 mid_bytes"
      using body(1) by (intro be_u32_bytes) simp
    ultimately show thesis using body(2,4) d b False
      by (intro that [of "?b # append_delivery_extra d @ take 4 mid_bytes @ sized"])
        (auto simp: record_valid_def encode_record_def)
  qed
qed

lemma parse_follow_on_sound:
  assumes "parse_follow_on m bs = Inr (r, m', rest)" "bs \<noteq> []" "hd bs AND 0x80 \<noteq> 0"
  obtains enc where "encodes_to r enc" "bs = enc @ rest" "fd_delivery r = None"
    "m' = max m (fragment_sequence (fd_fragment r))"
    "fragment_is_last (fd_fragment r) \<longrightarrow> m \<le> fragment_sequence (fd_fragment r)"
proof -
  define s where "s = drop_bit 1 (hd bs AND 0x7E)"
  define l where "l = (hd bs AND 0x01 \<noteq> 0)"
  have b: "hd bs = follow_on_control s l"
    unfolding s_def l_def
    using follow_on_byte_table [unfolded list_all_iff, rule_format, OF u8_in_table assms(3)] .
  from assms(1) obtain body where body: "s \<noteq> 0" "\<not> 63 < s" "\<not> (l \<and> s < m)" "7 \<le> length bs"
    "be_u32 (drop 1 bs) \<noteq> 0" "parse_sized 5 bs = Inr (body, rest)" "m' = max m s"
    "r = \<lparr>fd_delivery = None, fd_fragment = FollowOn (be_u32 (drop 1 bs)) s l body\<rparr>"
    unfolding parse_follow_on_def Let_def s_def [symmetric] l_def [symmetric]
    by (auto simp: bindR_eq_Inr split: if_splits)
  obtain sized where sized: "encode_sized body = Inr sized" "body \<noteq> []" "bs = take 5 bs @ sized @ rest"
    using parse_sized_sound [OF body(6)] by auto
  have "be_encode 4 (unat (be_u32 (drop 1 bs))) = take 4 (drop 1 bs)"
    using body(4) by (intro be_u32_bytes) simp
  moreover have "take 5 bs = hd bs # take 4 (drop 1 bs)" using assms(2) by (cases bs) simp_all
  ultimately have "bs = (follow_on_control s l # be_encode 4 (unat (be_u32 (drop 1 bs))) @ sized) @ rest"
    using sized(3) b by simp
  moreover have "1 \<le> s" using body(1) by (simp add: word_le_nat_alt unat_gt_0 Suc_le_eq)
  ultimately show thesis using body sized
    by (intro that [of "follow_on_control s l # be_encode 4 (unat (be_u32 (drop 1 bs))) @ sized"])
      (auto simp: record_valid_def encode_record_def not_less)
qed

lemma parse_records_sound:
  "parse_records m seen acc bs = Inr out \<Longrightarrow>
     \<exists>rs encs. out = acc @ rs \<and> list_all2 encodes_to rs encs \<and> bs = concat encs \<and> records_ordered m seen rs"
proof (induction m seen acc bs rule: parse_records.induct)
  case (1 m seen acc bs)
  consider "bs = []" | "bs \<noteq> []" "hd bs AND 0x80 = 0" | "bs \<noteq> []" "hd bs AND 0x80 \<noteq> 0" by blast
  then show ?case
  proof cases
    case 1
    with "1.prems" show ?thesis by (simp add: parse_records.simps)
  next
    case 2
    then obtain r rest where r: "\<not> seen" "parse_initial bs = Inr (r, rest)"
      "parse_records m True (acc @ [r]) rest = Inr out"
      using "1.prems" by (subst (asm) parse_records.simps) (auto split: if_splits sum.splits)
    obtain rs encs where "out = (acc @ [r]) @ rs" "list_all2 encodes_to rs encs" "rest = concat encs"
      "records_ordered m True rs"
      using "1.IH"(1) [OF 2 r(1,2) refl r(3)] by blast
    moreover obtain enc where "encodes_to r enc" "bs = enc @ rest" "fd_delivery r \<noteq> None"
      using parse_initial_sound [OF r(2) 2] .
    ultimately show ?thesis using r(1)
      by (intro exI [of _ "r # rs"] exI [of _ "enc # encs"]) auto
  next
    case 3
    then obtain r m' rest where r: "parse_follow_on m bs = Inr (r, m', rest)"
      "parse_records m' seen (acc @ [r]) rest = Inr out"
      using "1.prems" by (subst (asm) parse_records.simps) (auto split: if_splits sum.splits)
    obtain rs encs where "out = (acc @ [r]) @ rs" "list_all2 encodes_to rs encs" "rest = concat encs"
      "records_ordered m' seen rs"
      using "1.IH"(2) [OF 3 r(1) refl refl r(2)] by blast
    moreover obtain enc where "encodes_to r enc" "bs = enc @ rest" "fd_delivery r = None"
      "m' = max m (fragment_sequence (fd_fragment r))"
      "fragment_is_last (fd_fragment r) \<longrightarrow> m \<le> fragment_sequence (fd_fragment r)"
      using parse_follow_on_sound [OF r(1) 3] .
    ultimately show ?thesis
      by (intro exI [of _ "r # rs"] exI [of _ "enc # encs"]) auto
  qed
qed

lemma parse_payload_sound:
  assumes "digest_wide sha256" "CHECKSUM_LEN \<le> length p" "parse_payload sha256 iv p = Inr rs"
  obtains padding encs where "p = payload_layout sha256 iv padding (concat encs)" "0 \<notin> set padding"
    "list_all2 encodes_to rs encs" "records_ordered 0 False rs"
proof -
  obtain index post where p: "locate_delimiter p = Inr (index, post)"
    "verify_checksum sha256 (take CHECKSUM_LEN p) post iv = Inr ()"
    "parse_records 0 False [] (drop (index + 1) p) = Inr rs"
    using assms(3) by (auto simp: parse_payload_def bindR_eq_Inr)
  obtain padding where pad: "p = take CHECKSUM_LEN p @ padding @ 0 # post" "0 \<notin> set padding"
    using locate_delimiter_eq [OF p(1) assms(2)] .
  have "drop (index + 1) p = post"
    using p(1) by (auto simp: locate_delimiter_def split: option.splits)
  then obtain encs where "list_all2 encodes_to rs encs" "post = concat encs" "records_ordered 0 False rs"
    using parse_records_sound [OF p(3)] by auto
  moreover have "take CHECKSUM_LEN p = take CHECKSUM_LEN (sha256 (post @ iv))"
    using p(2) assms(1,2) by (simp add: verify_checksum_eq digest_wide_def split: if_splits)
  ultimately show thesis using pad that by (simp add: payload_layout_def)
qed

subsection \<open>Padding fails only with the generator\<close>

text \<open>
  The generator is only known to fill a request or to fail. What the padding loop needs of it is
  therefore not assumed; instead every error is traced to an event of the generator, in a state it
  reaches by serving requests: a request it did not serve, or 32 single bytes in a row that were zero.
\<close>

definition draws :: "('r \<Rightarrow> nat \<Rightarrow> (bytes \<times> 'r) option) \<Rightarrow> 'r \<Rightarrow> 'r \<Rightarrow> bool" where
  "draws fill rng rng' \<longleftrightarrow> (\<exists>n bs. fill rng n = Some (bs, rng'))"

primrec zero_run :: "('r \<Rightarrow> nat \<Rightarrow> (bytes \<times> 'r) option) \<Rightarrow> nat \<Rightarrow> 'r \<Rightarrow> bool" where
  "zero_run fill 0 rng = True"
| "zero_run fill (Suc k) rng =
     (case fill rng 1 of None \<Rightarrow> False | Some (bs, rng') \<Rightarrow> bs ! 0 = 0 \<and> zero_run fill k rng')"

definition randomness_failed :: "('r \<Rightarrow> nat \<Rightarrow> (bytes \<times> 'r) option) \<Rightarrow> 'r \<Rightarrow> TunnelMessageError \<Rightarrow> bool" where
  "randomness_failed fill rng e \<longleftrightarrow>
     (\<exists>s. (draws fill)\<^sup>*\<^sup>* rng s
        \<and> (e = RandomnessUnavailable \<and> (\<exists>n. fill s n = None)
           \<or> (\<exists>attempts. e = PaddingRetryExhausted attempts) \<and> zero_run fill 32 s))"

text \<open>A computation that only draws from the generator, and whose errors are the generator's.\<close>

definition draws_or_fails :: "('r \<Rightarrow> nat \<Rightarrow> (bytes \<times> 'r) option) \<Rightarrow> (TunnelMessageError \<Rightarrow> 'e) \<Rightarrow> ('r, 'e, 'a) rsm \<Rightarrow> bool" where
  "draws_or_fails fill wrap m \<longleftrightarrow>
     (\<forall>rng. (draws fill)\<^sup>*\<^sup>* rng (snd (m rng))
        \<and> (\<forall>e. fst (m rng) = Inl e \<longrightarrow> (\<exists>cause. e = wrap cause \<and> randomness_failed fill rng cause)))"

lemma draws_or_failsI:
  assumes "\<And>rng r rng'. m rng = (r, rng') \<Longrightarrow> (draws fill)\<^sup>*\<^sup>* rng rng'
    \<and> (\<forall>e. r = Inl e \<longrightarrow> (\<exists>cause. e = wrap cause \<and> randomness_failed fill rng cause))"
  shows "draws_or_fails fill wrap m"
  unfolding draws_or_fails_def using assms [OF prod.collapse [symmetric]] by blast

lemma draws_or_failsD:
  assumes "draws_or_fails fill wrap m" "m rng = (r, rng')"
  shows "(draws fill)\<^sup>*\<^sup>* rng rng'" "r = Inl e \<Longrightarrow> \<exists>cause. e = wrap cause \<and> randomness_failed fill rng cause"
  using spec [OF assms(1) [unfolded draws_or_fails_def], of rng] assms(2) by simp_all

lemma randomness_failed_later:
  "(draws fill)\<^sup>*\<^sup>* rng rng' \<Longrightarrow> randomness_failed fill rng' e \<Longrightarrow> randomness_failed fill rng e"
  unfolding randomness_failed_def by (elim exE conjE, intro exI conjI, erule (1) rtranclp_trans)

lemma drawn: "fill rng n = Some (bs, rng') \<Longrightarrow> (draws fill)\<^sup>*\<^sup>* rng rng'"
  by (rule r_into_rtranclp) (auto simp: draws_def)

lemma draws_or_fails_ret: "draws_or_fails fill wrap (retS v)"
  by (simp add: draws_or_fails_def retS_def)

lemma draws_or_fails_lift: "draws_or_fails fill wrap (liftS (Inr v))"
  by (simp add: draws_or_fails_def liftS_def)

lemma draws_or_fails_bind:
  assumes m: "draws_or_fails fill wrap m"
    and f: "\<And>v rng rng'. m rng = (Inr v, rng') \<Longrightarrow> draws_or_fails fill wrap (f v)"
  shows "draws_or_fails fill wrap (bindS m f)"
proof (rule draws_or_failsI)
  fix rng r rng' assume run: "bindS m f rng = (r, rng')"
  obtain q s where q: "m rng = (q, s)" by force
  note first = draws_or_failsD [OF m q]
  show "(draws fill)\<^sup>*\<^sup>* rng rng' \<and> (\<forall>e. r = Inl e \<longrightarrow> (\<exists>cause. e = wrap cause \<and> randomness_failed fill rng cause))"
  proof (cases q)
    case (Inl e)
    with run q have "r = Inl e" "rng' = s" by (simp_all add: bindS_def)
    with first(1) first(2) [OF Inl] show ?thesis by simp
  next
    case (Inr v)
    have "draws_or_fails fill wrap (f v)" by (rule f [OF q [unfolded Inr]])
    moreover have "f v s = (r, rng')" using run q Inr by (simp add: bindS_def)
    ultimately have second: "(draws fill)\<^sup>*\<^sup>* s rng'"
      "r = Inl e \<Longrightarrow> \<exists>cause. e = wrap cause \<and> randomness_failed fill s cause" for e
      by (rule draws_or_failsD)+
    have "\<exists>cause. e = wrap cause \<and> randomness_failed fill rng cause" if "r = Inl e" for e
      using second(2) [OF that] randomness_failed_later [OF first(1)] by (elim exE conjE) (intro exI conjI)
    then show ?thesis using rtranclp_trans [OF first(1) second(1)] by simp
  qed
qed

lemma draws_or_fails_map_err:
  assumes "draws_or_fails fill id m"
  shows "draws_or_fails fill wrap (map_errS wrap m)"
proof (rule draws_or_failsI)
  fix rng r rng' assume run: "map_errS wrap m rng = (r, rng')"
  obtain q s where q: "m rng = (q, s)" by force
  with run have "s = rng'" "r = map_sum wrap id q" by (simp_all add: map_errS_def)
  with draws_or_failsD [OF assms q]
  show "(draws fill)\<^sup>*\<^sup>* rng rng' \<and> (\<forall>e. r = Inl e \<longrightarrow> (\<exists>cause. e = wrap cause \<and> randomness_failed fill rng cause))"
    by (cases q) auto
qed

lemma draws_or_fails_mapS:
  "(\<And>x. x \<in> set xs \<Longrightarrow> draws_or_fails fill wrap (f x)) \<Longrightarrow> draws_or_fails fill wrap (mapS f xs)"
  by (induction xs) (simp_all add: draws_or_fails_bind draws_or_fails_ret)

lemma draws_or_fails_request:
  "draws_or_fails fill id (\<lambda>rng. case fill rng n of None \<Rightarrow> (Inl RandomnessUnavailable, rng) | Some (bs, rng') \<Rightarrow> (Inr bs, rng'))"
  by (rule draws_or_failsI) (auto simp: randomness_failed_def intro: drawn split: option.splits prod.splits)

text \<open>
  The loop for one byte. The total number of attempts never ends it: each byte before has used at
  most 32 of them, so the limit of the byte itself is reached first.
\<close>

lemma fill_slot_outcome:
  assumes "fill_slot fill max_total slot l a rng = (r, rng')" "l \<le> 32" "a + (32 - l) \<le> max_total"
  shows "(draws fill)\<^sup>*\<^sup>* rng rng'
    \<and> (case r of
         Inr (b, a') \<Rightarrow> a' \<le> a + (32 - l)
       | Inl e \<Rightarrow> slot = 0 \<and> (e = RandomnessUnavailable \<and> (\<exists>s n. (draws fill)\<^sup>*\<^sup>* rng s \<and> fill s n = None)
           \<or> (\<exists>attempts. e = PaddingRetryExhausted attempts) \<and> zero_run fill (32 - l) rng))"
  using assms
proof (induction "32 - l" arbitrary: slot l a rng)
  case 0
  from 0(2) [unfolded fill_slot.simps [of fill max_total slot l a rng]] 0(1,3) show ?case
    by (auto simp: data_limits split: if_splits)
next
  case (Suc k)
  note unfolded = Suc.prems(1) [unfolded fill_slot.simps [of fill max_total slot l a rng]]
  consider "slot \<noteq> 0" | "slot = 0" "fill rng 1 = None" | bs s where "slot = 0" "fill rng 1 = Some (bs, s)"
    by (cases "fill rng 1") auto
  then show ?case
  proof cases
    case 1
    with unfolded show ?thesis by auto
  next
    case 2
    with unfolded Suc.hyps(2) Suc.prems(2,3) have "r = Inl RandomnessUnavailable" "rng' = rng"
      by (simp_all add: data_limits del: One_nat_def split: if_splits)
    with 2 show ?thesis by auto
  next
    case 3
    have "l + 1 < usize_limit" using Suc.prems(2) by (simp add: usize_limit_def)
    then have sat: "saturating_add l 1 = l + 1" by (rule saturating_add_small)
    have sat_le: "saturating_add a 1 \<le> a + 1" by (rule saturating_add_le)
    have run: "fill_slot fill max_total (bs ! 0) (l + 1) (saturating_add a 1) s = (r, rng')"
      using unfolded 3 Suc.hyps(2) Suc.prems(2,3) sat by (simp add: data_limits del: One_nat_def split: if_splits)
    have step: "(draws fill)\<^sup>*\<^sup>* rng s" using 3(2) by (rule drawn)
    have "32 - l = Suc (32 - (l + 1))" using Suc.hyps(2) by simp
    then have zeros: "bs ! 0 = 0 \<Longrightarrow> zero_run fill (32 - (l + 1)) s \<Longrightarrow> zero_run fill (32 - l) rng" using 3(2) by simp
    have "k = 32 - (l + 1)" "l + 1 \<le> 32" "saturating_add a 1 + (32 - (l + 1)) \<le> max_total"
      using Suc.hyps(2) Suc.prems(3) sat_le by simp_all
    from Suc.hyps(1) [OF this(1) run this(2,3)] step zeros 3(1) sat_le Suc.hyps(2) show ?thesis
      by (auto split: sum.splits intro: rtranclp_trans)
  qed
qed

lemma fill_slots_draw:
  "a + 32 * length slots \<le> max_total \<Longrightarrow> fill_slots fill max_total a slots rng = (r, rng') \<Longrightarrow>
     (draws fill)\<^sup>*\<^sup>* rng rng' \<and> (\<forall>e. r = Inl e \<longrightarrow> randomness_failed fill rng e)"
proof (induction slots arbitrary: a rng r)
  case (Cons slot slots)
  obtain q s where q: "fill_slot fill max_total slot 0 a rng = (q, s)" by force
  note first = fill_slot_outcome [OF q]
  show ?case
  proof (cases q)
    case (Inl e)
    with first Cons.prems q show ?thesis
      by (auto simp: bindS_def randomness_failed_def)
  next
    case (Inr v)
    obtain b a' where v: "v = (b, a')" by force
    with first Inr Cons.prems(1) have a': "(draws fill)\<^sup>*\<^sup>* rng s" "a' \<le> a + 32" by auto
    obtain q' where rest: "fill_slots fill max_total a' slots s = (q', rng')" "\<forall>e. r = Inl e \<longrightarrow> q' = Inl e"
      using Cons.prems(2) q Inr v by (auto simp: bindS_def retS_def split: prod.splits sum.splits)
    from Cons.IH [OF _ rest(1)] a' Cons.prems(1) rest(2) show ?thesis
      by (auto intro: rtranclp_trans randomness_failed_later)
  qed
qed (auto simp: retS_def)

lemma fill_nonzero_draws:
  assumes "rng_fills fill"
  shows "draws_or_fails fill id (fill_nonzero fill len)"
proof (rule draws_or_failsI)
  fix rng r rng' assume run: "fill_nonzero fill len rng = (r, rng')"
  have "(draws fill)\<^sup>*\<^sup>* rng rng' \<and> (\<forall>e. r = Inl e \<longrightarrow> randomness_failed fill rng e)"
  proof (cases "len = 0 \<or> fill rng len = None")
    case True
    with run show ?thesis by (auto simp: fill_nonzero_def randomness_failed_def split: if_splits)
  next
    case False
    then obtain buf s where f: "fill rng len = Some (buf, s)" by auto
    with assms have "length buf = len" by (auto simp: rng_fills_def)
    with fill_slots_draw [of 0 buf "32 * len" fill s r rng'] run False f drawn [of fill rng len buf s, OF f] show ?thesis
      by (auto simp: fill_nonzero_def data_limits intro: rtranclp_trans randomness_failed_later)
  qed
  then show "(draws fill)\<^sup>*\<^sup>* rng rng' \<and> (\<forall>e. r = Inl e \<longrightarrow> (\<exists>cause. e = id cause \<and> randomness_failed fill rng cause))"
    by simp
qed

lemma pack_payload_draws:
  assumes "rng_fills fill" "encode_record record = Inr body"
    "length body + CHECKSUM_LEN + 1 \<le> MAX_PLAINTEXT_DATA_BYTES"
  shows "draws_or_fails fill id (pack_payload sha256 fill record iv)"
  using assms fill_nonzero_draws [OF assms(1)]
  by (auto simp: pack_payload_def liftS_def bindS_def [of "\<lambda>s. (Inr body, s)"]
      intro!: draws_or_fails_bind draws_or_fails_ret)

lemma fill_slot_nonzero_slot: "slot \<noteq> 0 \<Longrightarrow> fill_slot fill m slot l a rng = (Inr (slot, a), rng)"
  by (subst fill_slot.simps) simp

end
