(* ===== verification/Tunnel_Reassembly.thy ===== *)
theory Tunnel_Reassembly
  imports Tunnel_Fragment
begin

section \<open>Reassembly in any order\<close>

text \<open>
  The fragments of a message complete it in whatever order they arrive. The state of the partial
  message after any set of fragments is described by \<open>holds_fragments\<close>; each insertion extends it,
  and the last one assembles the message and leaves the reassembler as it was.

  The fragments of one message: \<open>bodies\<close> in sequence order, the first with the delivery
  instruction, the last flagged.
\<close>

definition nth_fragment :: "u32 \<Rightarrow> bytes list \<Rightarrow> nat \<Rightarrow> TunnelFragment" where
  "nth_fragment message_id bodies i =
     (if i = 0 then First message_id (bodies ! 0)
      else FollowOn message_id (of_nat i) (Suc i = length bodies) (bodies ! i))"

definition nth_delivery :: "DeliveryInstruction option \<Rightarrow> nat \<Rightarrow> DeliveryInstruction option" where
  "nth_delivery delivery i = (if i = 0 then delivery else None)"

text \<open>What a partial message looks like after the fragments \<open>xs\<close>, in whatever order they came.\<close>

definition holds_fragments ::
  "bytes list \<Rightarrow> DeliveryInstruction option \<Rightarrow> nat list \<Rightarrow> PartialMessage \<Rightarrow> bool" where
  "holds_fragments bodies delivery xs p \<longleftrightarrow>
     partial_wf p
     \<and> (\<forall>i<length bodies. bt_get (pm_received p) (of_nat i) = (if i \<in> set xs then Some (bodies ! i) else None))
     \<and> length (pm_received p) = length xs
     \<and> pm_bytes p = (\<Sum>i\<leftarrow>xs. length (bodies ! i))
     \<and> unat (pm_observed_max_sequence p) < length bodies
     \<and> pm_total_fragments p =
         (if length bodies - 1 \<in> set xs then Some (of_nat (length bodies)) else None)
     \<and> pm_first_delivery p = (if 0 \<in> set xs then delivery else None)"

lemma fragment_body_nth [simp]: "fragment_body (nth_fragment mid bodies i) = bodies ! i"
  by (simp add: nth_fragment_def)

lemma fragment_sequence_nth [simp]: "fragment_sequence (nth_fragment mid bodies i) = of_nat i"
  by (simp add: nth_fragment_def)

lemma of_nat_u8_eq:
  assumes "i < 64" "j < 64"
  shows "(of_nat i :: u8) = of_nat j \<longleftrightarrow> i = j"
proof -
  have "unat (of_nat i :: u8) = i" "unat (of_nat j :: u8) = j"
    using assms by (simp_all add: unat_of_nat_u8)
  then show ?thesis by metis
qed

lemma holds_new: "1 < length bodies \<Longrightarrow> holds_fragments bodies d [] (partial_new now)"
  by (auto simp: holds_fragments_def partial_new_def partial_wf_def)

lemma holds_touch [simp]:
  "holds_fragments bodies d xs (p\<lparr>pm_last_touched_ms := t\<rparr>) \<longleftrightarrow> holds_fragments bodies d xs p"
  by (simp add: holds_fragments_def)

lemma holds_classify:
  assumes "holds_fragments bodies d xs p" "i < length bodies" "i \<notin> set xs" "length bodies \<le> 64"
  shows "classify p (nth_fragment mid bodies i) (nth_delivery d i) = Inr (Inserted (length (bodies ! i)))"
proof (cases "i = 0")
  case True
  have "bt_get (pm_received p) (of_nat 0) = None"
    using assms unfolding holds_fragments_def by (metis True)
  with True show ?thesis by (simp add: nth_fragment_def)
next
  case False
  have u: "unat (of_nat i :: u8) = i" using assms by (intro unat_of_nat_u8) simp
  have "\<not> (of_nat i :: u8) < 1" "\<not> 63 < (of_nat i :: u8)"
    using u assms False by (auto simp: word_less_nat_alt)
  moreover have "bt_get (pm_received p) (of_nat i) = None" "unat (pm_observed_max_sequence p) < length bodies"
    using assms by (auto simp: holds_fragments_def)
  ultimately show ?thesis
    using False u
    by (auto simp: nth_fragment_def nth_delivery_def reassembly_limits word_less_nat_alt)
qed

lemma holds_apply:
  assumes h: "holds_fragments bodies d xs p" and i: "i < length bodies" "i \<notin> set xs"
    and len: "1 < length bodies" "length bodies \<le> 64"
    and fits: "(\<Sum>i\<leftarrow>xs. length (bodies ! i)) + length (bodies ! i) \<le> MAX_REASSEMBLY_BYTES_PER_MESSAGE"
  obtains p' where "partial_apply (nth_fragment mid bodies i) (nth_delivery d i) p = (Inr (), p')"
    "holds_fragments bodies d (xs @ [i]) p'"
proof -
  let ?f = "nth_fragment mid bodies i"
  have wf: "partial_wf p" and bytes: "pm_bytes p = (\<Sum>i\<leftarrow>xs. length (bodies ! i))"
    using h by (simp_all add: holds_fragments_def)
  have fits': "pm_bytes p + length (fragment_body ?f) \<le> MAX_REASSEMBLY_BYTES_PER_MESSAGE"
    using fits bytes by simp
  then have small: "pm_bytes p + length (fragment_body ?f) < usize_limit"
    by (simp add: reassembly_limits usize_limit_def)
  obtain p' where p': "partial_apply ?f (nth_delivery d i) p = (Inr (), p')"
    and rec: "pm_received p' = bt_insert (of_nat i) (bodies ! i) (pm_received p)"
    using partial_apply_result(1) [OF small fits', of "nth_delivery d i"] by auto
  have u: "unat (of_nat i :: u8) = i" using i len by (intro unat_of_nat_u8) simp
  have fresh: "bt_get (pm_received p) (fragment_sequence ?f) = None"
    using h i by (simp add: holds_fragments_def)
  have seq: "fragment_sequence ?f \<le> 63" using u i len by (simp add: word_le_nat_alt)
  note w = partial_wf_apply [OF wf fresh seq fits' p']
  have get: "bt_get (pm_received p') (of_nat j) = (if j \<in> set (xs @ [i]) then Some (bodies ! j) else None)"
    if "j < length bodies" for j
    using h that i len by (auto simp: rec bt_get_insert of_nat_u8_eq holds_fragments_def)
  have count: "length (pm_received p') = length (xs @ [i])"
    using h fresh wf by (simp add: rec length_bt_insert partial_wf_def holds_fragments_def)
  have rest: "unat (pm_observed_max_sequence p') < length bodies
      \<and> pm_total_fragments p' =
         (if length bodies - 1 \<in> set (xs @ [i]) then Some (of_nat (length bodies)) else None)
      \<and> pm_first_delivery p' = (if 0 \<in> set (xs @ [i]) then d else None)"
  proof (cases "i = 0")
    case True
    then have "p' = p\<lparr>pm_bytes := pm_bytes p + length (bodies ! i),
        pm_received := bt_insert 0 (bodies ! i) (pm_received p), pm_first_delivery := d\<rparr>"
      using p' fits' small by (auto simp: nth_fragment_def nth_delivery_def Let_def)
    with h True len show ?thesis by (auto simp: holds_fragments_def)
  next
    case False
    then have "pm_observed_max_sequence p' = max (pm_observed_max_sequence p) (of_nat i)"
      "pm_total_fragments p' = (if Suc i = length bodies then Some (of_nat i + 1) else pm_total_fragments p)"
      "pm_first_delivery p' = pm_first_delivery p"
      using p' fits' small by (auto simp: nth_fragment_def nth_delivery_def Let_def split: if_splits)
    moreover have "(of_nat i + 1 :: u8) = of_nat (length bodies)" if "Suc i = length bodies"
      unfolding that [symmetric] by simp
    ultimately show ?thesis using h False i u by (auto simp: holds_fragments_def unat_max)
  qed
  have "holds_fragments bodies d (xs @ [i]) p'"
    using w get count rest bytes by (simp add: holds_fragments_def)
  with p' show ?thesis by (rule that)
qed

lemma assemble_from_nth:
  assumes "\<forall>i<n. bt_get m (of_nat i) = Some (bodies ! i)" "n = length bodies"
  shows "assemble_from m [0..<n] = Some (concat bodies)"
proof -
  have "assemble_from m [j..<n] = Some (concat (drop j bodies))" if "j \<le> n" for j
    using that
  proof (induction "n - j" arbitrary: j)
    case 0
    with assms show ?case by simp
  next
    case (Suc k)
    then have "j < n" by simp
    with Suc assms show ?case
      by (simp add: upt_conv_Cons Cons_nth_drop_Suc [symmetric] del: upt_Suc)
  qed
  from this [of 0] show ?thesis by simp
qed

lemma holds_assemble:
  assumes h: "holds_fragments bodies d xs p" and dist: "distinct xs" "set xs \<subseteq> {..<length bodies}"
    and len: "1 < length bodies" "length bodies \<le> 64"
  shows "assemble p = (if length xs = length bodies then Some (concat bodies) else None)"
proof -
  let ?n = "length bodies"
  have tot: "unat (of_nat ?n :: u8) = ?n" using len by (simp add: unat_of_nat_u8)
  show ?thesis
  proof (cases "length xs = ?n")
    case True
    have "card (set xs) = ?n" using True dist(1) by (simp add: distinct_card)
    with dist(2) have all: "set xs = {..<?n}" by (simp add: card_subset_eq)
    with h len have "pm_total_fragments p = Some (of_nat ?n)"
      "\<forall>i<?n. bt_get (pm_received p) (of_nat i) = Some (bodies ! i)" "length (pm_received p) = ?n"
      by (auto simp: holds_fragments_def True)
    with tot True assemble_from_nth [of ?n "pm_received p" bodies] show ?thesis
      by (simp add: assemble_def is_complete_def)
  next
    case False
    with h tot show ?thesis by (auto simp: assemble_def is_complete_def holds_fragments_def)
  qed
qed

fun insert_all ::
  "ReassemblyKey \<Rightarrow> (TunnelFragment \<times> DeliveryInstruction option) list \<Rightarrow> BoundedReassembler
     \<Rightarrow> (ReassemblyError + ReassembledFragment option) list \<times> BoundedReassembler" where
  "insert_all key [] r = ([], r)"
| "insert_all key ((f, d) # fs) r =
     (case insert_with_delivery key f d r of (x, r1) \<Rightarrow>
        (case insert_all key fs r1 of (xs, r2) \<Rightarrow> (x # xs, r2)))"

text \<open>The reassembler \<open>base\<close> with the fragments \<open>xs\<close> of one message stored in the partial \<open>p\<close>.\<close>

definition stored ::
  "BoundedReassembler \<Rightarrow> ReassemblyKey \<Rightarrow> bytes list \<Rightarrow> nat list \<Rightarrow> PartialMessage \<Rightarrow> BoundedReassembler" where
  "stored base key bodies xs p =
     (if xs = [] then base
      else base\<lparr>br_partials := bt_insert key p (br_partials base),
                br_aggregate_bytes := br_aggregate_bytes base + (\<Sum>i\<leftarrow>xs. length (bodies ! i))\<rparr>)"

text \<open>A reassembler that can take a new message of the given bodies under \<open>key\<close>.\<close>

definition ready :: "BoundedReassembler \<Rightarrow> ReassemblyKey \<Rightarrow> bytes list \<Rightarrow> bool" where
  "ready base key bodies \<longleftrightarrow>
     reassembler_wf base
     \<and> (\<forall>(k, p)\<in>set (br_partials base). \<not> partial_expired base p)
     \<and> bt_get (br_partials base) key = None
     \<and> length (br_partials base) < br_capacity base
     \<and> 0 < br_expiry_ms base
     \<and> br_aggregate_bytes base + length (concat bodies) \<le> br_aggregate_bytes_max base
     \<and> length (concat bodies) \<le> MAX_REASSEMBLY_BYTES_PER_MESSAGE
     \<and> 1 < length bodies \<and> length bodies \<le> 64"

lemma sum_bodies_le:
  assumes "distinct xs" "set xs \<subseteq> {..<length bodies}"
  shows "(\<Sum>i\<leftarrow>xs. length (bodies ! i)) \<le> length (concat bodies)"
proof -
  have "(\<Sum>i\<leftarrow>xs. length (bodies ! i)) = (\<Sum>i\<in>set xs. length (bodies ! i))"
    using assms(1) by (simp add: sum_list_distinct_conv_sum_set)
  also have "\<dots> \<le> (\<Sum>i<length bodies. length (bodies ! i))"
    using assms(2) by (intro sum_mono2) auto
  also have "\<dots> = length (concat bodies)"
    by (simp add: length_concat sum_list_sum_nth lessThan_atLeast0)
  finally show ?thesis .
qed

lemma expire_due_none:
  assumes "bt_wf (br_partials r)" "\<forall>(k, p)\<in>set (br_partials r). \<not> partial_expired r p"
  shows "expire_due r = r"
proof -
  have "bt_retain (\<lambda>k p. \<not> partial_expired r p) (br_partials r) = br_partials r"
    using assms(2) by (intro bt_retain_all) auto
  moreover have "bt_retain (\<lambda>k p. partial_expired r p) (br_partials r) = []"
    using assms(2) by (auto simp: bt_retain_def filter_empty_conv)
  ultimately show ?thesis by (simp add: expire_due_eq [OF assms(1)])
qed

lemma set_bt_insert_subset: "set (bt_insert k v m) \<subseteq> Set.insert (k, v) (set m)"
  by (induction k v m rule: bt_insert.induct) auto

lemma stored_facts:
  assumes "ready base key bodies" "pm_last_touched_ms p = br_now_ms base"
  shows "expire_due (stored base key bodies xs p) = stored base key bodies xs p"
    and "current_partial (stored base key bodies xs p) key =
      (if xs = [] then partial_new (br_now_ms base) else p)"
    and "bt_insert key q (br_partials (stored base key bodies xs p)) = bt_insert key q (br_partials base)"
    and "br_aggregate_bytes (stored base key bodies xs p) =
      br_aggregate_bytes base + (\<Sum>i\<leftarrow>xs. length (bodies ! i))"
proof -
  have wf: "bt_wf (br_partials base)" and fresh: "bt_get (br_partials base) key = None"
    and live: "\<forall>(k, q)\<in>set (br_partials base). \<not> partial_expired base q" "0 < br_expiry_ms base"
    using assms(1) by (simp_all add: ready_def reassembler_wf_def)
  have "\<not> partial_expired base p"
    using live(2) assms(2) by (simp add: partial_expired_def word_sat_sub_def)
  with live have "\<forall>(k, q)\<in>set (bt_insert key p (br_partials base)). \<not> partial_expired base q"
    using set_bt_insert_subset [of key p "br_partials base"] by auto
  then have "\<forall>(k, q)\<in>set (br_partials (stored base key bodies xs p)).
      \<not> partial_expired (stored base key bodies xs p) q"
    using live by (auto simp: stored_def partial_expired_def)
  moreover have "bt_wf (br_partials (stored base key bodies xs p))"
    using wf by (simp add: stored_def bt_wf_insert)
  ultimately show "expire_due (stored base key bodies xs p) = stored base key bodies xs p"
    by (intro expire_due_none)
  show "current_partial (stored base key bodies xs p) key =
      (if xs = [] then partial_new (br_now_ms base) else p)"
    using assms(2) fresh
    by (auto simp: current_partial_def stored_def bt_get_insert partial_new_def)
qed (simp_all add: stored_def bt_insert_insert)

text \<open>A fragment the partial message does not hold yet is classified as new.\<close>

lemma stored_classifies:
  assumes ready: "ready base key bodies"
    and hq: "holds_fragments bodies d xs (if xs = [] then partial_new (br_now_ms base) else p)"
    and i: "distinct (xs @ [i])" "set (xs @ [i]) \<subseteq> {..<length bodies}"
  shows "reassembler_classify key (nth_fragment mid bodies i) (nth_delivery d i) (stored base key bodies xs p) =
    (Inr (Inserted (length (bodies ! i))), stored base key bodies xs p)"
proof (cases "xs = []")
  case True
  let ?f = "nth_fragment mid bodies i"
  have len: "1 < length bodies" "length bodies \<le> 64" using ready by (simp_all add: ready_def)
  have "classify_new_partial ?f (nth_delivery d i) = Inr (Inserted (length (bodies ! i)))"
    using holds_classify [OF hq, of i mid] i len
    by (cases ?f) (auto simp: nth_fragment_def nth_delivery_def Let_def split: if_splits option.splits)
  with True ready show ?thesis by (simp add: reassembler_classify_def stored_def ready_def)
next
  case False
  have "1 < length bodies" "length bodies \<le> 64" using ready by (simp_all add: ready_def)
  with False holds_classify [OF hq, of i mid] i show ?thesis
    by (simp add: reassembler_classify_def stored_def bt_get_insert)
qed

text \<open>With all fragments present the delivery is the one the first fragment brought.\<close>

lemma complete_delivery:
  assumes "holds_fragments bodies d xs p" "distinct xs" "set xs \<subseteq> {..<length bodies}"
    and "length xs = length bodies" "1 < length bodies"
  shows "pm_first_delivery p = d"
proof -
  have "card (set xs) = length bodies" using distinct_card [OF assms(2)] assms(4) by simp
  with assms(3) have all: "set xs = {..<length bodies}" by (simp add: card_subset_eq)
  have "0 \<in> set xs" unfolding all using assms(5) by auto
  with assms(1) show ?thesis by (simp add: holds_fragments_def)
qed

lemma insert_fragment_step:
  assumes ready: "ready base key bodies" and mid: "mid \<noteq> 0"
    and wf: "reassembler_wf (stored base key bodies xs p)"
    and touched: "pm_last_touched_ms p = br_now_ms base"
    and h: "xs \<noteq> [] \<Longrightarrow> holds_fragments bodies d xs p"
    and i: "distinct (xs @ [i])" "set (xs @ [i]) \<subseteq> {..<length bodies}"
  obtains p' where
    "insert_with_delivery key (nth_fragment mid bodies i) (nth_delivery d i) (stored base key bodies xs p) =
      (if length (xs @ [i]) = length bodies
       then (Inr (Some \<lparr>rf_message = concat bodies, rf_delivery = d\<rparr>), base)
       else (Inr None, stored base key bodies (xs @ [i]) p'))"
    "holds_fragments bodies d (xs @ [i]) p'" "pm_last_touched_ms p' = br_now_ms base"
proof -
  let ?s = "stored base key bodies xs p" and ?f = "nth_fragment mid bodies i"
  let ?q = "if xs = [] then partial_new (br_now_ms base) else p"
  note facts = stored_facts [OF ready touched]
  have len: "1 < length bodies" "length bodies \<le> 64" using ready by (simp_all add: ready_def)
  have hq: "holds_fragments bodies d xs ?q" using h holds_new len by auto
  have fits: "(\<Sum>i\<leftarrow>xs. length (bodies ! i)) + length (bodies ! i) \<le> MAX_REASSEMBLY_BYTES_PER_MESSAGE"
    and budget: "br_aggregate_bytes ?s + length (bodies ! i) \<le> br_aggregate_bytes_max ?s"
    using sum_bodies_le [OF i] ready facts(4) [of xs] by (auto simp: ready_def stored_def)
  obtain p' where p': "partial_apply ?f (nth_delivery d i) ?q = (Inr (), p')"
    and hp': "holds_fragments bodies d (xs @ [i]) p'"
    using holds_apply [OF hq _ _ len fits] i by auto
  have touch: "pm_last_touched_ms p' = br_now_ms base"
    using p' touched by (cases ?f) (auto simp: partial_new_def Let_def split: if_splits)
  have asm: "assemble p' = (if length (xs @ [i]) = length bodies then Some (concat bodies) else None)"
    by (rule holds_assemble [OF hp' i len])
  have restored: "bt_remove key (bt_insert key p' (br_partials ?s)) = br_partials base"
    using ready facts(3) [of p' xs] by (simp add: bt_remove_insert ready_def reassembler_wf_def)
  have bytes: "pm_bytes ?q = (\<Sum>i\<leftarrow>xs. length (bodies ! i))"
    "pm_bytes p' = (\<Sum>i\<leftarrow>xs. length (bodies ! i)) + length (bodies ! i)"
    using hq hp' by (simp_all add: holds_fragments_def)
  have mid': "fragment_message_id ?f = Some mid" "\<And>b. ?f \<noteq> Unfragmented b"
    by (simp_all add: nth_fragment_def)
  then have "insert_with_delivery key ?f (nth_delivery d i) ?s =
      reassembler_store key ?f (nth_delivery d i) (length (bodies ! i)) ?s"
    using mid stored_classifies [OF ready hq i, of mid] facts(1) [of xs]
    by (cases ?f) (auto simp: insert_with_delivery_def bindS_def)
  also have "\<dots> = (let r1 = ?s\<lparr>br_partials := bt_insert key p' (br_partials ?s),
         br_aggregate_bytes := br_aggregate_bytes ?s + length (bodies ! i)\<rparr> in
       case assemble p' of
         Some message \<Rightarrow>
           (Inr (Some \<lparr>rf_message = message, rf_delivery = pm_first_delivery p'\<rparr>),
            ?s\<lparr>br_partials := bt_remove key (bt_insert key p' (br_partials ?s)),
               br_aggregate_bytes := br_aggregate_bytes ?s + length (bodies ! i) - pm_bytes p'\<rparr>)
       | None \<Rightarrow> (Inr None, r1))"
    using fits bytes(1) budget p' facts(2) [of xs]
    by (intro reassembler_store_eq(2) [OF wf]) (simp_all split: if_splits)
  also have "\<dots> = (if length (xs @ [i]) = length bodies
       then (Inr (Some \<lparr>rf_message = concat bodies, rf_delivery = d\<rparr>), base)
       else (Inr None, stored base key bodies (xs @ [i]) p'))"
    using asm restored bytes(2) complete_delivery [OF hp' i _ len(1)] facts(3) [of p' xs] facts(4) [of xs]
    by (auto simp: Let_def stored_def add.assoc)
  finally show ?thesis using hp' touch by (rule that)
qed

abbreviation fragments_in_order ::
  "u32 \<Rightarrow> bytes list \<Rightarrow> DeliveryInstruction option \<Rightarrow> nat list \<Rightarrow> (TunnelFragment \<times> DeliveryInstruction option) list" where
  "fragments_in_order mid bodies d order \<equiv>
     map (\<lambda>i. (nth_fragment mid bodies i, nth_delivery d i)) order"

lemma insert_all_stored:
  assumes ready: "ready base key bodies" and mid: "mid \<noteq> 0"
  shows "ys \<noteq> [] \<Longrightarrow> distinct (xs @ ys) \<Longrightarrow> set (xs @ ys) = {..<length bodies} \<Longrightarrow>
    reassembler_wf (stored base key bodies xs p) \<Longrightarrow> pm_last_touched_ms p = br_now_ms base \<Longrightarrow>
    (xs \<noteq> [] \<Longrightarrow> holds_fragments bodies d xs p) \<Longrightarrow>
    insert_all key (fragments_in_order mid bodies d ys) (stored base key bodies xs p) =
      (replicate (length ys - 1) (Inr None) @ [Inr (Some \<lparr>rf_message = concat bodies, rf_delivery = d\<rparr>)], base)"
proof (induction ys arbitrary: xs p)
  case (Cons i ys)
  have n: "length (xs @ i # ys) = length bodies"
    using distinct_card [OF Cons.prems(2)] Cons.prems(3) by simp
  obtain p' where step: "insert_with_delivery key (nth_fragment mid bodies i) (nth_delivery d i)
        (stored base key bodies xs p) =
      (if length (xs @ [i]) = length bodies
       then (Inr (Some \<lparr>rf_message = concat bodies, rf_delivery = d\<rparr>), base)
       else (Inr None, stored base key bodies (xs @ [i]) p'))"
    and hp': "holds_fragments bodies d (xs @ [i]) p'" and t: "pm_last_touched_ms p' = br_now_ms base"
    by (rule insert_fragment_step [OF ready mid Cons.prems(4,5,6), of i])
      (use Cons.prems(2,3) in auto)
  show ?case
  proof (cases "ys = []")
    case True
    with n step show ?thesis by simp
  next
    case False
    then have step': "insert_with_delivery key (nth_fragment mid bodies i) (nth_delivery d i)
        (stored base key bodies xs p) = (Inr None, stored base key bodies (xs @ [i]) p')"
      using n step by (cases ys) auto
    have "insert_all key (fragments_in_order mid bodies d ys) (stored base key bodies (xs @ [i]) p') =
      (replicate (length ys - 1) (Inr None) @ [Inr (Some \<lparr>rf_message = concat bodies, rf_delivery = d\<rparr>)], base)"
      using Cons.IH [of "xs @ [i]" p'] False Cons.prems(2,3) hp' t
        reassembler_wf_insert [OF Cons.prems(4) step'] by simp
    with step' False show ?thesis by (cases ys) simp_all
  qed
qed simp

lemma insert_all_any_order:
  assumes "ready base key bodies" "mid \<noteq> 0" "distinct order" "set order = {..<length bodies}"
  shows "insert_all key (fragments_in_order mid bodies d order) base =
    (replicate (length bodies - 1) (Inr None)
       @ [Inr (Some \<lparr>rf_message = concat bodies, rf_delivery = d\<rparr>)], base)"
proof -
  have n: "length order = length bodies" using distinct_card [OF assms(3)] assms(4) by simp
  have "1 < length bodies" "reassembler_wf base" using assms(1) by (simp_all add: ready_def)
  with n show ?thesis
    using insert_all_stored [OF assms(1,2), of order "[]" "partial_new (br_now_ms base)" d] assms(3,4)
    by (force simp: stored_def partial_new_def)
qed

end
