(* ===== verification/Tunnel_Fragmentation.thy ===== *)
theory Tunnel_Fragmentation
  imports Tunnel_Data_Laws Tunnel_Reassembly
begin

section \<open>Fragmentation against its reference\<close>

text \<open>
  The loop of \<open>fragment_complete_message\<close> computes one record per chunk of the message. The
  records are the ones the reassembler expects (\<open>nth_fragment\<close>), each of them valid and small
  enough for a cell, and there are at most 64 of them for every message the builder admits.
\<close>

text \<open>The reference: the message cut into chunks, and one record per chunk.\<close>

fun chunks :: "nat \<Rightarrow> bytes \<Rightarrow> bytes list" where
  "chunks n xs = (if xs = [] \<or> n = 0 then [] else take n xs # chunks n (drop n xs))"

declare chunks.simps [simp del]

lemma chunks_Nil [simp]: "chunks n [] = []"
  by (simp add: chunks.simps)

lemma concat_chunks: "0 < n \<Longrightarrow> concat (chunks n xs) = xs"
  by (induction n xs rule: chunks.induct) (subst chunks.simps, auto)

lemma chunks_eq_Nil: "0 < n \<Longrightarrow> chunks n xs = [] \<longleftrightarrow> xs = []"
  by (subst chunks.simps) simp

lemma chunks_bound: "0 < n \<Longrightarrow> xs \<noteq> [] \<Longrightarrow> length (chunks n xs) * n < length xs + n"
proof (induction n xs rule: chunks.induct)
  case (1 n xs)
  then show ?case
    by (cases "drop n xs = []") (auto simp: chunks.simps [of n xs])
qed

lemma in_chunks: "c \<in> set (chunks n xs) \<Longrightarrow> c \<noteq> [] \<and> length c \<le> n"
proof (induction n xs rule: chunks.induct)
  case (1 n xs)
  from "1.prems" "1.IH" show ?case
    by (subst (asm) (1) chunks.simps) (auto split: if_splits)
qed

definition nth_record :: "u32 \<Rightarrow> bytes list \<Rightarrow> DeliveryInstruction \<Rightarrow> nat \<Rightarrow> FragmentDelivery" where
  "nth_record mid bodies d i =
     \<lparr>fd_delivery = nth_delivery (Some d) i, fd_fragment = nth_fragment mid bodies i\<rparr>"

lemma follow_on_records_chunks:
  assumes "0 < b"
  shows "bodies = pre @ chunks b (drop cursor msg) \<Longrightarrow> length pre = Suc (unat s) \<Longrightarrow>
    length bodies \<le> 64 \<Longrightarrow> cursor \<le> length msg \<Longrightarrow>
    follow_on_records mid msg b cursor s = Inr (map (nth_record mid bodies d) [Suc (unat s)..<length bodies])"
proof (induction "length (chunks b (drop cursor msg))" arbitrary: pre cursor s)
  case 0
  then have "drop cursor msg = []" using chunks_eq_Nil [OF assms] by (metis length_0_conv)
  with 0 show ?case by (subst follow_on_records.simps) simp
next
  case (Suc n)
  then have ne: "cursor < length msg" by (cases "drop cursor msg = []") auto
  let ?c = "take b (drop cursor msg)"
  let ?stop = "min (cursor + b) (length msg)"
  have ch: "chunks b (drop cursor msg) = ?c # chunks b (drop (cursor + b) msg)"
    using ne assms by (subst chunks.simps) (simp add: add.commute)
  have dr: "drop (cursor + b) msg = drop ?stop msg" by (simp add: min_def)
  have len: "length bodies = Suc (unat s) + Suc (length (chunks b (drop ?stop msg)))"
    using Suc.prems(1,2) ch dr by simp
  then have s: "unat s + 1 < 64" using Suc.prems(3) by simp
  then have s1: "unat (s + 1) = Suc (unat s)" by (simp add: unat_word_ariths)
  have "s \<noteq> 255" using s by auto
  moreover have "\<not> s + 1 > MAX_FRAGMENT_COUNT - 1"
    using s s1 by (simp add: word_less_nat_alt data_limits)
  moreover have "follow_on_records mid msg b ?stop (s + 1) =
      Inr (map (nth_record mid bodies d) [Suc (unat (s + 1))..<length bodies])"
    using Suc.hyps(2) Suc.prems ch dr s1 by (intro Suc.hyps(1) [of _ "pre @ [?c]"]) simp_all
  moreover have "take (?stop - cursor) (drop cursor msg) = ?c"
    by (simp add: min_def)
  moreover have "?stop = length msg \<longleftrightarrow> Suc (Suc (unat s)) = length bodies"
    using len chunks_eq_Nil [OF assms, of "drop ?stop msg"] by auto
  moreover have "bodies ! Suc (unat s) = ?c" using Suc.prems(1,2) ch by (simp add: nth_append)
  moreover have "[Suc (unat s)..<length bodies] = Suc (unat s) # [Suc (Suc (unat s))..<length bodies]"
    using len by (intro upt_conv_Cons) simp
  ultimately show ?case using ne s1
    by (subst follow_on_records.simps)
      (simp add: Let_def nth_record_def nth_delivery_def nth_fragment_def del: upt_Suc)
qed

definition message_bodies :: "DeliveryInstruction \<Rightarrow> bytes \<Rightarrow> bytes list" where
  "message_bodies d msg =
     (let n = 1003 - fragmented_first_overhead d in take n msg # chunks 996 (drop n msg))"

definition one_cell :: "DeliveryInstruction \<Rightarrow> bytes \<Rightarrow> bool" where
  "one_cell d msg \<longleftrightarrow> length msg + unfragmented_overhead d \<le> 1003"

lemma overhead_bounds:
  "3 \<le> unfragmented_overhead d" "unfragmented_overhead d \<le> 39"
  "fragmented_first_overhead d = unfragmented_overhead d + 4"
  by (cases d; simp)+

lemma message_bodies_facts:
  assumes "\<not> one_cell d msg" "length msg \<le> MAX_TUNNEL_MESSAGE_PAYLOAD_BYTES"
  shows "concat (message_bodies d msg) = msg" "1 < length (message_bodies d msg)"
    "length (message_bodies d msg) \<le> 64"
    "\<forall>b\<in>set (message_bodies d msg). b \<noteq> [] \<and> length b \<le> 996"
    "length (message_bodies d msg ! 0) + fragmented_first_overhead d = 1003"
proof -
  let ?n = "1003 - fragmented_first_overhead d"
  note o = overhead_bounds [of d]
  have long: "?n < length msg" "960 \<le> ?n" "?n \<le> 996" using assms(1) o by (auto simp: one_cell_def)
  then have ne: "drop ?n msg \<noteq> []" by simp
  show "concat (message_bodies d msg) = msg" by (simp add: message_bodies_def Let_def concat_chunks)
  show "1 < length (message_bodies d msg)"
    using ne by (simp add: message_bodies_def Let_def chunks_eq_Nil)
  have "length (chunks 996 (drop ?n msg)) * 996 < length msg - ?n + 996"
    using chunks_bound [of 996 "drop ?n msg"] ne by simp
  then show "length (message_bodies d msg) \<le> 64"
    using assms(2) long by (simp add: message_bodies_def Let_def data_limits)
  show "\<forall>b\<in>set (message_bodies d msg). b \<noteq> [] \<and> length b \<le> 996"
    using long by (auto simp: message_bodies_def Let_def dest: in_chunks)
  show "length (message_bodies d msg ! 0) + fragmented_first_overhead d = 1003"
    using long o by (simp add: message_bodies_def Let_def)
qed

lemma fragment_complete_message_eq:
  assumes "validate_delivery d = Inr ()" "mid \<noteq> 0" "msg \<noteq> []" "length msg \<le> MAX_TUNNEL_MESSAGE_PAYLOAD_BYTES"
  shows "fragment_complete_message d mid msg = Inr
    (if one_cell d msg then [\<lparr>fd_delivery = Some d, fd_fragment = Unfragmented msg\<rparr>]
     else map (nth_record mid (message_bodies d msg) d) [0..<length (message_bodies d msg)])"
proof (cases "one_cell d msg")
  case True
  with assms show ?thesis
    by (simp add: fragment_complete_message_def one_cell_def data_limits not_less)
next
  case False
  let ?n = "1003 - fragmented_first_overhead d"
  let ?bodies = "message_bodies d msg"
  note f = message_bodies_facts [OF False assms(4)]
  have n: "0 < ?n" "?n < length msg" using False overhead_bounds [of d] by (auto simp: one_cell_def)
  have "follow_on_records mid msg 996 ?n 0 = Inr (map (nth_record mid ?bodies d) [Suc (unat (0::u8))..<length ?bodies])"
    using f(3) n by (intro follow_on_records_chunks [of _ _ "[take ?n msg]"]) (simp_all add: message_bodies_def Let_def)
  then have fo: "follow_on_records mid msg 996 ?n 0 = Inr (map (nth_record mid ?bodies d) [1..<length ?bodies])"
    by simp
  have "?bodies ! 0 = take ?n msg" by (simp add: message_bodies_def Let_def)
  then have r0: "nth_record mid ?bodies d 0 =
      \<lparr>fd_delivery = Some d, fd_fragment = First mid (take ?n msg)\<rparr>"
    by (simp add: nth_record_def nth_delivery_def nth_fragment_def)
  have up: "[0..<length ?bodies] = 0 # [1..<length ?bodies]"
    using upt_conv_Cons [of 0 "length ?bodies"] f(2) by (simp add: length_greater_0_conv [symmetric] del: length_greater_0_conv)
  have "fragment_complete_message d mid msg =
      Inr (\<lparr>fd_delivery = Some d, fd_fragment = First mid (take ?n msg)\<rparr> # map (nth_record mid ?bodies d) [1..<length ?bodies])"
    using assms False n fo
    by (simp add: fragment_complete_message_def one_cell_def Let_def not_less data_limits
        min_absorb1 del: One_nat_def upt_Suc)
  with False r0 up show ?thesis by simp
qed

lemma fragment_record_ok:
  assumes "delivery_valid d" "mid \<noteq> 0" "msg \<noteq> []" "length msg \<le> MAX_TUNNEL_MESSAGE_PAYLOAD_BYTES"
    and "fragment_complete_message d mid msg = Inr rs" "r \<in> set rs"
  shows "record_valid r \<and> (\<exists>enc. encode_record r = Inr enc \<and> length enc + CHECKSUM_LEN + 1 \<le> MAX_PLAINTEXT_DATA_BYTES)"
proof (cases "one_cell d msg")
  case True
  with assms have r: "r = \<lparr>fd_delivery = Some d, fd_fragment = Unfragmented msg\<rparr>"
    by (auto simp: fragment_complete_message_eq delivery_valid_validate)
  have "length (append_delivery_extra d) + 3 = unfragmented_overhead d"
    using assms(1) by (cases d) (auto simp: hash_valid_def)
  with True assms(1,3) r show ?thesis
    by (auto simp: record_valid_def encode_record_def encode_sized_def one_cell_def data_limits)
next
  case False
  let ?bodies = "message_bodies d msg"
  note f = message_bodies_facts [OF False assms(4)]
  obtain i where i: "i < length ?bodies" "r = nth_record mid ?bodies d i"
    using False assms by (auto simp: fragment_complete_message_eq delivery_valid_validate)
  have b: "?bodies ! i \<noteq> []" "length (?bodies ! i) \<le> 996" using f(4) i(1) by auto
  have extra: "length (append_delivery_extra d) + 7 = fragmented_first_overhead d"
    using assms(1) by (cases d) (auto simp: hash_valid_def)
  show ?thesis
  proof (cases "i = 0")
    case True
    with i b f(5) extra assms(1,2) show ?thesis
      by (auto simp: record_valid_def encode_record_def encode_sized_def nth_record_def nth_delivery_def
          nth_fragment_def data_limits)
  next
    case ne: False
    have "unat (of_nat i :: u8) = i" using i(1) f(3) by (intro unat_of_nat_u8) simp
    then have "1 \<le> (of_nat i :: u8)" "(of_nat i :: u8) \<le> 63"
      using ne i(1) f(3) by (simp_all add: word_le_nat_alt)
    with ne i b assms(2) show ?thesis
      by (auto simp: record_valid_def encode_record_def encode_sized_def nth_record_def nth_delivery_def
          nth_fragment_def data_limits)
  qed
qed
end
