(* ===== verification/Tunnel_Roles_Laws.thy ===== *)
theory Tunnel_Roles_Laws
  imports Tunnel_Roles Tunnel_Fragmentation
begin

section \<open>What the roles do with a cell\<close>

text \<open>
  When a participant forwards a cell and what it forwards; that it forwards no cell twice and hears
  one peer only; the path of a cell through the participants; and the outbound endpoint on the cells
  of a fragmented message.
\<close>

subsection \<open>Cells\<close>

lemma split_join [simp]:
  "length iv = TUNNEL_IV_LEN \<Longrightarrow> split_cell (join_cell t iv payload) = (iv, payload)"
  by (simp add: split_cell_def join_cell_def)

lemma td_tunnel_id_join [simp]: "td_tunnel_id (join_cell t iv payload) = t"
  by (simp add: join_cell_def)

lemma fieldS_Inr:
  "fieldS get upd m t = (Inr v, t') \<longleftrightarrow> (\<exists>s'. m (get t) = (Inr v, s') \<and> t' = upd s' t)"
  by (auto simp: fieldS_def split: prod.splits)

lemma fieldS_run [rsm_simps]: "m (get t) = (r, s') \<Longrightarrow> fieldS get upd m t = (r, upd s' t)"
  by (simp add: fieldS_def)

lemma admit_run:
  "admit token w =
     (if duplicate_contains token w then (Inl DuplicateCell, w)
      else if length (dw_tokens w) \<ge> dw_capacity w
      then (Inl (RoleDuplicateWindow (DuplicateCapacityExceeded (dw_capacity w))), w)
      else (Inr (), w\<lparr>dw_tokens := List.insert token (dw_tokens w)\<rparr>))"
  by (simp add: admit_def bindS_def map_errS_def observe_def retS_def failS_def)

lemma check_cell_id_ok: "check_cell_id t cell = Inr () \<longleftrightarrow> td_tunnel_id cell \<noteq> 0 \<and> TunnelId (td_tunnel_id cell) = t"
  by (simp add: check_cell_id_def tunnel_id_new_def)

definition cell_token :: "TunnelDataMessage \<Rightarrow> DuplicateToken" where
  "cell_token cell = token_compute (fst (split_cell cell)) (snd (split_cell cell))"

abbreviation cell_fresh :: "TunnelDataMessage \<Rightarrow> DuplicateWindow \<Rightarrow> bool" where
  "cell_fresh cell w \<equiv> \<not> duplicate_contains (cell_token cell) w \<and> length (dw_tokens w) < dw_capacity w"

abbreviation window_add :: "TunnelDataMessage \<Rightarrow> DuplicateWindow \<Rightarrow> DuplicateWindow" where
  "window_add cell w \<equiv> w\<lparr>dw_tokens := List.insert (cell_token cell) (dw_tokens w)\<rparr>"

subsection \<open>Participants\<close>

lemma participant_process_run:
  "participant_process aes prev cell now p =
     (if now \<ge> pt_expires_at_ms p then (Inl TunnelUnavailable, p)
      else case check_cell_id (pt_receive_tunnel p) cell of
        Inl e \<Rightarrow> (Inl e, p)
      | Inr _ \<Rightarrow>
          if pt_locked_previous_peer p \<notin> {None, Some prev} then (Inl PreviousPeerMismatch, p)
          else let p' = p\<lparr>pt_locked_previous_peer := Some prev\<rparr> in
            case admit (cell_token cell) (pt_duplicates p) of
              (Inl e, w) \<Rightarrow> (Inl e, p'\<lparr>pt_duplicates := w\<rparr>)
            | (Inr _, w) \<Rightarrow>
                (case forward_step aes (pt_layer_keys p) (split_cell cell) of (iv, data) \<Rightarrow>
                   (Inr (join_cell (tunnel_id_get (nh_tunnel (pt_next p))) iv data), p'\<lparr>pt_duplicates := w\<rparr>)))"
  by (cases p)
    (auto simp: participant_process_def cell_token_def bindS_def lock_previous_peer_def fieldS_def liftS_def retS_def Let_def
      split: prod.splits sum.splits option.splits)

text \<open>When a participant forwards a cell, and what it forwards.\<close>

lemma participant_process_iff:
  "participant_process aes prev cell now p = (Inr out, p') \<longleftrightarrow>
     now < pt_expires_at_ms p
     \<and> td_tunnel_id cell \<noteq> 0 \<and> TunnelId (td_tunnel_id cell) = pt_receive_tunnel p
     \<and> pt_locked_previous_peer p \<in> {None, Some prev}
     \<and> cell_fresh cell (pt_duplicates p)
     \<and> (case forward_step aes (pt_layer_keys p) (split_cell cell) of (iv, data) \<Rightarrow>
          out = join_cell (tunnel_id_get (nh_tunnel (pt_next p))) iv data)
     \<and> p' = p\<lparr>pt_locked_previous_peer := Some prev, pt_duplicates := window_add cell (pt_duplicates p)\<rparr>"
proof (cases "check_cell_id (pt_receive_tunnel p) cell")
  case (Inl e)
  then have "\<not> (td_tunnel_id cell \<noteq> 0 \<and> TunnelId (td_tunnel_id cell) = pt_receive_tunnel p)"
    using check_cell_id_ok by (metis sum.distinct(1))
  with Inl show ?thesis by (auto simp: participant_process_run)
next
  case (Inr u)
  then have "td_tunnel_id cell \<noteq> 0 \<and> TunnelId (td_tunnel_id cell) = pt_receive_tunnel p"
    using check_cell_id_ok by (metis old.unit.exhaust)
  with Inr show ?thesis
    by (auto simp: participant_process_run admit_run not_le Let_def split: prod.splits)
qed

text \<open>Whatever a participant answers, its keys and its route stay, and its window only grows.\<close>

lemma participant_process_frame:
  assumes "participant_process aes prev cell now p = (r, p')"
  shows "pt_layer_keys p' = pt_layer_keys p" "pt_next p' = pt_next p"
    "pt_receive_tunnel p' = pt_receive_tunnel p" "pt_expires_at_ms p' = pt_expires_at_ms p"
    "window_wf (pt_duplicates p) \<Longrightarrow> window_wf (pt_duplicates p')"
    "duplicate_contains t (pt_duplicates p) \<Longrightarrow> duplicate_contains t (pt_duplicates p')"
    "pt_locked_previous_peer p = Some h \<Longrightarrow> pt_locked_previous_peer p' = Some h"
  using assms
  by (auto simp: participant_process_run admit_run window_wf_def duplicate_contains_def Let_def
      split: if_splits sum.splits prod.splits)

text \<open>A participant that receives any sequence of cells.\<close>

datatype ParticipantEvent = ReceiveCell Hash TunnelDataMessage u64

fun participant_step :: "Aes \<Rightarrow> ParticipantEvent \<Rightarrow> ParticipantState \<Rightarrow> ParticipantState" where
  "participant_step aes (ReceiveCell prev cell now) p = snd (participant_process aes prev cell now p)"

interpretation participant: event_machine "participant_step aes"
  "\<lambda>p. window_wf (pt_duplicates p) \<and> T \<subseteq> set (dw_tokens (pt_duplicates p)) \<and> pt_receive_tunnel p = rt
     \<and> pt_layer_keys p = keys \<and> pt_next p = nxt
     \<and> (lock \<noteq> None \<longrightarrow> pt_locked_previous_peer p = lock)"
  for aes T rt keys nxt lock
proof
  fix p :: ParticipantState and e
  assume inv: "window_wf (pt_duplicates p) \<and> T \<subseteq> set (dw_tokens (pt_duplicates p)) \<and> pt_receive_tunnel p = rt
     \<and> pt_layer_keys p = keys \<and> pt_next p = nxt \<and> (lock \<noteq> None \<longrightarrow> pt_locked_previous_peer p = lock)"
  obtain prev cell now where e: "e = ReceiveCell prev cell now" by (cases e)
  obtain r p' where r: "participant_process aes prev cell now p = (r, p')" by force
  note f = participant_process_frame [OF r]
  have "T \<subseteq> set (dw_tokens (pt_duplicates p'))"
    using inv f(6) by (auto simp: duplicate_contains_def)
  then show "window_wf (pt_duplicates (participant_step aes e p))
     \<and> T \<subseteq> set (dw_tokens (pt_duplicates (participant_step aes e p)))
     \<and> pt_receive_tunnel (participant_step aes e p) = rt \<and> pt_layer_keys (participant_step aes e p) = keys
     \<and> pt_next (participant_step aes e p) = nxt
     \<and> (lock \<noteq> None \<longrightarrow> pt_locked_previous_peer (participant_step aes e p) = lock)"
    using inv f e r by auto
qed

lemma participant_forwards_once:
  assumes "participant_process aes prev cell now p = (Inr out, p')" "window_wf (pt_duplicates p)"
    and "participant_process aes prev' cell now' (fold (participant_step aes) es p') = (r, p'')"
  shows "\<exists>e. r = Inl e"
proof -
  let ?q = "fold (participant_step aes) es p'"
  have "cell_token cell \<in> set (dw_tokens (pt_duplicates p'))"
    using assms(1) by (auto simp: participant_process_iff)
  moreover have "window_wf (pt_duplicates p')"
    using participant_process_frame(5) [OF assms(1)] assms(2) .
  ultimately have "duplicate_contains (cell_token cell) (pt_duplicates ?q)"
    using participant.run_inv [of p' "{cell_token cell}" "pt_receive_tunnel p'" "pt_layer_keys p'" "pt_next p'" None aes es]
    by (simp add: duplicate_contains_def)
  then show ?thesis using assms(3) participant_process_iff [of aes prev' cell now' ?q] by (cases r) auto
qed

lemma participant_locked_peer:
  assumes "participant_process aes prev cell now p = (Inr out, p')" "window_wf (pt_duplicates p)"
    and "participant_process aes prev' cell' now' (fold (participant_step aes) es p') = (Inr out', p'')"
  shows "prev' = prev"
proof -
  have "pt_locked_previous_peer p' = Some prev" "window_wf (pt_duplicates p')"
    using assms(1) participant_process_frame(5) [OF assms(1) assms(2)] by (auto simp: participant_process_iff)
  then have "pt_locked_previous_peer (fold (participant_step aes) es p') = Some prev"
    using participant.run_inv [of p' "{}" "pt_receive_tunnel p'" "pt_layer_keys p'" "pt_next p'" "Some prev" aes es]
    by simp
  with assms(3) show ?thesis by (auto simp: participant_process_iff)
qed

subsection \<open>A cell on its way through the participants\<close>

text \<open>
  The path of a cell: each participant, with the peer it receives from, forwards to the next one.
\<close>

fun relay :: "Aes \<Rightarrow> u64 \<Rightarrow> TunnelDataMessage \<Rightarrow> (Hash \<times> ParticipantState) list
     \<Rightarrow> (TunnelRoleError + TunnelDataMessage) \<times> (Hash \<times> ParticipantState) list" where
  "relay aes now cell [] = (Inr cell, [])"
| "relay aes now cell ((prev, p) # ps) =
     (case participant_process aes prev cell now p of
        (Inl e, p') \<Rightarrow> (Inl e, (prev, p') # ps)
      | (Inr next_cell, p') \<Rightarrow> (case relay aes now next_cell ps of (r, ps') \<Rightarrow> (r, (prev, p') # ps')))"

fun relay_all :: "Aes \<Rightarrow> u64 \<Rightarrow> TunnelDataMessage list \<Rightarrow> (Hash \<times> ParticipantState) list
     \<Rightarrow> (TunnelRoleError + TunnelDataMessage list) \<times> (Hash \<times> ParticipantState) list" where
  "relay_all aes now [] ps = (Inr [], ps)"
| "relay_all aes now (cell # cells) ps =
     (case relay aes now cell ps of
        (Inl e, ps') \<Rightarrow> (Inl e, ps')
      | (Inr out, ps') \<Rightarrow>
          (case relay_all aes now cells ps' of
             (Inl e, ps'') \<Rightarrow> (Inl e, ps'')
           | (Inr outs, ps'') \<Rightarrow> (Inr (out # outs), ps'')))"

abbreviation path_keys :: "(Hash \<times> ParticipantState) list \<Rightarrow> LayerKeys list" where
  "path_keys ps \<equiv> map (\<lambda>hop. pt_layer_keys (snd hop)) ps"

abbreviation path_exit :: "u32 \<Rightarrow> (Hash \<times> ParticipantState) list \<Rightarrow> u32" where
  "path_exit t ps \<equiv> (if ps = [] then t else tunnel_id_get (nh_tunnel (pt_next (snd (last ps)))))"

lemma relay_frame:
  "relay aes now cell ps = (r, ps') \<Longrightarrow> path_keys ps' = path_keys ps
     \<and> map (\<lambda>hop. pt_next (snd hop)) ps' = map (\<lambda>hop. pt_next (snd hop)) ps"
  by (induction ps arbitrary: cell r ps')
    (auto split: prod.splits sum.splits simp: participant_process_frame(1,2))

lemma relay_forwards:
  assumes "aes_inverse aes"
  shows "relay aes now cell ps = (Inr out, ps') \<Longrightarrow> cell_sized (split_cell cell) \<Longrightarrow>
    split_cell out = fold (forward_step aes) (path_keys ps) (split_cell cell)
    \<and> cell_sized (split_cell out)
    \<and> td_tunnel_id out = path_exit (td_tunnel_id cell) ps"
proof (induction ps arbitrary: cell ps')
  case (Cons hop ps)
  obtain prev p where hop: "hop = (prev, p)" by force
  obtain nxt p' ps'' where run: "participant_process aes prev cell now p = (Inr nxt, p')"
    "relay aes now nxt ps = (Inr out, ps'')"
    using Cons.prems(1) hop by (auto split: prod.splits sum.splits)
  let ?c = "forward_step aes (pt_layer_keys p) (split_cell cell)"
  have c: "cell_sized ?c" using forward_inverse(3) [OF assms Cons.prems(2)] .
  have "nxt = join_cell (tunnel_id_get (nh_tunnel (pt_next p))) (fst ?c) (snd ?c)"
    using run(1) by (auto simp: participant_process_iff split: prod.splits)
  then have n: "split_cell nxt = ?c" "td_tunnel_id nxt = tunnel_id_get (nh_tunnel (pt_next p))"
    using c by (simp_all add: cell_sized_def)
  show ?case using Cons.IH [OF run(2)] n c hop by auto
qed simp

lemma relay_all_forwards:
  assumes "aes_inverse aes"
  shows "relay_all aes now cells ps = (Inr outs, ps') \<Longrightarrow> \<forall>c\<in>set cells. cell_sized (split_cell c) \<Longrightarrow>
    list_all2 (\<lambda>c out. split_cell out = fold (forward_step aes) (path_keys ps) (split_cell c)
      \<and> td_tunnel_id out = path_exit (td_tunnel_id c) ps) cells outs"
proof (induction cells arbitrary: ps outs)
  case (Cons c cells)
  obtain out ps1 outs1 where run: "relay aes now c ps = (Inr out, ps1)"
    "relay_all aes now cells ps1 = (Inr outs1, ps')" "outs = out # outs1"
    using Cons.prems(1) by (auto split: prod.splits sum.splits)
  have fr: "path_keys ps1 = path_keys ps" "map (\<lambda>hop. pt_next (snd hop)) ps1 = map (\<lambda>hop. pt_next (snd hop)) ps"
    using relay_frame [OF run(1)] by auto
  have "ps1 = [] \<longleftrightarrow> ps = []" using fr(1) by (metis map_is_Nil_conv)
  moreover have "ps \<noteq> [] \<Longrightarrow> pt_next (snd (last ps1)) = pt_next (snd (last ps))"
    using arg_cong [OF fr(2), of last] calculation by (simp add: last_map)
  ultimately have "path_exit t ps1 = path_exit t ps" for t by simp
  then show ?case
    using Cons.IH [OF run(2)] relay_forwards [OF assms run(1)] Cons.prems(2) run(3) fr(1) by simp
qed simp

lemma br_now_expire_due: "br_now_ms (expire_due r) = br_now_ms r"
  by (simp add: expire_due_def Let_def split: prod.splits)

lemma br_now_insert:
  assumes "insert_with_delivery key f d r = (x, r')"
  shows "br_now_ms r' = br_now_ms r"
proof -
  have c: "br_now_ms s' = br_now_ms s" if "reassembler_classify key f d s = (y, s')" for s y s'
    using that by (auto simp: reassembler_classify_def drop_partial_def split: option.splits sum.splits if_splits)
  have t: "br_now_ms s' = br_now_ms s" if "reassembler_store key f d n s = (y, s')" for s y s' n
    using that by (auto simp: reassembler_store_def drop_partial_def Let_def
        split: option.splits sum.splits if_splits prod.splits)
  have b: "br_now_ms r' = br_now_ms s"
    if "bindS (reassembler_classify key f d) (\<lambda>disposition. case disposition of
        ExactDuplicate \<Rightarrow> retS None | Inserted n \<Rightarrow> reassembler_store key f d n) s = (x, r')" for s
  proof (cases "reassembler_classify key f d s")
    case (Pair y s')
    with that c [OF Pair] t show ?thesis
      by (cases y) (auto simp: bindS_def retS_def split: FragmentInsertDisposition.splits)
  qed
  show ?thesis
    using assms b [of "expire_due r"]
    by (cases f) (auto simp: insert_with_delivery_def br_now_expire_due split: if_splits)
qed

subsection \<open>The outbound endpoint\<close>

definition endpoint_accepts :: "TunnelDataMessage \<Rightarrow> u64 \<Rightarrow> OutboundEndpointRole \<Rightarrow> bool" where
  "endpoint_accepts cell now role \<longleftrightarrow>
     oe_is_usable now role \<and> td_tunnel_id cell \<noteq> 0 \<and> TunnelId (td_tunnel_id cell) = oe_receive_tunnel role
     \<and> cell_fresh cell (oe_duplicates role)"

lemma endpoint_process_run:
  assumes "endpoint_accepts cell now role"
    "forward_step aes (oe_layer_keys role) (split_cell cell) = (iv, payload)"
    "parse_payload sha256 iv payload = Inr records"
  shows "outbound_endpoint_process aes sha256 prev cell now role =
    assemble_actions records now (role\<lparr>oe_duplicates := window_add cell (oe_duplicates role)\<rparr>)"
proof -
  have "check_cell_id (oe_receive_tunnel role) cell = Inr ()"
    using assms(1) by (simp add: check_cell_id_ok endpoint_accepts_def)
  moreover have "admit (cell_token cell) (oe_duplicates role) = (Inr (), window_add cell (oe_duplicates role))"
    using assms(1) by (simp add: admit_run endpoint_accepts_def)
  ultimately show ?thesis
    using assms
    by (cases "split_cell cell")
      (simp add: outbound_endpoint_process_def cell_token_def bindS_def liftS_def fieldS_def map_errS_def endpoint_accepts_def)
qed

lemma action_exists: "delivery_valid d \<Longrightarrow> \<exists>a. action_from_delivery d m mid e = Inr a"
  by (cases d) (auto simp: tunnel_id_new_def)

lemma assemble_record_None:
  assumes "insert_with_delivery (ReassemblyKey (tunnel_id_get (oe_receive_tunnel role)) mid)
      (nth_fragment mid bodies i) (nth_delivery (Some d) i) (oe_reassembler role) = (Inr None, r')"
  shows "assemble_record (nth_fragment mid bodies i) (nth_delivery (Some d) i) role =
    (Inr None, role\<lparr>oe_reassembler := r'\<rparr>)"
  using assms
  by (cases "i = 0")
    (simp_all add: nth_fragment_def nth_delivery_def bindS_def liftS_def fieldS_def map_errS_def getS_def retS_def)

lemma assemble_record_Some:
  assumes "insert_with_delivery (ReassemblyKey (tunnel_id_get (oe_receive_tunnel role)) mid)
      (nth_fragment mid bodies i) (nth_delivery (Some d) i) (oe_reassembler role) =
      (Inr (Some \<lparr>rf_message = m, rf_delivery = Some d\<rparr>), r')"
    and "action_from_delivery d m mid 0 = Inr a"
  shows "assemble_record (nth_fragment mid bodies i) (nth_delivery (Some d) i) role =
    (Inr (Some a), role\<lparr>oe_reassembler := r'\<rparr>)"
  using assms
  by (cases "i = 0")
    (simp_all add: nth_fragment_def nth_delivery_def bindS_def liftS_def fieldS_def map_errS_def getS_def retS_def)

lemma assemble_actions_single:
  assumes "assemble_record f d (role\<lparr>oe_reassembler := set_now now (oe_reassembler role)\<rparr>) = (Inr out, role')"
  shows "assemble_actions [\<lparr>fd_delivery = d, fd_fragment = f\<rparr>] now role =
    (Inr out, role'\<lparr>oe_last_action := out\<rparr>)"
  using assms by (cases out) (simp_all add: assemble_actions_def bindS_def retS_def)

text \<open>The cells that arrive at the endpoint, one after the other.\<close>

fun endpoint_run ::
  "Aes \<Rightarrow> (bytes \<Rightarrow> bytes) \<Rightarrow> Hash \<Rightarrow> u64 \<Rightarrow> TunnelDataMessage list \<Rightarrow> OutboundEndpointRole
     \<Rightarrow> (TunnelRoleError + RouterDeliveryAction option) list \<times> OutboundEndpointRole" where
  "endpoint_run aes sha256 prev now [] role = ([], role)"
| "endpoint_run aes sha256 prev now (cell # cells) role =
     (case outbound_endpoint_process aes sha256 prev cell now role of (out, role') \<Rightarrow>
        (case endpoint_run aes sha256 prev now cells role' of (outs, role'') \<Rightarrow> (out # outs, role'')))"

text \<open>A cell that the endpoint's layer opens to the given record.\<close>

definition cell_opens :: "Aes \<Rightarrow> (bytes \<Rightarrow> bytes) \<Rightarrow> LayerKeys \<Rightarrow> TunnelDataMessage \<Rightarrow> FragmentDelivery \<Rightarrow> bool" where
  "cell_opens aes sha256 keys cell record \<longleftrightarrow>
     (case forward_step aes keys (split_cell cell) of (iv, payload) \<Rightarrow>
        parse_payload sha256 iv payload = Inr [record])"

definition cells_admitted :: "TunnelDataMessage list \<Rightarrow> u64 \<Rightarrow> OutboundEndpointRole \<Rightarrow> bool" where
  "cells_admitted cells now role \<longleftrightarrow>
     oe_is_usable now role
     \<and> (\<forall>cell\<in>set cells. td_tunnel_id cell \<noteq> 0 \<and> TunnelId (td_tunnel_id cell) = oe_receive_tunnel role
          \<and> \<not> duplicate_contains (cell_token cell) (oe_duplicates role))
     \<and> distinct (map cell_token cells)
     \<and> length (dw_tokens (oe_duplicates role)) + length cells \<le> dw_capacity (oe_duplicates role)"

lemma cells_admitted_Cons:
  assumes "cells_admitted (cell # cells) now role"
  shows "endpoint_accepts cell now role"
    and "cells_admitted cells now (role\<lparr>oe_duplicates := window_add cell (oe_duplicates role),
           oe_reassembler := r, oe_last_action := a\<rparr>)"
proof -
  have ne: "cell_token c \<noteq> cell_token cell" if "c \<in> set cells" for c
  proof
    assume "cell_token c = cell_token cell"
    with that have "cell_token cell \<in> cell_token ` set cells" by (intro image_eqI [of _ _ c]) simp_all
    with assms show False by (simp add: cells_admitted_def)
  qed
  show "endpoint_accepts cell now role"
    using assms by (simp add: cells_admitted_def endpoint_accepts_def)
  show "cells_admitted cells now (role\<lparr>oe_duplicates := window_add cell (oe_duplicates role),
           oe_reassembler := r, oe_last_action := a\<rparr>)"
    using assms ne by (simp add: cells_admitted_def oe_is_usable_def duplicate_contains_def)
qed

definition action_result :: "DeliveryInstruction \<Rightarrow> u32 \<Rightarrow> (ReassemblyError + ReassembledFragment option)
     \<Rightarrow> (TunnelRoleError + RouterDeliveryAction option)" where
  "action_result d mid out =
     (case out of Inl e \<Rightarrow> Inl (RoleReassembly e)
      | Inr None \<Rightarrow> Inr None
      | Inr (Some rf) \<Rightarrow> map_sum id Some (action_from_delivery d (rf_message rf) mid 0))"

lemma endpoint_step:
  assumes acc: "endpoint_accepts cell now role" and d: "delivery_valid d"
    and opens: "cell_opens aes sha256 (oe_layer_keys role) cell (nth_record mid bodies d i)"
    and ins: "insert_with_delivery (ReassemblyKey (tunnel_id_get (oe_receive_tunnel role)) mid)
        (nth_fragment mid bodies i) (nth_delivery (Some d) i) (set_now now (oe_reassembler role)) = (out, r')"
    and out: "out = Inr None \<or> (\<exists>m. out = Inr (Some \<lparr>rf_message = m, rf_delivery = Some d\<rparr>))"
  obtains a where "outbound_endpoint_process aes sha256 prev cell now role =
    (action_result d mid out, role\<lparr>oe_duplicates := window_add cell (oe_duplicates role),
       oe_reassembler := r', oe_last_action := a\<rparr>)"
proof -
  let ?role = "role\<lparr>oe_duplicates := window_add cell (oe_duplicates role)\<rparr>"
  obtain iv payload where p: "forward_step aes (oe_layer_keys role) (split_cell cell) = (iv, payload)"
    "parse_payload sha256 iv payload = Inr [nth_record mid bodies d i]"
    using opens by (auto simp: cell_opens_def split: prod.splits)
  note run = endpoint_process_run [OF acc p, of prev]
  show thesis
  proof (cases "out = Inr None")
    case True
    have "assemble_record (nth_fragment mid bodies i) (nth_delivery (Some d) i)
        (?role\<lparr>oe_reassembler := set_now now (oe_reassembler ?role)\<rparr>) =
        (Inr None, ?role\<lparr>oe_reassembler := r'\<rparr>)"
      using ins True by (subst assemble_record_None) simp_all
    from assemble_actions_single [OF this] run True that [of None] show thesis
      by (simp add: nth_record_def action_result_def)
  next
    case False
    then obtain m where m: "out = Inr (Some \<lparr>rf_message = m, rf_delivery = Some d\<rparr>)" using out by auto
    obtain a where a: "action_from_delivery d m mid 0 = Inr a" using action_exists [OF d] by blast
    have "assemble_record (nth_fragment mid bodies i) (nth_delivery (Some d) i)
        (?role\<lparr>oe_reassembler := set_now now (oe_reassembler ?role)\<rparr>) =
        (Inr (Some a), ?role\<lparr>oe_reassembler := r'\<rparr>)"
      using ins m a by (subst assemble_record_Some) simp_all
    from assemble_actions_single [OF this] run m a that [of "Some a"] show thesis
      by (simp add: nth_record_def action_result_def)
  qed
qed

lemma endpoint_run_inserts:
  assumes d: "delivery_valid d"
  shows "insert_all (ReassemblyKey (tunnel_id_get (oe_receive_tunnel role)) mid)
      (fragments_in_order mid bodies (Some d) order) (set_now now (oe_reassembler role)) = (outs, r') \<Longrightarrow>
    \<forall>out\<in>set outs. out = Inr None \<or> (\<exists>m. out = Inr (Some \<lparr>rf_message = m, rf_delivery = Some d\<rparr>)) \<Longrightarrow>
    list_all2 (\<lambda>i cell. cell_opens aes sha256 (oe_layer_keys role) cell (nth_record mid bodies d i)) order cells \<Longrightarrow>
    cells_admitted cells now role \<Longrightarrow>
    fst (endpoint_run aes sha256 prev now cells role) = map (action_result d mid) outs"
proof (induction order arbitrary: cells role outs)
  case Nil
  then show ?case by simp
next
  case (Cons i order)
  let ?key = "ReassemblyKey (tunnel_id_get (oe_receive_tunnel role)) mid"
  obtain cell cells' where cells: "cells = cell # cells'" using Cons.prems(3) by (cases cells) auto
  obtain out r1 outs' where ins: "insert_with_delivery ?key (nth_fragment mid bodies i) (nth_delivery (Some d) i)
      (set_now now (oe_reassembler role)) = (out, r1)"
    "insert_all ?key (fragments_in_order mid bodies (Some d) order) r1 = (outs', r')" "outs = out # outs'"
    using Cons.prems(1) by (auto split: prod.splits)
  have now: "set_now now r1 = r1"
    using br_now_insert [OF ins(1)] by (simp add: set_now_def)
  have acc: "endpoint_accepts cell now role"
    using cells_admitted_Cons(1) Cons.prems(4) unfolding cells .
  have opens: "cell_opens aes sha256 (oe_layer_keys role) cell (nth_record mid bodies d i)"
    using Cons.prems(3) cells by simp
  have outcome: "out = Inr None \<or> (\<exists>m. out = Inr (Some \<lparr>rf_message = m, rf_delivery = Some d\<rparr>))"
    using Cons.prems(2) ins(3) by simp
  obtain a where step: "outbound_endpoint_process aes sha256 prev cell now role =
      (action_result d mid out, role\<lparr>oe_duplicates := window_add cell (oe_duplicates role),
         oe_reassembler := r1, oe_last_action := a\<rparr>)"
    by (rule endpoint_step [OF acc d opens ins(1) outcome])
  have "fst (endpoint_run aes sha256 prev now cells' (role\<lparr>oe_duplicates := window_add cell (oe_duplicates role),
         oe_reassembler := r1, oe_last_action := a\<rparr>)) = map (action_result d mid) outs'"
    using ins(2) now Cons.prems(2-4) cells ins(3) cells_admitted_Cons(2)
    by (intro Cons.IH) simp_all
  with step cells ins(3) show ?case by (simp add: case_prod_beta)
qed

subsection \<open>The life of a participant\<close>

lemma participant_step_window:
  "window_wf (pt_duplicates p) \<Longrightarrow>
     (case participant_process aes prev cell now p of
        (Inr out, p') \<Rightarrow> length (dw_tokens (pt_duplicates p')) = Suc (length (dw_tokens (pt_duplicates p)))
      | (Inl e, p') \<Rightarrow> length (dw_tokens (pt_duplicates p')) = length (dw_tokens (pt_duplicates p)))"
  by (auto simp: participant_process_run admit_run duplicate_contains_def Let_def
      split: sum.splits prod.splits)

text \<open>What a participant answers to a sequence of cells.\<close>

fun participant_answers ::
  "Aes \<Rightarrow> ParticipantEvent list \<Rightarrow> ParticipantState \<Rightarrow> (TunnelRoleError + TunnelDataMessage) list" where
  "participant_answers aes [] p = []"
| "participant_answers aes (ReceiveCell prev cell now # es) p =
     (case participant_process aes prev cell now p of (answer, p') \<Rightarrow> answer # participant_answers aes es p')"

abbreviation forwarded :: "'e + 'a \<Rightarrow> bool" where
  "forwarded \<equiv> \<lambda>r. case r of Inl _ \<Rightarrow> False | Inr _ \<Rightarrow> True"

lemma participant_answers_bound:
  "window_wf (pt_duplicates p) \<Longrightarrow>
     length (filter forwarded (participant_answers aes es p)) + length (dw_tokens (pt_duplicates p))
       \<le> dw_capacity (pt_duplicates p)"
proof (induction aes es p rule: participant_answers.induct)
  case (1 aes p)
  then show ?case by (simp add: window_wf_def)
next
  case (2 aes prev cell now es p)
  obtain answer p' where run: "participant_process aes prev cell now p = (answer, p')" by force
  have "dw_capacity (pt_duplicates p') = dw_capacity (pt_duplicates p)"
    using run by (auto simp: participant_process_run admit_run Let_def split: sum.splits prod.splits if_splits)
  with 2 run participant_step_window [OF "2.prems", of aes prev cell now]
    participant_process_frame(5) [OF run "2.prems"] show ?case
    by (cases answer) auto
qed

end
