(* ===== verification/Tunnel_Delivery.thy ===== *)
theory Tunnel_Delivery
  imports Tunnel_Roles_Laws
begin

section \<open>From the gateway to the endpoint\<close>

text \<open>
  The composition of the roles: what a gateway sends, layered and fragmented, comes out at the far
  end of the tunnel as the message that went in, in whatever order its cells arrive there.
\<close>

subsection \<open>The cells of the gateway\<close>

lemma mapS_Inr:
  "mapS f xs s = (Inr ys, s') \<Longrightarrow> list_all2 (\<lambda>x y. \<exists>t t'. f x t = (Inr y, t')) xs ys"
  by (induction xs arbitrary: s ys) (auto simp: retS_run elim!: bindS_InrE, blast)

text \<open>A cell of the path that was built from a record: the payload the record was packed into, layered.\<close>

definition built_from ::
  "Aes \<Rightarrow> (bytes \<Rightarrow> bytes) \<Rightarrow> LayerKeys list \<Rightarrow> u32 \<Rightarrow> FragmentDelivery \<Rightarrow> TunnelDataMessage \<Rightarrow> bool" where
  "built_from aes sha256 keys t r cell \<longleftrightarrow>
     (\<exists>iv payload. cell_sized (iv, payload) \<and> parse_payload sha256 iv payload = Inr [r]
        \<and> split_cell cell = fold (inverse_step aes) (rev keys) (iv, payload) \<and> td_tunnel_id cell = t)"

lemma og_deliver_cell:
  assumes "aes_inverse aes" "cell_sized (iv, payload)"
  shows "split_cell (ob_cell (og_deliver aes role iv payload)) =
      fold (inverse_step aes) (rev (map hop_layer_keys (et_hops (og_established role)))) (iv, payload)"
    and "td_tunnel_id (ob_cell (og_deliver aes role iv payload)) =
      tunnel_id_get (first_hop_receive_tunnel (og_established role))"
proof -
  let ?c = "fold (inverse_step aes) (rev (map hop_layer_keys (et_hops (og_established role)))) (iv, payload)"
  have "cell_sized ?c" using fold_inverse_sized [OF assms] .
  then show "split_cell (ob_cell (og_deliver aes role iv payload)) = ?c"
    by (cases ?c) (simp add: og_deliver_def outbound_preprocess_fold Let_def cell_sized_def)
  show "td_tunnel_id (ob_cell (og_deliver aes role iv payload)) =
      tunnel_id_get (first_hop_receive_tunnel (og_established role))"
    by (cases ?c) (simp add: og_deliver_def outbound_preprocess_fold Let_def)
qed

lemma forward_fragment_built:
  assumes "aes_inverse aes" "rng_fills fill" "digest_wide sha256" "record_valid r"
    and "forward_fragment aes sha256 fill role r rng = (Inr dlv, rng')"
  shows "built_from aes sha256 (map hop_layer_keys (et_hops (og_established role)))
    (tunnel_id_get (first_hop_receive_tunnel (og_established role))) r (ob_cell dlv)"
proof -
  obtain iv payload rng1 where run: "fresh_iv fill rng = (Inr iv, rng1)"
    "pack_payload sha256 fill r iv rng1 = (Inr payload, rng')" "dlv = og_deliver aes role iv payload"
    using assms(5) by (auto simp: forward_fragment_def map_errS_Inr retS_run elim!: bindS_InrE)
  have "length iv = TUNNEL_IV_LEN"
    using run(1) assms(2) by (auto simp: fresh_iv_def rng_fills_def split: option.splits)
  moreover have "length payload = MAX_PLAINTEXT_DATA_BYTES" "parse_payload sha256 iv payload = Inr [r]"
    using pack_payload_parse [OF assms(2-4) run(2)] by auto
  ultimately have "cell_sized (iv, payload)" by (simp add: cell_sized_def data_limits layer_limits)
  with og_deliver_cell [OF assms(1) this] run(3) \<open>parse_payload sha256 iv payload = Inr [r]\<close>
  show ?thesis unfolding built_from_def by blast
qed

lemma forward_cells_built:
  assumes "aes_inverse aes" "rng_fills fill" "digest_wide sha256" "delivery_valid (tph_delivery header)"
    and "forward_cells aes sha256 fill role header msg now rng = (Inr dlvs, rng')"
  obtains rs where "fragment_complete_message (tph_delivery header) (tph_message_id header) msg = Inr rs"
    "list_all2 (\<lambda>r dlv. built_from aes sha256 (map hop_layer_keys (et_hops (og_established role)))
       (tunnel_id_get (first_hop_receive_tunnel (og_established role))) r (ob_cell dlv)) rs dlvs"
    "tph_message_id header \<noteq> 0" "msg \<noteq> []" "length msg \<le> MAX_TUNNEL_MESSAGE_PAYLOAD_BYTES"
proof -
  obtain rs where rs: "fragment_complete_message (tph_delivery header) (tph_message_id header) msg = Inr rs"
    "mapS (forward_fragment aes sha256 fill role) rs rng = (Inr dlvs, rng')"
    using assms(5)
    by (auto simp: forward_cells_def failS_run map_errS_Inr liftS_run elim!: bindS_InrE split: if_splits)
  have ok: "tph_message_id header \<noteq> 0" "msg \<noteq> []" "length msg \<le> MAX_TUNNEL_MESSAGE_PAYLOAD_BYTES"
    using rs(1) by (auto simp: fragment_complete_message_def bindR_eq_Inr split: if_splits)
  have "\<forall>r\<in>set rs. record_valid r"
    using fragment_record_ok [OF assms(4) ok rs(1)] by blast
  with mapS_Inr [OF rs(2)] forward_fragment_built [OF assms(1-3)]
  have "list_all2 (\<lambda>r dlv. built_from aes sha256 (map hop_layer_keys (et_hops (og_established role)))
       (tunnel_id_get (first_hop_receive_tunnel (og_established role))) r (ob_cell dlv)) rs dlvs"
    by (auto simp: list_all2_conv_all_nth)
  with rs(1) ok that show thesis by blast
qed

subsection \<open>The outbound tunnel\<close>

text \<open>
  The participants and the endpoint that the hops of an outbound tunnel describe: each holds the
  layer keys of its hop, and forwards under the identifier its successor listens on.
\<close>

definition outbound_path ::
  "EstablishedHop list \<Rightarrow> (Hash \<times> ParticipantState) list \<Rightarrow> OutboundEndpointRole \<Rightarrow> bool" where
  "outbound_path hops ps role \<longleftrightarrow>
     hops \<noteq> [] \<and> path_keys ps = map hop_layer_keys (butlast hops)
     \<and> path_exit (tunnel_id_get (hop_receive_tunnel (hd hops))) ps = tunnel_id_get (hop_receive_tunnel (last hops))
     \<and> tunnel_id_get (hop_receive_tunnel (last hops)) \<noteq> 0
     \<and> oe_layer_keys role = hop_layer_keys (last hops)
     \<and> oe_receive_tunnel role = hop_receive_tunnel (last hops)"

lemma relayed_cell_opens:
  assumes aes: "aes_inverse aes" and path: "outbound_path hops ps role"
    and built: "built_from aes sha256 (map hop_layer_keys hops) t r cell"
    and out: "split_cell out = fold (forward_step aes) (path_keys ps) (split_cell cell)"
  shows "cell_opens aes sha256 (oe_layer_keys role) out r"
proof -
  obtain iv payload where p: "cell_sized (iv, payload)" "parse_payload sha256 iv payload = Inr [r]"
    "split_cell cell = fold (inverse_step aes) (rev (map hop_layer_keys hops)) (iv, payload)"
    using built by (auto simp: built_from_def)
  have keys: "map hop_layer_keys hops = path_keys ps @ [oe_layer_keys role]"
    using path append_butlast_last_id [of hops]
    by (metis (no_types, lifting) list.simps(8,9) map_append outbound_path_def)
  have "forward_step aes (oe_layer_keys role) (split_cell out) =
      fold (forward_step aes) (map hop_layer_keys hops) (split_cell cell)"
    by (simp add: out keys)
  also have "\<dots> = (iv, payload)"
    unfolding p(3) by (rule forward_chain_undoes_preprocess [OF aes p(1)])
  finally show ?thesis using p(2) by (simp add: cell_opens_def)
qed

lemma relayed_cells_open:
  assumes aes: "aes_inverse aes" and path: "outbound_path hops ps role"
    and built: "list_all2 (\<lambda>r cell. built_from aes sha256 (map hop_layer_keys hops) t r cell) rs cells"
    and run: "relay_all aes now cells ps = (Inr outs, ps')"
  shows "list_all2 (\<lambda>r out. cell_opens aes sha256 (oe_layer_keys role) out r \<and> td_tunnel_id out = path_exit t ps) rs outs"
proof -
  have sized: "\<forall>c\<in>set cells. cell_sized (split_cell c)"
  proof
    fix c assume "c \<in> set cells"
    then obtain r where "built_from aes sha256 (map hop_layer_keys hops) t r c"
      using built by (auto simp: list_all2_conv_all_nth in_set_conv_nth)
    then show "cell_sized (split_cell c)" using fold_inverse_sized [OF aes] by (auto simp: built_from_def)
  qed
  have "td_tunnel_id c = t" if "built_from aes sha256 (map hop_layer_keys hops) t r c" for r c
    using that by (auto simp: built_from_def)
  with relay_all_forwards [OF aes run sized] built relayed_cell_opens [OF aes path] show ?thesis
    by (fastforce simp: list_all2_conv_all_nth)
qed

lemma endpoint_single:
  assumes "delivery_valid d" "cells_admitted [cell] now role"
    and "cell_opens aes sha256 (oe_layer_keys role) cell \<lparr>fd_delivery = Some d, fd_fragment = Unfragmented msg\<rparr>"
  shows "fst (endpoint_run aes sha256 prev now [cell] role) = [map_sum id Some (action_from_delivery d msg 0 0)]"
proof -
  obtain a where a: "action_from_delivery d msg 0 0 = Inr a" using action_exists [OF assms(1)] by blast
  obtain iv payload where p: "forward_step aes (oe_layer_keys role) (split_cell cell) = (iv, payload)"
    "parse_payload sha256 iv payload = Inr [\<lparr>fd_delivery = Some d, fd_fragment = Unfragmented msg\<rparr>]"
    using assms(3) by (auto simp: cell_opens_def split: prod.splits)
  have "assemble_record (Unfragmented msg) (Some d) s = (Inr (Some a), s)" for s
    using a by (simp add: rsm_simps bindS_def)
  then show ?thesis
    using endpoint_process_run [OF cells_admitted_Cons(1) [OF assms(2)] p, of prev] a
    by (simp add: case_prod_beta assemble_actions_single)
qed

text \<open>Admission does not depend on the order of the cells.\<close>

lemma reordered_admitted:
  assumes order: "distinct order" "set order = {..<length outs}"
    and ids: "\<forall>out\<in>set outs. td_tunnel_id out \<noteq> 0 \<and> TunnelId (td_tunnel_id out) = oe_receive_tunnel role"
    and adm: "oe_is_usable now role"
      "\<forall>out\<in>set outs. \<not> duplicate_contains (cell_token out) (oe_duplicates role)"
      "distinct (map cell_token outs)"
      "length (dw_tokens (oe_duplicates role)) + length outs \<le> dw_capacity (oe_duplicates role)"
  shows "cells_admitted (map (nth outs) order) now role" "length order = length outs"
proof -
  let ?cells = "map (nth outs) order"
  have setc: "set ?cells = set outs" by (simp add: order(2) lessThan_atLeast0 nth_image)
  have "map cell_token ?cells = map (nth (map cell_token outs)) order"
    using order(2) by simp
  moreover have "inj_on (nth (map cell_token outs)) (set order)"
    using adm(3) order(2) by (intro inj_on_nth) simp_all
  ultimately have "distinct (map cell_token ?cells)"
    using order(1) by (simp only: distinct_map simp_thms)
  moreover show "length order = length outs"
    using distinct_card [OF order(1)] order(2) by simp
  ultimately show "cells_admitted ?cells now role"
    using adm ids setc by (simp add: cells_admitted_def)
qed

lemma outbound_delivery:
  assumes aes: "aes_inverse aes" and rng: "rng_fills fill" and sha: "digest_wide sha256"
    and d: "delivery_valid (tph_delivery header)"
    and fwd: "forward_cells aes sha256 fill gw header msg now rng = (Inr dlvs, rng')"
    and path: "outbound_path (et_hops (og_established gw)) ps role"
    and run: "relay_all aes now (map ob_cell dlvs) ps = (Inr outs, ps')"
    and order: "distinct order" "set order = {..<length outs}"
    and adm: "oe_is_usable now role"
      "\<forall>out\<in>set outs. \<not> duplicate_contains (cell_token out) (oe_duplicates role)"
      "distinct (map cell_token outs)"
      "length (dw_tokens (oe_duplicates role)) + length outs \<le> dw_capacity (oe_duplicates role)"
    and ready: "\<not> one_cell (tph_delivery header) msg \<Longrightarrow>
      ready (set_now now (oe_reassembler role))
        (ReassemblyKey (tunnel_id_get (oe_receive_tunnel role)) (tph_message_id header))
        (message_bodies (tph_delivery header) msg)"
  shows "fst (endpoint_run aes sha256 prev now (map (nth outs) order) role) =
    replicate (length outs - 1) (Inr None)
      @ [map_sum id Some (action_from_delivery (tph_delivery header) msg
           (if one_cell (tph_delivery header) msg then 0 else tph_message_id header) 0)]"
proof -
  let ?hops = "et_hops (og_established gw)" and ?d = "tph_delivery header" and ?mid = "tph_message_id header"
  let ?t = "tunnel_id_get (first_hop_receive_tunnel (og_established gw))"
  let ?cells = "map (nth outs) order"
  obtain rs where rs: "fragment_complete_message ?d ?mid msg = Inr rs"
    "list_all2 (\<lambda>r dlv. built_from aes sha256 (map hop_layer_keys ?hops) ?t r (ob_cell dlv)) rs dlvs"
    "?mid \<noteq> 0" "msg \<noteq> []" "length msg \<le> MAX_TUNNEL_MESSAGE_PAYLOAD_BYTES"
    using forward_cells_built [OF aes rng sha d fwd] by blast
  have opens: "list_all2 (\<lambda>r out. cell_opens aes sha256 (oe_layer_keys role) out r
      \<and> td_tunnel_id out = path_exit ?t ps) rs outs"
    using rs(2) by (intro relayed_cells_open [OF aes path _ run]) (simp add: list_all2_map2)
  have "path_exit ?t ps = tunnel_id_get (oe_receive_tunnel role)" "tunnel_id_get (oe_receive_tunnel role) \<noteq> 0"
    using path by (auto simp: outbound_path_def first_hop_receive_tunnel_def hd_conv_nth)
  with opens have ids: "\<forall>out\<in>set outs. td_tunnel_id out \<noteq> 0 \<and> TunnelId (td_tunnel_id out) = oe_receive_tunnel role"
    by (auto simp: list_all2_conv_all_nth in_set_conv_nth)
  note admitted = reordered_admitted(1) [OF order ids adm] and n = reordered_admitted(2) [OF order ids adm]
  have len: "length rs = length outs" using opens by (rule list_all2_lengthD)
  show ?thesis
  proof (cases "one_cell ?d msg")
    case True
    then have r: "rs = [\<lparr>fd_delivery = Some ?d, fd_fragment = Unfragmented msg\<rparr>]"
      using rs d by (simp add: fragment_complete_message_eq delivery_valid_validate)
    with len obtain out where outs: "outs = [out]" by (cases outs) auto
    then have "order = [0]" using order n by (cases order) (auto simp: lessThan_Suc)
    with outs True endpoint_single [OF d, of out now role aes sha256 msg prev] admitted opens r show ?thesis
      by simp
  next
    case False
    let ?bodies = "message_bodies ?d msg"
    have rsb: "rs = map (nth_record ?mid ?bodies ?d) [0..<length ?bodies]"
      using rs d False by (simp add: fragment_complete_message_eq delivery_valid_validate)
    then have nb: "length ?bodies = length outs" using len by simp
    have ins: "insert_all (ReassemblyKey (tunnel_id_get (oe_receive_tunnel role)) ?mid)
        (fragments_in_order ?mid ?bodies (Some ?d) order) (set_now now (oe_reassembler role)) =
        (replicate (length ?bodies - 1) (Inr None)
           @ [Inr (Some \<lparr>rf_message = concat ?bodies, rf_delivery = Some ?d\<rparr>)], set_now now (oe_reassembler role))"
      using rs(3) order nb by (intro insert_all_any_order [OF ready [OF False]]) simp_all
    have ops: "list_all2 (\<lambda>i cell. cell_opens aes sha256 (oe_layer_keys role) cell (nth_record ?mid ?bodies ?d i))
        order ?cells"
      unfolding list_all2_map2 list_all2_same order(2) using opens nb rsb
      by (simp add: list_all2_conv_all_nth)
    have "fst (endpoint_run aes sha256 prev now ?cells role) =
        map (action_result ?d ?mid) (replicate (length ?bodies - 1) (Inr None)
           @ [Inr (Some \<lparr>rf_message = concat ?bodies, rf_delivery = Some ?d\<rparr>)])"
      by (rule endpoint_run_inserts [OF d ins _ ops admitted]) auto
    with False nb message_bodies_facts(1) [OF False rs(5)] show ?thesis
      by (simp add: action_result_def)
  qed
qed

subsection \<open>The inbound tunnel\<close>

text \<open>The cells that arrive at the local endpoint, one after the other.\<close>

fun local_run ::
  "Aes \<Rightarrow> (bytes \<Rightarrow> bytes) \<Rightarrow> Hash \<Rightarrow> u64 \<Rightarrow> TunnelDataMessage list \<Rightarrow> LocalInboundEndpointRole
     \<Rightarrow> (TunnelRoleError + bytes option) list \<times> LocalInboundEndpointRole" where
  "local_run aes sha256 prev now [] role = ([], role)"
| "local_run aes sha256 prev now (cell # cells) role =
     (case local_inbound_process aes sha256 prev cell now role of (out, role') \<Rightarrow>
        (case local_run aes sha256 prev now cells role' of (outs, role'') \<Rightarrow> (out # outs, role'')))"

definition local_opens :: "Aes \<Rightarrow> (bytes \<Rightarrow> bytes) \<Rightarrow> LayerKeys list \<Rightarrow> TunnelDataMessage \<Rightarrow> FragmentDelivery \<Rightarrow> bool" where
  "local_opens aes sha256 keys cell record \<longleftrightarrow>
     (case fold (inverse_step aes) (rev keys) (split_cell cell) of (iv, payload) \<Rightarrow>
        parse_payload sha256 iv payload = Inr [record])"

lemma local_process_run:
  assumes "li_is_usable now role" "td_tunnel_id cell \<noteq> 0" "TunnelId (td_tunnel_id cell) = local_receive_tunnel role"
    and "local_opens aes sha256 (map hop_layer_keys (et_hops (li_established role))) cell record"
    and "local_record record (role\<lparr>li_reassembler := set_now now (li_reassembler role)\<rparr>) = (Inr out, role')"
  shows "local_inbound_process aes sha256 prev cell now role = (Inr out, role')"
proof -
  have "check_cell_id (local_receive_tunnel role) cell = Inr ()"
    using assms(2,3) by (simp add: check_cell_id_ok)
  with assms show ?thesis
    by (cases out; cases "split_cell cell")
      (auto simp: local_inbound_process_def local_opens_def inbound_endpoint_decrypt_def outbound_preprocess_fold
        bindS_def liftS_def map_errS_def retS_def Let_def split: prod.splits)
qed

lemma local_record_insert:
  assumes "insert_with_delivery (ReassemblyKey (tunnel_id_get (local_receive_tunnel role))
        (case fragment_message_id f of Some m \<Rightarrow> m | None \<Rightarrow> 0)) f d (li_reassembler role) = (Inr out, r')"
    and "d \<in> {None, Some DeliverLocal}" "out = None \<or> (\<exists>m. out = Some \<lparr>rf_message = m, rf_delivery = Some DeliverLocal\<rparr>)"
  shows "local_record \<lparr>fd_delivery = d, fd_fragment = f\<rparr> role =
    (Inr (map_option rf_message out), role\<lparr>li_reassembler := r'\<rparr>)"
  using assms
  by (auto simp: local_record_def bindS_def getS_def fieldS_def map_errS_def retS_def Let_def)

lemma fragment_message_id_nth [simp]: "fragment_message_id (nth_fragment mid bodies i) = Some mid"
  by (simp add: nth_fragment_def)

lemma local_run_inserts:
  shows "insert_all (ReassemblyKey (tunnel_id_get (local_receive_tunnel role)) mid)
      (fragments_in_order mid bodies (Some DeliverLocal) order) (set_now now (li_reassembler role)) = (map Inr outs, r') \<Longrightarrow>
    \<forall>out\<in>set outs. out = None \<or> (\<exists>m. out = Some \<lparr>rf_message = m, rf_delivery = Some DeliverLocal\<rparr>) \<Longrightarrow>
    list_all2 (\<lambda>i cell. local_opens aes sha256 (map hop_layer_keys (et_hops (li_established role))) cell
      (nth_record mid bodies DeliverLocal i) \<and> td_tunnel_id cell \<noteq> 0
      \<and> TunnelId (td_tunnel_id cell) = local_receive_tunnel role) order cells \<Longrightarrow>
    li_is_usable now role \<Longrightarrow>
    fst (local_run aes sha256 prev now cells role) = map (\<lambda>out. Inr (map_option rf_message out)) outs"
proof (induction order arbitrary: cells role outs)
  case Nil
  then show ?case by simp
next
  case (Cons i order)
  let ?key = "ReassemblyKey (tunnel_id_get (local_receive_tunnel role)) mid"
  let ?role = "role\<lparr>li_reassembler := set_now now (li_reassembler role)\<rparr>"
  obtain cell cells' where cells: "cells = cell # cells'" using Cons.prems(3) by (cases cells) auto
  obtain out r1 outs' where ins: "insert_with_delivery ?key (nth_fragment mid bodies i) (nth_delivery (Some DeliverLocal) i)
      (set_now now (li_reassembler role)) = (Inr out, r1)"
    "insert_all ?key (fragments_in_order mid bodies (Some DeliverLocal) order) r1 = (map Inr outs', r')" "outs = out # outs'"
    using Cons.prems(1) by (cases outs) (auto split: prod.splits)
  have now: "set_now now r1 = r1"
    using br_now_insert [OF ins(1)] by (simp add: set_now_def)
  have rec: "local_record (nth_record mid bodies DeliverLocal i) ?role =
      (Inr (map_option rf_message out), ?role\<lparr>li_reassembler := r1\<rparr>)"
    unfolding nth_record_def
    using ins(1) Cons.prems(2) ins(3)
    by (intro local_record_insert) (simp_all add: local_receive_tunnel_def nth_delivery_def)
  have step: "local_inbound_process aes sha256 prev cell now role =
      (Inr (map_option rf_message out), role\<lparr>li_reassembler := r1\<rparr>)"
    using local_process_run [OF Cons.prems(4) _ _ _ rec] Cons.prems(3) cells by simp
  have "fst (local_run aes sha256 prev now cells' (role\<lparr>li_reassembler := r1\<rparr>)) =
      map (\<lambda>out. Inr (map_option rf_message out)) outs'"
    using ins(2) now Cons.prems(2-4) cells ins(3)
    by (intro Cons.IH) (simp_all add: local_receive_tunnel_def li_is_usable_def)
  with step cells ins(3) show ?case by (simp add: case_prod_beta)
qed

lemma build_cells_parse:
  assumes "rng_fills fill" "digest_wide sha256" "\<forall>r\<in>set rs. record_valid r"
    and "build_cells sha256 fill rs rng = (Inr cells, rng')"
  shows "list_all2 (\<lambda>r c. cell_sized c \<and> parse_payload sha256 (fst c) (snd c) = Inr [r]) rs cells"
proof -
  have cell: "cell_sized c \<and> parse_payload sha256 (fst c) (snd c) = Inr [r]"
    if r: "record_valid r" and run: "build_cell sha256 fill r s = (Inr c, s')" for r c s s'
  proof -
    obtain iv payload s1 s2 where run: "fill s1 16 = Some (iv, s2)"
      "pack_payload sha256 fill r iv s2 = (Inr payload, s')" "c = (iv, payload)"
      using run by (auto simp: build_cell_def retS_run liftS_run elim!: bindS_InrE split: option.splits)
    then have "length iv = TUNNEL_IV_LEN" using assms(1) by (auto simp: rng_fills_def layer_limits)
    with pack_payload_parse [OF assms(1,2) r run(2)] run(3) show ?thesis
      by (simp add: cell_sized_def data_limits layer_limits)
  qed
  have "mapS (build_cell sha256 fill) rs rng = (Inr cells, rng')"
    using assms(4) by (auto simp: build_cells_def failS_run split: if_splits)
  from mapS_Inr [OF this] show ?thesis
    by (rule list.rel_mono_strong) (use assms(3) cell in blast)
qed

definition inbound_path ::
  "EstablishedTunnel \<Rightarrow> InboundGatewayRole \<Rightarrow> (Hash \<times> ParticipantState) list \<Rightarrow> bool" where
  "inbound_path tunnel gw ps \<longleftrightarrow>
     map hop_layer_keys (et_hops tunnel) = ig_layer_keys gw # path_keys ps
     \<and> path_exit (tunnel_id_get (nh_tunnel (ig_next gw))) ps = tunnel_id_get (et_local_inbound_receive tunnel)
     \<and> tunnel_id_get (et_local_inbound_receive tunnel) \<noteq> 0"

lemma ig_outbound_cell_facts:
  assumes "aes_inverse aes" "cell_sized c"
  shows "split_cell (oc_cell (ig_outbound_cell aes gw c)) = forward_step aes (ig_layer_keys gw) c"
    and "td_tunnel_id (oc_cell (ig_outbound_cell aes gw c)) = tunnel_id_get (nh_tunnel (ig_next gw))"
proof -
  have "cell_sized (forward_step aes (ig_layer_keys gw) c)" using forward_inverse(3) [OF assms] .
  then show "split_cell (oc_cell (ig_outbound_cell aes gw c)) = forward_step aes (ig_layer_keys gw) c"
    by (cases c; cases "forward_step aes (ig_layer_keys gw) c")
      (simp add: ig_outbound_cell_def cell_sized_def)
  show "td_tunnel_id (oc_cell (ig_outbound_cell aes gw c)) = tunnel_id_get (nh_tunnel (ig_next gw))"
    by (cases c; cases "forward_step aes (ig_layer_keys gw) c") (simp add: ig_outbound_cell_def)
qed

lemma claim_nonzero: "fst (claim_fragment_id next_u32 s) \<noteq> 0"
  by (cases s) (auto simp: claim_fragment_id_def Let_def split: prod.splits)

text \<open>What leaves the inbound path opens, at the local endpoint, to the records of the message.\<close>

lemma inbound_cells_open:
  assumes aes: "aes_inverse aes" and rng: "rng_fills fill" and sha: "digest_wide sha256"
    and proc: "process_cells aes sha256 fill next_u32 encode_standard gateway now (gw, rng) = (Inr ocs, s')"
    and inner: "encode_standard (tg_message gateway) = Some inner"
    and path: "inbound_path (li_established role) gw ps"
    and run: "relay_all aes now (map oc_cell ocs) ps = (Inr outs, ps')"
  obtains rs where
    "fragment_complete_message DeliverLocal (fst (claim_fragment_id next_u32 (gw, rng))) inner = Inr rs"
    "inner \<noteq> []" "length inner \<le> MAX_TUNNEL_MESSAGE_PAYLOAD_BYTES" "length rs = length outs"
    "\<forall>i<length outs. local_opens aes sha256 (map hop_layer_keys (et_hops (li_established role))) (outs ! i) (rs ! i)
       \<and> td_tunnel_id (outs ! i) \<noteq> 0 \<and> TunnelId (td_tunnel_id (outs ! i)) = local_receive_tunnel role"
proof -
  let ?mid = "fst (claim_fragment_id next_u32 (gw, rng))"
  let ?keys = "map hop_layer_keys (et_hops (li_established role))"
  let ?t = "tunnel_id_get (nh_tunnel (ig_next gw))"
  have mid: "?mid \<noteq> 0" by (rule claim_nonzero)
  obtain rs cells rng1 rng2 where rs: "fragment_complete_message DeliverLocal ?mid inner = Inr rs"
    "build_cells sha256 fill rs rng1 = (Inr cells, rng2)" "ocs = map (ig_outbound_cell aes gw) cells"
    using proc inner
    by (auto simp: process_cells_def claimS_def map_errS_Inr fieldS_Inr retS_run liftS_run
        elim!: bindS_InrE split: prod.splits)
  have ok: "inner \<noteq> []" "length inner \<le> MAX_TUNNEL_MESSAGE_PAYLOAD_BYTES"
    using rs(1) by (auto simp: fragment_complete_message_def bindR_eq_Inr split: if_splits)
  have valid: "\<forall>r\<in>set rs. record_valid r"
    using fragment_record_ok [OF _ mid ok rs(1)] by simp
  note cells = build_cells_parse [OF rng sha valid rs(2)]
  have sized: "\<forall>c\<in>set (map oc_cell ocs). cell_sized (split_cell c)"
    using cells rs(3) ig_outbound_cell_facts(1) [OF aes] forward_inverse(3) [OF aes]
    by (fastforce simp: list_all2_conv_all_nth in_set_conv_nth)
  have fwd: "list_all2 (\<lambda>c out. split_cell out = fold (forward_step aes) (path_keys ps) (split_cell c)
      \<and> td_tunnel_id out = path_exit (td_tunnel_id c) ps) (map oc_cell ocs) outs"
    by (rule relay_all_forwards [OF aes run sized])
  have len: "length rs = length outs" "length cells = length outs"
    using list_all2_lengthD [OF cells] list_all2_lengthD [OF fwd] rs(3) by simp_all
  have "local_opens aes sha256 ?keys (outs ! i) (rs ! i) \<and> td_tunnel_id (outs ! i) \<noteq> 0
      \<and> TunnelId (td_tunnel_id (outs ! i)) = local_receive_tunnel role" if i: "i < length outs" for i
  proof -
    let ?c = "cells ! i"
    have c: "cell_sized ?c" "parse_payload sha256 (fst ?c) (snd ?c) = Inr [rs ! i]"
      using cells i len by (auto simp: list_all2_conv_all_nth)
    have out: "split_cell (outs ! i) = fold (forward_step aes) ?keys ?c" "td_tunnel_id (outs ! i) = path_exit ?t ps"
      using fwd i len rs(3) path ig_outbound_cell_facts [OF aes c(1), of gw]
      by (auto simp: list_all2_conv_all_nth inbound_path_def)
    have "fold (inverse_step aes) (rev ?keys) (split_cell (outs ! i)) = ?c"
      unfolding out(1) by (rule inverse_chain_undoes_forward [OF aes c(1)])
    with c(2) out(2) path show ?thesis
      by (auto simp: local_opens_def inbound_path_def local_receive_tunnel_def split: prod.splits)
  qed
  then have "\<forall>i<length outs. local_opens aes sha256 ?keys (outs ! i) (rs ! i) \<and> td_tunnel_id (outs ! i) \<noteq> 0
      \<and> TunnelId (td_tunnel_id (outs ! i)) = local_receive_tunnel role" by blast
  then show ?thesis by (rule that [OF rs(1) ok len(1)])
qed

lemma inbound_delivery:
  assumes aes: "aes_inverse aes" and rng: "rng_fills fill" and sha: "digest_wide sha256"
    and proc: "process_cells aes sha256 fill next_u32 encode_standard gateway now (gw, rng) = (Inr ocs, s')"
    and inner: "encode_standard (tg_message gateway) = Some inner"
    and path: "inbound_path (li_established role) gw ps"
    and run: "relay_all aes now (map oc_cell ocs) ps = (Inr outs, ps')"
    and order: "distinct order" "set order = {..<length outs}"
    and usable: "li_is_usable now role"
    and ready: "\<not> one_cell DeliverLocal inner \<Longrightarrow>
      ready (set_now now (li_reassembler role))
        (ReassemblyKey (tunnel_id_get (local_receive_tunnel role)) (fst (claim_fragment_id next_u32 (gw, rng))))
        (message_bodies DeliverLocal inner)"
  shows "fst (local_run aes sha256 prev now (map (nth outs) order) role) =
    replicate (length outs - 1) (Inr None) @ [Inr (Some inner)]"
proof -
  let ?mid = "fst (claim_fragment_id next_u32 (gw, rng))"
  let ?keys = "map hop_layer_keys (et_hops (li_established role))"
  let ?P = "\<lambda>cell r. local_opens aes sha256 ?keys cell r \<and> td_tunnel_id cell \<noteq> 0
      \<and> TunnelId (td_tunnel_id cell) = local_receive_tunnel role"
  have mid: "?mid \<noteq> 0" by (rule claim_nonzero)
  obtain rs where rs: "fragment_complete_message DeliverLocal ?mid inner = Inr rs"
    and ok: "inner \<noteq> []" "length inner \<le> MAX_TUNNEL_MESSAGE_PAYLOAD_BYTES" and len: "length rs = length outs"
    and opens: "\<forall>i<length outs. ?P (outs ! i) (rs ! i)"
    by (rule inbound_cells_open [OF aes rng sha proc inner path run])
  show ?thesis
  proof (cases "one_cell DeliverLocal inner")
    case True
    then have r: "rs = [\<lparr>fd_delivery = Some DeliverLocal, fd_fragment = Unfragmented inner\<rparr>]"
      using rs mid ok by (simp add: fragment_complete_message_eq)
    with len obtain out where outs: "outs = [out]" by (cases outs) auto
    have "length order = length outs" using distinct_card [OF order(1)] order(2) by simp
    with order outs have o: "order = [0]" by (cases order) (auto simp: lessThan_Suc)
    have "local_record \<lparr>fd_delivery = Some DeliverLocal, fd_fragment = Unfragmented inner\<rparr>
        (role\<lparr>li_reassembler := set_now now (li_reassembler role)\<rparr>) =
        (Inr (map_option rf_message (Some \<lparr>rf_message = inner, rf_delivery = Some DeliverLocal\<rparr>)),
         role\<lparr>li_reassembler := set_now now (li_reassembler role)\<rparr>\<lparr>li_reassembler := set_now now (li_reassembler role)\<rparr>)"
      by (rule local_record_insert) (simp_all add: insert_with_delivery_def)
    from local_process_run [OF usable _ _ _ this] spec [OF opens, of 0] outs o r show ?thesis
      by (simp add: case_prod_beta)
  next
    case False
    let ?bodies = "message_bodies DeliverLocal inner"
    let ?outs = "replicate (length ?bodies - 1) None @ [Some \<lparr>rf_message = concat ?bodies, rf_delivery = Some DeliverLocal\<rparr>]"
    have rsb: "rs = map (nth_record ?mid ?bodies DeliverLocal) [0..<length ?bodies]"
      using rs mid ok False by (simp add: fragment_complete_message_eq)
    then have nb: "length ?bodies = length outs" using len by simp
    have ins: "insert_all (ReassemblyKey (tunnel_id_get (local_receive_tunnel role)) ?mid)
        (fragments_in_order ?mid ?bodies (Some DeliverLocal) order) (set_now now (li_reassembler role)) =
        (map Inr ?outs, set_now now (li_reassembler role))"
      using mid order nb insert_all_any_order [OF ready [OF False], of ?mid order "Some DeliverLocal"] by simp
    have ops: "list_all2 (\<lambda>i cell. ?P cell (nth_record ?mid ?bodies DeliverLocal i)) order (map (nth outs) order)"
      unfolding list_all2_map2 list_all2_same order(2) using opens nb rsb by simp
    have "fst (local_run aes sha256 prev now (map (nth outs) order) role) =
        map (\<lambda>out. Inr (map_option rf_message out)) ?outs"
      by (rule local_run_inserts [OF ins _ ops usable]) auto
    with nb message_bodies_facts(1) [OF False ok(2)] show ?thesis by simp
  qed
qed

subsection \<open>The gateways fail only with the generator\<close>

text \<open>
  Once the guards of a gateway have passed, the records it builds always encode and always fit their
  cells, so what remains to fail is the generator.
\<close>

lemma mapS_length: "mapS f xs s = (Inr ys, s') \<Longrightarrow> length ys = length xs"
  by (induction xs arbitrary: s ys) (auto simp: bindS_def retS_def split: prod.splits sum.splits)

lemma forward_fragment_draws:
  assumes "rng_fills fill" "encode_record r = Inr body" "length body + CHECKSUM_LEN + 1 \<le> MAX_PLAINTEXT_DATA_BYTES"
  shows "draws_or_fails fill RoleTunnelMessage (forward_fragment aes sha256 fill role r)"
  unfolding forward_fragment_def fresh_iv_def
  by (intro draws_or_fails_bind draws_or_fails_map_err draws_or_fails_ret draws_or_fails_request pack_payload_draws [OF assms])

lemma build_cell_draws:
  assumes "rng_fills fill" "record_valid r" "encode_record r = Inr body"
    "length body + CHECKSUM_LEN + 1 \<le> MAX_PLAINTEXT_DATA_BYTES"
  shows "draws_or_fails fill id (build_cell sha256 fill r)"
proof -
  have v: "(case fd_delivery r of Some d \<Rightarrow> validate_delivery d | None \<Rightarrow> Inr ()) = Inr ()"
    using assms(2) by (cases r; cases "fd_fragment r"; cases "fd_delivery r")
      (auto simp: record_valid_def delivery_valid_validate)
  show ?thesis unfolding build_cell_def v
    by (intro draws_or_fails_bind draws_or_fails_lift draws_or_fails_ret draws_or_fails_request pack_payload_draws [OF assms(1,3,4)])
qed

lemma fragment_complete_message_succeeds:
  assumes "delivery_valid d" "mid \<noteq> 0" "msg \<noteq> []" "length msg \<le> MAX_TUNNEL_MESSAGE_PAYLOAD_BYTES"
  obtains rs where "fragment_complete_message d mid msg = Inr rs" "rs \<noteq> []" "length rs \<le> 64"
    "length rs = (if one_cell d msg then 1 else length (message_bodies d msg))"
proof -
  from fragment_complete_message_eq [OF delivery_valid_validate [OF assms(1)] assms(2-4)]
    message_bodies_facts(2,3) [of d msg] assms(4) that show thesis
    by (cases "one_cell d msg") (force simp: length_0_conv [symmetric] simp del: length_0_conv)+
qed

lemma forward_cells_draws:
  assumes "rng_fills fill" "og_is_usable now gw" "delivery_valid (tph_delivery header)"
    "tph_delivery header \<noteq> DeliverLocal" "tph_message_id header \<noteq> 0" "msg \<noteq> []"
    "length msg \<le> MAX_TUNNEL_MESSAGE_PAYLOAD_BYTES"
  shows "draws_or_fails fill RoleTunnelMessage (forward_cells aes sha256 fill gw header msg now)"
    and "forward_cells aes sha256 fill gw header msg now rng = (Inr dlvs, rng') \<Longrightarrow>
      length dlvs = (if one_cell (tph_delivery header) msg then 1 else length (message_bodies (tph_delivery header) msg))"
proof -
  obtain rs where rs: "fragment_complete_message (tph_delivery header) (tph_message_id header) msg = Inr rs"
    "length rs = (if one_cell (tph_delivery header) msg then 1 else length (message_bodies (tph_delivery header) msg))"
    using fragment_complete_message_succeeds [OF assms(3,5,6,7)] by metis
  have eq: "forward_cells aes sha256 fill gw header msg now = mapS (forward_fragment aes sha256 fill gw) rs"
    using assms(2,4) rs(1) by (simp add: forward_cells_def bindS_def map_errS_def liftS_def)
  show "draws_or_fails fill RoleTunnelMessage (forward_cells aes sha256 fill gw header msg now)"
    unfolding eq using fragment_record_ok [OF assms(3,5,6,7) rs(1)] forward_fragment_draws [OF assms(1)]
    by (intro draws_or_fails_mapS) blast
  show "length dlvs = (if one_cell (tph_delivery header) msg then 1 else length (message_bodies (tph_delivery header) msg))"
    if "forward_cells aes sha256 fill gw header msg now rng = (Inr dlvs, rng')"
    using mapS_length [OF that [unfolded eq]] rs(2) by simp
qed

text \<open>The inbound gateway draws the message identifier first.\<close>

lemma process_cells_outcome:
  assumes "rng_fills fill" "ig_guard gateway now gw = Inr ()" "encode_standard (tg_message gateway) = Some inner"
    "inner \<noteq> []" "length inner \<le> MAX_TUNNEL_MESSAGE_PAYLOAD_BYTES"
    and claim: "claim_fragment_id next_u32 (gw, rng) = (mid, gw', rng1)"
  shows "case fst (process_cells aes sha256 fill next_u32 encode_standard gateway now (gw, rng)) of
      Inr ocs \<Rightarrow> length ocs = (if one_cell DeliverLocal inner then 1 else length (message_bodies DeliverLocal inner))
    | Inl e \<Rightarrow> \<exists>cause. e = RoleTunnelMessage cause \<and> randomness_failed fill rng1 cause"
proof -
  have mid: "mid \<noteq> 0" using claim_nonzero [of next_u32 "(gw, rng)"] claim by simp
  obtain rs where rs: "fragment_complete_message DeliverLocal mid inner = Inr rs" "rs \<noteq> []" "length rs \<le> 64"
    "length rs = (if one_cell DeliverLocal inner then 1 else length (message_bodies DeliverLocal inner))"
    using fragment_complete_message_succeeds [of DeliverLocal, OF _ mid assms(4,5)] by auto
  have cells: "draws_or_fails fill id (mapS (build_cell sha256 fill) rs)"
    using fragment_record_ok [of DeliverLocal, OF _ mid assms(4,5) rs(1)] build_cell_draws [OF assms(1)]
    by (intro draws_or_fails_mapS) (metis delivery_valid.simps(1))
  obtain q rng2 where q: "mapS (build_cell sha256 fill) rs rng1 = (q, rng2)" by force
  then have "fst (process_cells aes sha256 fill next_u32 encode_standard gateway now (gw, rng)) =
      map_sum RoleTunnelMessage (map (ig_outbound_cell aes gw)) q"
    using rs(1-3) claim assms(2,3)
    by (cases q) (simp_all add: process_cells_def bindS_def liftS_def claimS_def map_errS_def fieldS_def retS_def
        build_cells_def data_limits)
  with draws_or_failsD(2) [OF cells q] mapS_length [of "build_cell sha256 fill" rs rng1 _ rng2] q rs(4) show ?thesis
    by (cases q) auto
qed

end
