(* ===== verification/Tunnel_Pool.thy ===== *)
theory Tunnel_Pool
  imports Tunnel_Established BTree
begin

section \<open>The exploratory pool (i2pr-tunnel/src/pool.rs, config.rs)\<close>

text \<open>
  The bounded pool of inbound and outbound tunnels: its validated configuration, registration,
  expiry, failure accounting, one-shot activation of the secret material and the choice of a reply
  path. The registrations that exist for tests only are left out.
\<close>

subsection \<open>Configuration\<close>

definition MAX_EXPLORATORY_INBOUND :: u16 where
  "MAX_EXPLORATORY_INBOUND = 8"

definition MAX_EXPLORATORY_OUTBOUND :: u16 where
  "MAX_EXPLORATORY_OUTBOUND = 8"

definition MAX_BUILD_CONCURRENCY :: u16 where
  "MAX_BUILD_CONCURRENCY = 4"

definition MAX_FAILURE_THRESHOLD :: u16 where
  "MAX_FAILURE_THRESHOLD = 16"

definition MAX_HOPS :: u8 where
  "MAX_HOPS = 8"

definition MIN_HOPS :: u8 where
  "MIN_HOPS = 1"

lemmas pool_limits = MAX_EXPLORATORY_INBOUND_def MAX_EXPLORATORY_OUTBOUND_def MAX_BUILD_CONCURRENCY_def
  MAX_FAILURE_THRESHOLD_def MAX_HOPS_def MIN_HOPS_def

record ExploratoryPoolConfig =
  pc_max_inbound :: u16
  pc_max_outbound :: u16
  pc_length_hops :: u8
  pc_lifetime :: TunnelLifetime
  pc_build_concurrency :: u16
  pc_failure_threshold :: u16

datatype ExploratoryConfigError =
    LengthTooShort u8 u8
  | LengthTooLong u8 u8
  | ZeroInbound
  | InboundExceedsMaximum u16 u16
  | OutboundExceedsMaximum u16 u16
  | ZeroBuildConcurrency
  | BuildConcurrencyExceedsMaximum u16 u16
  | FailureThresholdExceedsMaximum u16 u16
  | ConfigLifetime TunnelLifetimeError

definition pool_config_try_new ::
  "u16 \<Rightarrow> u16 \<Rightarrow> u8 \<Rightarrow> u32 \<Rightarrow> u16 \<Rightarrow> u16 \<Rightarrow> ExploratoryConfigError + ExploratoryPoolConfig" where
  "pool_config_try_new max_inbound max_outbound length_hops seconds build_concurrency failure_threshold =
     (if length_hops < MIN_HOPS then Inl (LengthTooShort length_hops MIN_HOPS)
      else if length_hops > MAX_HOPS then Inl (LengthTooLong length_hops MAX_HOPS)
      else if max_inbound = 0 then Inl ZeroInbound
      else if max_inbound > MAX_EXPLORATORY_INBOUND
      then Inl (InboundExceedsMaximum max_inbound MAX_EXPLORATORY_INBOUND)
      else if max_outbound > MAX_EXPLORATORY_OUTBOUND
      then Inl (OutboundExceedsMaximum max_outbound MAX_EXPLORATORY_OUTBOUND)
      else if build_concurrency = 0 then Inl ZeroBuildConcurrency
      else if build_concurrency > MAX_BUILD_CONCURRENCY
      then Inl (BuildConcurrencyExceedsMaximum build_concurrency MAX_BUILD_CONCURRENCY)
      else if failure_threshold > MAX_FAILURE_THRESHOLD
      then Inl (FailureThresholdExceedsMaximum failure_threshold MAX_FAILURE_THRESHOLD)
      else case lifetime_from_seconds seconds of
        Inl e \<Rightarrow> Inl (ConfigLifetime e)
      | Inr lifetime \<Rightarrow>
          Inr \<lparr>pc_max_inbound = max_inbound, pc_max_outbound = max_outbound, pc_length_hops = length_hops,
               pc_lifetime = lifetime, pc_build_concurrency = build_concurrency,
               pc_failure_threshold = failure_threshold\<rparr>)"

subsection \<open>Registrations and entries\<close>

datatype TunnelSlot = TunnelSlot (slot_get: u32)

instantiation TunnelSlot :: linorder
begin

definition less_TunnelSlot :: "TunnelSlot \<Rightarrow> TunnelSlot \<Rightarrow> bool" where
  "less_TunnelSlot a b \<longleftrightarrow> slot_get a < slot_get b"

definition less_eq_TunnelSlot :: "TunnelSlot \<Rightarrow> TunnelSlot \<Rightarrow> bool" where
  "less_eq_TunnelSlot a b \<longleftrightarrow> slot_get a \<le> slot_get b"

instance
  by intro_classes (auto simp: less_TunnelSlot_def less_eq_TunnelSlot_def intro: TunnelSlot.expand)

end

datatype TunnelState = Building | Established | Expired | Failed

record TunnelRegistration =
  reg_slot :: TunnelSlot
  reg_tunnel_id :: TunnelId
  reg_direction :: TunnelDirection
  reg_state :: TunnelState
  reg_hops :: "TunnelPeer list"
  reg_created_at_seconds :: u64

datatype RegistrationError = RegistrationEmptyHopList | RegistrationTooManyHops nat nat

definition registration_new ::
  "TunnelSlot \<Rightarrow> TunnelId \<Rightarrow> TunnelDirection \<Rightarrow> TunnelState \<Rightarrow> TunnelPeer list \<Rightarrow> u64
     \<Rightarrow> RegistrationError + TunnelRegistration" where
  "registration_new slot tunnel_id direction state hops created_at_seconds =
     (if hops = [] then Inl RegistrationEmptyHopList
      else if length hops > unat MAX_HOPS_PER_TUNNEL
      then Inl (RegistrationTooManyHops (length hops) (unat MAX_HOPS_PER_TUNNEL))
      else Inr \<lparr>reg_slot = slot, reg_tunnel_id = tunnel_id, reg_direction = direction, reg_state = state,
                reg_hops = hops, reg_created_at_seconds = created_at_seconds\<rparr>)"

datatype RegisterOutcome =
    InsertedSlot TunnelSlot "TunnelSlot option"
  | DuplicateSlot TunnelSlot

datatype PoolFullError = InboundPoolFull | OutboundPoolFull

datatype RegisterError =
    Full PoolFullError TunnelRegistration
  | Invalid RegistrationError

record PublicTunnelRouting =
  ptr_first_hop_router :: Hash
  ptr_first_hop_receive_tunnel :: TunnelId
  ptr_local_inbound_receive :: TunnelId

definition routing_from_material :: "EstablishedMaterial \<Rightarrow> PublicTunnelRouting" where
  "routing_from_material material =
     \<lparr>ptr_first_hop_router =
        (if em_direction material = Inbound then peer_hash (fst (em_inbound_gateway material))
         else case em_hops material of hop # _ \<Rightarrow> peer_hash (hop_peer hop) | [] \<Rightarrow> Hash (replicate 32 0)),
      ptr_first_hop_receive_tunnel =
        (if em_direction material = Inbound then snd (em_inbound_gateway material)
         else case em_hops material of hop # _ \<Rightarrow> hop_receive_tunnel hop | [] \<Rightarrow> TunnelId (- 1)),
      ptr_local_inbound_receive = em_local_inbound_receive material\<rparr>"

datatype MaterialState = Available EstablishedMaterial | Activated

record TunnelEntry =
  te_registration :: TunnelRegistration
  te_routing :: PublicTunnelRouting
  te_material :: MaterialState

definition entry_new :: "TunnelRegistration \<Rightarrow> EstablishedMaterial \<Rightarrow> TunnelEntry" where
  "entry_new registration established =
     \<lparr>te_registration = registration, te_routing = routing_from_material established,
      te_material = Available established\<rparr>"

fun available_material :: "MaterialState \<Rightarrow> EstablishedMaterial option" where
  "available_material (Available material) = Some material"
| "available_material Activated = None"

subsection \<open>The pool\<close>

record ExploratoryPool =
  ep_config :: ExploratoryPoolConfig
  ep_inbound :: "(TunnelSlot, TunnelEntry) btree"
  ep_outbound :: "(TunnelSlot, TunnelEntry) btree"
  ep_next_slot :: u32
  ep_consecutive_failures :: u16
  ep_paused :: bool

definition pool_new :: "ExploratoryPoolConfig \<Rightarrow> ExploratoryPool" where
  "pool_new config =
     \<lparr>ep_config = config, ep_inbound = [], ep_outbound = [], ep_next_slot = 0,
      ep_consecutive_failures = 0, ep_paused = False\<rparr>"

definition count_failure :: "ExploratoryPool \<Rightarrow> ExploratoryPool" where
  "count_failure pool =
     (let failures = word_sat_add (ep_consecutive_failures pool) 1 in
      pool\<lparr>ep_consecutive_failures := failures,
           ep_paused := (failures \<ge> pc_failure_threshold (ep_config pool))\<rparr>)"

definition note_build_failure :: "ExploratoryPool \<Rightarrow> u16 \<times> ExploratoryPool" where
  "note_build_failure pool = (let pool = count_failure pool in (ep_consecutive_failures pool, pool))"

definition next_slot :: "ExploratoryPool \<Rightarrow> TunnelSlot \<times> ExploratoryPool" where
  "next_slot pool = (TunnelSlot (ep_next_slot pool), pool\<lparr>ep_next_slot := word_sat_add (ep_next_slot pool) 1\<rparr>)"

definition find_by_tunnel_id :: "ExploratoryPool \<Rightarrow> TunnelId \<Rightarrow> TunnelSlot option" where
  "find_by_tunnel_id pool tunnel_id =
     map_option fst (find (\<lambda>(slot, entry). reg_tunnel_id (te_registration entry) = tunnel_id)
       (ep_inbound pool @ ep_outbound pool))"

definition established_count :: "(TunnelSlot, TunnelEntry) btree \<Rightarrow> nat" where
  "established_count m = length (filter (\<lambda>entry. reg_state (te_registration entry) = Established) (bt_values m))"

definition register_inbound_with_material ::
  "EstablishedMaterial \<Rightarrow> u64 \<Rightarrow> (ExploratoryPool, RegisterError, RegisterOutcome) rsm" where
  "register_inbound_with_material established now_seconds = (\<lambda>pool.
     let tunnel_id = em_creator_tunnel_id established;
         hop_peers = map hop_peer (em_hops established);
         (slot, pool) = next_slot pool
     in case registration_new slot tunnel_id Inbound Established hop_peers now_seconds of
       Inl e \<Rightarrow> (Inl (Invalid e), pool)
     | Inr registration \<Rightarrow>
         (case find_by_tunnel_id pool tunnel_id of
            Some existing \<Rightarrow> (Inr (DuplicateSlot existing), pool)
          | None \<Rightarrow>
              if established_count (ep_inbound pool) \<ge> unat (pc_max_inbound (ep_config pool))
              then (Inl (Full InboundPoolFull registration), pool)
              else (Inr (InsertedSlot slot None),
                    pool\<lparr>ep_inbound := bt_insert slot (entry_new registration established) (ep_inbound pool)\<rparr>)))"

definition register_outbound_with_material ::
  "EstablishedMaterial \<Rightarrow> u64 \<Rightarrow> (ExploratoryPool, RegisterError, RegisterOutcome) rsm" where
  "register_outbound_with_material established now_seconds = (\<lambda>pool.
     let tunnel_id = em_creator_tunnel_id established;
         hop_peers = map hop_peer (em_hops established);
         (slot, pool) = next_slot pool
     in case registration_new slot tunnel_id Outbound Established hop_peers now_seconds of
       Inl e \<Rightarrow> (Inl (Invalid e), pool)
     | Inr registration \<Rightarrow>
         (case find_by_tunnel_id pool tunnel_id of
            Some existing \<Rightarrow> (Inr (DuplicateSlot existing), pool)
          | None \<Rightarrow>
              if established_count (ep_outbound pool) \<ge> unat (pc_max_outbound (ep_config pool))
              then (Inl (Full OutboundPoolFull registration), pool)
              else (Inr (InsertedSlot slot None),
                    pool\<lparr>ep_outbound := bt_insert slot (entry_new registration established) (ep_outbound pool)\<rparr>)))"

text \<open>\<open>self.inbound.get(&slot).or_else(|| self.outbound.get(&slot))\<close>.\<close>

definition pool_get :: "ExploratoryPool \<Rightarrow> TunnelSlot \<Rightarrow> TunnelEntry option" where
  "pool_get pool slot =
     (case bt_get (ep_inbound pool) slot of Some entry \<Rightarrow> Some entry | None \<Rightarrow> bt_get (ep_outbound pool) slot)"

definition pool_put :: "TunnelSlot \<Rightarrow> TunnelEntry \<Rightarrow> ExploratoryPool \<Rightarrow> ExploratoryPool" where
  "pool_put slot entry pool =
     (if bt_contains (ep_inbound pool) slot
      then pool\<lparr>ep_inbound := bt_insert slot entry (ep_inbound pool)\<rparr>
      else pool\<lparr>ep_outbound := bt_insert slot entry (ep_outbound pool)\<rparr>)"

definition pool_established :: "ExploratoryPool \<Rightarrow> TunnelSlot \<Rightarrow> EstablishedMaterial option" where
  "pool_established pool slot = Option.bind (pool_get pool slot) (\<lambda>entry. available_material (te_material entry))"

definition pool_routing :: "ExploratoryPool \<Rightarrow> TunnelSlot \<Rightarrow> PublicTunnelRouting option" where
  "pool_routing pool slot = map_option te_routing (pool_get pool slot)"

definition pool_remove :: "TunnelSlot \<Rightarrow> ExploratoryPool \<Rightarrow> TunnelEntry option \<times> ExploratoryPool" where
  "pool_remove slot pool =
     (case bt_get (ep_inbound pool) slot of
        Some entry \<Rightarrow> (Some entry, pool\<lparr>ep_inbound := bt_remove slot (ep_inbound pool)\<rparr>)
      | None \<Rightarrow> (bt_get (ep_outbound pool) slot, pool\<lparr>ep_outbound := bt_remove slot (ep_outbound pool)\<rparr>))"

definition entry_due :: "ExploratoryPoolConfig \<Rightarrow> u64 \<Rightarrow> TunnelEntry \<Rightarrow> bool" where
  "entry_due config now_seconds entry \<longleftrightarrow>
     reg_state (te_registration entry) = Established
     \<and> word_sat_sub now_seconds (reg_created_at_seconds (te_registration entry))
         \<ge> of_nat (unat (lifetime_seconds (pc_lifetime config)))"

definition expire_entry :: "TunnelEntry \<Rightarrow> TunnelEntry" where
  "expire_entry entry = entry\<lparr>te_registration := (te_registration entry)\<lparr>reg_state := Expired\<rparr>\<rparr>"

definition mark_due :: "ExploratoryPoolConfig \<Rightarrow> u64 \<Rightarrow> (TunnelSlot, TunnelEntry) btree \<Rightarrow> (TunnelSlot, TunnelEntry) btree" where
  "mark_due config now_seconds m =
     map (\<lambda>(slot, entry). (slot, if entry_due config now_seconds entry then expire_entry entry else entry)) m"

definition due_slots :: "ExploratoryPoolConfig \<Rightarrow> u64 \<Rightarrow> (TunnelSlot, TunnelEntry) btree \<Rightarrow> TunnelSlot list" where
  "due_slots config now_seconds m = map fst (filter (\<lambda>(slot, entry). entry_due config now_seconds entry) m)"

definition advance_time :: "u64 \<Rightarrow> ExploratoryPool \<Rightarrow> TunnelSlot list \<times> ExploratoryPool" where
  "advance_time now_seconds pool =
     (let config = ep_config pool;
          evicted = due_slots config now_seconds (ep_inbound pool) @ due_slots config now_seconds (ep_outbound pool);
          pool = pool\<lparr>ep_inbound := mark_due config now_seconds (ep_inbound pool),
                      ep_outbound := mark_due config now_seconds (ep_outbound pool)\<rparr>
      in (evicted, fold (\<lambda>slot pool. snd (pool_remove slot pool)) evicted pool))"

definition mark_failed :: "TunnelSlot \<Rightarrow> ExploratoryPool \<Rightarrow> TunnelRegistration option \<times> ExploratoryPool" where
  "mark_failed slot pool =
     (case pool_remove slot pool of (removed, pool) \<Rightarrow>
        (map_option te_registration removed, if removed \<noteq> None then count_failure pool else pool))"

datatype PoolError = UnknownSlot TunnelSlot

definition mark_established :: "TunnelSlot \<Rightarrow> (ExploratoryPool, PoolError, unit) rsm" where
  "mark_established slot = (\<lambda>pool.
     case pool_get pool slot of
       None \<Rightarrow> (Inl (UnknownSlot slot), pool)
     | Some entry \<Rightarrow>
         (Inr (), (pool_put slot
            (entry\<lparr>te_registration := (te_registration entry)\<lparr>reg_state := Established\<rparr>\<rparr>) pool)
            \<lparr>ep_consecutive_failures := 0, ep_paused := False\<rparr>))"

datatype ActivationError = ActivationUnknownSlot TunnelSlot | AlreadyActivated | PlaceholderMaterial

definition activate :: "TunnelSlot \<Rightarrow> (ExploratoryPool, ActivationError, EstablishedTunnel) rsm" where
  "activate slot = (\<lambda>pool.
     case pool_get pool slot of
       None \<Rightarrow> (Inl (ActivationUnknownSlot slot), pool)
     | Some entry \<Rightarrow>
         let pool = pool_put slot (entry\<lparr>te_material := Activated\<rparr>) pool in
         (case te_material entry of
            Activated \<Rightarrow> (Inl AlreadyActivated, pool)
          | Available material \<Rightarrow>
              if \<not> em_extracted material then (Inl PlaceholderMaterial, pool)
              else (ok_or (fst (into_established_tunnel material)) PlaceholderMaterial, pool)))"

datatype ReplyPathError = ReplyPathZeroTunnelId

record ReplyPath =
  rp_gateway :: Hash
  rp_tunnel_id :: u32

definition reply_path_new :: "Hash \<Rightarrow> u32 \<Rightarrow> ReplyPathError + ReplyPath" where
  "reply_path_new gateway tunnel_id =
     (if tunnel_id = 0 then Inl ReplyPathZeroTunnelId else Inr \<lparr>rp_gateway = gateway, rp_tunnel_id = tunnel_id\<rparr>)"

definition entry_live :: "ExploratoryPoolConfig \<Rightarrow> u64 \<Rightarrow> TunnelEntry \<Rightarrow> bool" where
  "entry_live config now_seconds entry \<longleftrightarrow>
     reg_state (te_registration entry) = Established
     \<and> \<not> word_sat_sub now_seconds (reg_created_at_seconds (te_registration entry))
         \<ge> of_nat (unat (lifetime_seconds (pc_lifetime config)))"

definition older_entry :: "ExploratoryPoolConfig \<Rightarrow> u64 \<Rightarrow> TunnelEntry \<Rightarrow> TunnelEntry option \<Rightarrow> TunnelEntry option" where
  "older_entry config now_seconds entry best =
     (if \<not> entry_live config now_seconds entry then best
      else case best of
        None \<Rightarrow> Some entry
      | Some b \<Rightarrow>
          if reg_created_at_seconds (te_registration entry) < reg_created_at_seconds (te_registration b)
          then Some entry else best)"

definition select_inbound_reply_path :: "ExploratoryPool \<Rightarrow> u64 \<Rightarrow> (ReplyPathError + ReplyPath) option" where
  "select_inbound_reply_path pool now_seconds =
     map_option (\<lambda>chosen. reply_path_new (ptr_first_hop_router (te_routing chosen))
                   (tunnel_id_get (ptr_first_hop_receive_tunnel (te_routing chosen))))
       (fold (older_entry (ep_config pool) now_seconds) (bt_values (ep_inbound pool)) None)"

subsection \<open>The invariant of the pool\<close>

definition entry_ok :: "TunnelDirection \<Rightarrow> TunnelSlot \<Rightarrow> TunnelEntry \<Rightarrow> bool" where
  "entry_ok d slot entry \<longleftrightarrow>
     reg_slot (te_registration entry) = slot \<and> reg_direction (te_registration entry) = d
     \<and> reg_state (te_registration entry) = Established
     \<and> reg_hops (te_registration entry) \<noteq> [] \<and> length (reg_hops (te_registration entry)) \<le> 8"

abbreviation entry_id :: "TunnelEntry \<Rightarrow> TunnelId" where
  "entry_id entry \<equiv> reg_tunnel_id (te_registration entry)"

definition side_wf :: "TunnelDirection \<Rightarrow> u16 \<Rightarrow> u32 \<Rightarrow> (TunnelSlot, TunnelEntry) btree \<Rightarrow> bool" where
  "side_wf d maximum nxt m \<longleftrightarrow>
     bt_wf m \<and> length m \<le> unat maximum
     \<and> (\<forall>slot entry. bt_get m slot = Some entry \<longrightarrow>
          entry_ok d slot entry \<and> (nxt \<noteq> - 1 \<longrightarrow> slot < TunnelSlot nxt))
     \<and> (\<forall>s t e f. bt_get m s = Some e \<longrightarrow> bt_get m t = Some f \<longrightarrow> entry_id e = entry_id f \<longrightarrow> s = t)"

definition ids_apart :: "(TunnelSlot, TunnelEntry) btree \<Rightarrow> (TunnelSlot, TunnelEntry) btree \<Rightarrow> bool" where
  "ids_apart m n \<longleftrightarrow> (\<forall>s t e f. bt_get m s = Some e \<longrightarrow> bt_get n t = Some f \<longrightarrow> entry_id e \<noteq> entry_id f)"

definition slots_apart :: "(TunnelSlot, TunnelEntry) btree \<Rightarrow> (TunnelSlot, TunnelEntry) btree \<Rightarrow> bool" where
  "slots_apart m n \<longleftrightarrow> (\<forall>s. bt_get m s = None \<or> bt_get n s = None)"

text \<open>
  The slot counter saturates: a pool that has handed out every slot may reuse the last one, so the
  slots of the two directions are kept apart only before that.
\<close>

definition pool_wf :: "ExploratoryPool \<Rightarrow> bool" where
  "pool_wf pool \<longleftrightarrow>
     side_wf Inbound (pc_max_inbound (ep_config pool)) (ep_next_slot pool) (ep_inbound pool)
     \<and> side_wf Outbound (pc_max_outbound (ep_config pool)) (ep_next_slot pool) (ep_outbound pool)
     \<and> ids_apart (ep_inbound pool) (ep_outbound pool)
     \<and> (ep_next_slot pool \<noteq> - 1 \<longrightarrow> slots_apart (ep_inbound pool) (ep_outbound pool))
     \<and> (ep_paused pool \<longrightarrow> ep_consecutive_failures pool \<ge> pc_failure_threshold (ep_config pool))"

lemma pool_wf_new: "pool_wf (pool_new config)"
  by (simp add: pool_wf_def pool_new_def side_wf_def ids_apart_def slots_apart_def)

lemma established_count_all:
  assumes "side_wf d maximum nxt m"
  shows "established_count m = length m"
proof -
  have "reg_state (te_registration e) = Established" if v: "e \<in> set (bt_values m)" for e
  proof -
    obtain s where "(s, e) \<in> set m" using v by (auto simp: bt_values_def)
    then have "bt_get m s = Some e" using assms by (simp add: side_wf_def bt_get_set)
    with assms show ?thesis by (auto simp: side_wf_def entry_ok_def)
  qed
  then have "filter (\<lambda>e. reg_state (te_registration e) = Established) (bt_values m) = bt_values m"
    by (intro filter_True) simp
  then show ?thesis by (simp add: established_count_def bt_values_def)
qed

lemma find_by_tunnel_id_None:
  assumes "find_by_tunnel_id pool tid = None"
  shows "bt_get (ep_inbound pool) s = Some e \<Longrightarrow> entry_id e \<noteq> tid"
    and "bt_get (ep_outbound pool) s = Some e \<Longrightarrow> entry_id e \<noteq> tid"
  using assms by (auto simp: find_by_tunnel_id_def find_None_iff bt_get_def dest!: map_of_SomeD)

lemma sat_next_slot:
  assumes "word_sat_add n 1 \<noteq> (- 1 :: u32)"
  shows "n \<noteq> - 1" "n < word_sat_add n 1"
proof -
  show "n \<noteq> - 1"
  proof
    assume "n = - 1"
    then have "unat (word_sat_add n 1) = unat (- 1 :: u32)"
      by (simp add: unat_word_sat_add unat_minus_one_word_len)
    with assms show False by (metis word_unat_eq_iff)
  qed
  then have "unat n \<noteq> unat (- 1 :: u32)" by (metis word_unat_eq_iff)
  moreover have "unat (- 1 :: u32) = 4294967295" by (simp add: unat_minus_one_word_len)
  ultimately have "unat n < 4294967295" using unat_u32_lt [of n] by linarith
  then show "n < word_sat_add n 1"
    by (simp add: word_less_nat_alt unat_word_sat_add)
qed

lemma side_wf_next:
  assumes "side_wf d maximum nxt m"
  shows "side_wf d maximum (word_sat_add nxt 1) m"
proof -
  have "s < TunnelSlot (word_sat_add nxt 1)" if "word_sat_add nxt 1 \<noteq> - 1" "bt_get m s = Some e" for s e
  proof -
    have "s < TunnelSlot nxt" using assms sat_next_slot(1) [OF that(1)] that(2) by (auto simp: side_wf_def)
    also have "\<dots> < TunnelSlot (word_sat_add nxt 1)"
      using sat_next_slot(2) [OF that(1)] by (simp add: less_TunnelSlot_def)
    finally show ?thesis .
  qed
  with assms show ?thesis unfolding side_wf_def by blast
qed

lemma pool_wf_next_slot:
  assumes "pool_wf pool" "next_slot pool = (slot, pool')"
  shows "pool_wf pool'" "slot = TunnelSlot (ep_next_slot pool)" "ep_inbound pool' = ep_inbound pool"
    "ep_outbound pool' = ep_outbound pool" "ep_config pool' = ep_config pool"
    "ep_next_slot pool' = word_sat_add (ep_next_slot pool) 1"
proof -
  show p: "slot = TunnelSlot (ep_next_slot pool)" "ep_inbound pool' = ep_inbound pool"
    "ep_outbound pool' = ep_outbound pool" "ep_config pool' = ep_config pool"
    "ep_next_slot pool' = word_sat_add (ep_next_slot pool) 1"
    using assms(2) by (auto simp: next_slot_def)
  have "ep_paused pool' = ep_paused pool" "ep_consecutive_failures pool' = ep_consecutive_failures pool"
    using assms(2) by (auto simp: next_slot_def)
  then show "pool_wf pool'"
    using assms(1) p side_wf_next sat_next_slot(1) by (auto simp: pool_wf_def)
qed

lemma side_wf_insert:
  assumes "side_wf d maximum nxt m" "length m < unat maximum" "entry_ok d slot e"
    "nxt \<noteq> - 1 \<longrightarrow> slot < TunnelSlot nxt" "\<And>s f. bt_get m s = Some f \<Longrightarrow> entry_id f \<noteq> entry_id e"
  shows "side_wf d maximum nxt (bt_insert slot e m)"
proof -
  have wf: "bt_wf m" using assms(1) by (simp add: side_wf_def)
  have "length (bt_insert slot e m) \<le> unat maximum"
    using assms(2) by (simp add: length_bt_insert [OF wf])
  moreover have "\<forall>s f. bt_get (bt_insert slot e m) s = Some f \<longrightarrow> entry_ok d s f \<and> (nxt \<noteq> - 1 \<longrightarrow> s < TunnelSlot nxt)"
    using assms by (simp add: side_wf_def bt_get_insert)
  moreover have "\<forall>s t f g. bt_get (bt_insert slot e m) s = Some f \<longrightarrow> bt_get (bt_insert slot e m) t = Some g \<longrightarrow>
      entry_id f = entry_id g \<longrightarrow> s = t"
    using assms(1,5) unfolding side_wf_def bt_get_insert by (metis option.inject)
  ultimately show ?thesis using wf by (simp add: side_wf_def bt_wf_insert)
qed

lemma side_wf_fresh:
  "side_wf d maximum nxt m \<Longrightarrow> nxt \<noteq> - 1 \<Longrightarrow> bt_get m (TunnelSlot nxt) = None"
  by (metis less_irrefl not_None_eq side_wf_def)

lemma ids_apart_sym: "ids_apart m n \<Longrightarrow> ids_apart n m"
  by (metis ids_apart_def)

lemma ids_apart_insert:
  "ids_apart m n \<Longrightarrow> (\<And>s f. bt_get n s = Some f \<Longrightarrow> entry_id f \<noteq> entry_id e) \<Longrightarrow> ids_apart (bt_insert slot e m) n"
  by (fastforce simp: ids_apart_def bt_get_insert)

lemma slots_apart_sym: "slots_apart m n \<Longrightarrow> slots_apart n m"
  by (metis slots_apart_def)

lemma slots_apart_insert: "slots_apart m n \<Longrightarrow> bt_get n slot = None \<Longrightarrow> slots_apart (bt_insert slot e m) n"
  by (simp add: slots_apart_def bt_get_insert)

lemma next_slot_fresh:
  assumes "pool_wf pool" "next_slot pool = (slot, pool')" "ep_next_slot pool' \<noteq> - 1"
  shows "slot < TunnelSlot (ep_next_slot pool')" "bt_get (ep_inbound pool') slot = None"
    "bt_get (ep_outbound pool') slot = None"
proof -
  note f = pool_wf_next_slot [OF assms(1,2)]
  have n: "ep_next_slot pool \<noteq> - 1" "ep_next_slot pool < ep_next_slot pool'"
    using assms(3) f(6) sat_next_slot by metis+
  then show "slot < TunnelSlot (ep_next_slot pool')" using f(2) by (simp add: less_TunnelSlot_def)
  show "bt_get (ep_inbound pool') slot = None" "bt_get (ep_outbound pool') slot = None"
    using assms(1) f(2-4) n(1) side_wf_fresh by (auto simp: pool_wf_def)
qed

lemma registered_entry:
  assumes "registration_new slot tid d Established hops now = Inr reg"
  shows "entry_ok d slot (entry_new reg established)" "entry_id (entry_new reg established) = tid"
  using assms by (auto simp: registration_new_def entry_ok_def entry_new_def MAX_HOPS_PER_TUNNEL_def split: if_splits)

lemma pool_wf_register_inbound:
  assumes "pool_wf pool" "register_inbound_with_material established now pool = (r, pool')"
  shows "pool_wf pool'"
proof -
  let ?tid = "em_creator_tunnel_id established"
  obtain slot pool1 where n: "next_slot pool = (slot, pool1)" by force
  note f = pool_wf_next_slot [OF assms(1) n] and fresh = next_slot_fresh [OF assms(1) n]
  show ?thesis
  proof (cases "pool' = pool1")
    case False
    then obtain reg where reg: "registration_new slot ?tid Inbound Established (map hop_peer (em_hops established)) now = Inr reg"
      "find_by_tunnel_id pool1 ?tid = None" "established_count (ep_inbound pool1) < unat (pc_max_inbound (ep_config pool1))"
      "pool' = pool1\<lparr>ep_inbound := bt_insert slot (entry_new reg established) (ep_inbound pool1)\<rparr>"
      using assms(2) n
      by (auto simp: register_inbound_with_material_def Let_def split: sum.splits option.splits if_splits)
    note e = registered_entry [OF reg(1), of established] and ids = find_by_tunnel_id_None [OF reg(2)]
    have w: "side_wf Inbound (pc_max_inbound (ep_config pool1)) (ep_next_slot pool1) (ep_inbound pool1)"
      "ids_apart (ep_inbound pool1) (ep_outbound pool1)"
      using f(1) by (auto simp: pool_wf_def)
    have "side_wf Inbound (pc_max_inbound (ep_config pool1)) (ep_next_slot pool1)
        (bt_insert slot (entry_new reg established) (ep_inbound pool1))"
      using w(1) reg(3) established_count_all [OF w(1)] e fresh(1) ids(1) by (intro side_wf_insert) simp_all
    moreover have "ids_apart (bt_insert slot (entry_new reg established) (ep_inbound pool1)) (ep_outbound pool1)"
      using w(2) e(2) ids(2) by (intro ids_apart_insert) simp_all
    ultimately show ?thesis
      using f(1) reg(4) fresh(3) slots_apart_insert by (simp add: pool_wf_def)
  qed (use f(1) in simp)
qed

lemma pool_wf_register_outbound:
  assumes "pool_wf pool" "register_outbound_with_material established now pool = (r, pool')"
  shows "pool_wf pool'"
proof -
  let ?tid = "em_creator_tunnel_id established"
  obtain slot pool1 where n: "next_slot pool = (slot, pool1)" by force
  note f = pool_wf_next_slot [OF assms(1) n] and fresh = next_slot_fresh [OF assms(1) n]
  show ?thesis
  proof (cases "pool' = pool1")
    case False
    then obtain reg where reg: "registration_new slot ?tid Outbound Established (map hop_peer (em_hops established)) now = Inr reg"
      "find_by_tunnel_id pool1 ?tid = None" "established_count (ep_outbound pool1) < unat (pc_max_outbound (ep_config pool1))"
      "pool' = pool1\<lparr>ep_outbound := bt_insert slot (entry_new reg established) (ep_outbound pool1)\<rparr>"
      using assms(2) n
      by (auto simp: register_outbound_with_material_def Let_def split: sum.splits option.splits if_splits)
    note e = registered_entry [OF reg(1), of established] and ids = find_by_tunnel_id_None [OF reg(2)]
    have w: "side_wf Outbound (pc_max_outbound (ep_config pool1)) (ep_next_slot pool1) (ep_outbound pool1)"
      "ids_apart (ep_outbound pool1) (ep_inbound pool1)"
      using f(1) ids_apart_sym by (auto simp: pool_wf_def)
    have "side_wf Outbound (pc_max_outbound (ep_config pool1)) (ep_next_slot pool1)
        (bt_insert slot (entry_new reg established) (ep_outbound pool1))"
      using w(1) reg(3) established_count_all [OF w(1)] e fresh(1) ids(2) by (intro side_wf_insert) simp_all
    moreover have "ids_apart (bt_insert slot (entry_new reg established) (ep_outbound pool1)) (ep_inbound pool1)"
      using w(2) e(2) ids(1) by (intro ids_apart_insert) simp_all
    ultimately show ?thesis
      using f(1) reg(4) fresh(2) slots_apart_insert slots_apart_sym ids_apart_sym by (simp add: pool_wf_def)
  qed (use f(1) in simp)
qed

lemma side_wf_remove: "side_wf d maximum nxt m \<Longrightarrow> side_wf d maximum nxt (bt_remove slot m)"
  by (auto simp: side_wf_def bt_wf_remove bt_get_remove length_bt_remove)

lemma apart_remove:
  "bt_wf m \<Longrightarrow> ids_apart m n \<Longrightarrow> ids_apart (bt_remove slot m) n"
  "bt_wf m \<Longrightarrow> slots_apart m n \<Longrightarrow> slots_apart (bt_remove slot m) n"
  by (auto simp: ids_apart_def slots_apart_def bt_get_remove)

lemma pool_wf_remove: "pool_wf pool \<Longrightarrow> pool_wf (snd (pool_remove slot pool))"
  unfolding pool_wf_def pool_remove_def
  by (auto simp: side_wf_remove split: option.splits)
    (metis apart_remove ids_apart_sym slots_apart_sym side_wf_def)+

lemma pool_wf_count_failure: "pool_wf pool \<Longrightarrow> pool_wf (count_failure pool)"
  by (simp add: pool_wf_def count_failure_def Let_def)

text \<open>Putting back an entry with the same identity.\<close>

lemma side_wf_update:
  assumes "side_wf d maximum nxt m" "bt_get m slot = Some e" "entry_ok d slot f" "entry_id f = entry_id e"
  shows "side_wf d maximum nxt (bt_insert slot f m)"
proof -
  have wf: "bt_wf m" using assms(1) by (simp add: side_wf_def)
  have "\<forall>s t g h. bt_get (bt_insert slot f m) s = Some g \<longrightarrow> bt_get (bt_insert slot f m) t = Some h \<longrightarrow>
      entry_id g = entry_id h \<longrightarrow> s = t"
    using assms(1,2,4) unfolding side_wf_def bt_get_insert by (metis option.inject)
  moreover have "\<forall>s g. bt_get (bt_insert slot f m) s = Some g \<longrightarrow>
      entry_ok d s g \<and> (nxt \<noteq> - 1 \<longrightarrow> s < TunnelSlot nxt)"
    using assms(1-3) unfolding side_wf_def bt_get_insert by (metis option.inject)
  moreover have "length m \<le> unat maximum" using assms(1) unfolding side_wf_def by blast
  then have "length (bt_insert slot f m) \<le> unat maximum"
    using assms(2) by (simp add: length_bt_insert [OF wf])
  ultimately show ?thesis
    using bt_wf_insert [OF wf] unfolding side_wf_def by blast
qed

lemma apart_update:
  assumes "bt_get m slot = Some e" "entry_id f = entry_id e"
  shows "ids_apart m n \<Longrightarrow> ids_apart (bt_insert slot f m) n"
    and "slots_apart m n \<Longrightarrow> slots_apart (bt_insert slot f m) n"
proof -
  show "ids_apart m n \<Longrightarrow> ids_apart (bt_insert slot f m) n"
    using assms by (fastforce simp: ids_apart_def bt_get_insert)
  show "slots_apart m n \<Longrightarrow> slots_apart (bt_insert slot f m) n"
    using assms(1) unfolding slots_apart_def bt_get_insert by (metis option.distinct(1))
qed

lemma pool_wf_put:
  assumes "pool_wf pool" "pool_get pool slot = Some e" "entry_id f = entry_id e"
    "\<And>d. entry_ok d slot e \<Longrightarrow> entry_ok d slot f"
  shows "pool_wf (pool_put slot f pool)"
proof (cases "bt_get (ep_inbound pool) slot")
  case None
  then have e: "bt_get (ep_outbound pool) slot = Some e" using assms(2) by (simp add: pool_get_def)
  then have "entry_ok Outbound slot f" using assms(1,4) by (auto simp: pool_wf_def side_wf_def)
  with None assms e show ?thesis
    using side_wf_update [OF _ e] apart_update [OF e assms(3)] ids_apart_sym slots_apart_sym
    by (simp add: pool_wf_def pool_put_def bt_contains_def)
next
  case (Some e')
  then have e: "bt_get (ep_inbound pool) slot = Some e" using assms(2) by (simp add: pool_get_def)
  then have "entry_ok Inbound slot f" using assms(1,4) by (auto simp: pool_wf_def side_wf_def)
  with assms e show ?thesis
    using side_wf_update [OF _ e] apart_update [OF e assms(3)]
    by (simp add: pool_wf_def pool_put_def bt_contains_def)
qed

lemma pool_wf_activate: "pool_wf pool \<Longrightarrow> pool_wf (snd (activate slot pool))"
  by (auto simp: activate_def Let_def entry_ok_def split: option.splits MaterialState.splits intro!: pool_wf_put)

lemma pool_wf_mark_failed: "pool_wf pool \<Longrightarrow> pool_wf (snd (mark_failed slot pool))"
  using pool_wf_remove [of pool slot]
  by (auto simp: mark_failed_def pool_wf_count_failure split: prod.splits)

lemma pool_wf_mark_established: "pool_wf pool \<Longrightarrow> pool_wf (snd (mark_established slot pool))"
proof (cases "pool_get pool slot")
  case (Some e)
  assume wf: "pool_wf pool"
  have "pool_wf (pool_put slot (e\<lparr>te_registration := (te_registration e)\<lparr>reg_state := Established\<rparr>\<rparr>) pool)"
    by (rule pool_wf_put [OF wf Some]) (simp_all add: entry_ok_def)
  then show ?thesis using Some by (simp add: mark_established_def pool_wf_def)
qed (simp add: mark_established_def)

subsection \<open>Expiry\<close>

lemma bt_get_mark_due:
  "bt_get (mark_due c now m) s = map_option (\<lambda>e. if entry_due c now e then expire_entry e else e) (bt_get m s)"
  by (induction m) (auto simp: mark_due_def bt_get_def)

lemma bt_wf_mark_due: "bt_wf (mark_due c now m) = bt_wf m"
proof -
  have "map fst (mark_due c now m) = map fst m" by (induction m) (auto simp: mark_due_def)
  then show ?thesis by (simp add: bt_wf_def)
qed

lemma set_due_slots: "bt_wf m \<Longrightarrow> s \<in> set (due_slots c now m) \<longleftrightarrow> (\<exists>e. bt_get m s = Some e \<and> entry_due c now e)"
  by (force simp: due_slots_def bt_get_set)

lemma fold_remove_due:
  assumes "bt_wf m"
  shows "fold bt_remove (due_slots c now m) (mark_due c now m) = bt_retain (\<lambda>s e. \<not> entry_due c now e) m"
  using assms
  by (intro bt_ext)
    (auto simp: bt_wf_fold_remove bt_wf_mark_due bt_wf_retain bt_get_fold_remove bt_get_mark_due bt_get_retain
      set_due_slots split: option.splits)

lemma fold_pool_remove_inbound:
  "bt_wf (ep_inbound pool) \<Longrightarrow> distinct ks \<Longrightarrow> \<forall>k\<in>set ks. bt_get (ep_inbound pool) k \<noteq> None \<Longrightarrow>
     fold (\<lambda>slot pool. snd (pool_remove slot pool)) ks pool = pool\<lparr>ep_inbound := fold bt_remove ks (ep_inbound pool)\<rparr>"
proof (induction ks arbitrary: pool)
  case (Cons k ks)
  have "snd (pool_remove k pool) = pool\<lparr>ep_inbound := bt_remove k (ep_inbound pool)\<rparr>"
    using Cons.prems(3) by (auto simp: pool_remove_def)
  moreover have "\<forall>j\<in>set ks. bt_get (bt_remove k (ep_inbound pool)) j \<noteq> None"
    using Cons.prems by (simp add: bt_get_remove) metis
  ultimately show ?case using Cons by (simp add: bt_wf_remove)
qed simp

lemma fold_pool_remove_outbound:
  "\<forall>k\<in>set ks. bt_get (ep_inbound pool) k = None \<Longrightarrow>
     fold (\<lambda>slot pool. snd (pool_remove slot pool)) ks pool = pool\<lparr>ep_outbound := fold bt_remove ks (ep_outbound pool)\<rparr>"
proof (induction ks arbitrary: pool)
  case (Cons k ks)
  have "snd (pool_remove k pool) = pool\<lparr>ep_outbound := bt_remove k (ep_outbound pool)\<rparr>"
    using Cons.prems by (auto simp: pool_remove_def)
  with Cons show ?case by simp
qed simp

lemma distinct_due_slots: "bt_wf m \<Longrightarrow> distinct (due_slots c now m)"
  by (auto simp: due_slots_def bt_wf_def strict_sorted_iff distinct_map_filter)

lemma advance_time_eq:
  assumes "pool_wf pool" "ep_next_slot pool \<noteq> - 1"
  shows "advance_time now pool =
    (due_slots (ep_config pool) now (ep_inbound pool) @ due_slots (ep_config pool) now (ep_outbound pool),
     pool\<lparr>ep_inbound := bt_retain (\<lambda>s e. \<not> entry_due (ep_config pool) now e) (ep_inbound pool),
          ep_outbound := bt_retain (\<lambda>s e. \<not> entry_due (ep_config pool) now e) (ep_outbound pool)\<rparr>)"
proof -
  let ?c = "ep_config pool"
  let ?in = "due_slots ?c now (ep_inbound pool)" and ?out = "due_slots ?c now (ep_outbound pool)"
  let ?p = "pool\<lparr>ep_inbound := mark_due ?c now (ep_inbound pool), ep_outbound := mark_due ?c now (ep_outbound pool)\<rparr>"
  have wf: "bt_wf (ep_inbound pool)" "bt_wf (ep_outbound pool)" "slots_apart (ep_inbound pool) (ep_outbound pool)"
    using assms by (auto simp: pool_wf_def side_wf_def)
  have "\<forall>k\<in>set ?in. bt_get (ep_inbound ?p) k \<noteq> None"
    using wf(1) by (auto simp: bt_get_mark_due set_due_slots)
  from fold_pool_remove_inbound [OF _ distinct_due_slots [OF wf(1)] this]
  have "fold (\<lambda>slot pool. snd (pool_remove slot pool)) ?in ?p =
      ?p\<lparr>ep_inbound := fold bt_remove ?in (mark_due ?c now (ep_inbound pool))\<rparr>"
    using wf(1) by (simp add: bt_wf_mark_due)
  then have 1: "fold (\<lambda>slot pool. snd (pool_remove slot pool)) ?in ?p =
      ?p\<lparr>ep_inbound := bt_retain (\<lambda>s e. \<not> entry_due ?c now e) (ep_inbound pool)\<rparr>"
    using fold_remove_due [OF wf(1)] by simp
  let ?q = "?p\<lparr>ep_inbound := bt_retain (\<lambda>s e. \<not> entry_due ?c now e) (ep_inbound pool)\<rparr>"
  have "\<forall>k\<in>set ?out. bt_get (ep_inbound ?q) k = None"
  proof
    fix k assume "k \<in> set ?out"
    then have "bt_get (ep_outbound pool) k \<noteq> None" using wf(2) by (auto simp: set_due_slots)
    then have "bt_get (ep_inbound pool) k = None" using wf(3) by (metis slots_apart_def)
    then show "bt_get (ep_inbound ?q) k = None" using wf(1) by (simp add: bt_get_retain)
  qed
  from fold_pool_remove_outbound [OF this] fold_remove_due [OF wf(2)] 1 show ?thesis
    by (simp add: advance_time_def Let_def)
qed

lemma side_wf_retain:
  assumes "side_wf d maximum nxt m"
  shows "side_wf d maximum nxt (bt_retain P m)"
proof -
  have wf: "bt_wf m" and len: "length m \<le> unat maximum" using assms unfolding side_wf_def by blast+
  have sub: "bt_get (bt_retain P m) s = Some e \<Longrightarrow> bt_get m s = Some e" for s e
    by (auto simp: bt_get_retain [OF wf] split: option.splits if_splits)
  have "length (bt_retain P m) \<le> unat maximum" using length_bt_retain [of P m] len by (rule order_trans)
  with sub bt_wf_retain [OF wf] assms show ?thesis unfolding side_wf_def by blast
qed

lemma apart_retain:
  assumes "bt_wf m" "bt_wf n"
  shows "ids_apart m n \<Longrightarrow> ids_apart (bt_retain P m) (bt_retain Q n)"
    and "slots_apart m n \<Longrightarrow> slots_apart (bt_retain P m) (bt_retain Q n)"
proof -
  have sub: "bt_get (bt_retain P m) s = Some e \<Longrightarrow> bt_get m s = Some e"
    "bt_get (bt_retain Q n) s = Some e \<Longrightarrow> bt_get n s = Some e" for s e
    by (auto simp: bt_get_retain assms split: option.splits if_splits)
  show "ids_apart m n \<Longrightarrow> ids_apart (bt_retain P m) (bt_retain Q n)"
    using sub unfolding ids_apart_def by blast
  show "slots_apart m n \<Longrightarrow> slots_apart (bt_retain P m) (bt_retain Q n)"
    using sub unfolding slots_apart_def by (metis not_None_eq)
qed

lemma pool_wf_advance_time:
  assumes "pool_wf pool" "ep_next_slot pool \<noteq> - 1"
  shows "pool_wf (snd (advance_time now pool))"
proof -
  have "bt_wf (ep_inbound pool)" "bt_wf (ep_outbound pool)"
    using assms(1) unfolding pool_wf_def side_wf_def by blast+
  with assms show ?thesis
    by (simp add: advance_time_eq pool_wf_def side_wf_retain apart_retain)
qed

text \<open>The events of a pool. Registrations take the slots in turn; nothing gives a slot back.\<close>

datatype PoolEvent =
    EvRegisterInbound EstablishedMaterial u64
  | EvRegisterOutbound EstablishedMaterial u64
  | EvAdvanceTime u64
  | EvMarkFailed TunnelSlot
  | EvMarkEstablished TunnelSlot
  | EvRemove TunnelSlot
  | EvActivate TunnelSlot
  | EvNoteBuildFailure

fun pool_step :: "PoolEvent \<Rightarrow> ExploratoryPool \<Rightarrow> ExploratoryPool" where
  "pool_step (EvRegisterInbound established now) pool = snd (register_inbound_with_material established now pool)"
| "pool_step (EvRegisterOutbound established now) pool = snd (register_outbound_with_material established now pool)"
| "pool_step (EvAdvanceTime now) pool = snd (advance_time now pool)"
| "pool_step (EvMarkFailed slot) pool = snd (mark_failed slot pool)"
| "pool_step (EvMarkEstablished slot) pool = snd (mark_established slot pool)"
| "pool_step (EvRemove slot) pool = snd (pool_remove slot pool)"
| "pool_step (EvActivate slot) pool = snd (activate slot pool)"
| "pool_step EvNoteBuildFailure pool = snd (note_build_failure pool)"

lemma pool_remove_frame:
  "ep_next_slot (snd (pool_remove slot pool)) = ep_next_slot pool" "ep_config (snd (pool_remove slot pool)) = ep_config pool"
  by (simp_all add: pool_remove_def split: option.splits)

lemma fold_pool_remove_frame:
  "ep_next_slot (fold (\<lambda>slot pool. snd (pool_remove slot pool)) ks pool) = ep_next_slot pool"
  "ep_config (fold (\<lambda>slot pool. snd (pool_remove slot pool)) ks pool) = ep_config pool"
  by (induction ks arbitrary: pool) (simp_all add: pool_remove_frame)

lemma register_frame:
  "ep_next_slot (snd (register_inbound_with_material m now pool)) = word_sat_add (ep_next_slot pool) 1"
  "ep_config (snd (register_inbound_with_material m now pool)) = ep_config pool"
  "ep_next_slot (snd (register_outbound_with_material m now pool)) = word_sat_add (ep_next_slot pool) 1"
  "ep_config (snd (register_outbound_with_material m now pool)) = ep_config pool"
  by (simp_all add: register_inbound_with_material_def register_outbound_with_material_def next_slot_def Let_def
      split: sum.split option.split)

lemma other_frame:
  "ep_next_slot (snd (mark_failed slot pool)) = ep_next_slot pool" "ep_config (snd (mark_failed slot pool)) = ep_config pool"
  "ep_next_slot (snd (mark_established slot pool)) = ep_next_slot pool"
  "ep_config (snd (mark_established slot pool)) = ep_config pool"
  "ep_next_slot (snd (activate slot pool)) = ep_next_slot pool" "ep_config (snd (activate slot pool)) = ep_config pool"
  "ep_next_slot (snd (advance_time now pool)) = ep_next_slot pool" "ep_config (snd (advance_time now pool)) = ep_config pool"
  by (simp_all add: mark_failed_def count_failure_def mark_established_def pool_put_def activate_def Let_def
      advance_time_def fold_pool_remove_frame pool_remove_frame case_prod_beta
      split: option.split MaterialState.split)

lemma pool_step_frame:
  "ep_next_slot (pool_step e pool) = ep_next_slot pool
     \<or> ep_next_slot (pool_step e pool) = word_sat_add (ep_next_slot pool) 1"
  "ep_config (pool_step e pool) = ep_config pool"
  by (cases e; simp add: register_frame other_frame pool_remove_frame note_build_failure_def count_failure_def Let_def)+

interpretation pool: event_machine pool_step
  "\<lambda>pool. ep_config pool = config \<and> (ep_next_slot pool \<noteq> - 1 \<longrightarrow> pool_wf pool)" for config
proof
  fix e and pool :: ExploratoryPool
  assume inv: "ep_config pool = config \<and> (ep_next_slot pool \<noteq> - 1 \<longrightarrow> pool_wf pool)"
  have "pool_wf (pool_step e pool)" if n: "ep_next_slot (pool_step e pool) \<noteq> - 1"
  proof -
    have "ep_next_slot pool \<noteq> - 1"
      using pool_step_frame(1) [of e pool] n sat_next_slot(1) by metis
    with inv have wf: "pool_wf pool" and ns: "ep_next_slot pool \<noteq> - 1" by auto
    show ?thesis
      using pool_wf_register_inbound [OF wf prod.collapse [symmetric]]
        pool_wf_register_outbound [OF wf prod.collapse [symmetric]]
        pool_wf_advance_time [OF wf ns] pool_wf_mark_failed [OF wf] pool_wf_mark_established [OF wf]
        pool_wf_remove [OF wf] pool_wf_activate [OF wf] pool_wf_count_failure [OF wf]
      by (cases e) (simp_all add: note_build_failure_def Let_def)
  qed
  with inv pool_step_frame(2) show "ep_config (pool_step e pool) = config
      \<and> (ep_next_slot (pool_step e pool) \<noteq> - 1 \<longrightarrow> pool_wf (pool_step e pool))"
    by simp
qed

subsection \<open>Activation and reply paths\<close>

lemma pool_get_put:
  "pool_get pool slot \<noteq> None \<Longrightarrow> pool_get (pool_put slot e pool) s = (if s = slot then Some e else pool_get pool s)"
  by (auto simp: pool_get_def pool_put_def bt_contains_def bt_get_insert split: option.splits)

lemma activate_once:
  assumes "activate slot pool = (Inr tunnel, pool')"
  shows "activate slot pool' = (Inl AlreadyActivated, pool')" "pool_routing pool' s = pool_routing pool s"
proof -
  obtain e where e: "pool_get pool slot = Some e" "pool' = pool_put slot (e\<lparr>te_material := Activated\<rparr>) pool"
    using assms by (auto simp: activate_def Let_def split: option.splits MaterialState.splits if_splits)
  then have g: "pool_get pool' s = (if s = slot then Some (e\<lparr>te_material := Activated\<rparr>) else pool_get pool s)" for s
    by (simp add: pool_get_put)
  show "pool_routing pool' s = pool_routing pool s" using e(1) g by (simp add: pool_routing_def)
  have "pool_put slot (e\<lparr>te_material := Activated\<rparr>) pool' = pool'"
    using e by (auto simp: pool_put_def pool_get_def bt_contains_def bt_get_insert bt_insert_insert split: option.splits)
  then show "activate slot pool' = (Inl AlreadyActivated, pool')"
    using g [of slot] by (simp add: activate_def Let_def)
qed

lemma fold_older_best:
  assumes "\<forall>b. best = Some b \<longrightarrow> entry_live c now b"
  shows "case fold (older_entry c now) es best of
      None \<Rightarrow> best = None \<and> (\<forall>e\<in>set es. \<not> entry_live c now e)
    | Some b \<Rightarrow> entry_live c now b \<and> (b \<in> set es \<or> best = Some b)
        \<and> (\<forall>e\<in>set es. entry_live c now e \<longrightarrow>
             reg_created_at_seconds (te_registration b) \<le> reg_created_at_seconds (te_registration e))
        \<and> (\<forall>e. best = Some e \<longrightarrow>
             reg_created_at_seconds (te_registration b) \<le> reg_created_at_seconds (te_registration e))"
  using assms
proof (induction es arbitrary: best)
  case Nil
  then show ?case by (simp split: option.splits)
next
  case (Cons e es)
  have "\<forall>b. older_entry c now e best = Some b \<longrightarrow> entry_live c now b"
    using Cons.prems by (auto simp: older_entry_def split: if_splits option.splits)
  from Cons.IH [OF this] show ?case
    by (auto simp: older_entry_def split: option.splits if_splits)
qed

subsection \<open>Material is spent once\<close>

text \<open>No operation gives a slot material it did not have.\<close>

definition spends :: "ExploratoryPool \<Rightarrow> TunnelSlot \<Rightarrow> ExploratoryPool \<Rightarrow> bool" where
  "spends pool slot pool' \<longleftrightarrow>
     (\<forall>f. pool_get pool' slot = Some f \<longrightarrow>
        (\<exists>e. pool_get pool slot = Some e \<and> te_material f \<in> {te_material e, Activated}))"

lemma spends_same: "pool_get pool' slot = pool_get pool slot \<Longrightarrow> spends pool slot pool'"
  by (simp add: spends_def)

lemma spends_register:
  assumes "slot < TunnelSlot (ep_next_slot pool)"
  shows "spends pool slot (snd (register_inbound_with_material m now pool))"
    and "spends pool slot (snd (register_outbound_with_material m now pool))"
  using assms
  by (auto intro!: spends_same simp: register_inbound_with_material_def register_outbound_with_material_def next_slot_def
      Let_def pool_get_def bt_get_insert split: sum.split option.split)

lemma spends_put:
  assumes "pool_get pool s = Some e" "te_material f \<in> {te_material e, Activated}"
  shows "spends pool slot (pool_put s f pool)"
  using assms by (auto simp: spends_def pool_get_put split: if_splits)

lemma pool_get_remove:
  assumes "pool_wf pool" "ep_next_slot pool \<noteq> - 1"
  shows "pool_get (snd (pool_remove s pool)) slot = (if s = slot then None else pool_get pool slot)"
proof -
  have wf: "bt_wf (ep_inbound pool)" "bt_wf (ep_outbound pool)"
    and apart: "slots_apart (ep_inbound pool) (ep_outbound pool)"
    using assms by (simp_all add: pool_wf_def side_wf_def)
  have "bt_get (ep_inbound pool) slot = None \<or> bt_get (ep_outbound pool) slot = None"
    using apart by (simp add: slots_apart_def)
  with wf show ?thesis
    by (auto simp: pool_remove_def pool_get_def bt_get_remove split: option.splits)
qed

lemma pool_get_counters [simp]:
  "pool_get (pool\<lparr>ep_consecutive_failures := n, ep_paused := b\<rparr>) slot = pool_get pool slot"
  "pool_get (count_failure pool) slot = pool_get pool slot"
  by (simp_all add: count_failure_def pool_get_def Let_def cong: option.case_cong)

lemma pool_get_advance:
  assumes "pool_wf pool" "ep_next_slot pool \<noteq> - 1" "pool_get (snd (advance_time now pool)) slot = Some f"
  shows "pool_get pool slot = Some f"
proof -
  have wf: "bt_wf (ep_inbound pool)" "bt_wf (ep_outbound pool)"
    and apart: "slots_apart (ep_inbound pool) (ep_outbound pool)"
    using assms by (simp_all add: pool_wf_def side_wf_def)
  have "bt_get (ep_inbound pool) slot = None \<or> bt_get (ep_outbound pool) slot = None"
    using apart by (simp add: slots_apart_def)
  with assms(3) wf show ?thesis
    by (auto simp: advance_time_eq [OF assms(1,2)] pool_get_def bt_get_retain split: option.splits if_splits)
qed

lemma spends_step:
  assumes "pool_wf pool" "ep_next_slot pool \<noteq> - 1" "slot < TunnelSlot (ep_next_slot pool)"
  shows "spends pool slot (pool_step e pool)"
proof (cases e)
  case (EvRegisterInbound m now)
  with assms(3) show ?thesis by (simp add: spends_register)
next
  case (EvRegisterOutbound m now)
  with assms(3) show ?thesis by (simp add: spends_register)
next
  case (EvAdvanceTime now)
  with pool_get_advance [OF assms(1,2)] show ?thesis by (auto simp: spends_def)
next
  case (EvMarkFailed s)
  with pool_get_remove [OF assms(1,2), of s slot] show ?thesis
    by (auto simp: spends_def mark_failed_def case_prod_beta split: if_splits)
next
  case (EvMarkEstablished s)
  show ?thesis
  proof (cases "pool_get pool s")
    case (Some g)
    from spends_put [OF Some, of "g\<lparr>te_registration := (te_registration g)\<lparr>reg_state := Established\<rparr>\<rparr>" slot] EvMarkEstablished Some
    show ?thesis by (simp add: mark_established_def spends_def)
  qed (simp add: EvMarkEstablished mark_established_def spends_same)
next
  case (EvRemove s)
  with pool_get_remove [OF assms(1,2), of s slot] show ?thesis by (auto simp: spends_def split: if_splits)
next
  case (EvActivate s)
  show ?thesis
  proof (cases "pool_get pool s")
    case (Some g)
    from spends_put [OF Some, of "g\<lparr>te_material := Activated\<rparr>" slot] EvActivate Some
    show ?thesis by (simp add: activate_def Let_def split: MaterialState.split)
  qed (simp add: EvActivate activate_def spends_same)
next
  case EvNoteBuildFailure
  then show ?thesis by (simp add: note_build_failure_def Let_def spends_same)
qed

definition spent :: "TunnelSlot \<Rightarrow> ExploratoryPool \<Rightarrow> bool" where
  "spent slot pool \<longleftrightarrow> (\<forall>e. pool_get pool slot = Some e \<longrightarrow> te_material e = Activated)"

interpretation activated: event_machine pool_step
  "\<lambda>pool. ep_next_slot pool \<noteq> - 1 \<longrightarrow> pool_wf pool \<and> slot < TunnelSlot (ep_next_slot pool) \<and> spent slot pool" for slot
proof
  fix e and pool :: ExploratoryPool
  assume inv: "ep_next_slot pool \<noteq> - 1 \<longrightarrow> pool_wf pool \<and> slot < TunnelSlot (ep_next_slot pool) \<and> spent slot pool"
  show "ep_next_slot (pool_step e pool) \<noteq> - 1 \<longrightarrow>
      pool_wf (pool_step e pool) \<and> slot < TunnelSlot (ep_next_slot (pool_step e pool)) \<and> spent slot (pool_step e pool)"
  proof
    assume n: "ep_next_slot (pool_step e pool) \<noteq> - 1"
    then have ns: "ep_next_slot pool \<noteq> - 1" "ep_next_slot pool \<le> ep_next_slot (pool_step e pool)"
      using pool_step_frame(1) [of e pool] sat_next_slot [of "ep_next_slot pool"] by (metis order_refl order_less_imp_le)+
    with inv have i: "pool_wf pool" "slot < TunnelSlot (ep_next_slot pool)" "spent slot pool" by auto
    have "pool_wf (pool_step e pool)"
      using pool.step_inv [of pool "ep_config pool" e] i(1) ns n by simp
    moreover have "slot < TunnelSlot (ep_next_slot (pool_step e pool))"
      using i(2) ns(2) by (cases slot) (simp add: less_TunnelSlot_def)
    moreover have "spent slot (pool_step e pool)"
      using spends_step [OF i(1) ns(1) i(2), of e] i(3) by (fastforce simp: spends_def spent_def)
    ultimately show "pool_wf (pool_step e pool) \<and> slot < TunnelSlot (ep_next_slot (pool_step e pool))
      \<and> spent slot (pool_step e pool)" by simp
  qed
qed

lemma activate_never_again:
  assumes "ep_next_slot pool \<noteq> - 1" "pool_wf pool" "activate slot pool = (Inr tunnel, pool')"
    and "ep_next_slot (fold pool_step events pool') \<noteq> - 1"
  shows "\<exists>e pool''. activate slot (fold pool_step events pool') = (Inl e, pool'')"
proof -
  obtain e where e: "pool_get pool slot = Some e" "pool' = pool_put slot (e\<lparr>te_material := Activated\<rparr>) pool"
    using assms(3) by (auto simp: activate_def Let_def split: option.splits MaterialState.splits if_splits)
  have "spent slot pool'" using e by (simp add: spent_def pool_get_put)
  moreover have "pool_wf pool'" using pool_wf_activate [OF assms(2), of slot] assms(3) by simp
  moreover have "slot < TunnelSlot (ep_next_slot pool)"
    using assms(1,2) e(1) by (auto simp: pool_wf_def side_wf_def pool_get_def split: option.splits)
  moreover have "ep_next_slot pool' = ep_next_slot pool" using e(2) by (simp add: pool_put_def)
  ultimately have "spent slot (fold pool_step events pool')"
    using activated.run_inv [of pool' slot events] assms(1,4) by simp
  then show ?thesis
    by (auto simp: spent_def activate_def Let_def split: option.split)
qed

subsection \<open>Reachable pools\<close>

lemma side_values:
  assumes "side_wf d maximum nxt m"
  shows "list_all (\<lambda>e. reg_direction (te_registration e) = d \<and> reg_state (te_registration e) = Established
      \<and> length (reg_hops (te_registration e)) \<le> 8) (bt_values m)"
    and "distinct (map entry_id (bt_values m))" and "distinct (bt_keys m)"
proof -
  have wf: "bt_wf m" using assms by (simp add: side_wf_def)
  have get: "bt_get m s = Some e \<longleftrightarrow> (s, e) \<in> set m" for s e using bt_get_set [OF wf] by simp
  show "list_all (\<lambda>e. reg_direction (te_registration e) = d \<and> reg_state (te_registration e) = Established
      \<and> length (reg_hops (te_registration e)) \<le> 8) (bt_values m)"
    using assms get unfolding side_wf_def entry_ok_def list_all_iff bt_values_def by fastforce
  show keys: "distinct (bt_keys m)" using bt_wf_distinct [OF wf] by (simp add: bt_keys_def)
  have "inj_on (\<lambda>x. entry_id (snd x)) (set m)"
  proof (rule inj_onI)
    fix x y assume "x \<in> set m" "y \<in> set m" "entry_id (snd x) = entry_id (snd y)"
    then have g: "bt_get m (fst x) = Some (snd x)" "bt_get m (fst y) = Some (snd y)"
      and i: "entry_id (snd x) = entry_id (snd y)" using get by simp_all
    then have "fst x = fst y" using assms unfolding side_wf_def by blast
    with g show "x = y" by (simp add: prod_eq_iff)
  qed
  with keys show "distinct (map entry_id (bt_values m))"
    by (simp add: bt_values_def bt_keys_def comp_def distinct_map)
qed

lemma pool_wf_values:
  assumes "pool_wf pool" "ep_next_slot pool \<noteq> - 1"
  shows "distinct (map entry_id (bt_values (ep_inbound pool) @ bt_values (ep_outbound pool)))"
    and "distinct (bt_keys (ep_inbound pool) @ bt_keys (ep_outbound pool))"
proof -
  have w: "side_wf Inbound (pc_max_inbound (ep_config pool)) (ep_next_slot pool) (ep_inbound pool)"
    "side_wf Outbound (pc_max_outbound (ep_config pool)) (ep_next_slot pool) (ep_outbound pool)"
    "ids_apart (ep_inbound pool) (ep_outbound pool)" "slots_apart (ep_inbound pool) (ep_outbound pool)"
    using assms by (simp_all add: pool_wf_def)
  then have wf: "bt_wf (ep_inbound pool)" "bt_wf (ep_outbound pool)" by (simp_all add: side_wf_def)
  note get = bt_get_set [OF wf(1)] bt_get_set [OF wf(2)]
  show "distinct (map entry_id (bt_values (ep_inbound pool) @ bt_values (ep_outbound pool)))"
    using side_values(2) [OF w(1)] side_values(2) [OF w(2)] w(3) get
    by (auto simp: bt_values_def ids_apart_def)
  have "k \<notin> set (bt_keys (ep_outbound pool))" if k: "k \<in> set (bt_keys (ep_inbound pool))" for k
    using k w(4) bt_contains_keys [of "ep_inbound pool" k] bt_contains_keys [of "ep_outbound pool" k]
    unfolding slots_apart_def bt_contains_def by metis
  then show "distinct (bt_keys (ep_inbound pool) @ bt_keys (ep_outbound pool))"
    using side_values(3) [OF w(1)] side_values(3) [OF w(2)] by auto
qed

lemma pool_run_wf:
  assumes "ep_next_slot (fold pool_step events (pool_new config)) \<noteq> - 1"
  shows "ep_config (fold pool_step events (pool_new config)) = config \<and> pool_wf (fold pool_step events (pool_new config))"
  using pool.run_inv [of "pool_new config" config events] pool_wf_new [of config] assms
  by (simp add: pool_new_def)

text \<open>
  The comparisons of a tunnel's age with the lifetime, in natural numbers: the age of a tunnel created
  after the clock's reading is zero.
\<close>

lemma lifetime_le_age:
  fixes l :: u32 and a b :: u64
  shows "of_nat (unat l) \<le> word_sat_sub a b \<longleftrightarrow> unat l \<le> unat a - unat b"
proof -
  have small: "unat l < 2 ^ LENGTH(32)" by (rule unsigned_less)
  have "unat (of_nat (unat l) :: u64) = unat l" unfolding unat_of_nat by (rule mod_less [OF less_le_trans [OF small]]) simp
  then show ?thesis by (simp add: word_le_nat_alt unat_word_sat_sub)
qed

lemma entry_due_age:
  "entry_due config now e \<longleftrightarrow> reg_state (te_registration e) = Established
     \<and> unat (lifetime_seconds (pc_lifetime config)) \<le> unat now - unat (reg_created_at_seconds (te_registration e))"
  unfolding entry_due_def lifetime_le_age by (rule refl)

lemma entry_live_age:
  "entry_live config now e \<longleftrightarrow> reg_state (te_registration e) = Established
     \<and> unat now - unat (reg_created_at_seconds (te_registration e)) < unat (lifetime_seconds (pc_lifetime config))"
  unfolding entry_live_def lifetime_le_age not_le by (rule refl)

lemma side_expiry:
  fixes config and now :: u64
  assumes "side_wf d maximum nxt m"
  defines "aged \<equiv> \<lambda>e. unat (lifetime_seconds (pc_lifetime config)) \<le> unat now - unat (reg_created_at_seconds (te_registration e))"
  shows "due_slots config now m = map fst (filter (aged \<circ> snd) m)"
    and "bt_get (bt_retain (\<lambda>s e. \<not> entry_due config now e) m) slot = Some e \<longleftrightarrow> bt_get m slot = Some e \<and> \<not> aged e"
proof -
  have wf: "bt_wf m" using assms(1) by (simp add: side_wf_def)
  have due: "entry_due config now e \<longleftrightarrow> aged e" if "(s, e) \<in> set m" for s e
  proof -
    have "e \<in> set (bt_values m)" using that by (force simp: bt_values_def)
    with side_values(1) [OF assms(1)] show ?thesis by (auto simp: entry_due_age aged_def list_all_iff)
  qed
  then show "due_slots config now m = map fst (filter (aged \<circ> snd) m)"
    unfolding due_slots_def by (intro arg_cong [of _ _ "map fst"] filter_cong) auto
  show "bt_get (bt_retain (\<lambda>s e. \<not> entry_due config now e) m) slot = Some e \<longleftrightarrow> bt_get m slot = Some e \<and> \<not> aged e"
    using due [of slot] bt_get_set [OF wf] by (auto simp: bt_get_retain [OF wf] split: option.splits if_splits)
qed

end
