(* ===== verification/Tunnel_Registry.thy ===== *)
theory Tunnel_Registry
  imports Tunnel_Pool Tunnel_Roles
begin

section \<open>The data-plane registry (i2pr-tunnel/src/data_plane_registry.rs)\<close>

text \<open>
  The owner of the activated local roles. Six maps describe the same tunnels: the roles, their
  public routing facts, and the two directions of the map between pool slots and receive
  identifiers. The invariant says that they agree, and every operation preserves it.
\<close>

record DataPlaneCapacity =
  dpc_outbound :: u16
  dpc_inbound :: u16

record InboundGatewayRoute =
  igr_gateway_router :: Hash
  igr_gateway_receive_tunnel :: TunnelId
  igr_local_receive_tunnel :: TunnelId

datatype RegistryError =
    OutboundFull
  | InboundFull
  | DuplicateOutbound TunnelSlot
  | DuplicateInbound TunnelId
  | DuplicateInboundSlot TunnelSlot
  | DirectionMismatch

datatype RegistryRemoval =
    RemovedOutbound OutboundGatewayRole
  | RemovedInbound LocalInboundEndpointRole
  | RemovedUnknown TunnelSlot

record DataPlaneRegistry =
  dr_capacity :: DataPlaneCapacity
  dr_outbound :: "(TunnelSlot, OutboundGatewayRole) btree"
  dr_inbound :: "(TunnelId, LocalInboundEndpointRole) btree"
  dr_outbound_first_hop :: "(TunnelSlot, Hash \<times> TunnelId) btree"
  dr_inbound_first_hop :: "(TunnelId, Hash) btree"
  dr_inbound_gateway_route :: "(TunnelId, InboundGatewayRoute) btree"
  dr_inbound_slot_to_receive :: "(TunnelSlot, TunnelId) btree"
  dr_inbound_receive_to_slot :: "(TunnelId, TunnelSlot) btree"

definition registry_new :: "DataPlaneCapacity \<Rightarrow> DataPlaneRegistry" where
  "registry_new capacity =
     \<lparr>dr_capacity = capacity, dr_outbound = [], dr_inbound = [], dr_outbound_first_hop = [],
      dr_inbound_first_hop = [], dr_inbound_gateway_route = [], dr_inbound_slot_to_receive = [],
      dr_inbound_receive_to_slot = []\<rparr>"

definition inbound_receive_ids :: "DataPlaneRegistry \<Rightarrow> TunnelId list" where
  "inbound_receive_ids r = bt_keys (dr_inbound r)"

definition activate_outbound ::
  "TunnelSlot \<Rightarrow> EstablishedTunnel \<Rightarrow> u64 \<Rightarrow> (DataPlaneRegistry, RegistryError, OutboundGatewayRole) rsm" where
  "activate_outbound slot established expires_at_ms = (\<lambda>r.
     if bt_contains (dr_outbound r) slot then (Inl (DuplicateOutbound slot), r)
     else if length (dr_outbound r) \<ge> unat (dpc_outbound (dr_capacity r)) then (Inl OutboundFull, r)
     else if et_direction established \<noteq> Outbound then (Inl DirectionMismatch, r)
     else
     let first_hop = peer_hash (first_hop_router established);
         receive_tunnel = first_hop_receive_tunnel established;
         role = \<lparr>og_established = established, og_expires_at_ms = expires_at_ms\<rparr>
     in (Inr role,
         r\<lparr>dr_outbound_first_hop := bt_insert slot (first_hop, receive_tunnel) (dr_outbound_first_hop r),
           dr_outbound := bt_insert slot role (dr_outbound r)\<rparr>))"

definition activate_inbound ::
  "TunnelSlot \<Rightarrow> EstablishedTunnel \<Rightarrow> nat \<Rightarrow> nat \<Rightarrow> u64 \<Rightarrow> u64 \<Rightarrow> u64
     \<Rightarrow> (DataPlaneRegistry, RegistryError, LocalInboundEndpointRole) rsm" where
  "activate_inbound slot established reassembler_capacity reassembler_aggregate_bytes reassembly_expiry_ms
       now_ms expires_at_ms = (\<lambda>r.
     if et_direction established \<noteq> Inbound then (Inl DirectionMismatch, r)
     else if bt_contains (dr_inbound_slot_to_receive r) slot \<or> bt_contains (dr_outbound r) slot
     then (Inl (DuplicateInboundSlot slot), r)
     else
     let local_receive = et_local_inbound_receive established in
     if bt_contains (dr_inbound r) local_receive then (Inl (DuplicateInbound local_receive), r)
     else if length (dr_inbound r) \<ge> unat (dpc_inbound (dr_capacity r)) then (Inl InboundFull, r)
     else
     let ibgw_router = peer_hash (fst (et_inbound_gateway established));
         ibgw_receive = snd (et_inbound_gateway established);
         role = local_inbound_new established reassembler_capacity reassembler_aggregate_bytes
                  reassembly_expiry_ms now_ms expires_at_ms
     in (Inr role,
         r\<lparr>dr_inbound_first_hop := bt_insert local_receive ibgw_router (dr_inbound_first_hop r),
           dr_inbound_gateway_route := bt_insert local_receive
             \<lparr>igr_gateway_router = ibgw_router, igr_gateway_receive_tunnel = ibgw_receive,
              igr_local_receive_tunnel = local_receive\<rparr> (dr_inbound_gateway_route r),
           dr_inbound_slot_to_receive := bt_insert slot local_receive (dr_inbound_slot_to_receive r),
           dr_inbound_receive_to_slot := bt_insert local_receive slot (dr_inbound_receive_to_slot r),
           dr_inbound := bt_insert local_receive role (dr_inbound r)\<rparr>))"

definition inbound_first_hop :: "DataPlaneRegistry \<Rightarrow> TunnelId \<Rightarrow> Hash option" where
  "inbound_first_hop r local_receive = bt_get (dr_inbound_first_hop r) local_receive"

definition inbound_gateway_route :: "DataPlaneRegistry \<Rightarrow> TunnelId \<Rightarrow> InboundGatewayRoute option" where
  "inbound_gateway_route r local_receive = bt_get (dr_inbound_gateway_route r) local_receive"

definition inbound_slot :: "DataPlaneRegistry \<Rightarrow> TunnelId \<Rightarrow> TunnelSlot option" where
  "inbound_slot r local_receive = bt_get (dr_inbound_receive_to_slot r) local_receive"

definition outbound_first_hop :: "DataPlaneRegistry \<Rightarrow> TunnelSlot \<Rightarrow> (Hash \<times> TunnelId) option" where
  "outbound_first_hop r slot = bt_get (dr_outbound_first_hop r) slot"

definition registry_outbound :: "DataPlaneRegistry \<Rightarrow> TunnelSlot \<Rightarrow> OutboundGatewayRole option" where
  "registry_outbound r slot = bt_get (dr_outbound r) slot"

definition registry_inbound :: "DataPlaneRegistry \<Rightarrow> TunnelId \<Rightarrow> LocalInboundEndpointRole option" where
  "registry_inbound r local_receive = bt_get (dr_inbound r) local_receive"

definition remove_outbound :: "TunnelSlot \<Rightarrow> DataPlaneRegistry \<Rightarrow> OutboundGatewayRole option \<times> DataPlaneRegistry" where
  "remove_outbound slot r =
     (bt_get (dr_outbound r) slot,
      r\<lparr>dr_outbound := bt_remove slot (dr_outbound r),
        dr_outbound_first_hop := bt_remove slot (dr_outbound_first_hop r)\<rparr>)"

definition remove_inbound :: "TunnelId \<Rightarrow> DataPlaneRegistry \<Rightarrow> LocalInboundEndpointRole option \<times> DataPlaneRegistry" where
  "remove_inbound local_receive r =
     (bt_get (dr_inbound r) local_receive,
      r\<lparr>dr_inbound := bt_remove local_receive (dr_inbound r),
        dr_inbound_first_hop := bt_remove local_receive (dr_inbound_first_hop r),
        dr_inbound_gateway_route := bt_remove local_receive (dr_inbound_gateway_route r),
        dr_inbound_receive_to_slot := bt_remove local_receive (dr_inbound_receive_to_slot r),
        dr_inbound_slot_to_receive :=
          (case bt_get (dr_inbound_receive_to_slot r) local_receive of
             Some slot \<Rightarrow> bt_remove slot (dr_inbound_slot_to_receive r)
           | None \<Rightarrow> dr_inbound_slot_to_receive r)\<rparr>)"

definition remove_slot :: "TunnelSlot \<Rightarrow> DataPlaneRegistry \<Rightarrow> RegistryRemoval \<times> DataPlaneRegistry" where
  "remove_slot slot r =
     (case remove_outbound slot r of
        (Some role, r') \<Rightarrow> (RemovedOutbound role, r')
      | (None, r') \<Rightarrow>
          (case bt_get (dr_inbound_slot_to_receive r') slot of
             Some local_receive \<Rightarrow>
               (case remove_inbound local_receive r' of
                  (Some role, r'') \<Rightarrow> (RemovedInbound role, r'')
                | (None, r'') \<Rightarrow> (RemovedUnknown slot, r''))
           | None \<Rightarrow> (RemovedUnknown slot, r')))"

definition has_usable_outbound_role :: "DataPlaneRegistry \<Rightarrow> u64 \<Rightarrow> bool" where
  "has_usable_outbound_role r now_ms \<longleftrightarrow> list_ex (og_is_usable now_ms) (bt_values (dr_outbound r))"

definition has_usable_inbound_role :: "DataPlaneRegistry \<Rightarrow> u64 \<Rightarrow> bool" where
  "has_usable_inbound_role r now_ms \<longleftrightarrow> list_ex (li_is_usable now_ms) (bt_values (dr_inbound r))"

subsection \<open>The maps agree\<close>

text \<open>
  What each map says of a receive identifier or a slot is a function of the role stored there; the
  two slot maps are inverse to each other and list the inbound roles.
\<close>

definition route_of :: "LocalInboundEndpointRole \<Rightarrow> InboundGatewayRoute" where
  "route_of role =
     \<lparr>igr_gateway_router = peer_hash (fst (et_inbound_gateway (li_established role))),
      igr_gateway_receive_tunnel = snd (et_inbound_gateway (li_established role)),
      igr_local_receive_tunnel = local_receive_tunnel role\<rparr>"

definition maps_wf :: "DataPlaneRegistry \<Rightarrow> bool" where
  "maps_wf r \<longleftrightarrow>
     bt_wf (dr_outbound r) \<and> bt_wf (dr_inbound r) \<and> bt_wf (dr_outbound_first_hop r)
     \<and> bt_wf (dr_inbound_first_hop r) \<and> bt_wf (dr_inbound_gateway_route r)
     \<and> bt_wf (dr_inbound_slot_to_receive r) \<and> bt_wf (dr_inbound_receive_to_slot r)"

definition outbound_agrees :: "DataPlaneRegistry \<Rightarrow> bool" where
  "outbound_agrees r \<longleftrightarrow>
     (\<forall>slot. bt_get (dr_outbound_first_hop r) slot =
        map_option (\<lambda>role. (peer_hash (first_hop_router (og_established role)),
                            first_hop_receive_tunnel (og_established role))) (bt_get (dr_outbound r) slot))
     \<and> (\<forall>slot role. bt_get (dr_outbound r) slot = Some role \<longrightarrow> et_direction (og_established role) = Outbound)"

definition inbound_agrees :: "DataPlaneRegistry \<Rightarrow> bool" where
  "inbound_agrees r \<longleftrightarrow>
     (\<forall>t. bt_get (dr_inbound_gateway_route r) t = map_option route_of (bt_get (dr_inbound r) t))
     \<and> (\<forall>t. bt_get (dr_inbound_first_hop r) t = map_option (igr_gateway_router \<circ> route_of) (bt_get (dr_inbound r) t))
     \<and> (\<forall>t role. bt_get (dr_inbound r) t = Some role \<longrightarrow>
          et_direction (li_established role) = Inbound \<and> local_receive_tunnel role = t)
     \<and> (\<forall>t. bt_get (dr_inbound_receive_to_slot r) t = None \<longleftrightarrow> bt_get (dr_inbound r) t = None)
     \<and> (\<forall>slot t. bt_get (dr_inbound_slot_to_receive r) slot = Some t \<longleftrightarrow> bt_get (dr_inbound_receive_to_slot r) t = Some slot)"

definition registry_wf :: "DataPlaneRegistry \<Rightarrow> bool" where
  "registry_wf r \<longleftrightarrow>
     maps_wf r \<and> outbound_agrees r \<and> inbound_agrees r
     \<and> length (dr_outbound r) \<le> unat (dpc_outbound (dr_capacity r))
     \<and> length (dr_inbound r) \<le> unat (dpc_inbound (dr_capacity r))"

lemma registry_wf_new: "registry_wf (registry_new capacity)"
  by (simp add: registry_wf_def registry_new_def maps_wf_def outbound_agrees_def inbound_agrees_def)

lemma registry_wf_activate_outbound:
  assumes "registry_wf r"
  shows "registry_wf (snd (activate_outbound slot established expires r))"
  using assms
  by (auto simp: activate_outbound_def registry_wf_def maps_wf_def outbound_agrees_def inbound_agrees_def
      bt_wf_insert bt_get_insert length_bt_insert Let_def)

lemma registry_wf_remove_outbound:
  assumes "registry_wf r"
  shows "registry_wf (snd (remove_outbound slot r))"
  using assms
  by (auto simp: remove_outbound_def registry_wf_def maps_wf_def outbound_agrees_def inbound_agrees_def
      bt_wf_remove bt_get_remove length_bt_remove)

lemma inbound_agrees_activate:
  assumes m: "maps_wf r" and a: "inbound_agrees r" and fresh: "bt_get (dr_inbound r) t = None"
    "bt_get (dr_inbound_slot_to_receive r) slot = None"
    and role: "et_direction (li_established role) = Inbound" "local_receive_tunnel role = t"
  shows "inbound_agrees (r\<lparr>
     dr_inbound_first_hop := bt_insert t (igr_gateway_router (route_of role)) (dr_inbound_first_hop r),
     dr_inbound_gateway_route := bt_insert t (route_of role) (dr_inbound_gateway_route r),
     dr_inbound_slot_to_receive := bt_insert slot t (dr_inbound_slot_to_receive r),
     dr_inbound_receive_to_slot := bt_insert t slot (dr_inbound_receive_to_slot r),
     dr_inbound := bt_insert t role (dr_inbound r)\<rparr>)"
proof -
  have rs: "bt_get (dr_inbound_receive_to_slot r) t = None" using a fresh(1) by (simp add: inbound_agrees_def)
  have "bt_get (dr_inbound_slot_to_receive r) s \<noteq> Some t" for s
    using a rs unfolding inbound_agrees_def by (metis option.distinct(1))
  moreover have "bt_get (dr_inbound_receive_to_slot r) u \<noteq> Some slot" for u
    using a fresh(2) unfolding inbound_agrees_def by (metis option.distinct(1))
  ultimately show ?thesis
    using a role by (auto simp: inbound_agrees_def bt_get_insert)
qed

lemma registry_wf_activate_inbound:
  assumes "registry_wf r"
  shows "registry_wf (snd (activate_inbound slot established c b x now expires r))"
proof (cases "snd (activate_inbound slot established c b x now expires r) = r")
  case False
  let ?t = "et_local_inbound_receive established"
  let ?role = "local_inbound_new established c b x now expires"
  have g: "et_direction established = Inbound" "bt_get (dr_inbound_slot_to_receive r) slot = None"
    "bt_get (dr_inbound r) ?t = None" "length (dr_inbound r) < unat (dpc_inbound (dr_capacity r))"
    using False by (auto simp: activate_inbound_def bt_contains_def Let_def split: if_splits)
  have route: "route_of ?role = \<lparr>igr_gateway_router = peer_hash (fst (et_inbound_gateway established)),
      igr_gateway_receive_tunnel = snd (et_inbound_gateway established), igr_local_receive_tunnel = ?t\<rparr>"
    "et_direction (li_established ?role) = Inbound" "local_receive_tunnel ?role = ?t"
    using g(1) by (simp_all add: route_of_def local_inbound_new_def local_receive_tunnel_def)
  have out: "snd (activate_inbound slot established c b x now expires r) = r\<lparr>
     dr_inbound_first_hop := bt_insert ?t (igr_gateway_router (route_of ?role)) (dr_inbound_first_hop r),
     dr_inbound_gateway_route := bt_insert ?t (route_of ?role) (dr_inbound_gateway_route r),
     dr_inbound_slot_to_receive := bt_insert slot ?t (dr_inbound_slot_to_receive r),
     dr_inbound_receive_to_slot := bt_insert ?t slot (dr_inbound_receive_to_slot r),
     dr_inbound := bt_insert ?t ?role (dr_inbound r)\<rparr>"
    using False by (auto simp: activate_inbound_def route(1) Let_def split: if_splits)
  have "inbound_agrees (snd (activate_inbound slot established c b x now expires r))"
    unfolding out using assms g route by (intro inbound_agrees_activate) (simp_all add: registry_wf_def)
  with out assms g show ?thesis
    by (simp add: registry_wf_def maps_wf_def outbound_agrees_def bt_wf_insert length_bt_insert)
qed (use assms in simp)

lemma registry_wf_remove_inbound:
  assumes "registry_wf r"
  shows "registry_wf (snd (remove_inbound t r))"
proof -
  have m: "maps_wf r" "inbound_agrees r" using assms by (simp_all add: registry_wf_def)
  have inv: "bt_get (dr_inbound_slot_to_receive r) s = Some u \<longleftrightarrow> bt_get (dr_inbound_receive_to_slot r) u = Some s" for s u
    using m(2) by (simp add: inbound_agrees_def)
  let ?r = "snd (remove_inbound t r)"
  have slots: "bt_get (dr_inbound_slot_to_receive ?r) s =
      (if bt_get (dr_inbound_receive_to_slot r) t = Some s then None else bt_get (dr_inbound_slot_to_receive r) s)" for s
    using m(1) by (auto simp: remove_inbound_def maps_wf_def bt_get_remove split: option.splits)
  have "bt_get (dr_inbound_slot_to_receive ?r) s = Some u \<longleftrightarrow> bt_get (dr_inbound_receive_to_slot ?r) u = Some s" for s u
  proof -
    have "bt_get (dr_inbound_receive_to_slot ?r) u = (if u = t then None else bt_get (dr_inbound_receive_to_slot r) u)"
      using m(1) by (simp add: remove_inbound_def maps_wf_def bt_get_remove)
    then show ?thesis using slots inv by (metis option.distinct(1) option.inject)
  qed
  then have "inbound_agrees ?r"
    using m unfolding inbound_agrees_def maps_wf_def
    by (auto simp: remove_inbound_def bt_get_remove)
  moreover have "maps_wf ?r" "outbound_agrees ?r" "length (dr_inbound ?r) \<le> length (dr_inbound r)"
    "dr_outbound ?r = dr_outbound r" "dr_capacity ?r = dr_capacity r"
    using assms m(1)
    by (auto simp: remove_inbound_def maps_wf_def registry_wf_def outbound_agrees_def bt_wf_remove length_bt_remove
        split: option.splits)
  ultimately show ?thesis using assms by (simp add: registry_wf_def)
qed

lemma registry_wf_remove_slot:
  assumes "registry_wf r"
  shows "registry_wf (snd (remove_slot slot r))"
proof -
  obtain x r' where o: "remove_outbound slot r = (x, r')" by force
  then have r': "registry_wf r'" using registry_wf_remove_outbound [OF assms, of slot] by simp
  show ?thesis
    using r' registry_wf_remove_inbound [OF r'] o
    by (auto simp: remove_slot_def case_prod_beta split: option.splits)
qed

datatype RegistryEvent =
    EvActivateOutbound TunnelSlot EstablishedTunnel u64
  | EvActivateInbound TunnelSlot EstablishedTunnel nat nat u64 u64 u64
  | EvRemoveOutbound TunnelSlot
  | EvRemoveInbound TunnelId
  | EvRemoveSlot TunnelSlot

fun registry_step :: "RegistryEvent \<Rightarrow> DataPlaneRegistry \<Rightarrow> DataPlaneRegistry" where
  "registry_step (EvActivateOutbound slot established expires) r = snd (activate_outbound slot established expires r)"
| "registry_step (EvActivateInbound slot established c b x now expires) r =
     snd (activate_inbound slot established c b x now expires r)"
| "registry_step (EvRemoveOutbound slot) r = snd (remove_outbound slot r)"
| "registry_step (EvRemoveInbound t) r = snd (remove_inbound t r)"
| "registry_step (EvRemoveSlot slot) r = snd (remove_slot slot r)"

lemma registry_step_capacity: "dr_capacity (registry_step e r) = dr_capacity r"
  by (cases e)
    (auto simp: activate_outbound_def activate_inbound_def remove_outbound_def remove_inbound_def remove_slot_def
      Let_def split: option.split)

interpretation registry: event_machine registry_step "\<lambda>r. registry_wf r \<and> dr_capacity r = capacity" for capacity
proof
  fix e and r :: DataPlaneRegistry
  assume "registry_wf r \<and> dr_capacity r = capacity"
  then show "registry_wf (registry_step e r) \<and> dr_capacity (registry_step e r) = capacity"
    using registry_step_capacity [of e r]
    by (cases e) (simp_all add: registry_wf_activate_outbound registry_wf_activate_inbound
        registry_wf_remove_outbound registry_wf_remove_inbound registry_wf_remove_slot)
qed

lemma registry_run_wf: "registry_wf (fold registry_step events (registry_new capacity))"
  using registry.run_inv [of "registry_new capacity" capacity events] registry_wf_new [of capacity]
  by (simp add: registry_new_def)

text \<open>
  Removing a slot, seen through the lookups: what a lookup returned for the slot, or for a receive
  identifier bound to it, is gone, and every other lookup returns what it returned before.
\<close>

lemma slot_to_receive_inverse:
  "registry_wf r \<Longrightarrow> bt_get (dr_inbound_slot_to_receive r) slot = Some t \<longleftrightarrow> inbound_slot r t = Some slot"
  by (simp add: registry_wf_def inbound_agrees_def inbound_slot_def)

lemma remove_slot_outbound:
  assumes "registry_wf r" "remove_slot slot r = (removal, r')"
  shows "registry_outbound r' s = (if s = slot then None else registry_outbound r s)"
    "outbound_first_hop r' s = (if s = slot then None else outbound_first_hop r s)"
  using assms
  by (auto simp: remove_slot_def remove_outbound_def remove_inbound_def registry_wf_def maps_wf_def bt_get_remove
      registry_outbound_def outbound_first_hop_def split: option.splits)

lemma remove_slot_inbound:
  assumes "registry_wf r" "registry_outbound r slot = None \<or> inbound_slot r t \<noteq> Some slot"
    "remove_slot slot r = (removal, r')"
  shows "if inbound_slot r t = Some slot
    then registry_inbound r' t = None \<and> inbound_first_hop r' t = None \<and> inbound_gateway_route r' t = None
      \<and> inbound_slot r' t = None
    else registry_inbound r' t = registry_inbound r t \<and> inbound_first_hop r' t = inbound_first_hop r t
      \<and> inbound_gateway_route r' t = inbound_gateway_route r t \<and> inbound_slot r' t = inbound_slot r t"
proof -
  have m: "maps_wf r" using assms(1) by (simp add: registry_wf_def)
  note gone = slot_to_receive_inverse [OF assms(1), of slot t, symmetric]
  note lookups = registry_outbound_def registry_inbound_def inbound_first_hop_def inbound_gateway_route_def inbound_slot_def
  have r': "r' = (case bt_get (dr_outbound r) slot of
        Some _ \<Rightarrow> snd (remove_outbound slot r)
      | None \<Rightarrow> (case bt_get (dr_inbound_slot_to_receive r) slot of
          None \<Rightarrow> snd (remove_outbound slot r) | Some u \<Rightarrow> snd (remove_inbound u (snd (remove_outbound slot r)))))"
    using assms(3) by (auto simp: remove_slot_def remove_outbound_def remove_inbound_def split: option.splits)
  show ?thesis
  proof (cases "registry_outbound r slot = None \<and> bt_get (dr_inbound_slot_to_receive r) slot \<noteq> None")
    case True
    then obtain u where u: "bt_get (dr_inbound_slot_to_receive r) slot = Some u" by blast
    with True r' have "r' = snd (remove_inbound u (snd (remove_outbound slot r)))" by (simp add: registry_outbound_def)
    with u m show ?thesis unfolding gone
      by (simp add: remove_inbound_def remove_outbound_def maps_wf_def bt_get_remove lookups)
  next
    case False
    with r' have "r' = snd (remove_outbound slot r)" by (auto simp: registry_outbound_def split: option.splits)
    moreover have "inbound_slot r t \<noteq> Some slot" using False assms(2) gone by auto
    ultimately show ?thesis by (simp add: remove_outbound_def lookups)
  qed
qed

lemma remove_slot_removal:
  assumes "registry_wf r" "remove_slot slot r = (removal, r')"
  shows "registry_outbound r slot = Some gw \<Longrightarrow> removal = RemovedOutbound gw"
    and "registry_outbound r slot = None \<Longrightarrow> inbound_slot r t = Some slot \<Longrightarrow>
      \<exists>role. registry_inbound r t = Some role \<and> removal = RemovedInbound role"
    and "registry_outbound r slot = None \<Longrightarrow> (\<forall>t. inbound_slot r t \<noteq> Some slot) \<Longrightarrow> removal = RemovedUnknown slot"
proof -
  note inv = slot_to_receive_inverse [OF assms(1), of slot]
  show "removal = RemovedOutbound gw" if "registry_outbound r slot = Some gw"
    using assms(2) that by (simp add: remove_slot_def remove_outbound_def registry_outbound_def)
  show "\<exists>role. registry_inbound r t = Some role \<and> removal = RemovedInbound role"
    if "registry_outbound r slot = None" "inbound_slot r t = Some slot"
  proof -
    have "registry_inbound r t \<noteq> None"
      using assms(1) that(2) unfolding registry_wf_def inbound_agrees_def inbound_slot_def registry_inbound_def
      by (metis option.distinct(1))
    with assms(2) that inv [of t] show ?thesis
      by (auto simp: remove_slot_def remove_outbound_def remove_inbound_def registry_outbound_def registry_inbound_def)
  qed
  show "removal = RemovedUnknown slot" if "registry_outbound r slot = None" "\<forall>t. inbound_slot r t \<noteq> Some slot"
    using assms(2) that inv
    by (auto simp: remove_slot_def remove_outbound_def registry_outbound_def split: option.splits)
qed

text \<open>
  An outbound activation does not look at the inbound slots, so a slot can be bound in both
  directions; removing it then takes the outbound role only.
\<close>

lemma activate_outbound_bound_inbound:
  assumes "registry_wf r" "inbound_slot r t = Some slot" "bt_get (dr_outbound r) slot = None"
    "length (dr_outbound r) < unat (dpc_outbound (dr_capacity r))" "et_direction established = Outbound"
    and "activate_outbound slot established expires r = (out, r')" "remove_slot slot r' = (removal, r'')"
  shows "(\<exists>role. out = Inr role \<and> removal = RemovedOutbound role)
    \<and> inbound_slot r'' t = Some slot \<and> registry_inbound r'' t = registry_inbound r t \<and> registry_inbound r t \<noteq> None"
proof -
  have "registry_inbound r t \<noteq> None"
    using assms(1,2) unfolding registry_wf_def inbound_agrees_def inbound_slot_def registry_inbound_def
    by (metis option.distinct(1))
  with assms show ?thesis
    by (auto simp: activate_outbound_def bt_contains_def Let_def remove_slot_def remove_outbound_def bt_get_insert
        inbound_slot_def registry_inbound_def)
qed
end
