(* ===== verification/Tunnel_Samples.thy ===== *)
theory Tunnel_Samples
  imports Tunnel_Delivery Tunnel_Registry
begin

unbundle bit_operations_syntax

section \<open>A concrete tunnel\<close>

text \<open>
  One tunnel on which the properties of the data plane are evaluated: the parameters instantiated
  (a generator that only produces ones, a constant digest, a cipher that complements every byte), a
  gateway, a participant and an endpoint that agree on keys and identifiers, and the cell that a
  three-byte message becomes.
\<close>

definition sample_fill :: "unit \<Rightarrow> nat \<Rightarrow> (bytes \<times> unit) option" where
  "sample_fill rng n = Some (replicate n 1, ())"

definition sample_digest :: "bytes \<Rightarrow> bytes" where
  "sample_digest x = replicate 32 0"

definition sample_aes :: Aes where
  "sample_aes = \<lparr>ecb_encrypt = (\<lambda>key. map (\<lambda>b. NOT b)), ecb_decrypt = (\<lambda>key. map (\<lambda>b. NOT b)),
     cbc_encrypt = (\<lambda>key iv. map (\<lambda>b. NOT b)), cbc_decrypt = (\<lambda>key iv. map (\<lambda>b. NOT b))\<rparr>"

lemma sample_aes_inverse: "aes_inverse sample_aes"
  by (simp add: aes_inverse_def sample_aes_def comp_def)

lemma sample_digest_wide: "digest_wide sample_digest"
  by (simp add: digest_wide_def sample_digest_def data_limits)

lemma sample_rng_fills: "rng_fills sample_fill"
  by (simp add: rng_fills_def sample_fill_def)

text \<open>This generator serves every request and never draws a zero.\<close>

lemma sample_randomness: "\<not> randomness_failed sample_fill rng e"
proof -
  have "\<not> zero_run sample_fill (Suc k) s" for k s by (simp add: sample_fill_def)
  from this [of 31] show ?thesis by (simp add: randomness_failed_def sample_fill_def [of _ n for n])
qed

lemma sample_fill_slots: "fill_slots sample_fill m a (replicate n 1) () = (Inr (replicate n 1), ())"
  by (induction n arbitrary: a) (simp_all add: rsm_simps bindS_def fill_slot_nonzero_slot)

lemma sample_pack:
  assumes "encode_record r = Inr body" "length body \<le> 1003"
  shows "pack_payload sample_digest sample_fill r iv () =
    (Inr (payload_layout sample_digest iv (replicate (1003 - length body) 1) body), ())"
  using assms sample_fill_slots
  by (simp add: pack_payload_def payload_layout_def fill_nonzero_def bindS_def liftS_def retS_def data_limits
      sample_fill_def [of "()"])

definition sample_peer :: "u8 \<Rightarrow> TunnelPeer" where
  "sample_peer b = TunnelPeer (Hash (replicate 32 b))"

definition sample_layer_keys :: "u8 \<Rightarrow> LayerKeys" where
  "sample_layer_keys b = layer_keys_new (replicate 32 b) (replicate 32 (b + 1)) (replicate 32 (b + 2))"

definition sample_hops :: "EstablishedHop list" where
  "sample_hops =
     [hop_with_next (sample_peer 1) Participant (TunnelId 0x100) (sample_layer_keys 0x10)
        \<lparr>nh_router = sample_peer 2, nh_tunnel = TunnelId 0x200\<rparr>,
      hop_terminal (sample_peer 2) OutboundEndpoint (TunnelId 0x200) (sample_layer_keys 0x11)]"

definition sample_tunnel :: EstablishedTunnel where
  "sample_tunnel = \<lparr>et_direction = Outbound, et_creator_tunnel_id = TunnelId 7, et_hops = sample_hops,
     et_created_at_seconds = 0, et_inbound_gateway = (zero_peer, zero_id), et_local_inbound_receive = zero_id\<rparr>"

definition sample_gateway :: OutboundGatewayRole where
  "sample_gateway = \<lparr>og_established = sample_tunnel, og_expires_at_ms = 100\<rparr>"

definition sample_header :: TunnelPayloadHeader where
  "sample_header = \<lparr>tph_delivery = DeliverRouter (Hash (replicate 32 9)), tph_message_id = 5, tph_expiration_ms = 0\<rparr>"

definition sample_participant :: ParticipantState where
  "sample_participant = \<lparr>pt_direction = Outbound, pt_receive_tunnel = TunnelId 0x100,
     pt_next = \<lparr>nh_router = sample_peer 2, nh_tunnel = TunnelId 0x200\<rparr>, pt_layer_keys = sample_layer_keys 0x10,
     pt_locked_previous_peer = None, pt_duplicates = duplicate_window_new 16, pt_expires_at_ms = 100\<rparr>"

definition sample_endpoint :: OutboundEndpointRole where
  "sample_endpoint = outbound_endpoint_new (sample_hops ! 1) (duplicate_window_new 16) 8 100000 5000 100 0"

definition sample_record :: FragmentDelivery where
  "sample_record = \<lparr>fd_delivery = Some (DeliverRouter (Hash (replicate 32 9))), fd_fragment = Unfragmented [1, 2, 3]\<rparr>"

definition sample_body :: bytes where
  "sample_body = 0x40 # replicate 32 9 @ [0, 3, 1, 2, 3]"

definition sample_payload :: bytes where
  "sample_payload = payload_layout sample_digest (replicate 16 1) (replicate 965 1) sample_body"

lemma sample_encode: "encode_record sample_record = Inr sample_body"
proof -
  have "be_encode 2 (Suc (Suc (Suc 0))) = [0, 3]" by (simp add: numeral_2_eq_2)
  then show ?thesis
    by (simp add: encode_record_def sample_record_def sample_body_def encode_sized_def)
qed

lemma sample_payload_length: "length sample_payload = 1008"
  by (simp add: sample_payload_def payload_layout_def sample_digest_def sample_body_def data_limits)

definition sample_cell :: TunnelDataMessage where
  "sample_cell = ob_cell (og_deliver sample_aes sample_gateway (replicate 16 1) sample_payload)"

lemma sample_forward:
  "forward_cells sample_aes sample_digest sample_fill sample_gateway sample_header [1, 2, 3] 0 () =
     (Inr [og_deliver sample_aes sample_gateway (replicate 16 1) sample_payload], ())"
proof -
  have "fragment_complete_message (tph_delivery sample_header) (tph_message_id sample_header) [1, 2, 3] =
      Inr [sample_record]"
    by (simp add: fragment_complete_message_eq sample_header_def one_cell_def hash_valid_def data_limits sample_record_def)
  moreover have "pack_payload sample_digest sample_fill sample_record (replicate 16 1) () = (Inr sample_payload, ())"
    using sample_pack [OF sample_encode, of "replicate 16 1"]
    by (simp add: sample_payload_def sample_body_def)
  ultimately show ?thesis
    by (simp add: forward_cells_def og_is_usable_def sample_gateway_def [of] bindS_def liftS_def map_errS_def retS_def
        forward_fragment_def fresh_iv_def sample_fill_def layer_limits sample_header_def)
qed

definition sample_out :: TunnelDataMessage where
  "sample_out =
     (case forward_step sample_aes (sample_layer_keys 0x10) (split_cell sample_cell) of (iv, data) \<Rightarrow>
        join_cell 0x200 iv data)"

lemma sample_cell_sized: "cell_sized (replicate 16 1, sample_payload)"
  by (simp add: cell_sized_def sample_payload_length layer_limits)

lemma sample_relay:
  "\<exists>ps. relay_all sample_aes 0 [sample_cell] [(peer_hash (sample_peer 8), sample_participant)] = (Inr [sample_out], ps)"
proof -
  have "td_tunnel_id sample_cell = 0x100"
    unfolding sample_cell_def og_deliver_cell(2) [OF sample_aes_inverse sample_cell_sized]
    by (simp add: sample_gateway_def sample_tunnel_def sample_hops_def first_hop_receive_tunnel_def hop_with_next_def)
  then have "\<exists>p. participant_process sample_aes (peer_hash (sample_peer 8)) sample_cell 0 sample_participant = (Inr sample_out, p)"
    by (simp add: participant_process_iff sample_participant_def duplicate_window_new_def duplicate_contains_def
        layer_limits sample_out_def split: prod.splits)
  then show ?thesis by auto
qed

lemma sample_path:
  "outbound_path (et_hops (og_established sample_gateway)) [(peer_hash (sample_peer 8), sample_participant)] sample_endpoint"
  by (simp add: outbound_path_def sample_gateway_def sample_tunnel_def sample_hops_def sample_participant_def
      sample_endpoint_def outbound_endpoint_new_def hop_with_next_def hop_terminal_def)

definition sample_inbound_tunnel :: EstablishedTunnel where
  "sample_inbound_tunnel = \<lparr>et_direction = Inbound, et_creator_tunnel_id = TunnelId 7,
     et_hops = [hop_with_next (sample_peer 1) InboundGateway (TunnelId 0x300) (sample_layer_keys 0x20)
        \<lparr>nh_router = sample_peer 2, nh_tunnel = TunnelId 0x400\<rparr>],
     et_created_at_seconds = 0, et_inbound_gateway = (sample_peer 1, TunnelId 0x300),
     et_local_inbound_receive = TunnelId 0x400\<rparr>"

definition sample_inbound_gateway :: InboundGatewayRole where
  "sample_inbound_gateway = \<lparr>ig_receive_tunnel = TunnelId 0x300,
     ig_next = \<lparr>nh_router = sample_peer 2, nh_tunnel = TunnelId 0x400\<rparr>, ig_layer_keys = sample_layer_keys 0x20,
     ig_duplicates = duplicate_window_new 16, ig_expires_at_ms = 100, ig_next_fragment_id = 0\<rparr>"

definition sample_local_endpoint :: LocalInboundEndpointRole where
  "sample_local_endpoint = local_inbound_new sample_inbound_tunnel 8 100000 5000 0 100"

lemma relay_all_direct: "relay_all aes now cells [] = (Inr cells, [])"
  by (induction cells) auto

lemma sample_inbound_ready:
  "ready (set_now 0 (li_reassembler sample_local_endpoint)) key (message_bodies DeliverLocal (replicate 3000 7))"
proof -
  have "\<not> one_cell DeliverLocal (replicate 3000 7)" by (simp add: one_cell_def)
  from message_bodies_facts [OF this] show ?thesis
    by (simp add: ready_def data_limits reassembler_wf_def sample_local_endpoint_def
        local_inbound_new_def set_now_def reassembler_new_def reassembly_limits)
qed

definition sample_first_cell :: TunnelDataMessage where
  "sample_first_cell = join_cell 0x100 (replicate 16 1) (replicate 1008 0)"

definition sample_second_cell :: TunnelDataMessage where
  "sample_second_cell = join_cell 0x100 (replicate 16 2) (replicate 1008 0)"

definition sample_config :: ExploratoryPoolConfig where
  "sample_config = \<lparr>pc_max_inbound = 2, pc_max_outbound = 2, pc_length_hops = 2, pc_lifetime = TunnelLifetime 600,
     pc_build_concurrency = 1, pc_failure_threshold = 3\<rparr>"

definition sample_events :: "PoolEvent list" where
  "sample_events = [EvRegisterOutbound (into_extracted sample_tunnel) 5, EvNoteBuildFailure]"

lemma sample_events_slots: "ep_next_slot (fold pool_step sample_events (pool_new sample_config)) = 1"
  by (simp add: sample_events_def register_frame note_build_failure_def count_failure_def Let_def pool_new_def
      word_sat_add_def)

lemma sample_pool_activates:
  "fst (activate (TunnelSlot 0) (fold pool_step sample_events (pool_new sample_config))) = Inr sample_tunnel"
  by (simp add: sample_events_def pool_new_def register_outbound_with_material_def next_slot_def registration_new_def
      sample_tunnel_def sample_hops_def into_extracted_def find_by_tunnel_id_def established_count_def sample_config_def
      note_build_failure_def count_failure_def Let_def activate_def pool_get_def entry_new_def into_established_tunnel_def
      bt_values_def word_sat_add_def bt_get_def MAX_HOPS_PER_TUNNEL_def)

definition sample_pool_events :: "PoolEvent list" where
  "sample_pool_events =
     [EvRegisterOutbound (into_extracted sample_tunnel) 5,
      EvRegisterInbound (into_extracted (sample_inbound_tunnel\<lparr>et_creator_tunnel_id := TunnelId 8\<rparr>)) 100]"

lemma sample_pool_sides:
  defines "pool \<equiv> fold pool_step sample_pool_events (pool_new sample_config)"
  shows "ep_next_slot pool \<noteq> - 1"
    "\<exists>e. ep_inbound pool = [(TunnelSlot 1, e)] \<and> reg_created_at_seconds (te_registration e) = 100"
    "\<exists>e. ep_outbound pool = [(TunnelSlot 0, e)] \<and> reg_created_at_seconds (te_registration e) = 5"
  by (simp_all add: pool_def sample_pool_events_def pool_new_def register_outbound_with_material_def
      register_inbound_with_material_def next_slot_def registration_new_def sample_inbound_tunnel_def
      sample_tunnel_def sample_hops_def into_extracted_def find_by_tunnel_id_def established_count_def sample_config_def
      Let_def entry_new_def bt_values_def word_sat_add_def bt_get_def MAX_HOPS_PER_TUNNEL_def)

definition sample_inbound_hops :: "EstablishedHop list" where
  "sample_inbound_hops =
     [hop_with_next (sample_peer 1) InboundGateway (TunnelId 0x300) (sample_layer_keys 0x20)
        \<lparr>nh_router = sample_peer 2, nh_tunnel = TunnelId 0x500\<rparr>,
      hop_with_next (sample_peer 2) Participant (TunnelId 0x500) (sample_layer_keys 0x21)
        \<lparr>nh_router = sample_peer 3, nh_tunnel = TunnelId 0x400\<rparr>]"

definition sample_registry_events :: "RegistryEvent list" where
  "sample_registry_events = [EvActivateOutbound (TunnelSlot 0) sample_tunnel 100]"

definition sample_two_roles :: "RegistryEvent list" where
  "sample_two_roles =
     [EvActivateOutbound (TunnelSlot 0) sample_tunnel 100,
      EvActivateInbound (TunnelSlot 1) sample_inbound_tunnel 8 100000 5000 0 100]"

lemma sample_two_roles_bound:
  defines "r \<equiv> fold registry_step sample_two_roles (registry_new \<lparr>dpc_outbound = 2, dpc_inbound = 2\<rparr>)"
  shows "registry_outbound r (TunnelSlot 0) = Some sample_gateway" "registry_outbound r (TunnelSlot 1) = None"
    "inbound_slot r t = (if t = TunnelId 0x400 then Some (TunnelSlot 1) else None)"
    "registry_inbound r (TunnelId 0x400) = Some sample_local_endpoint"
    "inbound_first_hop r (TunnelId 0x400) = Some (peer_hash (sample_peer 1))"
    "inbound_gateway_route r (TunnelId 0x400) \<noteq> None"
  by (simp_all add: r_def sample_two_roles_def activate_outbound_def activate_inbound_def registry_new_def Let_def
      sample_tunnel_def sample_inbound_tunnel_def bt_contains_def bt_get_def registry_outbound_def inbound_slot_def
      registry_inbound_def inbound_first_hop_def inbound_gateway_route_def sample_gateway_def sample_local_endpoint_def)

end
