(* ===== verification/Tunnel_Properties.thy ===== *)
theory Tunnel_Properties
  imports Tunnel_Samples
begin

section \<open>Properties of the tunnel data plane\<close>

text \<open>
  What the tunnel components promise their callers, from the delivery of messages through whole
  tunnels down to the single parts. Each property that has hypotheses is followed by a witness at a
  concrete input.
\<close>

subsection \<open>Delivery\<close>

text \<open>
  C1. An outbound tunnel delivers what its gateway sends. Take the cells the gateway builds for a
  message, pass each through the participants of the path, and hand the results to the endpoint in
  any order: every cell but the last yields no action, and the last yields the action the delivery
  instruction asks for, on the message as it went in. The endpoint must hold the keys of the last
  hop, still be usable, have seen none of the cells, have room in its duplicate window, and, for a
  message of several cells, room in its reassembler.
\<close>

theorem outbound_tunnel_delivers:
  assumes "aes_inverse aes" "rng_fills fill" "digest_wide sha256" "delivery_valid (tph_delivery header)"
    and "forward_cells aes sha256 fill gw header msg now rng = (Inr dlvs, rng')"
    and "outbound_path (et_hops (og_established gw)) ps role"
    and "relay_all aes now (map ob_cell dlvs) ps = (Inr outs, ps')"
    and "distinct order" "set order = {..<length outs}"
    and "oe_is_usable now role"
    and "\<forall>out\<in>set outs. \<not> duplicate_contains (cell_token out) (oe_duplicates role)"
    and "distinct (map cell_token outs)"
    and "length (dw_tokens (oe_duplicates role)) + length outs \<le> dw_capacity (oe_duplicates role)"
    and "\<not> one_cell (tph_delivery header) msg \<Longrightarrow>
      ready (set_now now (oe_reassembler role))
        (ReassemblyKey (tunnel_id_get (oe_receive_tunnel role)) (tph_message_id header))
        (message_bodies (tph_delivery header) msg)"
  shows "fst (endpoint_run aes sha256 prev now (map (nth outs) order) role) =
    replicate (length outs - 1) (Inr None)
      @ [map_sum id Some (action_from_delivery (tph_delivery header) msg
           (if one_cell (tph_delivery header) msg then 0 else tph_message_id header) 0)]"
  using assms by (rule outbound_delivery)

theorem outbound_tunnel_delivers_witness:
  "fst (endpoint_run sample_aes sample_digest (peer_hash (sample_peer 8)) 0 (map (nth [sample_out]) [0]) sample_endpoint) =
     [Inr (Some \<lparr>ra_target_router = Hash (replicate 32 9), ra_kind = KindRouter, ra_tunnel_id = None,
        ra_message = [1, 2, 3], ra_message_id = 0, ra_expiration_ms = 0\<rparr>)]"
proof -
  obtain ps where relay: "relay_all sample_aes 0
      (map ob_cell [og_deliver sample_aes sample_gateway (replicate 16 1) sample_payload])
      [(peer_hash (sample_peer 8), sample_participant)] = (Inr [sample_out], ps)"
    using sample_relay by (auto simp: sample_cell_def)
  have valid: "delivery_valid (tph_delivery sample_header)" "one_cell (tph_delivery sample_header) [1, 2, 3]"
    by (simp_all add: sample_header_def hash_valid_def one_cell_def)
  have role: "oe_is_usable 0 sample_endpoint" "dw_tokens (oe_duplicates sample_endpoint) = []"
    "dw_capacity (oe_duplicates sample_endpoint) = 16"
    by (simp_all add: sample_endpoint_def outbound_endpoint_new_def oe_is_usable_def duplicate_window_new_def layer_limits)
  show ?thesis
    using outbound_tunnel_delivers [OF sample_aes_inverse sample_rng_fills sample_digest_wide valid(1) sample_forward
        sample_path relay, of "[0]"] valid role
    by (simp add: duplicate_contains_def lessThan_Suc) (simp add: sample_header_def)
qed

text \<open>
  C2. An inbound tunnel delivers what its gateway is given: the cells the gateway builds for the
  inner message, passed through the participants and handed to the local endpoint in any order,
  yield nothing until the last one and then the message, byte for byte.
\<close>

theorem inbound_tunnel_delivers:
  assumes "aes_inverse aes" "rng_fills fill" "digest_wide sha256"
    and "process_cells aes sha256 fill next_u32 encode_standard gateway now (gw, rng) = (Inr ocs, s')"
    and "encode_standard (tg_message gateway) = Some inner"
    and "inbound_path (li_established role) gw ps"
    and "relay_all aes now (map oc_cell ocs) ps = (Inr outs, ps')"
    and "distinct order" "set order = {..<length outs}"
    and "li_is_usable now role"
    and "\<not> one_cell DeliverLocal inner \<Longrightarrow>
      ready (set_now now (li_reassembler role))
        (ReassemblyKey (tunnel_id_get (local_receive_tunnel role)) (fst (claim_fragment_id next_u32 (gw, rng))))
        (message_bodies DeliverLocal inner)"
  shows "fst (local_run aes sha256 prev now (map (nth outs) order) role) =
    replicate (length outs - 1) (Inr None) @ [Inr (Some inner)]"
  using assms by (rule inbound_delivery)

theorem inbound_tunnel_delivers_witness:
  "\<exists>ocs s. process_cells sample_aes sample_digest sample_fill (\<lambda>_. (5, ())) Some
       \<lparr>tg_tunnel_id = 0x300, tg_message = replicate 3000 7\<rparr> 0 (sample_inbound_gateway, ()) = (Inr ocs, s)
     \<and> 1 < length ocs
     \<and> fst (local_run sample_aes sample_digest (peer_hash (sample_peer 1)) 0
              (map (nth (map oc_cell ocs)) (rev [0..<length ocs])) sample_local_endpoint) =
         replicate (length ocs - 1) (Inr None) @ [Inr (Some (replicate 3000 7))]"
proof -
  have many: "\<not> one_cell DeliverLocal (replicate 3000 7)" by (simp add: one_cell_def)
  have "ig_guard \<lparr>tg_tunnel_id = 0x300, tg_message = replicate 3000 7 :: bytes\<rparr> 0 sample_inbound_gateway = Inr ()"
    by (simp add: ig_guard_def sample_inbound_gateway_def ig_is_usable_def
        tunnel_id_new_def sample_inbound_tunnel_def hop_with_next_def)
  moreover obtain mid gw' where "claim_fragment_id (\<lambda>_. (5, ())) (sample_inbound_gateway, ()) = (mid, gw', ())"
    by (metis (full_types) old.unit.exhaust surj_pair)
  ultimately obtain ocs s where run: "process_cells sample_aes sample_digest sample_fill (\<lambda>_. (5, ())) Some
       \<lparr>tg_tunnel_id = 0x300, tg_message = replicate 3000 7\<rparr> 0 (sample_inbound_gateway, ()) = (Inr ocs, s)" "1 < length ocs"
    using process_cells_outcome [OF sample_rng_fills, of "\<lparr>tg_tunnel_id = 0x300, tg_message = replicate 3000 7\<rparr>" 0 sample_inbound_gateway
        Some "replicate 3000 7" "\<lambda>_. (5, ())" "()" mid gw' "()" sample_aes sample_digest]
      message_bodies_facts(2) [OF many] many sample_randomness
    by (cases "process_cells sample_aes sample_digest sample_fill (\<lambda>_. (5, ())) Some
       \<lparr>tg_tunnel_id = 0x300, tg_message = replicate 3000 7\<rparr> 0 (sample_inbound_gateway, ())")
      (auto simp: data_limits split: sum.splits)
  have path: "inbound_path (li_established sample_local_endpoint) sample_inbound_gateway []"
    by (simp add: inbound_path_def sample_local_endpoint_def local_inbound_new_def sample_inbound_gateway_def
        sample_inbound_tunnel_def hop_with_next_def)
  have "li_is_usable 0 sample_local_endpoint"
    by (simp add: li_is_usable_def sample_local_endpoint_def local_inbound_new_def sample_inbound_tunnel_def)
  then have "fst (local_run sample_aes sample_digest (peer_hash (sample_peer 1)) 0
              (map (nth (map oc_cell ocs)) (rev [0..<length ocs])) sample_local_endpoint) =
         replicate (length (map oc_cell ocs) - 1) (Inr None) @ [Inr (Some (replicate 3000 7))]"
    by (intro inbound_tunnel_delivers [OF sample_aes_inverse sample_rng_fills sample_digest_wide run(1) _ path relay_all_direct])
      (auto simp: sample_inbound_ready)
  with run show ?thesis by (intro exI [of _ ocs] exI [of _ s]) simp
qed

text \<open>
  C9. A usable gateway sends every message it may be asked to send, unless the random generator
  fails. For a valid remote delivery instruction, a nonzero message identifier and a message of at
  most the maximal size, the gateway either returns the cells of the message, one for each fragment,
  or reports an event of the generator that really happened, in a state the generator reached by
  serving requests: a request it did not serve, or 32 zero bytes drawn in a row while one padding
  byte was replaced. Nothing else stops it; in particular the total number of padding attempts never
  runs out before the attempts for one byte do.
\<close>

theorem gateway_fails_only_on_randomness:
  assumes "rng_fills fill" "og_is_usable now gw" "delivery_valid (tph_delivery header)"
    "tph_delivery header \<noteq> DeliverLocal" "tph_message_id header \<noteq> 0" "msg \<noteq> []"
    "length msg \<le> MAX_TUNNEL_MESSAGE_PAYLOAD_BYTES"
  shows "case fst (forward_cells aes sha256 fill gw header msg now rng) of
      Inr dlvs \<Rightarrow> length dlvs = (if one_cell (tph_delivery header) msg then 1
        else length (message_bodies (tph_delivery header) msg))
    | Inl e \<Rightarrow> \<exists>s. (draws fill)\<^sup>*\<^sup>* rng s
        \<and> (e = RoleTunnelMessage RandomnessUnavailable \<and> (\<exists>n. fill s n = None)
           \<or> (\<exists>attempts. e = RoleTunnelMessage (PaddingRetryExhausted attempts)) \<and> zero_run fill 32 s)"
proof -
  obtain q rng' where q: "forward_cells aes sha256 fill gw header msg now rng = (q, rng')" by force
  with draws_or_failsD(2) [OF forward_cells_draws(1) [OF assms] q] forward_cells_draws(2) [OF assms] show ?thesis
    by (cases q) (auto simp: randomness_failed_def)
qed

theorem gateway_fails_only_on_randomness_witness:
  "\<exists>dlvs. fst (forward_cells sample_aes sample_digest sample_fill sample_gateway sample_header (replicate 5000 7) 0 ()) = Inr dlvs
     \<and> length dlvs = length (message_bodies (tph_delivery sample_header) (replicate 5000 7))"
proof -
  let ?run = "fst (forward_cells sample_aes sample_digest sample_fill sample_gateway sample_header (replicate 5000 7) 0 ())"
  have "\<not> one_cell (tph_delivery sample_header) (replicate 5000 7)" by (simp add: one_cell_def sample_header_def)
  moreover have "og_is_usable 0 sample_gateway" "delivery_valid (tph_delivery sample_header)"
    "tph_delivery sample_header \<noteq> DeliverLocal" "tph_message_id sample_header \<noteq> 0"
    by (simp_all add: og_is_usable_def sample_gateway_def sample_header_def hash_valid_def)
  ultimately show ?thesis
    using gateway_fails_only_on_randomness [OF sample_rng_fills, of 0 sample_gateway sample_header "replicate 5000 7" "()" sample_aes sample_digest]
      sample_randomness [of "()" RandomnessUnavailable] sample_randomness [of "()" "PaddingRetryExhausted a" for a]
    by (cases ?run) (auto simp: data_limits randomness_failed_def sample_fill_def)
qed

subsection \<open>Reassembly\<close>

text \<open>
  C5. The fragments of a message complete it in any order: each insertion but the last returns
  nothing, the last returns the bodies joined in sequence order with the delivery instruction of
  the first fragment, and the reassembler is then as it was before the first insertion.
\<close>

theorem reassembly_any_order:
  assumes "ready r key bodies" "message_id \<noteq> 0" "distinct order" "set order = {..<length bodies}"
  shows "insert_all key (fragments_in_order message_id bodies delivery order) r =
    (replicate (length bodies - 1) (Inr None)
       @ [Inr (Some \<lparr>rf_message = concat bodies, rf_delivery = delivery\<rparr>)], r)"
  using assms by (rule insert_all_any_order)

theorem reassembly_any_order_witness:
  "insert_all (ReassemblyKey 1 2)
     (fragments_in_order 2 [[1, 2], [3], [4, 5]] (Some DeliverLocal) [2, 0, 1]) (reassembler_new 8 100000 5000 0) =
   ([Inr None, Inr None, Inr (Some \<lparr>rf_message = [1, 2, 3, 4, 5], rf_delivery = Some DeliverLocal\<rparr>)],
    reassembler_new 8 100000 5000 0)"
proof -
  have "ready (reassembler_new 8 100000 5000 0) (ReassemblyKey 1 2) [[1, 2], [3], [4, 5]]"
    by (simp add: ready_def reassembler_wf_new) (simp add: reassembler_new_def reassembly_limits)
  from reassembly_any_order [OF this, of 2 "[2, 0, 1]" "Some DeliverLocal"] show ?thesis
    by (simp add: numeral_2_eq_2 numeral_3_eq_3 lessThan_Suc insert_commute)
qed

text \<open>
  C8. The memory of a reassembler is bounded whatever arrives: after any sequence of insertions,
  clock updates, expiries and purges it holds at most 1024 partial messages and at most its
  configured number of bytes, the byte counter is the exact sum over the partial messages, and each
  partial message holds at most 64 fragments within the limit of one message.
\<close>

theorem reassembler_bounded:
  "let r = fold reassembler_step events (reassembler_new capacity maximum expiry_ms now_ms) in
     length (br_partials r) \<le> min capacity MAX_REASSEMBLY_MESSAGES
     \<and> br_aggregate_bytes r = (\<Sum>p\<leftarrow>bt_values (br_partials r). pm_bytes p)
     \<and> br_aggregate_bytes r \<le> min maximum MAX_REASSEMBLY_AGGREGATE_BYTES
     \<and> list_all (\<lambda>p. length (pm_received p) \<le> 64
          \<and> pm_bytes p = (\<Sum>body\<leftarrow>bt_values (pm_received p). length body)
          \<and> pm_bytes p \<le> MAX_REASSEMBLY_BYTES_PER_MESSAGE) (bt_values (br_partials r))"
proof -
  let ?new = "reassembler_new capacity maximum expiry_ms now_ms"
  define r where "r = fold reassembler_step events ?new"
  have "reassembler_wf r" unfolding r_def by (rule reassembler.run_inv [OF reassembler_wf_new])
  moreover have "br_capacity r = br_capacity ?new" "br_aggregate_bytes_max r = br_aggregate_bytes_max ?new"
    unfolding r_def by (rule reassembler_run_limits)+
  ultimately show ?thesis
    using reassembler_wf_partials [of r]
    unfolding Let_def r_def [symmetric] reassembler_wf_def
    by (simp add: bt_sum_values reassembler_new_def)
qed

subsection \<open>Fragmentation\<close>

text \<open>
  C11. Fragmentation is the division of the message: the delivery instruction, the size
  and the message identifier are checked in this order, each with its error; a message that fits in a
  cell with the instruction is one unfragmented record; any other message is the first fragment,
  as large as the cell allows, followed by pieces of 996 bytes numbered from 1, the last flagged.
\<close>

theorem fragmentation_divides:
  "fragment_complete_message delivery message_id msg =
     (case validate_delivery delivery of Inl e \<Rightarrow> Inl e | Inr _ \<Rightarrow>
      if msg = [] then Inl EmptyMessage
      else if length msg > MAX_TUNNEL_MESSAGE_PAYLOAD_BYTES
      then Inl (TunnelMessageTooLarge (length msg) MAX_TUNNEL_MESSAGE_PAYLOAD_BYTES)
      else if message_id = 0 then Inl ZeroMessageId
      else Inr (if one_cell delivery msg then [\<lparr>fd_delivery = Some delivery, fd_fragment = Unfragmented msg\<rparr>]
                else map (nth_record message_id (message_bodies delivery msg) delivery)
                       [0..<length (message_bodies delivery msg)]))"
proof (cases "validate_delivery delivery")
  case (Inl e)
  then show ?thesis by (simp add: fragment_complete_message_def)
next
  case (Inr u)
  then have "validate_delivery delivery = Inr ()" by simp
  from fragment_complete_message_eq [OF this, of message_id msg] this show ?thesis
    by (auto simp: fragment_complete_message_def not_le)
qed

text \<open>
  C12. Every fragment fits: the records of a message are at most 64, their bodies joined are the
  message, and each encodes to bytes that leave room for the checksum and the delimiter in a cell.
\<close>

theorem fragments_fit:
  assumes "delivery_valid d" "mid \<noteq> 0" "msg \<noteq> []" "length msg \<le> MAX_TUNNEL_MESSAGE_PAYLOAD_BYTES"
  shows "\<exists>rs. fragment_complete_message d mid msg = Inr rs \<and> rs \<noteq> [] \<and> length rs \<le> 64
    \<and> concat (map (\<lambda>r. fragment_body (fd_fragment r)) rs) = msg
    \<and> list_all (\<lambda>r. \<exists>bs. encode_record r = Inr bs \<and> length bs + CHECKSUM_LEN + 1 \<le> MAX_PLAINTEXT_DATA_BYTES) rs"
proof -
  obtain rs where rs: "fragment_complete_message d mid msg = Inr rs" "rs \<noteq> []" "length rs \<le> 64"
    using fragment_complete_message_succeeds [OF assms] by metis
  moreover have "concat (map (\<lambda>r. fragment_body (fd_fragment r)) rs) = msg"
    using rs(1) fragment_complete_message_eq [OF delivery_valid_validate [OF assms(1)] assms(2-4)]
      message_bodies_facts(1) [of d msg] assms(4)
    by (cases "one_cell d msg") (auto simp: nth_record_def comp_def map_nth)
  moreover have "list_all (\<lambda>r. \<exists>bs. encode_record r = Inr bs \<and> length bs + CHECKSUM_LEN + 1 \<le> MAX_PLAINTEXT_DATA_BYTES) rs"
    using fragment_record_ok [OF assms rs(1)] by (simp add: list_all_iff)
  ultimately show ?thesis by blast
qed

theorem fragments_fit_witness:
  "\<exists>rs. fragment_complete_message DeliverLocal 5 (replicate 60000 7) = Inr rs \<and> rs \<noteq> [] \<and> length rs \<le> 64
    \<and> concat (map (\<lambda>r. fragment_body (fd_fragment r)) rs) = replicate 60000 7
    \<and> list_all (\<lambda>r. \<exists>bs. encode_record r = Inr bs \<and> length bs + CHECKSUM_LEN + 1 \<le> MAX_PLAINTEXT_DATA_BYTES) rs"
  by (rule fragments_fit) (simp_all add: data_limits)

subsection \<open>Payloads\<close>

text \<open>
  C10. The parser accepts exactly what a builder can write: a payload of at least the checksum's
  length parses to the records if and only if it is the checksum, padding without a zero byte, the
  zero delimiter, and the encodings of valid records in an order the parser allows. No two byte
  strings after the padding stand for the same records, and nothing else is accepted. A payload
  without any record is accepted too, although the layout is documented with at least one.
\<close>

theorem parser_accepts_layout:
  assumes "digest_wide sha256" "CHECKSUM_LEN \<le> length payload"
  shows "parse_payload sha256 iv payload = Inr records \<longleftrightarrow>
    (\<exists>padding encs. payload = payload_layout sha256 iv padding (concat encs) \<and> 0 \<notin> set padding
       \<and> list_all2 encodes_to records encs \<and> records_ordered 0 False records)"
proof
  assume "parse_payload sha256 iv payload = Inr records"
  with assms obtain padding encs where "payload = payload_layout sha256 iv padding (concat encs)"
    "0 \<notin> set padding" "list_all2 encodes_to records encs" "records_ordered 0 False records"
    by (rule parse_payload_sound)
  then show "\<exists>padding encs. payload = payload_layout sha256 iv padding (concat encs)
      \<and> 0 \<notin> set padding \<and> list_all2 encodes_to records encs \<and> records_ordered 0 False records"
    by (intro exI conjI)
next
  assume "\<exists>padding encs. payload = payload_layout sha256 iv padding (concat encs)
      \<and> 0 \<notin> set padding \<and> list_all2 encodes_to records encs \<and> records_ordered 0 False records"
  then show "parse_payload sha256 iv payload = Inr records"
    by (elim exE conjE) (simp add: parse_payload_layout [OF assms(1)])
qed

theorem parser_accepts_layout_witness:
  "parse_payload sample_digest (replicate 16 1) sample_payload = Inr [sample_record]"
proof -
  have "list_all2 encodes_to [sample_record] [sample_body]" "records_ordered 0 False [sample_record]"
    using sample_encode by (simp_all add: sample_record_def record_valid_def hash_valid_def)
  then have "\<exists>padding encs. sample_payload = payload_layout sample_digest (replicate 16 1) padding (concat encs)
      \<and> 0 \<notin> set padding \<and> list_all2 encodes_to [sample_record] encs \<and> records_ordered 0 False [sample_record]"
    by (intro exI [of _ "replicate 965 1"] exI [of _ "[sample_body]"]) (simp add: sample_payload_def)
  with parser_accepts_layout [OF sample_digest_wide, of sample_payload "replicate 16 1" "[sample_record]"] show ?thesis
    by (simp add: sample_payload_length data_limits)
qed

text \<open>
  C13. What the builder packs the parser returns: a payload packed for a valid record fills the cell
  and parses to that record, whatever padding the generator drew.
\<close>

theorem packed_payload_parses:
  assumes "rng_fills fill" "digest_wide sha256" "record_valid record"
    "pack_payload sha256 fill record iv rng = (Inr payload, rng')"
  shows "length payload = MAX_PLAINTEXT_DATA_BYTES \<and> parse_payload sha256 iv payload = Inr [record]"
  using assms by (rule pack_payload_parse)

theorem packed_payload_parses_witness:
  "length sample_payload = MAX_PLAINTEXT_DATA_BYTES
     \<and> parse_payload sample_digest (replicate 16 1) sample_payload = Inr [sample_record]"
proof -
  have "pack_payload sample_digest sample_fill sample_record (replicate 16 1) () = (Inr sample_payload, ())"
    using sample_pack [OF sample_encode, of "replicate 16 1"] by (simp add: sample_payload_def sample_body_def)
  moreover have "record_valid sample_record" by (simp add: sample_record_def record_valid_def hash_valid_def)
  ultimately show ?thesis using packed_payload_parses [OF sample_rng_fills sample_digest_wide] by blast
qed

subsection \<open>Participants\<close>

text \<open>
  C14. A participant forwards a cell at most once and serves one predecessor: after it has forwarded
  a cell for a peer, and after any further cells from anyone, it refuses that cell, and it forwards
  no other cell for any other peer.
\<close>

theorem participant_no_replay:
  assumes "window_wf (pt_duplicates p)"
    and "participant_process aes prev cell now p = (Inr out, p')"
    and "participant_process aes prev' cell' now' (fold (participant_step aes) events p') = (Inr out', p'')"
  shows "cell_token cell' \<noteq> cell_token cell \<and> prev' = prev"
proof -
  have "prev' = prev" using participant_locked_peer [OF assms(2,1,3)] .
  moreover have "cell_token cell' \<noteq> cell_token cell"
  proof
    assume same: "cell_token cell' = cell_token cell"
    have "{cell_token cell} \<subseteq> set (dw_tokens (pt_duplicates p'))" "window_wf (pt_duplicates p')"
      using assms(2) participant_process_frame(5) [OF assms(2,1)] by (auto simp: participant_process_iff)
    then have "cell_token cell \<in> set (dw_tokens (pt_duplicates (fold (participant_step aes) events p')))"
      using participant.run_inv [of p' "{cell_token cell}" "pt_receive_tunnel p'" "pt_layer_keys p'" "pt_next p'" None aes events]
      by simp
    with assms(3) same show False by (auto simp: participant_process_iff duplicate_contains_def)
  qed
  ultimately show ?thesis by simp
qed

theorem participant_no_replay_witness:
  "\<exists>out p' out' p''.
     participant_process sample_aes (peer_hash (sample_peer 8)) sample_first_cell 0 sample_participant = (Inr out, p')
     \<and> participant_process sample_aes (peer_hash (sample_peer 8)) sample_second_cell 0
         (fold (participant_step sample_aes) [ReceiveCell (peer_hash (sample_peer 9)) sample_first_cell 0] p') = (Inr out', p'')
     \<and> cell_token sample_second_cell \<noteq> cell_token sample_first_cell"
proof -
  let ?h = "peer_hash (sample_peer 8)"
  have t: "cell_token sample_first_cell = DuplicateToken (replicate 16 1)"
    "cell_token sample_second_cell = DuplicateToken (replicate 16 2)"
    "td_tunnel_id sample_first_cell = 0x100" "td_tunnel_id sample_second_cell = 0x100"
    by (simp_all add: cell_token_def sample_first_cell_def sample_second_cell_def layer_limits
        token_compute_def list_eq_iff_nth_eq)
  obtain out p' where 1: "participant_process sample_aes ?h sample_first_cell 0 sample_participant = (Inr out, p')"
    "pt_locked_previous_peer p' = Some ?h" "pt_expires_at_ms p' = 100" "pt_receive_tunnel p' = TunnelId 0x100"
    "pt_duplicates p' = \<lparr>dw_capacity = 16, dw_tokens = [cell_token sample_first_cell]\<rparr>"
    using t by (cases "forward_step sample_aes (sample_layer_keys 0x10) (split_cell sample_first_cell)")
      (simp add: participant_process_iff sample_participant_def duplicate_window_new_def
        duplicate_contains_def layer_limits)
  have 2: "participant_step sample_aes (ReceiveCell (peer_hash (sample_peer 9)) sample_first_cell 0) p' = p'"
    using 1 t by (simp add: participant_process_run check_cell_id_def tunnel_id_new_def sample_peer_def)
  obtain out' p'' where 3: "participant_process sample_aes ?h sample_second_cell 0 p' = (Inr out', p'')"
    using 1 t by (cases "forward_step sample_aes (pt_layer_keys p') (split_cell sample_second_cell)")
      (simp add: participant_process_iff duplicate_contains_def)
  have "window_wf (pt_duplicates sample_participant)" by (simp add: sample_participant_def)
  from participant_no_replay [OF this 1(1), of ?h sample_second_cell 0
      "[ReceiveCell (peer_hash (sample_peer 9)) sample_first_cell 0]" out' p''] 1 2 3
  show ?thesis by (metis fold_simps)
qed

text \<open>
  C15. The duplicate window bounds the life of a participant: of any sequence of cells, a
  participant forwards at most as many as its window holds, which is at most 1024. The window is
  never cleared, so a participant whose window is full forwards nothing more.
\<close>

theorem participant_lifetime_bound:
  "length (filter forwarded (participant_answers aes events
      (p\<lparr>pt_duplicates := duplicate_window_new capacity\<rparr>))) \<le> min capacity MAX_DUPLICATE_WINDOW"
  using participant_answers_bound [of "p\<lparr>pt_duplicates := duplicate_window_new capacity\<rparr>" aes events]
  by (simp add: window_wf_def duplicate_window_new_def min.commute)

subsection \<open>Tunnels, pool and registry\<close>

text \<open>
  C16. The constructor of established tunnels accepts exactly the following ones: between one and
  eight hops; for an inbound tunnel the first hop is the gateway that was named, every hop has a
  successor and the last one sends to the local receive identifier; for an outbound tunnel the last
  hop is the endpoint, it alone has no successor, and no gateway is named. Its comments also describe
  the remaining hops as participants, which the code does not check: giving any role to a hop other
  than the first of an inbound or the last of an outbound tunnel does not change the outcome.
\<close>

theorem established_tunnel_new_exact:
  "(established_tunnel_new direction creator hops created gateway receive = Inr tunnel \<longleftrightarrow>
     tunnel_wf tunnel \<and> direction = et_direction tunnel \<and> creator = et_creator_tunnel_id tunnel
     \<and> hops = et_hops tunnel \<and> created = et_created_at_seconds tunnel
     \<and> gateway = (if direction = Inbound then Some (et_inbound_gateway tunnel) else None)
     \<and> receive = (if direction = Inbound then Some (et_local_inbound_receive tunnel) else None))
   \<and> (\<forall>i role. (case direction of Inbound \<Rightarrow> 0 < i | Outbound \<Rightarrow> i \<noteq> length hops - 1) \<longrightarrow>
        (let hops' = hops[i := (hops ! i)\<lparr>hop_role := role\<rparr>] in
         established_tunnel_new direction creator hops' created gateway receive =
           map_sum id (\<lambda>t. t\<lparr>et_hops := hops'\<rparr>) (established_tunnel_new direction creator hops created gateway receive)))"
  using established_tunnel_new_wf [of direction creator hops created gateway receive tunnel]
    established_tunnel_new_fields [of direction creator hops created gateway receive tunnel]
    established_tunnel_new_complete [of tunnel]
  unfolding Let_def by (intro conjI allI impI established_tunnel_new_role) auto

theorem established_tunnel_new_exact_witness:
  "\<exists>tunnel. established_tunnel_new Inbound (TunnelId 7)
      (sample_inbound_hops[1 := (sample_inbound_hops ! 1)\<lparr>hop_role := OutboundEndpoint\<rparr>]) 0
      (Some (sample_peer 1, TunnelId 0x300)) (Some (TunnelId 0x400)) = Inr tunnel
     \<and> map hop_role (et_hops tunnel) = [InboundGateway, OutboundEndpoint] \<and> tunnel_wf tunnel"
proof -
  let ?new = "\<lambda>hops. established_tunnel_new Inbound (TunnelId 7) hops 0 (Some (sample_peer 1, TunnelId 0x300)) (Some (TunnelId 0x400))"
  let ?tunnel = "sample_inbound_tunnel\<lparr>et_hops := sample_inbound_hops\<rparr>"
  let ?hops = "sample_inbound_hops[1 := (sample_inbound_hops ! 1)\<lparr>hop_role := OutboundEndpoint\<rparr>]"
  have "?new sample_inbound_hops = Inr ?tunnel"
    using established_tunnel_new_exact [of Inbound "TunnelId 7" sample_inbound_hops 0 "Some (sample_peer 1, TunnelId 0x300)" "Some (TunnelId 0x400)" ?tunnel]
    by (simp add: tunnel_wf_def sample_inbound_tunnel_def sample_inbound_hops_def hop_with_next_def hop_next_tunnel_def)
  then have new: "?new ?hops = Inr (?tunnel\<lparr>et_hops := ?hops\<rparr>)"
    using established_tunnel_new_exact [of Inbound "TunnelId 7" sample_inbound_hops 0 "Some (sample_peer 1, TunnelId 0x300)" "Some (TunnelId 0x400)" ?tunnel]
    by (simp add: Let_def)
  then have "tunnel_wf (?tunnel\<lparr>et_hops := ?hops\<rparr>)" by (simp add: established_tunnel_new_exact)
  with new show ?thesis by (intro exI [of _ "?tunnel\<lparr>et_hops := ?hops\<rparr>"]) (simp add: sample_inbound_hops_def hop_with_next_def)
qed

text \<open>
  C17. Whatever registrations, expiries, failures, removals and activations a pool goes through, as
  long as its slot counter has not reached its last value: each direction holds at most its
  configured number of tunnels, all of them established with at most eight hops, and no tunnel
  identifier and no slot occurs twice, in either direction or across both.
\<close>

theorem pool_stays_bounded:
  assumes "ep_next_slot (fold pool_step events (pool_new config)) \<noteq> - 1"
  shows "let pool = fold pool_step events (pool_new config) in
    length (ep_inbound pool) \<le> unat (pc_max_inbound config)
    \<and> length (ep_outbound pool) \<le> unat (pc_max_outbound config)
    \<and> list_all (\<lambda>e. reg_direction (te_registration e) = Inbound \<and> reg_state (te_registration e) = Established
         \<and> length (reg_hops (te_registration e)) \<le> 8) (bt_values (ep_inbound pool))
    \<and> list_all (\<lambda>e. reg_direction (te_registration e) = Outbound \<and> reg_state (te_registration e) = Established
         \<and> length (reg_hops (te_registration e)) \<le> 8) (bt_values (ep_outbound pool))
    \<and> distinct (map (\<lambda>e. reg_tunnel_id (te_registration e)) (bt_values (ep_inbound pool) @ bt_values (ep_outbound pool)))
    \<and> distinct (bt_keys (ep_inbound pool) @ bt_keys (ep_outbound pool))"
proof -
  let ?pool = "fold pool_step events (pool_new config)"
  have "ep_config ?pool = config" "pool_wf ?pool"
    using pool_run_wf [OF assms] by simp_all
  then have w: "side_wf Inbound (pc_max_inbound config) (ep_next_slot ?pool) (ep_inbound ?pool)"
    "side_wf Outbound (pc_max_outbound config) (ep_next_slot ?pool) (ep_outbound ?pool)" "pool_wf ?pool"
    by (simp_all add: pool_wf_def)
  moreover have "length (ep_inbound ?pool) \<le> unat (pc_max_inbound config)"
    "length (ep_outbound ?pool) \<le> unat (pc_max_outbound config)"
    using w(1,2) unfolding side_wf_def by blast+
  ultimately show ?thesis
    using side_values(1) [OF w(1)] side_values(1) [OF w(2)] pool_wf_values [OF w(3) assms]
    unfolding Let_def by blast
qed

theorem pool_stays_bounded_witness:
  "let pool = fold pool_step sample_events (pool_new sample_config) in
     length (ep_outbound pool) \<le> 2 \<and> distinct (bt_keys (ep_inbound pool) @ bt_keys (ep_outbound pool))"
  using pool_stays_bounded [of sample_events sample_config] sample_events_slots
  by (simp add: Let_def sample_config_def)

text \<open>
  C19. Expiry removes exactly the tunnels that are due: advancing the clock of a reachable pool
  returns the slots whose tunnels were created at least the configured lifetime ago, the inbound ones
  first and each direction in slot order. An entry is in the new pool exactly when it was in the old
  one and is younger than the lifetime, and nothing but the two tables changes.
\<close>

theorem expiry_removes_due:
  assumes "pool = fold pool_step events (pool_new config)" "ep_next_slot pool \<noteq> - 1"
    "advance_time now pool = (removed, pool')"
  shows "let aged = \<lambda>e. unat (lifetime_seconds (pc_lifetime config))
           \<le> unat now - unat (reg_created_at_seconds (te_registration e)) in
    removed = map fst (filter (aged \<circ> snd) (ep_inbound pool)) @ map fst (filter (aged \<circ> snd) (ep_outbound pool))
    \<and> (\<forall>slot e. bt_get (ep_inbound pool') slot = Some e \<longleftrightarrow> bt_get (ep_inbound pool) slot = Some e \<and> \<not> aged e)
    \<and> (\<forall>slot e. bt_get (ep_outbound pool') slot = Some e \<longleftrightarrow> bt_get (ep_outbound pool) slot = Some e \<and> \<not> aged e)
    \<and> pool' = pool\<lparr>ep_inbound := ep_inbound pool', ep_outbound := ep_outbound pool'\<rparr>"
proof -
  have wf: "pool_wf pool" "ep_config pool = config" using pool_run_wf [of events config] assms(1,2) by simp_all
  then have sides: "side_wf Inbound (pc_max_inbound config) (ep_next_slot pool) (ep_inbound pool)"
    "side_wf Outbound (pc_max_outbound config) (ep_next_slot pool) (ep_outbound pool)"
    by (simp_all add: pool_wf_def)
  have "removed = due_slots config now (ep_inbound pool) @ due_slots config now (ep_outbound pool)"
    "pool' = pool\<lparr>ep_inbound := bt_retain (\<lambda>s e. \<not> entry_due config now e) (ep_inbound pool),
       ep_outbound := bt_retain (\<lambda>s e. \<not> entry_due config now e) (ep_outbound pool)\<rparr>"
    using assms(3) advance_time_eq [OF wf(1) assms(2), of now] wf(2) by simp_all
  then show ?thesis by (simp add: Let_def side_expiry [OF sides(1)] side_expiry [OF sides(2)])
qed

theorem expiry_removes_due_witness:
  "let pool = fold pool_step sample_pool_events (pool_new sample_config) in
     fst (advance_time 604 pool) = [] \<and> fst (advance_time 605 pool) = [TunnelSlot 0]
     \<and> fst (advance_time 699 pool) = [TunnelSlot 0] \<and> fst (advance_time 700 pool) = [TunnelSlot 1, TunnelSlot 0]"
proof -
  let ?pool = "fold pool_step sample_pool_events (pool_new sample_config)"
  obtain e f where s: "ep_next_slot ?pool \<noteq> - 1"
    "ep_inbound ?pool = [(TunnelSlot 1, e)]" "reg_created_at_seconds (te_registration e) = 100"
    "ep_outbound ?pool = [(TunnelSlot 0, f)]" "reg_created_at_seconds (te_registration f) = 5"
    using sample_pool_sides by blast
  note run = expiry_removes_due [OF refl s(1) prod.collapse [symmetric]]
  show ?thesis
    using run [of 604] run [of 605] run [of 699] run [of 700] s(2-5) by (simp add: Let_def sample_config_def)
qed

text \<open>
  C18. The key material of a tunnel leaves the pool at most once: after a slot of a reachable pool
  has been activated, no later activation of that slot succeeds, whatever happens in between, until
  the slot counter reaches its last value.
\<close>

theorem material_leaves_once:
  assumes "ep_next_slot (fold pool_step before (pool_new config)) \<noteq> - 1"
    and "activate slot (fold pool_step before (pool_new config)) = (Inr tunnel, pool)"
    and "ep_next_slot (fold pool_step later pool) \<noteq> - 1"
  shows "\<exists>e pool'. activate slot (fold pool_step later pool) = (Inl e, pool')"
  using activate_never_again [OF assms(1) _ assms(2,3)] pool_run_wf [OF assms(1)] by simp

theorem material_leaves_once_witness:
  "\<exists>pool e pool'. activate (TunnelSlot 0) (fold pool_step sample_events (pool_new sample_config)) = (Inr sample_tunnel, pool)
     \<and> activate (TunnelSlot 0) (fold pool_step [EvMarkEstablished (TunnelSlot 0)] pool) = (Inl e, pool')"
proof -
  let ?p = "fold pool_step sample_events (pool_new sample_config)"
  obtain pool where run: "activate (TunnelSlot 0) ?p = (Inr sample_tunnel, pool)"
    using sample_pool_activates by (cases "activate (TunnelSlot 0) ?p") auto
  have "ep_next_slot (fold pool_step [EvMarkEstablished (TunnelSlot 0)] pool) = 1"
    using other_frame(5) [of "TunnelSlot 0" ?p] run sample_events_slots by (simp add: other_frame)
  with material_leaves_once [OF _ run, of "[EvMarkEstablished (TunnelSlot 0)]"] sample_events_slots run
  show ?thesis by auto
qed

text \<open>
  C20. The reply path is the oldest live inbound tunnel: no path is selected exactly when no inbound
  tunnel is established and younger than the lifetime; otherwise the path is the first hop of such a
  tunnel, and none of the others was created before it.
\<close>

theorem reply_path_is_oldest:
  "let live = filter (\<lambda>e. reg_state (te_registration e) = Established
         \<and> unat now - unat (reg_created_at_seconds (te_registration e)) < unat (lifetime_seconds (pc_lifetime (ep_config pool))))
       (bt_values (ep_inbound pool)) in
   case select_inbound_reply_path pool now of
     None \<Rightarrow> live = []
   | Some path \<Rightarrow> (\<exists>e. e \<in> set live
       \<and> path = reply_path_new (ptr_first_hop_router (te_routing e)) (tunnel_id_get (ptr_first_hop_receive_tunnel (te_routing e)))
       \<and> list_all (\<lambda>f. reg_created_at_seconds (te_registration e) \<le> reg_created_at_seconds (te_registration f)) live)"
  using fold_older_best [of None "ep_config pool" now "bt_values (ep_inbound pool)"]
  by (auto simp: select_inbound_reply_path_def Let_def list_all_iff filter_empty_conv entry_live_age split: option.splits)

text \<open>
  C21. The views of the registry agree after any sequence of activations and removals: the published
  first hop of an outbound slot and the gateway route and first hop of an inbound receive identifier
  are those of the role stored there, a slot is bound to a receive identifier exactly when the
  identifier is bound to the slot, and the roles of each direction stay within the capacity.
\<close>

theorem registry_views_agree:
  "let r = fold registry_step events (registry_new capacity) in
     length (dr_outbound r) \<le> unat (dpc_outbound capacity) \<and> length (dr_inbound r) \<le> unat (dpc_inbound capacity)
     \<and> outbound_first_hop r slot = map_option (\<lambda>role. (peer_hash (first_hop_router (og_established role)),
         first_hop_receive_tunnel (og_established role))) (registry_outbound r slot)
     \<and> inbound_gateway_route r t = map_option route_of (registry_inbound r t)
     \<and> inbound_first_hop r t = map_option igr_gateway_router (inbound_gateway_route r t)
     \<and> (inbound_slot r t = None \<longleftrightarrow> registry_inbound r t = None)
     \<and> (inbound_slot r t = Some slot \<longleftrightarrow> bt_get (dr_inbound_slot_to_receive r) slot = Some t)"
proof -
  let ?r = "fold registry_step events (registry_new capacity)"
  have "registry_wf ?r" "dr_capacity ?r = capacity"
    using registry.run_inv [of "registry_new capacity" capacity events] registry_wf_new [of capacity]
    by (simp_all add: registry_new_def)
  then show ?thesis
    by (simp add: Let_def registry_wf_def outbound_agrees_def inbound_agrees_def outbound_first_hop_def registry_outbound_def
        inbound_gateway_route_def registry_inbound_def inbound_first_hop_def inbound_slot_def option.map_comp)
qed

text \<open>
  C22. Removing a slot of a reachable registry that is bound in at most one direction takes exactly
  that slot out. No lookup returns anything of it afterwards: neither the outbound role and its
  published first hop, nor, for the receive identifier bound to it, the inbound role, its first hop,
  its gateway route and the slot itself. Every lookup of another slot or identifier returns what it
  returned before, and the value returned names the role that was taken out.
\<close>

theorem remove_slot_leaves_nothing:
  assumes "r = fold registry_step events (registry_new capacity)" "remove_slot slot r = (removal, r')"
    and "registry_outbound r slot = None \<or> (\<forall>t. inbound_slot r t \<noteq> Some slot)"
  shows "(\<forall>s. registry_outbound r' s = (if s = slot then None else registry_outbound r s)
      \<and> outbound_first_hop r' s = (if s = slot then None else outbound_first_hop r s))
    \<and> (\<forall>t. if inbound_slot r t = Some slot
         then registry_inbound r' t = None \<and> inbound_first_hop r' t = None \<and> inbound_gateway_route r' t = None
           \<and> inbound_slot r' t = None
         else registry_inbound r' t = registry_inbound r t \<and> inbound_first_hop r' t = inbound_first_hop r t
           \<and> inbound_gateway_route r' t = inbound_gateway_route r t \<and> inbound_slot r' t = inbound_slot r t)
    \<and> bt_get (dr_inbound_slot_to_receive r') slot = None
    \<and> (case removal of
         RemovedOutbound gw \<Rightarrow> registry_outbound r slot = Some gw
       | RemovedInbound role \<Rightarrow> (\<exists>t. inbound_slot r t = Some slot \<and> registry_inbound r t = Some role)
       | RemovedUnknown s \<Rightarrow> s = slot \<and> registry_outbound r slot = None \<and> (\<forall>t. inbound_slot r t \<noteq> Some slot))"
proof -
  have wf: "registry_wf r" "registry_wf r'"
    using registry_run_wf [of events capacity] registry_wf_remove_slot [of r slot] assms(1,2) by simp_all
  have inbound: "registry_outbound r slot = None \<or> inbound_slot r t \<noteq> Some slot" for t using assms(3) by blast
  have "bt_get (dr_inbound_slot_to_receive r') slot \<noteq> Some t" for t
    using remove_slot_inbound [OF wf(1) inbound [of t] assms(2)] slot_to_receive_inverse [OF wf(2)]
    by (auto split: if_splits)
  moreover have "case removal of
         RemovedOutbound gw \<Rightarrow> registry_outbound r slot = Some gw
       | RemovedInbound role \<Rightarrow> (\<exists>t. inbound_slot r t = Some slot \<and> registry_inbound r t = Some role)
       | RemovedUnknown s \<Rightarrow> s = slot \<and> registry_outbound r slot = None \<and> (\<forall>t. inbound_slot r t \<noteq> Some slot)"
  proof (cases "registry_outbound r slot")
    case None
    with remove_slot_removal(2,3) [OF wf(1) assms(2) None] show ?thesis by (cases "\<forall>t. inbound_slot r t \<noteq> Some slot") fastforce+
  qed (simp add: remove_slot_removal(1) [OF wf(1) assms(2)])
  moreover from calculation(1) have "bt_get (dr_inbound_slot_to_receive r') slot = None" by (simp add: not_Some_eq [symmetric] del: not_Some_eq)
  ultimately show ?thesis
    by (intro conjI allI remove_slot_outbound [OF wf(1) assms(2)] remove_slot_inbound [OF wf(1) inbound assms(2)])
qed

theorem remove_slot_leaves_nothing_witness:
  "let r = fold registry_step sample_two_roles (registry_new \<lparr>dpc_outbound = 2, dpc_inbound = 2\<rparr>);
       no_in = snd (remove_slot (TunnelSlot 1) r); no_out = snd (remove_slot (TunnelSlot 0) r) in
     registry_inbound r (TunnelId 0x400) = Some sample_local_endpoint
     \<and> registry_inbound no_in (TunnelId 0x400) = None \<and> inbound_first_hop no_in (TunnelId 0x400) = None
     \<and> inbound_gateway_route no_in (TunnelId 0x400) = None \<and> registry_outbound no_in (TunnelSlot 0) = Some sample_gateway
     \<and> registry_outbound no_out (TunnelSlot 0) = None \<and> registry_inbound no_out (TunnelId 0x400) = Some sample_local_endpoint"
proof -
  note bound = sample_two_roles_bound
  note run = remove_slot_leaves_nothing [OF refl prod.collapse [symmetric]]
  show ?thesis
    using run [where events = sample_two_roles and capacity = "\<lparr>dpc_outbound = 2, dpc_inbound = 2\<rparr>" and slot = "TunnelSlot 1"]
      run [where events = sample_two_roles and capacity = "\<lparr>dpc_outbound = 2, dpc_inbound = 2\<rparr>" and slot = "TunnelSlot 0"]
    by (simp add: Let_def bound)
qed

text \<open>
  C24. A fragment numbered past the terminal one is not refused: a partial message whose terminal
  fragment has arrived stores a further non-terminal fragment with a higher number, and the
  result cannot be assembled, although the fragments of the message itself are intact.
\<close>

theorem fragment_past_terminal_accepted:
  assumes "partial_wf p" "pm_total_fragments p = Some n" "1 \<le> n" "n \<le> sequence" "sequence \<le> 63"
    "bt_get (pm_received p) sequence = None" "pm_bytes p + length body \<le> MAX_REASSEMBLY_BYTES_PER_MESSAGE"
  shows "classify p (FollowOn message_id sequence False body) None = Inr (Inserted (length body))
    \<and> (\<exists>p'. partial_apply (FollowOn message_id sequence False body) None p = (Inr (), p') \<and> assemble p' = None)"
proof -
  have "bt_wf (pm_received p)" using assms(1) by (simp add: partial_wf_def)
  moreover have "1 \<le> sequence" using assms(3,4) by (rule order_trans)
  moreover have "pm_bytes p + length body < usize_limit" using assms(7) by (simp add: reassembly_limits usize_limit_def)
  ultimately show ?thesis
    using assms
    by (auto simp: reassembly_limits Let_def bt_wf_insert bt_get_insert not_less intro!: assemble_overrun [of _ n sequence])
qed

theorem fragment_past_terminal_accepted_witness:
  "\<exists>p p'. partial_apply (FollowOn 2 1 True [3]) None (partial_new 0) = (Inr (), p)
     \<and> partial_apply (FollowOn 2 2 False [9]) None p = (Inr (), p') \<and> assemble p' = None"
proof -
  obtain p where p: "partial_apply (FollowOn 2 1 True [3]) None (partial_new 0) = (Inr (), p)"
    "pm_total_fragments p = Some 2" "pm_bytes p = 1" "bt_get (pm_received p) 2 = None"
    by (simp add: partial_new_def reassembly_limits usize_limit_def bt_get_def)
  have "partial_wf p" using partial_wf_apply [OF partial_wf_new _ _ _ p(1)]
    by (simp add: partial_new_def reassembly_limits)
  from fragment_past_terminal_accepted [OF this p(2), of 2 "[9]" 2] p show ?thesis
    by (auto simp: reassembly_limits)
qed

text \<open>
  C23. The single-cell builder in closed form: after the checks of the header and of the size it
  packs a message that fits in one cell, and refuses any other message. It never fragments.
\<close>

theorem build_single_never_fragments:
  "build_single sha256 fill header msg iv rng =
     (case validate_header header of Inl e \<Rightarrow> (Inl e, rng) | Inr _ \<Rightarrow>
      if msg = [] then (Inl EmptyMessage, rng)
      else if length msg > MAX_TUNNEL_MESSAGE_PAYLOAD_BYTES
      then (Inl (TunnelMessageTooLarge (length msg) MAX_TUNNEL_MESSAGE_PAYLOAD_BYTES), rng)
      else if one_cell (tph_delivery header) msg
      then pack_payload sha256 fill \<lparr>fd_delivery = Some (tph_delivery header), fd_fragment = Unfragmented msg\<rparr> iv rng
      else (Inl (TunnelMessageTooLarge (length msg) MAX_FRAGMENT_BODY_BYTES), rng))"
proof (cases "validate_header header")
  case (Inl e)
  then show ?thesis by (simp add: build_single_def bindS_def liftS_def)
next
  case (Inr u)
  then have ok: "tph_message_id header \<noteq> 0" "validate_delivery (tph_delivery header) = Inr ()"
    by (auto simp: validate_header_def bindR_eq_Inr split: if_splits)
  from message_bodies_facts(2) [of "tph_delivery header" msg] Inr show ?thesis
    by (auto simp: build_single_def bindS_def liftS_def failS_def fragment_complete_message_eq [OF ok(2,1)] not_le)
qed

end
