(* ===== verification/Stream_Packet.thy ===== *)
theory Stream_Packet
  imports Identity
begin

section \<open>Streaming packets\<close>

text \<open>
  \<open>i2pr-proto/src/streaming/packet.rs\<close>: flags, limits, the option region, the strict decoder, the
  encoder, the signature preimage and the SYN rules. A flag set is its \<open>u16\<close>; the twelve flag
  queries are \<open>has_flag\<close> with the mask of the flag. The decoder reads the fixed header from a cursor
  of the theory Codec (errors translated by \<open>packet_error_from\<close>) and takes the option region and
  the payload from the input slice.
\<close>

unbundle bit_operations_syntax

subsection \<open>Limits and flags\<close>

definition MIN_STREAMING_HEADER_BYTES :: nat where
  "MIN_STREAMING_HEADER_BYTES = 22"

definition DEFAULT_ADVERTISED_MAX_PAYLOAD :: u16 where
  "DEFAULT_ADVERTISED_MAX_PAYLOAD = 1812"

definition MAX_STREAMING_PAYLOAD_BYTES :: nat where
  "MAX_STREAMING_PAYLOAD_BYTES = 2048"

definition MAX_STREAMING_OPTION_BYTES :: nat where
  "MAX_STREAMING_OPTION_BYTES = 1024"

definition MAX_STREAMING_NACK_COUNT :: nat where
  "MAX_STREAMING_NACK_COUNT = 64"

definition SYN_REPLAY_NACK_COUNT :: nat where
  "SYN_REPLAY_NACK_COUNT = 8"

definition MAX_STREAMING_PACKET_BYTES :: nat where
  "MAX_STREAMING_PACKET_BYTES =
     MIN_STREAMING_HEADER_BYTES + MAX_STREAMING_NACK_COUNT * 4 + MAX_STREAMING_OPTION_BYTES
       + MAX_STREAMING_PAYLOAD_BYTES"

definition MAX_I2CP_DATA_BODY_PAYLOAD :: nat where
  "MAX_I2CP_DATA_BODY_PAYLOAD = 61440"

lemmas packet_limits = MIN_STREAMING_HEADER_BYTES_def MAX_STREAMING_PAYLOAD_BYTES_def
  MAX_STREAMING_OPTION_BYTES_def MAX_STREAMING_NACK_COUNT_def SYN_REPLAY_NACK_COUNT_def
  MAX_STREAMING_PACKET_BYTES_def MAX_I2CP_DATA_BODY_PAYLOAD_def

definition FLAG_SYNCHRONIZE :: u16 where
  "FLAG_SYNCHRONIZE = 0x0001"

definition FLAG_CLOSE :: u16 where
  "FLAG_CLOSE = 0x0002"

definition FLAG_RESET :: u16 where
  "FLAG_RESET = 0x0004"

definition FLAG_SIGNATURE_INCLUDED :: u16 where
  "FLAG_SIGNATURE_INCLUDED = 0x0008"

definition FLAG_FROM_INCLUDED :: u16 where
  "FLAG_FROM_INCLUDED = 0x0020"

definition FLAG_DELAY_REQUESTED :: u16 where
  "FLAG_DELAY_REQUESTED = 0x0040"

definition FLAG_MAX_PACKET_SIZE_INCLUDED :: u16 where
  "FLAG_MAX_PACKET_SIZE_INCLUDED = 0x0080"

definition FLAG_NO_ACK :: u16 where
  "FLAG_NO_ACK = 0x0400"

definition FLAG_OFFLINE_SIGNATURE :: u16 where
  "FLAG_OFFLINE_SIGNATURE = 0x0800"

definition FLAG_RESERVED_MASK :: u16 where
  "FLAG_RESERVED_MASK = 0xF000"

definition INITIAL_SYN_FLAGS :: u16 where
  "INITIAL_SYN_FLAGS = FLAG_SYNCHRONIZE OR FLAG_SIGNATURE_INCLUDED OR FLAG_FROM_INCLUDED
     OR FLAG_MAX_PACKET_SIZE_INCLUDED OR FLAG_NO_ACK"

definition SYN_RESPONSE_FLAGS :: u16 where
  "SYN_RESPONSE_FLAGS = FLAG_SYNCHRONIZE OR FLAG_SIGNATURE_INCLUDED OR FLAG_FROM_INCLUDED
     OR FLAG_MAX_PACKET_SIZE_INCLUDED"

definition CLOSE_FLAGS :: u16 where
  "CLOSE_FLAGS = FLAG_CLOSE OR FLAG_SIGNATURE_INCLUDED"

definition RESET_FLAGS :: u16 where
  "RESET_FLAGS = FLAG_RESET OR FLAG_SIGNATURE_INCLUDED"

lemmas flag_defs = FLAG_SYNCHRONIZE_def FLAG_CLOSE_def FLAG_RESET_def FLAG_SIGNATURE_INCLUDED_def
  FLAG_FROM_INCLUDED_def FLAG_DELAY_REQUESTED_def FLAG_MAX_PACKET_SIZE_INCLUDED_def FLAG_NO_ACK_def
  FLAG_OFFLINE_SIGNATURE_def FLAG_RESERVED_MASK_def INITIAL_SYN_FLAGS_def SYN_RESPONSE_FLAGS_def
  CLOSE_FLAGS_def RESET_FLAGS_def

type_synonym StreamingFlags = u16

definition has_flag :: "StreamingFlags \<Rightarrow> u16 \<Rightarrow> bool" where
  "has_flag flags flag \<longleftrightarrow> flags AND flag \<noteq> 0"

datatype StreamingPacketError =
    PacketTrailingBytes
  | PacketTruncated
  | OptionOverflow nat nat
  | NackOverflow nat nat
  | PayloadOverflow nat nat
  | PacketLengthExceeded string nat nat
  | SynMissingFrom
  | SynMissingSignature
  | SynMissingMaxPacketSize
  | SynMissingReplayBinding
  | PacketReservedFlagBits u16
  | SignatureLengthMismatch nat nat
  | SynReplayNackCountMismatch nat
  | PacketArithmeticOverflow
  | SignatureMissing
  | PacketSignatureInvalid
  | SignatureContextUnavailable
  | UnsupportedOfflineSignature
  | CloseMissingSignature
  | ResetMissingSignature

fun packet_error_from :: "CodecError \<Rightarrow> StreamingPacketError" where
  "packet_error_from (Truncated _ _ _) = PacketTruncated"
| "packet_error_from (TrailingBytes _ _) = PacketTrailingBytes"
| "packet_error_from (ArithmeticOverflow _ _) = PacketArithmeticOverflow"
| "packet_error_from (LengthExceeded _ declared maximum _) = PacketLengthExceeded ''streaming codec'' declared maximum"
| "packet_error_from _ = PacketLengthExceeded ''streaming codec'' 0 0"

definition flags_new :: "u16 \<Rightarrow> StreamingPacketError + StreamingFlags" where
  "flags_new bits = (if bits AND FLAG_RESERVED_MASK \<noteq> 0 then Inl (PacketReservedFlagBits bits) else Inr bits)"

definition flags_union :: "StreamingFlags \<Rightarrow> StreamingFlags \<Rightarrow> StreamingPacketError + StreamingFlags" where
  "flags_union flags other = flags_new (flags OR other)"

record StreamingLimit =
  sl_max_packet_bytes :: nat
  sl_max_option_bytes :: nat
  sl_max_nack_count :: nat
  sl_max_payload_bytes :: nat

text \<open>\<open>StreamingSendLimit::default\<close> and \<open>StreamingReceiveLimit::default\<close> have the same fields and values.\<close>

definition default_limit :: StreamingLimit where
  "default_limit =
     \<lparr>sl_max_packet_bytes = MAX_STREAMING_PACKET_BYTES, sl_max_option_bytes = MAX_STREAMING_OPTION_BYTES,
      sl_max_nack_count = MAX_STREAMING_NACK_COUNT, sl_max_payload_bytes = MAX_STREAMING_PAYLOAD_BYTES\<rparr>"

definition destination_path_limit :: StreamingLimit where
  "destination_path_limit =
     \<lparr>sl_max_packet_bytes = MAX_I2CP_DATA_BODY_PAYLOAD, sl_max_option_bytes = MAX_STREAMING_OPTION_BYTES,
      sl_max_nack_count = MAX_STREAMING_NACK_COUNT, sl_max_payload_bytes = MAX_I2CP_DATA_BODY_PAYLOAD\<rparr>"

subsection \<open>Options\<close>

record StreamingOptions =
  so_delay_requested :: "u16 option"
  so_from_destination :: "Destination option"
  so_max_payload_size :: "u16 option"
  so_signature :: "bytes option"

definition destination_signing_key :: "Destination \<Rightarrow> SigningPublicKey" where
  "destination_signing_key d = kac_signing_key (dest_keys d)"

definition destination_len :: "Destination \<Rightarrow> StreamingPacketError + nat" where
  "destination_len d =
     bindR (map_sum packet_error_from id (destination_encode_to_vec d MAX_COMMON_STRUCTURE_SIZE)) (\<lambda>encoded.
     Inr (length encoded))"

definition encode_with_placeholder :: "StreamingOptions \<Rightarrow> StreamingFlags \<Rightarrow> nat \<Rightarrow> StreamingPacketError + bytes" where
  "encode_with_placeholder options flags signature_length =
     (if so_signature options \<noteq> None then Inl SignatureMissing
      else
      bindR (if has_flag flags FLAG_DELAY_REQUESTED
             then bindR (ok_or (so_delay_requested options) (PacketLengthExceeded ''delay requested option'' 0 0))
                    (\<lambda>delay. Inr (be_encode 2 (unat delay)))
             else Inr []) (\<lambda>delay_bytes.
      bindR (if has_flag flags FLAG_FROM_INCLUDED
             then bindR (ok_or (so_from_destination options) SynMissingFrom) (\<lambda>destination.
                    map_sum packet_error_from id (destination_encode_to_vec destination MAX_COMMON_STRUCTURE_SIZE))
             else Inr []) (\<lambda>from_bytes.
      bindR (if has_flag flags FLAG_MAX_PACKET_SIZE_INCLUDED
             then bindR (ok_or (so_max_payload_size options) SynMissingMaxPacketSize)
                    (\<lambda>maximum. Inr (be_encode 2 (unat maximum)))
             else Inr []) (\<lambda>max_bytes.
      if has_flag flags FLAG_OFFLINE_SIGNATURE then Inl UnsupportedOfflineSignature
      else
        let out = delay_bytes @ from_bytes @ max_bytes
              @ (if has_flag flags FLAG_SIGNATURE_INCLUDED then replicate signature_length 0 else [])
        in if length out > MAX_STREAMING_OPTION_BYTES
           then Inl (OptionOverflow (length out) MAX_STREAMING_OPTION_BYTES)
           else Inr out))))"

record SignatureLocation =
  loc_offset :: nat
  loc_length :: nat

text \<open>\<open>option_bytes.get(position..end)\<close> with \<open>end = position.checked_add(n)\<close>.\<close>

definition field_at :: "bytes \<Rightarrow> nat \<Rightarrow> nat \<Rightarrow> StreamingPacketError \<Rightarrow> StreamingPacketError + bytes" where
  "field_at option_bytes position n e =
     bindR (ok_or (checked_add position n) PacketArithmeticOverflow) (\<lambda>end_position.
     if end_position \<le> length option_bytes then Inr (take n (drop position option_bytes)) else Inl e)"

definition parse_u16_field :: "bool \<Rightarrow> bytes \<Rightarrow> nat \<Rightarrow> StreamingPacketError + u16 option \<times> nat" where
  "parse_u16_field present option_bytes position =
     (if present
      then bindR (field_at option_bytes position 2 PacketTruncated) (\<lambda>field.
           Inr (Some (of_nat (be_decode field)), position + 2))
      else Inr (None, position))"

definition parse_from_field :: "bool \<Rightarrow> bytes \<Rightarrow> nat \<Rightarrow> StreamingPacketError + Destination option \<times> nat" where
  "parse_from_field present option_bytes position =
     (if present
      then if position > length option_bytes then Inl PacketTruncated
        else
        bindR (map_sum packet_error_from id
                (destination_decode_from_cursor (drop position option_bytes) MAX_COMMON_STRUCTURE_SIZE)) (\<lambda>destination.
        bindR (destination_len destination) (\<lambda>consumed.
        Inr (Some destination, position + consumed)))
      else Inr (None, position))"

definition expected_signature_len ::
  "Destination option \<Rightarrow> SigningPublicKey option \<Rightarrow> StreamingPacketError + nat" where
  "expected_signature_len from_destination peer_signing_key =
     (case from_destination of
        Some destination \<Rightarrow>
          ok_or (signature_len (sk_key_type (destination_signing_key destination))) SignatureContextUnavailable
      | None \<Rightarrow>
          (case peer_signing_key of
             Some key \<Rightarrow> ok_or (signature_len (sk_key_type key)) SignatureContextUnavailable
           | None \<Rightarrow> Inl SignatureContextUnavailable))"

definition parse_signature_field ::
  "bool \<Rightarrow> Destination option \<Rightarrow> SigningPublicKey option \<Rightarrow> bytes \<Rightarrow> nat \<Rightarrow> nat
     \<Rightarrow> StreamingPacketError + bytes option \<times> SignatureLocation option \<times> nat" where
  "parse_signature_field present from_destination peer_signing_key option_bytes option_start position =
     (if present
      then
        bindR (expected_signature_len from_destination peer_signing_key) (\<lambda>expected.
        bindR (field_at option_bytes position expected
                (SignatureLengthMismatch expected (saturating_sub (length option_bytes) position))) (\<lambda>signature.
        Inr (Some signature, Some \<lparr>loc_offset = option_start + position, loc_length = expected\<rparr>,
             position + expected)))
      else Inr (None, None, position))"

definition parse_options ::
  "StreamingFlags \<Rightarrow> bytes \<Rightarrow> nat \<Rightarrow> SigningPublicKey option
     \<Rightarrow> StreamingPacketError + StreamingOptions \<times> SignatureLocation option" where
  "parse_options flags option_bytes option_start peer_signing_key =
     bindR (parse_u16_field (has_flag flags FLAG_DELAY_REQUESTED) option_bytes 0) (\<lambda>(delay, position).
     bindR (parse_from_field (has_flag flags FLAG_FROM_INCLUDED) option_bytes position) (\<lambda>(from_destination, position).
     bindR (parse_u16_field (has_flag flags FLAG_MAX_PACKET_SIZE_INCLUDED) option_bytes position) (\<lambda>(maximum, position).
     if has_flag flags FLAG_OFFLINE_SIGNATURE then Inl UnsupportedOfflineSignature
     else
     bindR (parse_signature_field (has_flag flags FLAG_SIGNATURE_INCLUDED) from_destination peer_signing_key
              option_bytes option_start position) (\<lambda>(signature, location, position).
     if position \<noteq> length option_bytes then Inl PacketTrailingBytes
     else Inr (\<lparr>so_delay_requested = delay, so_from_destination = from_destination,
                so_max_payload_size = maximum, so_signature = signature\<rparr>, location)))))"

subsection \<open>Decoding\<close>

record StreamingPacket =
  sp_send_stream_id :: u32
  sp_receive_stream_id :: u32
  sp_sequence_num :: u32
  sp_ack_through :: u32
  sp_nacks :: "u32 list"
  sp_resend_delay :: u8
  sp_flags :: StreamingFlags
  sp_option_bytes :: bytes
  sp_options :: StreamingOptions
  sp_payload :: bytes

record StreamingHeaderPeek =
  pk_send_stream_id :: u32
  pk_receive_stream_id :: u32
  pk_sequence_num :: u32
  pk_flags_bits :: u16

definition be_at :: "bytes \<Rightarrow> nat \<Rightarrow> nat \<Rightarrow> nat" where
  "be_at input offset n = be_decode (take n (drop offset input))"

definition peek_streaming_header :: "bytes \<Rightarrow> StreamingPacketError + StreamingHeaderPeek" where
  "peek_streaming_header input =
     (if length input < MIN_STREAMING_HEADER_BYTES then Inl PacketTruncated
      else
      let nack_count = unat (input ! 16) in
      bindR (ok_or (checked_add MIN_STREAMING_HEADER_BYTES (nack_count * 4)) PacketArithmeticOverflow) (\<lambda>header_end.
      if length input < header_end then Inl PacketTruncated
      else
        let flags_offset = 18 + nack_count * 4 in
        Inr \<lparr>pk_send_stream_id = of_nat (be_at input 0 4), pk_receive_stream_id = of_nat (be_at input 4 4),
             pk_sequence_num = of_nat (be_at input 8 4), pk_flags_bits = of_nat (be_at input flags_offset 2)\<rparr>))"

record PacketHeader =
  ph_send_stream_id :: u32
  ph_receive_stream_id :: u32
  ph_sequence_num :: u32
  ph_ack_through :: u32
  ph_nacks :: "u32 list"
  ph_resend_delay :: u8
  ph_flags :: StreamingFlags
  ph_option_size :: nat

definition read_packet_header :: "StreamingLimit \<Rightarrow> (DecodeCursor, StreamingPacketError, PacketHeader) rsm" where
  "read_packet_header limit =
     bindS (map_errS packet_error_from read_u32) (\<lambda>send_stream_id.
     bindS (map_errS packet_error_from read_u32) (\<lambda>receive_stream_id.
     bindS (map_errS packet_error_from read_u32) (\<lambda>sequence_num.
     bindS (map_errS packet_error_from read_u32) (\<lambda>ack_through.
     bindS (map_errS packet_error_from read_u8) (\<lambda>nack_count.
     if unat nack_count > sl_max_nack_count limit
     then failS (\<lambda>_. NackOverflow (unat nack_count) (sl_max_nack_count limit))
     else
     bindS (repeatS (unat nack_count) (map_errS packet_error_from read_u32)) (\<lambda>nacks.
     bindS (map_errS packet_error_from read_u8) (\<lambda>resend_delay.
     bindS (map_errS packet_error_from read_u16) (\<lambda>flags_bits.
     bindS (liftS (flags_new flags_bits)) (\<lambda>flags.
     bindS (map_errS packet_error_from read_u16) (\<lambda>option_size.
     if unat option_size > sl_max_option_bytes limit
     then failS (\<lambda>_. OptionOverflow (unat option_size) (sl_max_option_bytes limit))
     else retS \<lparr>ph_send_stream_id = send_stream_id, ph_receive_stream_id = receive_stream_id,
                ph_sequence_num = sequence_num, ph_ack_through = ack_through, ph_nacks = nacks,
                ph_resend_delay = resend_delay, ph_flags = flags, ph_option_size = unat option_size\<rparr>))))))))))"

definition decode_streaming_packet ::
  "bytes \<Rightarrow> StreamingLimit \<Rightarrow> SigningPublicKey option
     \<Rightarrow> StreamingPacketError + StreamingPacket \<times> SignatureLocation option" where
  "decode_streaming_packet input limit peer_signing_key =
     (if length input > sl_max_packet_bytes limit
      then Inl (PayloadOverflow (length input) (sl_max_packet_bytes limit))
      else if length input < MIN_STREAMING_HEADER_BYTES then Inl PacketTruncated
      else
      bindR (map_sum packet_error_from id (cursor_new input (sl_max_packet_bytes limit))) (\<lambda>cursor.
      case read_packet_header limit cursor of (r, cursor) \<Rightarrow>
      bindR r (\<lambda>h.
      let option_start = dc_offset cursor in
      bindR (ok_or (checked_add option_start (ph_option_size h)) PacketArithmeticOverflow) (\<lambda>option_end.
      if option_end > length input then Inl PacketTruncated
      else
      let option_bytes = take (option_end - option_start) (drop option_start input);
          payload = drop option_end input
      in if length payload > sl_max_payload_bytes limit
         then Inl (PayloadOverflow (length payload) (sl_max_payload_bytes limit))
         else
         bindR (parse_options (ph_flags h) option_bytes option_start peer_signing_key) (\<lambda>(options, location).
         Inr (\<lparr>sp_send_stream_id = ph_send_stream_id h, sp_receive_stream_id = ph_receive_stream_id h,
               sp_sequence_num = ph_sequence_num h, sp_ack_through = ph_ack_through h,
               sp_nacks = ph_nacks h, sp_resend_delay = ph_resend_delay h, sp_flags = ph_flags h,
               sp_option_bytes = option_bytes, sp_options = options, sp_payload = payload\<rparr>, location))))))"

subsection \<open>Signatures\<close>

definition build_signature_preimage :: "bytes \<Rightarrow> SignatureLocation option \<Rightarrow> bytes" where
  "build_signature_preimage wire_bytes signature_location =
     (case signature_location of
        None \<Rightarrow> wire_bytes
      | Some location \<Rightarrow>
          let end_offset = (case checked_add (loc_offset location) (loc_length location) of
                Some e \<Rightarrow> e | None \<Rightarrow> length wire_bytes)
          in if loc_offset location \<le> length wire_bytes \<and> end_offset \<le> length wire_bytes
             then take (loc_offset location) wire_bytes
               @ map (\<lambda>_. 0) (take (loc_length location) (drop (loc_offset location) wire_bytes))
               @ drop (loc_length location) (drop (loc_offset location) wire_bytes)
             else wire_bytes)"

text \<open>Both installers overwrite the bytes they are given and return the offset of the signature.\<close>

definition install_packet_signature :: "bytes \<Rightarrow> bytes \<Rightarrow> StreamingPacketError + nat \<times> bytes" where
  "install_packet_signature wire signature =
     (if signature = [] then Inl SignatureMissing
      else if length wire < length signature then Inl PacketTruncated
      else let offset = length wire - length signature in
        if \<not> list_all (\<lambda>b. b = 0) (drop offset wire) then Inl PacketSignatureInvalid
        else Inr (offset, take offset wire @ signature))"

definition install_packet_signature_at ::
  "bytes \<Rightarrow> SignatureLocation \<Rightarrow> bytes \<Rightarrow> StreamingPacketError + nat \<times> bytes" where
  "install_packet_signature_at wire location signature =
     (if signature = [] \<or> length signature \<noteq> loc_length location
      then Inl (SignatureLengthMismatch (loc_length location) (length signature))
      else
      bindR (ok_or (checked_add (loc_offset location) (loc_length location)) PacketArithmeticOverflow) (\<lambda>end_offset.
      if end_offset > length wire then Inl PacketTruncated
      else if \<not> list_all (\<lambda>b. b = 0) (take (loc_length location) (drop (loc_offset location) wire))
      then Inl PacketSignatureInvalid
      else Inr (loc_offset location, take (loc_offset location) wire @ signature @ drop end_offset wire)))"

subsection \<open>Encoding\<close>

record StreamingPacketBuilder =
  sb_send_stream_id :: u32
  sb_receive_stream_id :: u32
  sb_sequence_num :: u32
  sb_ack_through :: u32
  sb_nacks :: "u32 list"
  sb_resend_delay :: u8
  sb_flags :: StreamingFlags
  sb_option_bytes :: bytes
  sb_payload :: bytes

definition new_initial_syn ::
  "u32 \<Rightarrow> u32 \<Rightarrow> u32 \<Rightarrow> bytes \<Rightarrow> u32 list \<Rightarrow> StreamingPacketError + StreamingPacketBuilder" where
  "new_initial_syn send_stream_id receive_stream_id sequence_num option_bytes nacks =
     bindR (flags_new INITIAL_SYN_FLAGS) (\<lambda>flags.
     Inr \<lparr>sb_send_stream_id = send_stream_id, sb_receive_stream_id = receive_stream_id,
          sb_sequence_num = sequence_num, sb_ack_through = 0, sb_nacks = nacks, sb_resend_delay = 0,
          sb_flags = flags, sb_option_bytes = option_bytes, sb_payload = []\<rparr>)"

definition new_syn_response ::
  "u32 \<Rightarrow> u32 \<Rightarrow> u32 \<Rightarrow> u32 \<Rightarrow> bytes \<Rightarrow> StreamingPacketError + StreamingPacketBuilder" where
  "new_syn_response send_stream_id receive_stream_id sequence_num ack_through option_bytes =
     bindR (flags_new SYN_RESPONSE_FLAGS) (\<lambda>flags.
     Inr \<lparr>sb_send_stream_id = send_stream_id, sb_receive_stream_id = receive_stream_id,
          sb_sequence_num = sequence_num, sb_ack_through = ack_through, sb_nacks = [], sb_resend_delay = 0,
          sb_flags = flags, sb_option_bytes = option_bytes, sb_payload = []\<rparr>)"

text \<open>\<open>u8::try_from\<close> and \<open>u16::try_from\<close> of a length inside the encoder closure.\<close>

definition length_word :: "nat \<Rightarrow> nat \<Rightarrow> string \<Rightarrow> (EncodeBuffer, CodecError, nat) rsm" where
  "length_word n bound context = (\<lambda>b.
     if n < bound then (Inr n, b) else (Inl (InvalidFieldValue (buffer_len b) context), b))"

definition encode_streaming_packet :: "StreamingPacketBuilder \<Rightarrow> StreamingLimit \<Rightarrow> StreamingPacketError + bytes" where
  "encode_streaming_packet packet limit =
     (if length (sb_nacks packet) > sl_max_nack_count limit
      then Inl (NackOverflow (length (sb_nacks packet)) (sl_max_nack_count limit))
      else if length (sb_option_bytes packet) > sl_max_option_bytes limit
      then Inl (OptionOverflow (length (sb_option_bytes packet)) (sl_max_option_bytes limit))
      else if length (sb_payload packet) > sl_max_payload_bytes limit
      then Inl (PayloadOverflow (length (sb_payload packet)) (sl_max_payload_bytes limit))
      else
      bindR (ok_or (checked_add MIN_STREAMING_HEADER_BYTES (length (sb_nacks packet) * 4)) PacketArithmeticOverflow) (\<lambda>header_size.
      bindR (ok_or (case checked_add header_size (length (sb_option_bytes packet)) of
                      None \<Rightarrow> None | Some v \<Rightarrow> checked_add v (length (sb_payload packet)))
              PacketArithmeticOverflow) (\<lambda>total_size.
      if total_size > sl_max_packet_bytes limit
      then Inl (PayloadOverflow total_size (sl_max_packet_bytes limit))
      else
      bindR (map_sum packet_error_from id (encode_to_vec (sl_max_packet_bytes limit)
        (seqS (write_u32 (sb_send_stream_id packet))
        (seqS (write_u32 (sb_receive_stream_id packet))
        (seqS (write_u32 (sb_sequence_num packet))
        (seqS (write_u32 (sb_ack_through packet))
        (seqS (bindS (length_word (length (sb_nacks packet)) 256 ''nack count conversion'') (\<lambda>n. write_u8 (of_nat n)))
        (seqS (eachS write_u32 (sb_nacks packet))
        (seqS (write_u8 (sb_resend_delay packet))
        (seqS (write_u16 (sb_flags packet))
        (seqS (bindS (length_word (length (sb_option_bytes packet)) 65536 ''option bytes conversion'')
                (\<lambda>n. write_u16 (of_nat n)))
              (write_raw (sb_option_bytes packet))))))))))))) (\<lambda>header.
      Inr (header @ sb_payload packet)))))"

subsection \<open>SYN rules\<close>

definition verify_syn_replay_binding :: "StreamingPacket \<Rightarrow> bytes \<Rightarrow> StreamingPacketError + bool" where
  "verify_syn_replay_binding packet receiver_destination_hash =
     (if length (sp_nacks packet) \<noteq> SYN_REPLAY_NACK_COUNT
      then Inl (SynReplayNackCountMismatch (length (sp_nacks packet)))
      else Inr (concat (map (\<lambda>nack. be_encode 4 (unat nack)) (sp_nacks packet)) = receiver_destination_hash))"

definition encode_syn_replay_binding :: "bytes \<Rightarrow> u32 list" where
  "encode_syn_replay_binding receiver_destination_hash =
     map (\<lambda>index. of_nat (be_at receiver_destination_hash (index * 4) 4)) [0..<SYN_REPLAY_NACK_COUNT]"

definition validate_initial_syn :: "StreamingPacket \<Rightarrow> bytes \<Rightarrow> StreamingPacketError + unit" where
  "validate_initial_syn packet receiver_destination_hash =
     (if \<not> has_flag (sp_flags packet) FLAG_SYNCHRONIZE then Inl SynMissingReplayBinding
      else if \<not> has_flag (sp_flags packet) FLAG_FROM_INCLUDED then Inl SynMissingFrom
      else if \<not> has_flag (sp_flags packet) FLAG_SIGNATURE_INCLUDED then Inl SynMissingSignature
      else if \<not> has_flag (sp_flags packet) FLAG_MAX_PACKET_SIZE_INCLUDED then Inl SynMissingMaxPacketSize
      else bindR (verify_syn_replay_binding packet receiver_destination_hash) (\<lambda>matches.
        if \<not> matches then Inl SynMissingReplayBinding else Inr ()))"

definition validate_syn_response :: "StreamingPacket \<Rightarrow> StreamingPacketError + unit" where
  "validate_syn_response packet =
     (if \<not> has_flag (sp_flags packet) FLAG_SYNCHRONIZE then Inl SynMissingFrom
      else if \<not> has_flag (sp_flags packet) FLAG_FROM_INCLUDED then Inl SynMissingFrom
      else if \<not> has_flag (sp_flags packet) FLAG_SIGNATURE_INCLUDED then Inl SynMissingSignature
      else if \<not> has_flag (sp_flags packet) FLAG_MAX_PACKET_SIZE_INCLUDED then Inl SynMissingMaxPacketSize
      else Inr ())"

definition validate_signature_policy :: "StreamingPacket \<Rightarrow> SigningPublicKey \<Rightarrow> StreamingPacketError + unit" where
  "validate_signature_policy packet signing_key =
     bindR (ok_or (signature_len (sk_key_type signing_key)) SignatureContextUnavailable) (\<lambda>expected.
     bindR (ok_or (map_option length (so_signature (sp_options packet))) SignatureMissing) (\<lambda>actual.
     if expected \<noteq> actual then Inl (SignatureLengthMismatch expected actual) else Inr ()))"

end
