(* ===== verification/Stream_Config.thy ===== *)
theory Stream_Config
  imports Stream_Packet
begin

section \<open>Streaming configuration\<close>

text \<open>
  \<open>i2pr-client/src/streaming/config.rs\<close>: the resource limits of the streaming layer, the checked
  constructor \<open>StreamingConfig::try_new\<close> and its two profiles. \<open>config_within\<close> is the contract: a
  configuration that the constructor returns is within every ceiling, and it returns every such
  configuration.
\<close>

definition MAX_PACKET_PAYLOAD_BYTES :: nat where
  "MAX_PACKET_PAYLOAD_BYTES = MAX_STREAMING_PAYLOAD_BYTES"

definition MAX_ADVERTISED_PACKET_PAYLOAD_BYTES :: u16 where
  "MAX_ADVERTISED_PACKET_PAYLOAD_BYTES = DEFAULT_ADVERTISED_MAX_PAYLOAD"

definition MAX_INBOUND_PENDING_STREAMS :: nat where
  "MAX_INBOUND_PENDING_STREAMS = 64"

definition MAX_OUTBOUND_PENDING_STREAMS :: nat where
  "MAX_OUTBOUND_PENDING_STREAMS = 64"

definition MAX_STREAMS_PER_DESTINATION_LIMIT :: nat where
  "MAX_STREAMS_PER_DESTINATION_LIMIT = 256"

definition MAX_LISTENER_BACKLOG :: nat where
  "MAX_LISTENER_BACKLOG = 64"

definition MAX_SEND_WINDOW_PACKETS :: nat where
  "MAX_SEND_WINDOW_PACKETS = 128"

definition MAX_RECV_WINDOW_PACKETS :: nat where
  "MAX_RECV_WINDOW_PACKETS = 128"

definition MAX_UNACKED_PACKETS :: nat where
  "MAX_UNACKED_PACKETS = 256"

definition MAX_RETRANSMIT_COUNT :: nat where
  "MAX_RETRANSMIT_COUNT = 16"

definition MAX_PRE_SYN_BUFFER :: nat where
  "MAX_PRE_SYN_BUFFER = 8"

definition MAX_DELAYED_ACK_MS :: u64 where
  "MAX_DELAYED_ACK_MS = 60000"

lemmas stream_limits = MAX_PACKET_PAYLOAD_BYTES_def MAX_ADVERTISED_PACKET_PAYLOAD_BYTES_def
  MAX_INBOUND_PENDING_STREAMS_def MAX_OUTBOUND_PENDING_STREAMS_def MAX_STREAMS_PER_DESTINATION_LIMIT_def
  MAX_LISTENER_BACKLOG_def MAX_SEND_WINDOW_PACKETS_def MAX_RECV_WINDOW_PACKETS_def
  MAX_UNACKED_PACKETS_def MAX_RETRANSMIT_COUNT_def MAX_PRE_SYN_BUFFER_def MAX_DELAYED_ACK_MS_def

record StreamingConfig =
  sc_max_streams_per_destination :: u16
  sc_max_inbound_pending :: u16
  sc_max_outbound_pending :: u16
  sc_max_listener_backlog :: u16
  sc_max_send_window_packets :: u16
  sc_max_recv_window_packets :: u16
  sc_max_unacked_packets :: u16
  sc_max_retransmit_count :: u8
  sc_setup_timeout_ms :: u64
  sc_idle_timeout_ms :: u64
  sc_close_timeout_ms :: u64
  sc_delayed_ack_ms :: u64
  sc_max_pre_syn_buffer :: u16

datatype StreamingConfigError =
    ZeroMaxStreamsPerDestination
  | MaxStreamsExceedsLimit u16 u16
  | ZeroMaxInboundPending
  | InboundPendingExceedsLimit u16 u16
  | ZeroMaxOutboundPending
  | OutboundPendingExceedsLimit u16 u16
  | ListenerBacklogExceedsLimit u16 u16
  | ZeroSendWindow
  | SendWindowExceedsLimit u16 u16
  | ZeroRecvWindow
  | RecvWindowExceedsLimit u16 u16
  | ZeroMaxUnacked
  | UnackedExceedsLimit u16 u16
  | ZeroMaxRetransmit
  | RetransmitExceedsLimit u8 u8
  | ZeroSetupTimeout
  | ZeroIdleTimeout
  | ZeroCloseTimeout
  | ZeroDelayedAck
  | DelayedAckExceedsLimit u64 u64
  | PreSynBufferExceedsLimit u16 u16

definition streaming_config_try_new ::
  "u16 \<Rightarrow> u16 \<Rightarrow> u16 \<Rightarrow> u16 \<Rightarrow> u16 \<Rightarrow> u16 \<Rightarrow> u16 \<Rightarrow> u8 \<Rightarrow> u64 \<Rightarrow> u64 \<Rightarrow> u64 \<Rightarrow> u64 \<Rightarrow> u16
     \<Rightarrow> StreamingConfigError + StreamingConfig" where
  "streaming_config_try_new max_streams_per_destination max_inbound_pending max_outbound_pending
     max_listener_backlog max_send_window_packets max_recv_window_packets max_unacked_packets
     max_retransmit_count setup_timeout_ms idle_timeout_ms close_timeout_ms delayed_ack_ms
     max_pre_syn_buffer =
     (if max_streams_per_destination = 0 then Inl ZeroMaxStreamsPerDestination
      else if unat max_streams_per_destination > MAX_STREAMS_PER_DESTINATION_LIMIT
      then Inl (MaxStreamsExceedsLimit max_streams_per_destination (of_nat MAX_STREAMS_PER_DESTINATION_LIMIT))
      else if max_inbound_pending = 0 then Inl ZeroMaxInboundPending
      else if unat max_inbound_pending > MAX_INBOUND_PENDING_STREAMS
      then Inl (InboundPendingExceedsLimit max_inbound_pending (of_nat MAX_INBOUND_PENDING_STREAMS))
      else if max_outbound_pending = 0 then Inl ZeroMaxOutboundPending
      else if unat max_outbound_pending > MAX_OUTBOUND_PENDING_STREAMS
      then Inl (OutboundPendingExceedsLimit max_outbound_pending (of_nat MAX_OUTBOUND_PENDING_STREAMS))
      else if unat max_listener_backlog > MAX_LISTENER_BACKLOG
      then Inl (ListenerBacklogExceedsLimit max_listener_backlog (of_nat MAX_LISTENER_BACKLOG))
      else if max_send_window_packets = 0 then Inl ZeroSendWindow
      else if unat max_send_window_packets > MAX_SEND_WINDOW_PACKETS
      then Inl (SendWindowExceedsLimit max_send_window_packets (of_nat MAX_SEND_WINDOW_PACKETS))
      else if max_recv_window_packets = 0 then Inl ZeroRecvWindow
      else if unat max_recv_window_packets > MAX_RECV_WINDOW_PACKETS
      then Inl (RecvWindowExceedsLimit max_recv_window_packets (of_nat MAX_RECV_WINDOW_PACKETS))
      else if max_unacked_packets = 0 then Inl ZeroMaxUnacked
      else if unat max_unacked_packets > MAX_UNACKED_PACKETS
      then Inl (UnackedExceedsLimit max_unacked_packets (of_nat MAX_UNACKED_PACKETS))
      else if max_retransmit_count = 0 then Inl ZeroMaxRetransmit
      else if unat max_retransmit_count > MAX_RETRANSMIT_COUNT
      then Inl (RetransmitExceedsLimit max_retransmit_count (of_nat MAX_RETRANSMIT_COUNT))
      else if setup_timeout_ms = 0 then Inl ZeroSetupTimeout
      else if idle_timeout_ms = 0 then Inl ZeroIdleTimeout
      else if close_timeout_ms = 0 then Inl ZeroCloseTimeout
      else if delayed_ack_ms = 0 then Inl ZeroDelayedAck
      else if delayed_ack_ms > MAX_DELAYED_ACK_MS
      then Inl (DelayedAckExceedsLimit delayed_ack_ms MAX_DELAYED_ACK_MS)
      else if unat max_pre_syn_buffer > MAX_PRE_SYN_BUFFER
      then Inl (PreSynBufferExceedsLimit max_pre_syn_buffer (of_nat MAX_PRE_SYN_BUFFER))
      else Inr \<lparr>sc_max_streams_per_destination = max_streams_per_destination,
                sc_max_inbound_pending = max_inbound_pending,
                sc_max_outbound_pending = max_outbound_pending,
                sc_max_listener_backlog = max_listener_backlog,
                sc_max_send_window_packets = max_send_window_packets,
                sc_max_recv_window_packets = max_recv_window_packets,
                sc_max_unacked_packets = max_unacked_packets,
                sc_max_retransmit_count = max_retransmit_count,
                sc_setup_timeout_ms = setup_timeout_ms,
                sc_idle_timeout_ms = idle_timeout_ms,
                sc_close_timeout_ms = close_timeout_ms,
                sc_delayed_ack_ms = delayed_ack_ms,
                sc_max_pre_syn_buffer = max_pre_syn_buffer\<rparr>)"

text \<open>The two profiles; \<open>expect\<close> would panic on an error, which \<open>Inl\<close> stands for.\<close>

definition streaming_balanced :: "StreamingConfigError + StreamingConfig" where
  "streaming_balanced = streaming_config_try_new 64 32 32 16 64 64 128 8 30000 300000 10000 750 4"

definition streaming_interactive :: "StreamingConfigError + StreamingConfig" where
  "streaming_interactive = streaming_config_try_new 64 32 32 16 16 16 32 8 30000 300000 10000 100 4"

subsection \<open>The contract\<close>

definition config_within :: "StreamingConfig \<Rightarrow> bool" where
  "config_within c \<longleftrightarrow>
     unat (sc_max_streams_per_destination c) \<in> {1..256}
     \<and> unat (sc_max_inbound_pending c) \<in> {1..64}
     \<and> unat (sc_max_outbound_pending c) \<in> {1..64}
     \<and> unat (sc_max_listener_backlog c) \<in> {0..64}
     \<and> unat (sc_max_send_window_packets c) \<in> {1..128}
     \<and> unat (sc_max_recv_window_packets c) \<in> {1..128}
     \<and> unat (sc_max_unacked_packets c) \<in> {1..256}
     \<and> unat (sc_max_retransmit_count c) \<in> {1..16}
     \<and> sc_setup_timeout_ms c \<noteq> 0 \<and> sc_idle_timeout_ms c \<noteq> 0 \<and> sc_close_timeout_ms c \<noteq> 0
     \<and> unat (sc_delayed_ack_ms c) \<in> {1..60000}
     \<and> unat (sc_max_pre_syn_buffer c) \<in> {0..8}"

definition config_try_new_of :: "StreamingConfig \<Rightarrow> StreamingConfigError + StreamingConfig" where
  "config_try_new_of c = streaming_config_try_new
     (sc_max_streams_per_destination c) (sc_max_inbound_pending c) (sc_max_outbound_pending c)
     (sc_max_listener_backlog c) (sc_max_send_window_packets c) (sc_max_recv_window_packets c)
     (sc_max_unacked_packets c) (sc_max_retransmit_count c) (sc_setup_timeout_ms c)
     (sc_idle_timeout_ms c) (sc_close_timeout_ms c) (sc_delayed_ack_ms c) (sc_max_pre_syn_buffer c)"

lemma unat_ge_one: "Suc 0 \<le> unat (w :: 'w::len word) \<longleftrightarrow> w \<noteq> 0"
  by (simp add: Suc_le_eq unat_gt_0)

lemma delayed_ack_limit: "(60000 :: u64) < w \<longleftrightarrow> \<not> unat w \<le> 60000"
  by (auto simp: word_less_nat_alt)

lemma config_try_new_within: "config_try_new_of c = Inr d \<longleftrightarrow> config_within c \<and> d = c"
  by (auto simp: config_try_new_of_def streaming_config_try_new_def config_within_def stream_limits
      unat_ge_one delayed_ack_limit split: if_splits)

lemma balanced_within:
  obtains c where "streaming_balanced = Inr c" "config_within c"
    "sc_max_send_window_packets c = 64" "sc_max_recv_window_packets c = 64"
proof -
  have "\<exists>c. streaming_balanced = Inr c \<and> sc_max_send_window_packets c = 64 \<and> sc_max_recv_window_packets c = 64
      \<and> config_within c"
    by (simp add: streaming_balanced_def streaming_config_try_new_def stream_limits config_within_def)
  with that show thesis by auto
qed

end
