(* ===== verification/Stream_Congestion.thy ===== *)
theory Stream_Congestion
  imports Stream_Config
begin

section \<open>Congestion window and retransmission timer\<close>

text \<open>
  \<open>i2pr-client/src/streaming/congestion.rs\<close> and \<open>retransmit.rs\<close>. The counters are words with the
  saturating operations of the source. \<open>record_rtt_sample\<close> multiplies and adds without checks, so
  its arithmetic wraps here as it does in a release build.
\<close>

subsection \<open>Congestion\<close>

definition INITIAL_CONGESTION_WINDOW :: u32 where
  "INITIAL_CONGESTION_WINDOW = 16"

definition MAX_CONGESTION_WINDOW :: u32 where
  "MAX_CONGESTION_WINDOW = 256"

definition MIN_CONGESTION_WINDOW :: u32 where
  "MIN_CONGESTION_WINDOW = 1"

record CongestionConfig =
  cc_initial_window :: u32
  cc_max_window :: u32
  cc_min_window :: u32

definition congestion_config_from :: "StreamingConfig \<Rightarrow> CongestionConfig" where
  "congestion_config_from config =
     (let initial = min INITIAL_CONGESTION_WINDOW (ucast (sc_max_send_window_packets config));
          maximum = min (ucast (sc_max_send_window_packets config)) MAX_CONGESTION_WINDOW;
          maximum = max (max maximum initial) MIN_CONGESTION_WINDOW
      in \<lparr>cc_initial_window = initial, cc_max_window = maximum, cc_min_window = MIN_CONGESTION_WINDOW\<rparr>)"

datatype CongestionDecision = CongestionAllow u32 | CongestionFull

record CongestionPolicy =
  cp_config :: CongestionConfig
  cp_current_window :: u32
  cp_acked_since_increase :: u32
  cp_in_flight :: u32

definition congestion_new :: "CongestionConfig \<Rightarrow> CongestionPolicy" where
  "congestion_new config =
     \<lparr>cp_config = config, cp_current_window = cc_initial_window config,
      cp_acked_since_increase = 0, cp_in_flight = 0\<rparr>"

definition congestion_evaluate :: "CongestionPolicy \<Rightarrow> CongestionDecision" where
  "congestion_evaluate c =
     (let available = word_sat_sub (cp_current_window c) (cp_in_flight c)
      in if available > 0 then CongestionAllow available else CongestionFull)"

definition record_sent :: "CongestionPolicy \<Rightarrow> CongestionPolicy" where
  "record_sent c = c\<lparr>cp_in_flight := word_sat_add (cp_in_flight c) 1\<rparr>"

definition record_acked :: "CongestionPolicy \<Rightarrow> CongestionPolicy" where
  "record_acked c =
     (let c = c\<lparr>cp_in_flight := word_sat_sub (cp_in_flight c) 1,
                cp_acked_since_increase := word_sat_add (cp_acked_since_increase c) 1\<rparr>
      in if cp_acked_since_increase c \<ge> cp_current_window c
         then c\<lparr>cp_current_window := min (word_sat_add (cp_current_window c) 1) (cc_max_window (cp_config c)),
                cp_acked_since_increase := 0\<rparr>
         else c)"

definition record_loss :: "CongestionPolicy \<Rightarrow> CongestionPolicy" where
  "record_loss c =
     (let halved = max (cp_current_window c) (cc_min_window (cp_config c)) div 2
      in c\<lparr>cp_current_window := max halved (cc_min_window (cp_config c)),
            cp_acked_since_increase := 0\<rparr>)"

subsection \<open>Retransmission timer\<close>

definition MIN_RTO_MILLIS :: u64 where
  "MIN_RTO_MILLIS = 100"

definition MAX_RTO_MILLIS :: u64 where
  "MAX_RTO_MILLIS = 60000"

record RttSample =
  rs_rtt_ms :: u64
  rs_sequence :: u32
  rs_was_retransmit :: bool

record RetransmitConfig =
  rc_initial_rto_ms :: u64
  rc_min_rto_ms :: u64
  rc_max_rto_ms :: u64
  rc_max_attempts :: u32

definition retransmit_config_from :: "StreamingConfig \<Rightarrow> RetransmitConfig" where
  "retransmit_config_from config =
     \<lparr>rc_initial_rto_ms = 5000, rc_min_rto_ms = MIN_RTO_MILLIS,
      rc_max_rto_ms = min MAX_RTO_MILLIS (sc_close_timeout_ms config div 2),
      rc_max_attempts = ucast (sc_max_retransmit_count config)\<rparr>"

datatype RetransmitDecision = Retransmit u32 | DropPacket u32 | Wait

record RetransmitPolicy =
  rp_config :: RetransmitConfig
  rp_smoothed_rtt_ms :: u64
  rp_rtt_variance_ms :: u64
  rp_current_rto_ms :: u64

definition retransmit_new :: "RetransmitConfig \<Rightarrow> RetransmitPolicy" where
  "retransmit_new config =
     \<lparr>rp_config = config, rp_smoothed_rtt_ms = rc_initial_rto_ms config,
      rp_rtt_variance_ms = rc_initial_rto_ms config div 2,
      rp_current_rto_ms = rc_initial_rto_ms config\<rparr>"

definition retransmit_evaluate :: "u64 \<Rightarrow> u32 \<Rightarrow> u64 \<Rightarrow> RetransmitPolicy \<Rightarrow> RetransmitDecision" where
  "retransmit_evaluate sent_at_ms retransmit_count now_ms r =
     (if retransmit_count \<ge> rc_max_attempts (rp_config r) then Wait
      else let elapsed = word_sat_sub now_ms sent_at_ms in
        if elapsed \<ge> rp_current_rto_ms r then Retransmit 0 else Wait)"

text \<open>\<open>u64::abs_diff\<close>.\<close>

definition abs_diff :: "u64 \<Rightarrow> u64 \<Rightarrow> u64" where
  "abs_diff a b = (if a < b then b - a else a - b)"

definition record_rtt_sample :: "RttSample \<Rightarrow> RetransmitPolicy \<Rightarrow> RetransmitPolicy" where
  "record_rtt_sample sample r =
     (if rs_was_retransmit sample then r
      else
      let rtt = rs_rtt_ms sample;
          smoothed = (rp_smoothed_rtt_ms r * (8 - 1) + rtt * 1) div 8;
          diff = abs_diff rtt smoothed;
          variance = (rp_rtt_variance_ms r * (4 - 1) + diff * 1) div 4;
          backoff = max (4 * variance) 0
      in r\<lparr>rp_smoothed_rtt_ms := smoothed, rp_rtt_variance_ms := variance,
            rp_current_rto_ms :=
              min (max (word_sat_add smoothed backoff) (rc_min_rto_ms (rp_config r)))
                (rc_max_rto_ms (rp_config r))\<rparr>)"

primrec backoff_loop :: "u64 \<Rightarrow> nat \<Rightarrow> u64 \<Rightarrow> u64" where
  "backoff_loop max_rto 0 rto = rto"
| "backoff_loop max_rto (Suc n) rto = backoff_loop max_rto n (min (word_sat_mul rto 2) max_rto)"

definition rto_for_retransmit :: "u32 \<Rightarrow> RetransmitPolicy \<Rightarrow> u64" where
  "rto_for_retransmit retransmit_count r =
     max (backoff_loop (rc_max_rto_ms (rp_config r)) (unat retransmit_count) (rp_current_rto_ms r))
       (rc_min_rto_ms (rp_config r))"

subsection \<open>The congestion window stays within its configuration\<close>

definition congestion_wf :: "CongestionPolicy \<Rightarrow> bool" where
  "congestion_wf c \<longleftrightarrow>
     1 \<le> cc_min_window (cp_config c)
     \<and> cc_min_window (cp_config c) \<le> cp_current_window c
     \<and> cp_current_window c \<le> cc_max_window (cp_config c)
     \<and> cp_acked_since_increase c < cp_current_window c"

lemma congestion_new_wf:
  assumes "sc_max_send_window_packets config \<noteq> 0"
  shows "congestion_wf (congestion_new (congestion_config_from config))"
proof -
  have "unat (ucast (sc_max_send_window_packets config) :: u32) = unat (sc_max_send_window_packets config)"
    by (simp add: unsigned_ucast_eq take_bit_nat_eq_self less_trans [OF unat_u16_lt])
  with assms have "1 \<le> unat (ucast (sc_max_send_window_packets config) :: u32)"
    by (simp add: Suc_le_eq unat_gt_0)
  then show ?thesis
    by (simp add: congestion_wf_def congestion_new_def congestion_config_from_def Let_def
        INITIAL_CONGESTION_WINDOW_def MAX_CONGESTION_WINDOW_def MIN_CONGESTION_WINDOW_def
        word_le_nat_alt word_less_nat_alt unat_min unat_max)
qed

lemma record_sent_wf: "congestion_wf c \<Longrightarrow> congestion_wf (record_sent c)"
  by (simp add: congestion_wf_def record_sent_def)

lemma record_acked_wf: "congestion_wf c \<Longrightarrow> congestion_wf (record_acked c)"
  by (auto simp: congestion_wf_def record_acked_def Let_def word_le_nat_alt word_less_nat_alt
      unat_min unat_word_sat_add not_le)

lemma record_loss_wf: "congestion_wf c \<Longrightarrow> congestion_wf (record_loss c)"
  by (auto simp: congestion_wf_def record_loss_def Let_def word_le_nat_alt word_less_nat_alt
      unat_max unat_div)

text \<open>Additive increase, multiplicative decrease: a full window of acknowledgements adds one packet.\<close>

lemma record_acked_in_flight:
  "cp_in_flight (record_acked c) = word_sat_sub (cp_in_flight c) 1"
  "cp_config (record_acked c) = cp_config c"
  by (simp_all add: record_acked_def Let_def)

lemma record_loss_in_flight:
  "cp_in_flight (record_loss c) = cp_in_flight c" "cp_config (record_loss c) = cp_config c"
  by (simp_all add: record_loss_def Let_def)

lemma acked_in_flight: "unat (cp_in_flight ((record_acked ^^ n) c)) = unat (cp_in_flight c) - n"
  by (induction n) (simp_all add: record_acked_in_flight unat_word_sat_sub)

lemma acked_wf: "congestion_wf c \<Longrightarrow> congestion_wf ((record_acked ^^ n) c)"
  by (induction n) (simp_all add: record_acked_wf)

lemma congestion_full_iff: "congestion_evaluate c = CongestionFull \<longleftrightarrow> unat (cp_current_window c) \<le> unat (cp_in_flight c)"
  by (simp add: congestion_evaluate_def Let_def word_less_nat_alt unat_word_sat_sub)

subsection \<open>The backoff in closed form\<close>

lemma min_mult_twice: "0 < k \<Longrightarrow> min (min a m * k) m = min (a * k) m" for a k m :: nat
proof (cases "a \<le> m")
  case False
  assume "0 < k"
  then have "m \<le> m * k" "a \<le> a * k" by simp_all
  with False have "m \<le> a * k" by linarith
  with \<open>m \<le> m * k\<close> False show ?thesis by simp
qed simp

lemma backoff_loop_closed:
  "unat (backoff_loop m n rto) = (if n = 0 then unat rto else min (unat rto * 2 ^ n) (unat m))"
proof (induction n arbitrary: rto)
  case (Suc n)
  have "unat m \<le> 18446744073709551615" using unat_u64_lt [of m] by linarith
  then have "unat (min (word_sat_mul rto 2) m) = min (unat rto * 2) (unat m)"
    by (simp add: unat_min unat_word_sat_mul min.assoc min.absorb2)
  then show ?case by (simp add: Suc min_mult_twice mult.assoc)
qed simp

lemma rto_closed:
  "unat (rto_for_retransmit attempts r) =
     max (if attempts = 0 then unat (rp_current_rto_ms r)
          else min (unat (rp_current_rto_ms r) * 2 ^ unat attempts) (unat (rc_max_rto_ms (rp_config r))))
       (unat (rc_min_rto_ms (rp_config r)))"
  by (simp add: rto_for_retransmit_def unat_max backoff_loop_closed unat_eq_0)

end
