(* ===== verification/Stream_Payload.thy ===== *)
theory Stream_Payload
  imports Wire
begin

section \<open>Client payload framing\<close>

text \<open>
  \<open>i2pr-proto/src/streaming/payload.rs\<close>: the gzip member that carries one application payload, with
  the I2P ports and protocol in the header fields. The compressor of flate2 is a parameter
  \<open>deflate\<close>; the decompressor is a parameter \<open>inflate\<close> that gives, for the bytes after the header,
  the chunks that successive calls of \<open>read\<close> return, the error that ends them, if any, and
  \<open>total_in\<close>. \<open>inflates\<close> is what the code relies on: the compressed stream ends by itself, so that
  bytes behind it are not consumed, and the chunks join to what was compressed. CRC-32 is computed
  here, with the table of the source.
\<close>

unbundle bit_operations_syntax

definition STREAMING_PROTOCOL_NUMBER :: u8 where
  "STREAMING_PROTOCOL_NUMBER = 6"

definition MAX_CLIENT_PAYLOAD_BYTES :: nat where
  "MAX_CLIENT_PAYLOAD_BYTES = 60 * 1024"

definition MAX_APPLICATION_PAYLOAD_BYTES :: nat where
  "MAX_APPLICATION_PAYLOAD_BYTES = MAX_CLIENT_PAYLOAD_BYTES - 64"

lemmas payload_limits = MAX_CLIENT_PAYLOAD_BYTES_def MAX_APPLICATION_PAYLOAD_BYTES_def

definition GZIP_MAGIC :: bytes where
  "GZIP_MAGIC = [0x1f, 0x8b]"

definition GZIP_CM_DEFLATE :: u8 where
  "GZIP_CM_DEFLATE = 0x08"

datatype ClientPayloadEncodeError =
    EnvelopePayloadTooLarge nat nat
  | InvalidProtocol u16
  | EnvelopeEncodeCodec CodecError

datatype ClientPayloadDecodeError =
    EnvelopeTruncated
  | BadMagic
  | UnsupportedCompressionMethod u8
  | UnsupportedOptionalHeaderLayout string
  | ReservedFlagBits u8
  | InvalidCrc u32 u32
  | InvalidIsize u32 u32
  | DecodedPayloadTooLarge nat nat
  | UnsupportedProtocol u8
  | DecompressionFailed string
  | EnvelopeTrailingBytes nat nat
  | EnvelopeDecodeCodec CodecError

record ClientPayload =
  cl_protocol :: u8
  cl_source_port :: u16
  cl_destination_port :: u16
  cl_payload :: bytes

definition client_payload_streaming :: "bytes \<Rightarrow> ClientPayloadEncodeError + ClientPayload" where
  "client_payload_streaming payload =
     (if length payload > MAX_APPLICATION_PAYLOAD_BYTES
      then Inl (EnvelopePayloadTooLarge (length payload) MAX_APPLICATION_PAYLOAD_BYTES)
      else Inr \<lparr>cl_protocol = STREAMING_PROTOCOL_NUMBER, cl_source_port = 0,
                cl_destination_port = 0, cl_payload = payload\<rparr>)"

definition into_streaming_payload :: "ClientPayload \<Rightarrow> ClientPayloadDecodeError + bytes" where
  "into_streaming_payload p =
     (if cl_protocol p \<noteq> STREAMING_PROTOCOL_NUMBER then Inl (UnsupportedProtocol (cl_protocol p))
      else Inr (cl_payload p))"

subsection \<open>CRC-32\<close>

definition crc_shift :: "u32 \<Rightarrow> u32" where
  "crc_shift acc = (if acc AND 1 \<noteq> 0 then 0xedb88320 XOR drop_bit 1 acc else drop_bit 1 acc)"

definition crc_table :: "u32 list" where
  "crc_table = map (\<lambda>index. (crc_shift ^^ 8) (of_nat index)) [0..<256]"

definition crc32 :: "bytes \<Rightarrow> u32" where
  "crc32 bs =
     fold (\<lambda>byte acc.
       let index = (acc XOR ucast byte) AND 0xff in
       drop_bit 8 acc XOR crc_table ! unat index) bs 0xffffffff
     XOR 0xffffffff"

subsection \<open>Encoding and decoding\<close>

definition le_bytes :: "u32 \<Rightarrow> bytes" where
  "le_bytes w = rev (be_encode 4 (unat w))"

definition from_le_bytes :: "bytes \<Rightarrow> u32" where
  "from_le_bytes bs = of_nat (be_decode (rev bs))"

definition gzip_header :: "ClientPayload \<Rightarrow> bytes" where
  "gzip_header p =
     [GZIP_MAGIC ! 0, GZIP_MAGIC ! 1, GZIP_CM_DEFLATE, 0x00]
     @ be_encode 2 (unat (cl_source_port p)) @ be_encode 2 (unat (cl_destination_port p))
     @ [0x02, cl_protocol p]"

text \<open>
  \<open>u16::from(u8)\<close> never exceeds \<open>u8::MAX\<close>, so the first guard never fires; writing into a vector
  does not fail, so the two deflate errors do not occur.
\<close>

definition encode_client_payload :: "(bytes \<Rightarrow> bytes) \<Rightarrow> ClientPayload \<Rightarrow> ClientPayloadEncodeError + bytes" where
  "encode_client_payload deflate p =
     (let protocol = ucast (cl_protocol p) :: u16 in
      if protocol > 255 then Inl (InvalidProtocol protocol)
      else if length (cl_payload p) > MAX_APPLICATION_PAYLOAD_BYTES
      then Inl (EnvelopePayloadTooLarge (length (cl_payload p)) MAX_APPLICATION_PAYLOAD_BYTES)
      else
        let compressed = deflate (cl_payload p);
            crc = crc32 (cl_payload p);
            isize = of_nat (length (cl_payload p)) :: u32
        in map_sum EnvelopeEncodeCodec id
             (encode_to_vec MAX_CLIENT_PAYLOAD_BYTES
               (seqS (write_raw (gzip_header p))
               (seqS (write_raw compressed)
               (seqS (write_raw (le_bytes crc))
                     (write_raw (le_bytes isize)))))))"

primrec read_chunks :: "bytes list \<Rightarrow> string option \<Rightarrow> bytes \<Rightarrow> ClientPayloadDecodeError + bytes" where
  "read_chunks [] failure payload =
     (case failure of Some message \<Rightarrow> Inl (DecompressionFailed message) | None \<Rightarrow> Inr payload)"
| "read_chunks (chunk # chunks) failure payload =
     (if length payload + length chunk > MAX_APPLICATION_PAYLOAD_BYTES
      then Inl (DecodedPayloadTooLarge (length payload + length chunk) MAX_APPLICATION_PAYLOAD_BYTES)
      else read_chunks chunks failure (payload @ chunk))"

definition check_gzip_flags :: "u8 \<Rightarrow> ClientPayloadDecodeError + unit" where
  "check_gzip_flags flags =
     (if flags AND 0x01 \<noteq> 0 then Inl (UnsupportedOptionalHeaderLayout ''FTEXT'')
      else if flags AND 0x02 \<noteq> 0 then Inl (UnsupportedOptionalHeaderLayout ''FHCRC'')
      else if flags AND 0x04 \<noteq> 0 then Inl (UnsupportedOptionalHeaderLayout ''FEXTRA'')
      else if flags AND 0x08 \<noteq> 0 then Inl (UnsupportedOptionalHeaderLayout ''FNAME'')
      else if flags AND 0x10 \<noteq> 0 then Inl (UnsupportedOptionalHeaderLayout ''FCOMMENT'')
      else if flags AND 0xe0 \<noteq> 0 then Inl (ReservedFlagBits flags)
      else Inr ())"

definition check_gzip_trailer :: "bytes \<Rightarrow> nat \<Rightarrow> bytes \<Rightarrow> ClientPayloadDecodeError + unit" where
  "check_gzip_trailer input body_consumed payload =
     (if body_consumed + 8 > length input - 10 then Inl EnvelopeTruncated
      else
      let trailer_crc = from_le_bytes (take 4 (drop (10 + body_consumed) input));
          trailer_isize = from_le_bytes (take 4 (drop (10 + body_consumed + 4) input));
          computed_crc = crc32 payload
      in if trailer_isize \<noteq> of_nat (length payload)
         then Inl (InvalidIsize trailer_isize (of_nat (length payload)))
         else if computed_crc \<noteq> trailer_crc then Inl (InvalidCrc trailer_crc computed_crc)
         else if 10 + body_consumed + 8 \<noteq> length input
         then Inl (EnvelopeTrailingBytes (10 + body_consumed + 8) (length input - 10 - body_consumed - 8))
         else Inr ())"

definition decode_client_payload ::
  "(bytes \<Rightarrow> bytes list \<times> string option \<times> nat) \<Rightarrow> bytes \<Rightarrow> nat
     \<Rightarrow> ClientPayloadDecodeError + ClientPayload" where
  "decode_client_payload inflate input maximum =
     (if length input > maximum
      then Inl (EnvelopeDecodeCodec (LengthExceeded 0 (length input) maximum ''client payload input''))
      else if length input < 10 then Inl EnvelopeTruncated
      else if input ! 0 \<noteq> GZIP_MAGIC ! 0 \<or> input ! 1 \<noteq> GZIP_MAGIC ! 1 then Inl BadMagic
      else if input ! 2 \<noteq> GZIP_CM_DEFLATE then Inl (UnsupportedCompressionMethod (input ! 2))
      else
      bindR (check_gzip_flags (input ! 3)) (\<lambda>_.
      case inflate (drop 10 input) of (chunks, failure, body_consumed) \<Rightarrow>
      bindR (read_chunks chunks failure []) (\<lambda>payload.
      bindR (check_gzip_trailer input body_consumed payload) (\<lambda>_.
      Inr \<lparr>cl_protocol = input ! 9,
           cl_source_port = of_nat (be_decode [input ! 4, input ! 5]),
           cl_destination_port = of_nat (be_decode [input ! 6, input ! 7]),
           cl_payload = payload\<rparr>))))"

subsection \<open>The table is the bitwise CRC\<close>

text \<open>The reference: every byte is added to the low end of the register and shifted out bit by bit.\<close>

definition crc32_bitwise :: "bytes \<Rightarrow> u32" where
  "crc32_bitwise bs = fold (\<lambda>byte acc. (crc_shift ^^ 8) (acc XOR ucast byte)) bs 0xffffffff XOR 0xffffffff"

lemma crc_shift_xor: "crc_shift (a XOR b) = crc_shift a XOR crc_shift b"
  by (rule bit_eqI) (auto simp: crc_shift_def bit_simps and_one_eq odd_iff_mod_2_eq_one [symmetric] even_xor_iff)

lemma crc_shift_pow_xor: "(crc_shift ^^ n) (a XOR b) = (crc_shift ^^ n) a XOR (crc_shift ^^ n) b"
  by (induction n arbitrary: a b) (simp_all add: crc_shift_xor del: funpow.simps add: funpow_Suc_right)

lemma crc_shift_pow_high: "take_bit n a = 0 \<Longrightarrow> (crc_shift ^^ n) a = drop_bit n a"
proof (induction n arbitrary: a)
  case (Suc n)
  have low: "bit a m = False" if "m \<le> n" for m
    using arg_cong [OF Suc.prems, of "\<lambda>w. bit w m"] that by (simp add: bit_simps)
  have "even a" using low [of 0] by (simp add: bit_0)
  then have shift: "crc_shift a = drop_bit 1 a" by (simp add: crc_shift_def and_one_eq even_iff_mod_2_eq_zero)
  have "take_bit n (drop_bit 1 a) = 0" using low by (auto intro!: bit_eqI simp: bit_simps)
  then have "(crc_shift ^^ n) (drop_bit 1 a) = drop_bit (Suc n) a" by (simp add: Suc.IH)
  with shift show ?case by (simp add: funpow_Suc_right del: funpow.simps)
qed simp

lemma crc_table_step:
  "(crc_shift ^^ 8) (acc XOR ucast (byte :: u8)) = drop_bit 8 acc XOR crc_table ! unat ((acc XOR ucast byte) AND 0xff)"
proof -
  let ?x = "acc XOR ucast byte :: u32"
  have mask: "(0xff :: u32) = mask 8" by (simp add: mask_eq_exp_minus_1)
  have split: "?x = (?x AND 0xff) XOR (?x AND NOT 0xff)"
    by (rule bit_eqI) (auto simp: bit_simps)
  have "take_bit 8 (?x AND NOT 0xff) = 0" unfolding mask by (rule bit_eqI) (auto simp: bit_simps)
  then have "(crc_shift ^^ 8) (?x AND NOT 0xff) = drop_bit 8 (?x AND NOT 0xff)"
    by (rule crc_shift_pow_high)
  also have "\<dots> = drop_bit 8 acc" unfolding mask by (rule bit_eqI) (auto simp: bit_simps dest: bit_imp_le_length)
  finally have high: "(crc_shift ^^ 8) (?x AND NOT 0xff) = drop_bit 8 acc" .
  have small: "unat (?x AND 0xff) < 256"
  proof -
    have "?x AND 0xff = take_bit 8 ?x" unfolding mask by (simp add: take_bit_eq_mask)
    moreover have "unat (take_bit 8 ?x) < 2 ^ 8" by (simp only: unsigned_take_bit_eq take_bit_nat_less_exp)
    ultimately show ?thesis by simp
  qed
  then have "(crc_shift ^^ 8) (?x AND 0xff) = crc_table ! unat (?x AND 0xff)"
    by (simp add: crc_table_def)
  with high show ?thesis
    by (subst split) (simp only: crc_shift_pow_xor xor.commute)
qed

lemma crc32_table: "crc32 bs = crc32_bitwise bs"
  by (simp add: crc32_def crc32_bitwise_def crc_table_step Let_def)

subsection \<open>The round trip\<close>

definition inflates :: "(bytes \<Rightarrow> bytes) \<Rightarrow> (bytes \<Rightarrow> bytes list \<times> string option \<times> nat) \<Rightarrow> bool" where
  "inflates deflate inflate \<longleftrightarrow>
     (\<forall>payload rest. \<exists>chunks. inflate (deflate payload @ rest) = (chunks, None, length (deflate payload))
        \<and> concat chunks = payload)"

lemma read_chunks_all:
  "length payload + length (concat chunks) \<le> MAX_APPLICATION_PAYLOAD_BYTES \<Longrightarrow>
     read_chunks chunks None payload = Inr (payload @ concat chunks)"
  by (induction chunks arbitrary: payload) simp_all

lemma from_le_bytes_le_bytes [simp]: "from_le_bytes (le_bytes w) = w"
  using be_decode_less by (simp add: from_le_bytes_def le_bytes_def be_decode_encode)

lemma length_le_bytes [simp]: "length (le_bytes w) = 4"
  by (simp add: le_bytes_def)

lemma be_pair: "(of_nat (be_decode (be_encode 2 (unat w))) :: u16) = w"
  by (simp add: be_decode_encode)

lemma encode_client_payload_wire:
  assumes "encode_client_payload deflate p = Inr bs"
  shows "bs = gzip_header p @ deflate (cl_payload p) @ le_bytes (crc32 (cl_payload p))
      @ le_bytes (of_nat (length (cl_payload p)))"
    and "length bs \<le> MAX_CLIENT_PAYLOAD_BYTES" "length (cl_payload p) \<le> MAX_APPLICATION_PAYLOAD_BYTES"
proof -
  let ?e = "seqS (write_raw (gzip_header p)) (seqS (write_raw (deflate (cl_payload p)))
      (seqS (write_raw (le_bytes (crc32 (cl_payload p)))) (write_raw (le_bytes (of_nat (length (cl_payload p)))))))"
  have run: "encode_to_vec MAX_CLIENT_PAYLOAD_BYTES ?e = Inr bs"
    and len: "length (cl_payload p) \<le> MAX_APPLICATION_PAYLOAD_BYTES"
    using assms by (simp_all add: encode_client_payload_def Let_def map_sum_eq_Inr split: if_splits)
  have w: "writes ?e (gzip_header p @ deflate (cl_payload p) @ le_bytes (crc32 (cl_payload p))
      @ le_bytes (of_nat (length (cl_payload p))))" (is "writes _ ?xs")
    by (intro writes_seq writes_raw)
  have "MAX_CLIENT_PAYLOAD_BYTES < usize_limit" by (simp add: payload_limits usize_limit_def)
  from encode_to_vec_writes [OF w this run] show "bs = ?xs" "length bs \<le> MAX_CLIENT_PAYLOAD_BYTES"
    by simp_all
  show "length (cl_payload p) \<le> MAX_APPLICATION_PAYLOAD_BYTES" by (rule len)
qed

lemma client_payload_round_trip:
  assumes "inflates deflate inflate" "encode_client_payload deflate p = Inr bs" "length bs \<le> maximum"
  shows "decode_client_payload inflate bs maximum = Inr p"
proof -
  note wire = encode_client_payload_wire [OF assms(2)]
  let ?d = "deflate (cl_payload p)"
  let ?t = "le_bytes (crc32 (cl_payload p)) @ le_bytes (of_nat (length (cl_payload p)))"
  obtain chunks where inf: "inflate (?d @ ?t) = (chunks, None, length ?d)" "concat chunks = cl_payload p"
    using assms(1) by (auto simp: inflates_def)
  obtain a b where ab: "be_encode 2 (unat (cl_source_port p)) = [a, b]"
    by (simp add: numeral_2_eq_2)
  obtain c d where cd: "be_encode 2 (unat (cl_destination_port p)) = [c, d]"
    by (simp add: numeral_2_eq_2)
  define h where "h = [0x1f, 0x8b, 0x08, 0, a, b, c, d, 2, cl_protocol p]"
  have h: "length h = 10" by (simp add: h_def)
  have bs: "bs = h @ ?d @ ?t"
    using wire(1) by (simp add: h_def gzip_header_def ab cd GZIP_MAGIC_def GZIP_CM_DEFLATE_def)
  have parts: "take 4 (drop (10 + length ?d) bs) = le_bytes (crc32 (cl_payload p))"
    "take 4 (drop (10 + length ?d + 4) bs) = le_bytes (of_nat (length (cl_payload p)))"
    "length bs = 10 + length ?d + 8" "drop 10 bs = ?d @ ?t"
    by (simp_all add: bs h)
  have chunks: "read_chunks chunks None [] = Inr (cl_payload p)"
    using read_chunks_all [of "[]" chunks] inf(2) wire(3) by simp
  have trailer: "check_gzip_trailer bs (length ?d) (cl_payload p) = Inr ()"
    unfolding check_gzip_trailer_def parts by simp
  have fields: "bs ! 0 = 0x1f" "bs ! 1 = 0x8b" "bs ! 2 = 0x08" "bs ! 3 = 0" "bs ! 4 = a" "bs ! 5 = b"
    "bs ! 6 = c" "bs ! 7 = d" "bs ! 9 = cl_protocol p"
    by (simp_all add: bs h_def)
  have ports: "(of_nat (be_decode [a, b]) :: u16) = cl_source_port p"
    "(of_nat (be_decode [c, d]) :: u16) = cl_destination_port p"
    using be_pair [of "cl_source_port p"] be_pair [of "cl_destination_port p"] by (simp_all add: ab cd)
  show ?thesis
    unfolding decode_client_payload_def parts(4) inf(1)
    using assms(3) parts(3)
    by (simp add: fields fields(2) [unfolded One_nat_def] ports chunks trailer GZIP_MAGIC_def GZIP_CM_DEFLATE_def check_gzip_flags_def)
qed

end
