(* ===== verification/Stream_Connection.thy ===== *)
theory Stream_Connection
  imports Stream_Recv Stream_Send Stream_Congestion Stream_Payload
begin

section \<open>Streaming connections\<close>

text \<open>
  \<open>i2pr-client/src/streaming/connection.rs\<close>, with the errors and events of \<open>errors.rs\<close> and
  \<open>events.rs\<close>: one connection is its state, its two windows, the congestion and retransmission
  policies, its stream identifiers, ports and negotiated payload size. Every method that changes it
  is a definition; the getters are the record's fields.
\<close>

subsection \<open>Errors and events\<close>

datatype StreamingError =
    StreamConfig StreamingConfigError
  | ConnectionClosed
  | ConnectionReset
  | SetupTimeout
  | IdleTimeout
  | CloseTimeout
  | WireCodec string
  | InvalidStateTransition string string
  | SendWindowFull
  | RecvWindowFull
  | NoStreamIdAvailable
  | ConnectionTableFull
  | ListenerBacklogFull
  | SignatureInvalid
  | SynReplayBindingMismatch
  | PayloadExceedsMaxPacketSize
  | StreamTransport string
  | RetransmitBudgetExhausted u32
  | MissingField string
  | UnknownStream
  | CongestionRejected
  | InboundEnvelope ClientPayloadDecodeError
  | StreamPayloadTooLarge nat nat
  | OutboundEnvelope ClientPayloadEncodeError

record AckObservation =
  ack_obs_through :: u32
  ack_obs_nack_count :: nat

datatype InboundStreamEvent =
    DataDelivered u32 nat
  | SynReceived u32
  | AckReceived AckObservation
  | DuplicateDetected u32
  | TooFarAheadDetected u32
  | ResetReceived
  | CloseReceived

datatype OutboundStreamEvent =
    DataQueued u32 nat
  | Acked AckObservation
  | Retransmitted u32
  | NackReceived u32
  | WindowReduced u32
  | ResetSent
  | CloseSent

subsection \<open>Connection state\<close>

datatype ConnectionId = ConnectionId u64

datatype StreamDirection = OutboundStream | InboundStream

datatype ConnectionState =
    OutboundSynSent
  | InboundSynReceived
  | Established
  | ClosingLocal
  | ClosingRemote
  | Reset
  | Closed

text \<open>The derived order of the enumeration: the position of the variant.\<close>

primrec state_rank :: "ConnectionState \<Rightarrow> nat" where
  "state_rank OutboundSynSent = 0"
| "state_rank InboundSynReceived = 1"
| "state_rank Established = 2"
| "state_rank ClosingLocal = 3"
| "state_rank ClosingRemote = 4"
| "state_rank Reset = 5"
| "state_rank Closed = 6"

instantiation ConnectionState :: linorder
begin

definition less_eq_ConnectionState :: "ConnectionState \<Rightarrow> ConnectionState \<Rightarrow> bool" where
  "less_eq_ConnectionState a b \<longleftrightarrow> state_rank a \<le> state_rank b"

definition less_ConnectionState :: "ConnectionState \<Rightarrow> ConnectionState \<Rightarrow> bool" where
  "less_ConnectionState a b \<longleftrightarrow> state_rank a < state_rank b"

instance
proof
  fix a b :: ConnectionState
  show "a \<le> b \<Longrightarrow> b \<le> a \<Longrightarrow> a = b"
    by (cases a; cases b) (simp_all add: less_eq_ConnectionState_def)
qed (auto simp: less_eq_ConnectionState_def less_ConnectionState_def)

end

primrec state_label :: "ConnectionState \<Rightarrow> string" where
  "state_label OutboundSynSent = ''OutboundSynSent''"
| "state_label InboundSynReceived = ''InboundSynReceived''"
| "state_label Established = ''Established''"
| "state_label ClosingLocal = ''ClosingLocal''"
| "state_label ClosingRemote = ''ClosingRemote''"
| "state_label Reset = ''Reset''"
| "state_label Closed = ''Closed''"

record ConnectionTransition =
  ct_from :: ConnectionState
  ct_to :: ConnectionState
  ct_at_ms :: u64

datatype StreamingConnectionEvent =
    Transition ConnectionTransition
  | OutboundData OutboundStreamEvent
  | InboundData InboundStreamEvent
  | BackpressureEvent

record StreamingConnection =
  sn_id :: ConnectionId
  sn_direction :: StreamDirection
  sn_state :: ConnectionState
  sn_config :: StreamingConfig
  sn_send_window :: SendWindowPolicy
  sn_recv_window :: RecvWindowPolicy
  sn_congestion :: CongestionPolicy
  sn_retransmit :: RetransmitPolicy
  sn_local_stream_id :: u32
  sn_remote_stream_id :: u32
  sn_peer_signing_key :: SigningPublicKey
  sn_peer_destination_hash :: bytes
  sn_peer_destination :: "Destination option"
  sn_local_port :: u16
  sn_remote_port :: u16
  sn_local_advertised_max_payload :: u16
  sn_remote_advertised_max_payload :: "u16 option"
  sn_max_payload_size :: u32
  sn_last_activity_ms :: u64
  sn_created_at_ms :: u64

definition connection_new ::
  "StreamDirection \<Rightarrow> ConnectionState \<Rightarrow> ConnectionId \<Rightarrow> StreamingConfig \<Rightarrow> u32 \<Rightarrow> u32
     \<Rightarrow> SigningPublicKey \<Rightarrow> bytes \<Rightarrow> u16 \<Rightarrow> u16 \<Rightarrow> u64 \<Rightarrow> StreamingConnection" where
  "connection_new direction state cid config local_stream_id remote_stream_id peer_signing_key
     peer_destination_hash local_port remote_port now_ms =
     \<lparr>sn_id = cid, sn_direction = direction, sn_state = state, sn_config = config,
      sn_send_window = send_window_new (send_window_config_from config),
      sn_recv_window = recv_window_new (recv_window_config_from config),
      sn_congestion = congestion_new (congestion_config_from config),
      sn_retransmit = retransmit_new (retransmit_config_from config),
      sn_local_stream_id = local_stream_id, sn_remote_stream_id = remote_stream_id,
      sn_peer_signing_key = peer_signing_key, sn_peer_destination_hash = peer_destination_hash,
      sn_peer_destination = None, sn_local_port = local_port, sn_remote_port = remote_port,
      sn_local_advertised_max_payload = MAX_ADVERTISED_PACKET_PAYLOAD_BYTES,
      sn_remote_advertised_max_payload = None,
      sn_max_payload_size = ucast MAX_ADVERTISED_PACKET_PAYLOAD_BYTES,
      sn_last_activity_ms = now_ms, sn_created_at_ms = now_ms\<rparr>"

definition new_outbound ::
  "ConnectionId \<Rightarrow> StreamingConfig \<Rightarrow> u32 \<Rightarrow> u32 \<Rightarrow> SigningPublicKey \<Rightarrow> bytes \<Rightarrow> u16 \<Rightarrow> u16 \<Rightarrow> u64
     \<Rightarrow> StreamingConnection" where
  "new_outbound = connection_new OutboundStream OutboundSynSent"

definition new_inbound ::
  "ConnectionId \<Rightarrow> StreamingConfig \<Rightarrow> u32 \<Rightarrow> u32 \<Rightarrow> SigningPublicKey \<Rightarrow> bytes \<Rightarrow> u16 \<Rightarrow> u16 \<Rightarrow> u64
     \<Rightarrow> StreamingConnection" where
  "new_inbound = connection_new InboundStream InboundSynReceived"

definition ports_match :: "StreamingConnection \<Rightarrow> u16 \<Rightarrow> u16 \<Rightarrow> bool" where
  "ports_match c source_port destination_port \<longleftrightarrow>
     sn_remote_port c = source_port \<and> sn_local_port c = destination_port"

subsection \<open>Transitions\<close>

definition transition_established :: "u32 \<Rightarrow> u64 \<Rightarrow> (StreamingConnection, StreamingError, ConnectionTransition) rsm" where
  "transition_established remote_max_payload now_ms = (\<lambda>c.
     let from_state = sn_state c in
     if \<not> (from_state = OutboundSynSent \<or> from_state = InboundSynReceived)
     then (Inl (InvalidStateTransition (state_label from_state) ''Established''), c)
     else
       let local_max = ucast (sn_local_advertised_max_payload c) :: u32 in
       (Inr \<lparr>ct_from = from_state, ct_to = Established, ct_at_ms = now_ms\<rparr>,
        c\<lparr>sn_state := Established, sn_last_activity_ms := now_ms,
          sn_max_payload_size := min local_max remote_max_payload\<rparr>))"

definition begin_close :: "u64 \<Rightarrow> (StreamingConnection, StreamingError, ConnectionTransition) rsm" where
  "begin_close now_ms = (\<lambda>c.
     if sn_state c \<noteq> Established
     then (Inl (InvalidStateTransition (state_label (sn_state c)) ''ClosingLocal''), c)
     else (Inr \<lparr>ct_from = sn_state c, ct_to = ClosingLocal, ct_at_ms = now_ms\<rparr>,
           c\<lparr>sn_state := ClosingLocal, sn_last_activity_ms := now_ms\<rparr>))"

definition remote_close_received :: "u64 \<Rightarrow> (StreamingConnection, StreamingError, ConnectionTransition) rsm" where
  "remote_close_received now_ms = (\<lambda>c.
     if sn_state c \<noteq> Established
     then (Inl (InvalidStateTransition (state_label (sn_state c)) ''ClosingRemote''), c)
     else (Inr \<lparr>ct_from = sn_state c, ct_to = ClosingRemote, ct_at_ms = now_ms\<rparr>,
           c\<lparr>sn_state := ClosingRemote, sn_last_activity_ms := now_ms\<rparr>))"

definition connection_close :: "u64 \<Rightarrow> (StreamingConnection, StreamingError, ConnectionTransition) rsm" where
  "connection_close now_ms = (\<lambda>c.
     if sn_state c = Closed then (Inl ConnectionClosed, c)
     else (Inr \<lparr>ct_from = sn_state c, ct_to = Closed, ct_at_ms = now_ms\<rparr>,
           c\<lparr>sn_state := Closed, sn_last_activity_ms := now_ms\<rparr>))"

definition connection_reset :: "u64 \<Rightarrow> (StreamingConnection, StreamingError, ConnectionTransition) rsm" where
  "connection_reset now_ms = (\<lambda>c.
     if sn_state c = Closed then (Inl ConnectionClosed, c)
     else (Inr \<lparr>ct_from = sn_state c, ct_to = Reset, ct_at_ms = now_ms\<rparr>,
           c\<lparr>sn_state := Reset, sn_last_activity_ms := now_ms\<rparr>))"

subsection \<open>Data and acknowledgements\<close>

definition enqueue_send :: "nat \<Rightarrow> u64 \<Rightarrow> (StreamingConnection, StreamingError, u32) rsm" where
  "enqueue_send payload_len now_ms = (\<lambda>c.
     if sn_state c \<noteq> Established
     then (Inl (InvalidStateTransition (state_label (sn_state c)) ''send (need Established)''), c)
     else case congestion_evaluate (sn_congestion c) of
       CongestionFull \<Rightarrow> (Inl CongestionRejected, c)
     | CongestionAllow _ \<Rightarrow>
       (case send_window_evaluate payload_len (sn_send_window c) of
          Backpressure \<Rightarrow> (Inl SendWindowFull, c)
        | Accept \<Rightarrow>
          (case send_window_enqueue payload_len now_ms (sn_send_window c) of
             (Inl _, w) \<Rightarrow> (Inl SendWindowFull, c\<lparr>sn_send_window := w\<rparr>)
           | (Inr seq, w) \<Rightarrow>
               (Inr seq, c\<lparr>sn_send_window := w, sn_congestion := record_sent (sn_congestion c),
                           sn_last_activity_ms := now_ms\<rparr>))))"

definition receive_packet :: "u32 \<Rightarrow> bytes \<Rightarrow> u64 \<Rightarrow> (StreamingConnection, StreamingError, RecvWindowDecision) rsm" where
  "receive_packet sequence payload now_ms = (\<lambda>c.
     case receive sequence payload (sn_recv_window c) of (decision, w) \<Rightarrow>
       (Inr decision, c\<lparr>sn_recv_window := w, sn_last_activity_ms := now_ms\<rparr>))"

definition receive_ack :: "u32 \<Rightarrow> u32 list \<Rightarrow> u64 \<Rightarrow> StreamingConnection \<Rightarrow> AckObservation \<times> StreamingConnection" where
  "receive_ack ack_through nacks now_ms c =
     (case acknowledge ack_through nacks (sn_send_window c) of (outcome, w) \<Rightarrow>
      let congestion = fold (\<lambda>_ g. record_acked g) (ao_newly_acked outcome) (sn_congestion c);
          congestion = (if ao_retained_nacks outcome \<noteq> [] then record_loss congestion else congestion)
      in (\<lparr>ack_obs_through = ack_through, ack_obs_nack_count = length nacks\<rparr>,
          c\<lparr>sn_last_activity_ms := now_ms, sn_send_window := w, sn_congestion := congestion\<rparr>))"

definition generate_nacks :: "StreamingConnection \<Rightarrow> u32 \<Rightarrow> u32 list" where
  "generate_nacks c ack_through = missing_sequences (sn_recv_window c) ack_through"

definition check_timeout :: "StreamingConnection \<Rightarrow> u64 \<Rightarrow> bool" where
  "check_timeout c now_ms \<longleftrightarrow>
     word_sat_sub now_ms (sn_last_activity_ms c) >
       (case sn_state c of
          Closed \<Rightarrow> - 1
        | Reset \<Rightarrow> - 1
        | Established \<Rightarrow> sc_idle_timeout_ms (sn_config c)
        | ClosingLocal \<Rightarrow> sc_idle_timeout_ms (sn_config c)
        | ClosingRemote \<Rightarrow> sc_idle_timeout_ms (sn_config c)
        | OutboundSynSent \<Rightarrow> sc_setup_timeout_ms (sn_config c)
        | InboundSynReceived \<Rightarrow> sc_setup_timeout_ms (sn_config c))"

definition is_terminal :: "StreamingConnection \<Rightarrow> bool" where
  "is_terminal c \<longleftrightarrow> sn_state c = Closed \<or> sn_state c = Reset"

text \<open>One expired sequence of \<open>advance\<close>.\<close>

definition advance_expired ::
  "u64 \<Rightarrow> u32 \<Rightarrow> StreamingConnectionEvent list \<times> StreamingConnection
     \<Rightarrow> StreamingConnectionEvent list \<times> StreamingConnection" where
  "advance_expired now_ms seq = (\<lambda>(events, c).
     let exhausted = (case bt_get (sw_unacked (sn_send_window c)) seq of
           Some entry \<Rightarrow> ue_retransmit_count entry \<ge> ucast (sc_max_retransmit_count (sn_config c))
         | None \<Rightarrow> False)
     in (events @ [OutboundData (Retransmitted seq)],
         c\<lparr>sn_send_window :=
             (if exhausted then snd (send_window_remove seq (sn_send_window c))
              else mark_retransmitted seq now_ms (sn_send_window c))\<rparr>))"

definition connection_advance :: "u64 \<Rightarrow> StreamingConnection \<Rightarrow> StreamingConnectionEvent list \<times> StreamingConnection" where
  "connection_advance now_ms c =
     (if is_terminal c then ([], c)
      else if check_timeout c now_ms then
        (case connection_reset now_ms c of
           (Inl _, c') \<Rightarrow> ([], c')
         | (Inr t, c') \<Rightarrow> ([Transition t], c'))
      else
        let rto = rp_current_rto_ms (sn_retransmit c);
            expired = expired_entries now_ms rto (sn_send_window c)
        in fold (advance_expired now_ms) expired ([], c))"

end
