(* ===== verification/Stream_Manager.thy ===== *)
theory Stream_Manager
  imports Stream_Connection Stream_Packet
begin

section \<open>The streaming manager: state, tables, outbound packets\<close>

text \<open>
  \<open>i2pr-client/src/streaming/manager.rs\<close>, first half: the tables of a manager, allocation of stream
  identifiers, the builders of signed and plain packets, sending, the acknowledgement and
  retransmission polls, delivery accounting and removal. The theory Stream_Inbound has the inbound
  handlers.

  The record \<open>StreamEnv\<close> holds what the code calls outside the repository: SHA-256, Ed25519 signing
  and verification, and the deflate compressor. A loop that the code may run forever is a partial
  function, and the operations that call it return an option: \<open>None\<close> is not returning.
\<close>

subsection \<open>Cryptography and identities\<close>

record StreamEnv =
  env_sha256 :: "bytes \<Rightarrow> bytes"
  env_ed25519_sign :: "bytes \<Rightarrow> bytes \<Rightarrow> bytes"
  env_ed25519_verify :: "bytes \<Rightarrow> bytes \<Rightarrow> bytes \<Rightarrow> bool"
  env_deflate :: "bytes \<Rightarrow> bytes"

text \<open>
  A destination identity: the public destination and the seed of its signing key. Its local number and
  its static key, and the static key of a remote destination, belong to the garlic layer; the streaming
  code does not read them.
\<close>

record DestinationIdentity =
  di_destination :: Destination
  di_signing_seed :: bytes

definition identity_sign :: "StreamEnv \<Rightarrow> DestinationIdentity \<Rightarrow> bytes \<Rightarrow> CodecError + SignatureValue" where
  "identity_sign env identity message =
     signature_value_new EdDsaSha512Ed25519 (env_ed25519_sign env (di_signing_seed identity) message)"

text \<open>Every caller maps the errors of \<open>verify_signature\<close> to one error, so its result is a boolean.\<close>

definition verify_signature :: "StreamEnv \<Rightarrow> SigningPublicKey \<Rightarrow> bytes \<Rightarrow> SignatureValue \<Rightarrow> bool" where
  "verify_signature env public_key message signature \<longleftrightarrow>
     sk_key_type public_key = EdDsaSha512Ed25519 \<and> sv_key_type signature = EdDsaSha512Ed25519
     \<and> length (sk_bytes public_key) = 32 \<and> length (sv_bytes signature) = 64
     \<and> env_ed25519_verify env (sk_bytes public_key) message (sv_bytes signature)"

record RemoteDestination =
  rd_destination_hash :: bytes
  rd_signing_public_key :: SigningPublicKey

subsection \<open>State\<close>

instantiation ConnectionId :: linorder
begin

fun less_eq_ConnectionId :: "ConnectionId \<Rightarrow> ConnectionId \<Rightarrow> bool" where
  "less_eq_ConnectionId (ConnectionId a) (ConnectionId b) \<longleftrightarrow> a \<le> b"

fun less_ConnectionId :: "ConnectionId \<Rightarrow> ConnectionId \<Rightarrow> bool" where
  "less_ConnectionId (ConnectionId a) (ConnectionId b) \<longleftrightarrow> a < b"

instance
proof
  fix x y z :: ConnectionId
  show "x < y \<longleftrightarrow> x \<le> y \<and> \<not> y \<le> x" by (cases x; cases y) auto
  show "x \<le> x" by (cases x) simp
  show "x \<le> y \<Longrightarrow> y \<le> z \<Longrightarrow> x \<le> z" by (cases x; cases y; cases z) simp
  show "x \<le> y \<Longrightarrow> y \<le> x \<Longrightarrow> x = y" by (cases x; cases y) simp
  show "x \<le> y \<or> y \<le> x" by (cases x; cases y) auto
qed

end

record TransportSendRequest =
  ts_destination_hash :: bytes
  ts_source_port :: u16
  ts_destination_port :: u16
  ts_application_payload :: bytes
  ts_sequence :: u32
  ts_send_stream_id :: u32
  ts_receive_stream_id :: u32

record OutboundPacket =
  op_sequence :: u32
  op_payload_len :: nat
  op_sent_at_ms :: u64
  op_retransmit_count :: u32
  op_request :: TransportSendRequest
  op_signed :: bool

record DeliveredApplicationBytes =
  da_connection_id :: ConnectionId
  da_bytes :: bytes

text \<open>The pre-SYN buffer of the source is never filled, so the record leaves it out.\<close>

record StreamingManager =
  sm_config :: StreamingConfig
  sm_connections :: "(ConnectionId, StreamingConnection) btree"
  sm_outbound_by_stream :: "(u32, ConnectionId) btree"
  sm_inbound_by_stream :: "(u32, ConnectionId) btree"
  sm_listeners :: "(u16, ConnectionId list) btree"
  sm_outbound_queue :: "TransportSendRequest list"
  sm_outbound_packets :: "(ConnectionId, (u32, OutboundPacket) btree) btree"
  sm_pending_acks :: "(ConnectionId, u64) btree"
  sm_next_connection_id :: u64
  sm_next_inbound_stream_id :: u32
  sm_pending_delivered :: "DeliveredApplicationBytes list"
  sm_pending_bytes_by_connection :: "(ConnectionId, nat) btree"
  sm_pending_syn_payloads :: "(ConnectionId, bytes) btree"

datatype StreamingManagerError =
    ManagerConfig string
  | ManagerConnectionTableFull
  | ManagerListenerBacklogFull
  | ManagerPortAlreadyInUse
  | UnknownConnection
  | InvalidConnectionState
  | NoMatchingListener u16
  | PortTupleMismatch u16 u16 u16 u16 \<comment> \<open>expected destination, expected source, actual source, actual destination\<close>
  | InitialSynPayloadTooLarge nat nat
  | ManagerStreaming StreamingError
  | ManagerCodec StreamingPacketError
  | ManagerI2npCodec CodecError
  | ManagerRandomnessUnavailable
  | ManagerOutboundEnvelope ClientPayloadEncodeError
  | ManagerInboundEnvelope ClientPayloadDecodeError
  | ManagerDestinationIdentity CodecError

datatype ConnectOutcome =
    SynSent ConnectionId u32 u32
  | OutcomeTableFull
  | PendingBudgetExhausted
  | OutcomePayloadTooLarge nat nat
  | OutcomeCodec StreamingPacketError

datatype ListenerOutcome = Listening u16 | PortAlreadyInUse | BacklogFull

definition manager_new :: "StreamingConfig \<Rightarrow> StreamingManager" where
  "manager_new config =
     \<lparr>sm_config = config, sm_connections = [], sm_outbound_by_stream = [], sm_inbound_by_stream = [],
      sm_listeners = [], sm_outbound_queue = [], sm_outbound_packets = [], sm_pending_acks = [],
      sm_next_connection_id = 1, sm_next_inbound_stream_id = 0x80000000, sm_pending_delivered = [],
      sm_pending_bytes_by_connection = [], sm_pending_syn_payloads = []\<rparr>"

definition listen :: "u16 \<Rightarrow> StreamingManager \<Rightarrow> ListenerOutcome \<times> StreamingManager" where
  "listen port m =
     (if bt_contains (sm_listeners m) port then (PortAlreadyInUse, m)
      else
      let total_pending = sum_list (map length (bt_values (sm_listeners m))) in
      if total_pending \<ge> unat (sc_max_listener_backlog (sm_config m)) then (BacklogFull, m)
      else (Listening port, m\<lparr>sm_listeners := bt_insert port [] (sm_listeners m)\<rparr>))"

subsection \<open>Stream identifiers\<close>

partial_function (option) find_stream_id :: "(u32 \<Rightarrow> bool) \<Rightarrow> u32 \<Rightarrow> u32 option" where
  "find_stream_id used candidate =
     (if used candidate then find_stream_id used (candidate + 1) else Some candidate)"

definition stream_id_used :: "StreamingManager \<Rightarrow> u32 \<Rightarrow> bool" where
  "stream_id_used m candidate \<longleftrightarrow>
     bt_contains (sm_inbound_by_stream m) candidate \<or> bt_contains (sm_outbound_by_stream m) candidate"

definition allocate_inbound_stream_id :: "StreamingManager \<Rightarrow> (u32 \<times> StreamingManager) option" where
  "allocate_inbound_stream_id m =
     (case find_stream_id (stream_id_used m) (sm_next_inbound_stream_id m) of
        None \<Rightarrow> None
      | Some candidate \<Rightarrow> Some (candidate, m\<lparr>sm_next_inbound_stream_id := candidate + 1\<rparr>))"

subsection \<open>Building packets\<close>

text \<open>The client payload around a packet, and the transport request.\<close>

definition wrap_packet ::
  "StreamEnv \<Rightarrow> bytes \<Rightarrow> u16 \<Rightarrow> u16 \<Rightarrow> u32 \<Rightarrow> u32 \<Rightarrow> u32 \<Rightarrow> bytes
     \<Rightarrow> ClientPayloadEncodeError + TransportSendRequest" where
  "wrap_packet env target_hash local_port remote_port sequence send_stream_id receive_stream_id wire_bytes =
     bindR (encode_client_payload (env_deflate env)
       \<lparr>cl_protocol = STREAMING_PROTOCOL_NUMBER, cl_source_port = local_port,
        cl_destination_port = remote_port, cl_payload = wire_bytes\<rparr>) (\<lambda>application_bytes.
     Inr \<lparr>ts_destination_hash = target_hash, ts_source_port = local_port,
          ts_destination_port = remote_port, ts_application_payload = application_bytes,
          ts_sequence = sequence, ts_send_stream_id = send_stream_id,
          ts_receive_stream_id = receive_stream_id\<rparr>)"

text \<open>The packet of \<open>build_signed_packet\<close>, with the signature in place, before the envelope.\<close>

definition sign_packet ::
  "StreamEnv \<Rightarrow> DestinationIdentity \<Rightarrow> u32 \<Rightarrow> u32 \<Rightarrow> u32 \<Rightarrow> u32 \<Rightarrow> u16 \<Rightarrow> StreamingOptions \<Rightarrow> u32 list \<Rightarrow> bytes
     \<Rightarrow> StreamingManagerError + bytes" where
  "sign_packet env local_dest send_stream_id receive_stream_id sequence_num ack_through flags_bits options nacks payload =
     bindR (map_sum ManagerCodec id (flags_new flags_bits)) (\<lambda>flags.
     bindR (ok_or (signature_len (sk_key_type (destination_signing_key (di_destination local_dest))))
              (ManagerCodec SignatureContextUnavailable)) (\<lambda>signature_length.
     bindR (map_sum ManagerCodec id (encode_with_placeholder options flags signature_length)) (\<lambda>option_bytes.
     bindR (ok_or (checked_mul (length nacks) 4) (ManagerCodec PacketArithmeticOverflow)) (\<lambda>nack_bytes.
     bindR (ok_or (checked_sub (length option_bytes) signature_length) (ManagerCodec SignatureMissing))
       (\<lambda>signature_offset_in_options.
     bindR (ok_or (case checked_add MIN_STREAMING_HEADER_BYTES nack_bytes of
                     None \<Rightarrow> None | Some offset \<Rightarrow> checked_add offset signature_offset_in_options)
              (ManagerCodec PacketArithmeticOverflow)) (\<lambda>signature_offset.
     bindR (map_sum ManagerCodec id (encode_streaming_packet
       \<lparr>sb_send_stream_id = send_stream_id, sb_receive_stream_id = receive_stream_id,
        sb_sequence_num = sequence_num, sb_ack_through = ack_through, sb_nacks = nacks,
        sb_resend_delay = 0, sb_flags = flags, sb_option_bytes = option_bytes, sb_payload = payload\<rparr>
       default_limit)) (\<lambda>wire_bytes.
     bindR (map_sum ManagerDestinationIdentity id (identity_sign env local_dest wire_bytes)) (\<lambda>signature.
     map_sum ManagerCodec snd (install_packet_signature_at wire_bytes
       \<lparr>loc_offset = signature_offset, loc_length = signature_length\<rparr> (sv_bytes signature))))))))))"

definition build_signed_packet ::
  "StreamEnv \<Rightarrow> DestinationIdentity \<Rightarrow> RemoteDestination \<Rightarrow> u32 \<Rightarrow> u32 \<Rightarrow> u32 \<Rightarrow> u32 \<Rightarrow> u16 \<Rightarrow> StreamingOptions
     \<Rightarrow> u32 list \<Rightarrow> u16 \<Rightarrow> u16 \<Rightarrow> bytes \<Rightarrow> StreamingManagerError + TransportSendRequest" where
  "build_signed_packet env local_dest remote send_stream_id receive_stream_id sequence_num ack_through flags_bits
     options nacks local_port remote_port payload =
     bindR (sign_packet env local_dest send_stream_id receive_stream_id sequence_num ack_through flags_bits
              options nacks payload) (\<lambda>wire_bytes.
     map_sum ManagerOutboundEnvelope id
       (wrap_packet env (rd_destination_hash remote) local_port remote_port sequence_num send_stream_id
          receive_stream_id wire_bytes))"

definition syn_options :: "DestinationIdentity \<Rightarrow> u16 \<Rightarrow> StreamingOptions" where
  "syn_options local_dest advertised_max_payload =
     \<lparr>so_delay_requested = None, so_from_destination = Some (di_destination local_dest),
      so_max_payload_size = Some advertised_max_payload, so_signature = None\<rparr>"

definition no_options :: StreamingOptions where
  "no_options = \<lparr>so_delay_requested = None, so_from_destination = None, so_max_payload_size = None, so_signature = None\<rparr>"

definition build_syn_packet ::
  "StreamEnv \<Rightarrow> DestinationIdentity \<Rightarrow> RemoteDestination \<Rightarrow> u32 \<Rightarrow> u16 \<Rightarrow> u16 \<Rightarrow> u16 \<Rightarrow> bytes
     \<Rightarrow> StreamingManagerError + TransportSendRequest" where
  "build_syn_packet env local_dest remote local_receive_stream_id local_port remote_port advertised_max_payload initial_payload =
     build_signed_packet env local_dest remote 0 local_receive_stream_id 0 0 INITIAL_SYN_FLAGS
       (syn_options local_dest advertised_max_payload) (encode_syn_replay_binding (rd_destination_hash remote))
       local_port remote_port initial_payload"

definition build_syn_response_packet ::
  "StreamEnv \<Rightarrow> DestinationIdentity \<Rightarrow> RemoteDestination \<Rightarrow> StreamingConnection \<Rightarrow> u16 \<Rightarrow> u16 \<Rightarrow> u16
     \<Rightarrow> StreamingManagerError + TransportSendRequest" where
  "build_syn_response_packet env local_dest remote inbound_connection local_port remote_port advertised_max_payload =
     (case ack_view (sn_recv_window inbound_connection) of (ack_through, nacks) \<Rightarrow>
      build_signed_packet env local_dest remote (sn_remote_stream_id inbound_connection)
        (sn_local_stream_id inbound_connection) 0 ack_through SYN_RESPONSE_FLAGS
        (syn_options local_dest advertised_max_payload) nacks local_port remote_port [])"

subsection \<open>Tables\<close>

definition set_connection :: "ConnectionId \<Rightarrow> StreamingConnection \<Rightarrow> StreamingManager \<Rightarrow> StreamingManager" where
  "set_connection cid c m = m\<lparr>sm_connections := bt_insert cid c (sm_connections m)\<rparr>"

definition push_request :: "TransportSendRequest \<Rightarrow> StreamingManager \<Rightarrow> StreamingManager" where
  "push_request request m = m\<lparr>sm_outbound_queue := sm_outbound_queue m @ [request]\<rparr>"

text \<open>The entry of a connection in the table of tracked packets, created when it is absent.\<close>

definition track_packet :: "ConnectionId \<Rightarrow> OutboundPacket \<Rightarrow> StreamingManager \<Rightarrow> StreamingManager" where
  "track_packet cid packet m =
     m\<lparr>sm_outbound_packets :=
         bt_insert cid
           (bt_insert (op_sequence packet) packet
             (case bt_get (sm_outbound_packets m) cid of None \<Rightarrow> [] | Some tracked \<Rightarrow> tracked))
           (sm_outbound_packets m)\<rparr>"

definition cancel_ack :: "ConnectionId \<Rightarrow> StreamingManager \<Rightarrow> StreamingManager" where
  "cancel_ack cid m = m\<lparr>sm_pending_acks := bt_remove cid (sm_pending_acks m)\<rparr>"

text \<open>The deadline of a connection's standalone acknowledgement is only ever brought forward.\<close>

definition schedule_ack :: "ConnectionId \<Rightarrow> u64 \<Rightarrow> StreamingManager \<Rightarrow> StreamingManager" where
  "schedule_ack cid deadline m =
     m\<lparr>sm_pending_acks :=
         bt_insert cid
           (case bt_get (sm_pending_acks m) cid of None \<Rightarrow> deadline | Some current \<Rightarrow> min current deadline)
           (sm_pending_acks m)\<rparr>"

definition drain_outbound :: "StreamingManager \<Rightarrow> TransportSendRequest list \<times> StreamingManager" where
  "drain_outbound m = (sm_outbound_queue m, m\<lparr>sm_outbound_queue := []\<rparr>)"

subsection \<open>Delivered bytes\<close>

definition delivered_cap_bytes :: "StreamingManager \<Rightarrow> nat" where
  "delivered_cap_bytes m = unat (sc_max_recv_window_packets (sm_config m)) * MAX_PACKET_PAYLOAD_BYTES"

definition pending_bytes_for :: "StreamingManager \<Rightarrow> ConnectionId \<Rightarrow> nat" where
  "pending_bytes_for m cid =
     (case bt_get (sm_pending_bytes_by_connection m) cid of None \<Rightarrow> 0 | Some held \<Rightarrow> held)"

definition delivered_over_cap :: "StreamingManager \<Rightarrow> ConnectionId \<Rightarrow> bool" where
  "delivered_over_cap m cid \<longleftrightarrow> pending_bytes_for m cid \<ge> delivered_cap_bytes m"

definition note_delivered_bytes :: "ConnectionId \<Rightarrow> nat \<Rightarrow> StreamingManager \<Rightarrow> StreamingManager" where
  "note_delivered_bytes cid amount m =
     (if amount = 0 then m
      else m\<lparr>sm_pending_bytes_by_connection :=
               bt_insert cid
                 (case bt_get (sm_pending_bytes_by_connection m) cid of
                    Some held \<Rightarrow> saturating_add held amount
                  | None \<Rightarrow> amount)
                 (sm_pending_bytes_by_connection m)\<rparr>)"

definition forget_delivered_bytes :: "ConnectionId \<Rightarrow> nat \<Rightarrow> StreamingManager \<Rightarrow> StreamingManager" where
  "forget_delivered_bytes cid amount m =
     (if amount = 0 then m
      else case bt_get (sm_pending_bytes_by_connection m) cid of
        None \<Rightarrow> m
      | Some held \<Rightarrow>
          m\<lparr>sm_pending_bytes_by_connection :=
              (if held - amount = 0 then bt_remove cid (sm_pending_bytes_by_connection m)
               else bt_insert cid (held - amount) (sm_pending_bytes_by_connection m))\<rparr>)"

definition push_delivered :: "ConnectionId \<Rightarrow> bytes \<Rightarrow> StreamingManager \<Rightarrow> StreamingManager" where
  "push_delivered cid bs m =
     (let m = note_delivered_bytes cid (length bs) m in
      m\<lparr>sm_pending_delivered := sm_pending_delivered m @ [\<lparr>da_connection_id = cid, da_bytes = bs\<rparr>]\<rparr>)"

definition drain_delivered :: "StreamingManager \<Rightarrow> DeliveredApplicationBytes list \<times> StreamingManager" where
  "drain_delivered m =
     (let drained = sm_pending_delivered m in
      (drained, fold (\<lambda>d. forget_delivered_bytes (da_connection_id d) (length (da_bytes d))) drained
                  (m\<lparr>sm_pending_delivered := []\<rparr>)))"

definition drain_delivered_for ::
  "ConnectionId \<Rightarrow> StreamingManager \<Rightarrow> DeliveredApplicationBytes list \<times> StreamingManager" where
  "drain_delivered_for cid m =
     (let owned = filter (\<lambda>d. da_connection_id d = cid) (sm_pending_delivered m);
          retained = filter (\<lambda>d. da_connection_id d \<noteq> cid) (sm_pending_delivered m)
      in (owned, fold (\<lambda>d. forget_delivered_bytes cid (length (da_bytes d))) owned
                   (m\<lparr>sm_pending_delivered := retained\<rparr>)))"

definition pending_delivered_bytes :: "StreamingManager \<Rightarrow> nat" where
  "pending_delivered_bytes m = (\<Sum>d\<leftarrow>sm_pending_delivered m. length (da_bytes d))"

subsection \<open>Connecting\<close>

definition connect_with_initial_payload ::
  "StreamEnv \<Rightarrow> DestinationIdentity \<Rightarrow> RemoteDestination \<Rightarrow> u16 \<Rightarrow> u16 \<Rightarrow> u16 \<Rightarrow> bytes \<Rightarrow> u64 \<Rightarrow> StreamingManager
     \<Rightarrow> ((StreamingManagerError + ConnectOutcome) \<times> StreamingManager) option" where
  "connect_with_initial_payload env local_dest remote local_port remote_port advertised_max_payload
     initial_payload now_ms m =
     (if length (sm_connections m) \<ge> unat (sc_max_streams_per_destination (sm_config m))
      then Some (Inr OutcomeTableFull, m)
      else if length initial_payload > unat advertised_max_payload
      then Some (Inr (OutcomePayloadTooLarge (length initial_payload) (unat advertised_max_payload)), m)
      else
      let cid = ConnectionId (sm_next_connection_id m);
          m = m\<lparr>sm_next_connection_id := word_sat_add (sm_next_connection_id m) 1\<rparr>
      in case allocate_inbound_stream_id m of
        None \<Rightarrow> None
      | Some (stream_id, m) \<Rightarrow>
        (case build_syn_packet env local_dest remote stream_id local_port remote_port advertised_max_payload
                initial_payload of
           Inl e \<Rightarrow> Some (Inl e, m)
         | Inr request \<Rightarrow>
           let conn = (new_outbound cid (sm_config m) stream_id 0 (rd_signing_public_key remote)
                         (rd_destination_hash remote) local_port remote_port now_ms)
                      \<lparr>sn_local_advertised_max_payload := advertised_max_payload\<rparr>;
               m = set_connection cid conn m;
               m = m\<lparr>sm_outbound_by_stream := bt_insert stream_id cid (sm_outbound_by_stream m),
                     sm_outbound_packets := bt_insert cid [] (sm_outbound_packets m)\<rparr>
           in Some (Inr (SynSent cid 0 stream_id), push_request request m)))"

definition connect ::
  "StreamEnv \<Rightarrow> DestinationIdentity \<Rightarrow> RemoteDestination \<Rightarrow> u16 \<Rightarrow> u16 \<Rightarrow> u16 \<Rightarrow> u64 \<Rightarrow> StreamingManager
     \<Rightarrow> ((StreamingManagerError + ConnectOutcome) \<times> StreamingManager) option" where
  "connect env local_dest remote local_port remote_port advertised_max_payload now_ms =
     connect_with_initial_payload env local_dest remote local_port remote_port advertised_max_payload [] now_ms"

subsection \<open>Sending\<close>

definition port_mismatch :: "StreamingConnection \<Rightarrow> u16 \<Rightarrow> u16 \<Rightarrow> StreamingManagerError" where
  "port_mismatch c actual_source actual_destination =
     PortTupleMismatch (sn_local_port c) (sn_remote_port c) actual_source actual_destination"

text \<open>The plain packet of a connection: no options, the current acknowledgement view.\<close>

definition plain_packet :: "StreamingConnection \<Rightarrow> u32 \<Rightarrow> StreamingFlags \<Rightarrow> bytes \<Rightarrow> StreamingPacketError + bytes" where
  "plain_packet c sequence flags payload =
     (case ack_view (sn_recv_window c) of (ack_through, nacks) \<Rightarrow>
      encode_streaming_packet
        \<lparr>sb_send_stream_id = sn_remote_stream_id c, sb_receive_stream_id = sn_local_stream_id c,
         sb_sequence_num = sequence, sb_ack_through = ack_through, sb_nacks = nacks, sb_resend_delay = 0,
         sb_flags = flags, sb_option_bytes = [], sb_payload = payload\<rparr> default_limit)"

definition new_tracked :: "u32 \<Rightarrow> nat \<Rightarrow> u64 \<Rightarrow> TransportSendRequest \<Rightarrow> bool \<Rightarrow> OutboundPacket" where
  "new_tracked sequence payload_len now_ms request is_signed =
     \<lparr>op_sequence = sequence, op_payload_len = payload_len, op_sent_at_ms = now_ms, op_retransmit_count = 0,
      op_request = request, op_signed = is_signed\<rparr>"

text \<open>
  The source asserts that \<open>enqueue_send\<close> assigns the planned sequence number; \<open>enqueue_accepts\<close> is
  that fact.
\<close>

definition send_data ::
  "StreamEnv \<Rightarrow> ConnectionId \<Rightarrow> RemoteDestination \<Rightarrow> u16 \<Rightarrow> u16 \<Rightarrow> bytes \<Rightarrow> u64
     \<Rightarrow> (StreamingManager, StreamingManagerError, TransportSendRequest) rsm" where
  "send_data env cid remote local_port remote_port payload now_ms = (\<lambda>m.
     case bt_get (sm_connections m) cid of
       None \<Rightarrow> (Inl UnknownConnection, m)
     | Some c \<Rightarrow>
       if sn_state c \<noteq> Established then (Inl InvalidConnectionState, m)
       else if sn_local_port c \<noteq> local_port \<or> sn_remote_port c \<noteq> remote_port
       then (Inl (port_mismatch c remote_port local_port), m)
       else if length payload > unat (sn_max_payload_size c)
       then (Inl (ManagerStreaming (StreamPayloadTooLarge (length payload) (unat (sn_max_payload_size c)))), m)
       else if send_window_evaluate (length payload) (sn_send_window c) = Backpressure
       then (Inl (ManagerStreaming SendWindowFull), m)
       else
       let planned_sequence = sw_next_sequence (sn_send_window c);
           gated = delivered_over_cap m cid
       in case plain_packet c planned_sequence (if gated then FLAG_NO_ACK else 0) payload of
         Inl e \<Rightarrow> (Inl (ManagerCodec e), m)
       | Inr wire_bytes \<Rightarrow>
         (case wrap_packet env (rd_destination_hash remote) (sn_local_port c) (sn_remote_port c)
                 planned_sequence (sn_remote_stream_id c) (sn_local_stream_id c) wire_bytes of
            Inl e \<Rightarrow> (Inl (ManagerOutboundEnvelope e), m)
          | Inr request \<Rightarrow>
            (case enqueue_send (length payload) now_ms c of
               (Inl e, c') \<Rightarrow> (Inl (ManagerStreaming e), set_connection cid c' m)
             | (Inr sequence, c') \<Rightarrow>
               let m = set_connection cid c' m;
                   m = track_packet cid (new_tracked sequence (length payload) now_ms request False) m;
                   m = push_request request m
               in (Inr request, if gated then m else cancel_ack cid m))))"

definition send_close ::
  "StreamEnv \<Rightarrow> ConnectionId \<Rightarrow> DestinationIdentity \<Rightarrow> RemoteDestination \<Rightarrow> u16 \<Rightarrow> u16 \<Rightarrow> u64
     \<Rightarrow> (StreamingManager, StreamingManagerError, TransportSendRequest) rsm" where
  "send_close env cid local_dest remote local_port remote_port now_ms = (\<lambda>m.
     case bt_get (sm_connections m) cid of
       None \<Rightarrow> (Inl UnknownConnection, m)
     | Some c \<Rightarrow>
       if sn_local_port c \<noteq> local_port \<or> sn_remote_port c \<noteq> remote_port
       then (Inl (port_mismatch c remote_port local_port), m)
       else if sn_state c \<noteq> Established \<and> sn_state c \<noteq> ClosingRemote
       then (Inl (ManagerStreaming (InvalidStateTransition (state_label (sn_state c)) ''ClosingLocal'')), m)
       else
       let sequence_num = sw_next_sequence (sn_send_window c) in
       case ack_view (sn_recv_window c) of (ack_through, nacks) \<Rightarrow>
       (case build_signed_packet env local_dest remote (sn_remote_stream_id c) (sn_local_stream_id c)
               sequence_num ack_through CLOSE_FLAGS no_options nacks (sn_local_port c) (sn_remote_port c) [] of
          Inl e \<Rightarrow> (Inl e, m)
        | Inr request \<Rightarrow>
          let c' = (if sn_state c = Established then snd (begin_close now_ms c)
                    else snd (connection_close now_ms c));
              m = set_connection cid c' m;
              m = track_packet cid (new_tracked sequence_num 0 now_ms request True) m;
              m = push_request request m
          in (Inr request, cancel_ack cid m)))"

definition send_reset ::
  "StreamEnv \<Rightarrow> ConnectionId \<Rightarrow> DestinationIdentity \<Rightarrow> RemoteDestination \<Rightarrow> u16 \<Rightarrow> u16 \<Rightarrow> u64
     \<Rightarrow> (StreamingManager, StreamingManagerError, TransportSendRequest) rsm" where
  "send_reset env cid local_dest remote local_port remote_port now_ms = (\<lambda>m.
     case bt_get (sm_connections m) cid of
       None \<Rightarrow> (Inl UnknownConnection, m)
     | Some c \<Rightarrow>
       if sn_local_port c \<noteq> local_port \<or> sn_remote_port c \<noteq> remote_port
       then (Inl (port_mismatch c remote_port local_port), m)
       else
       case ack_view (sn_recv_window c) of (ack_through, nacks) \<Rightarrow>
       (case build_signed_packet env local_dest remote (sn_remote_stream_id c) (sn_local_stream_id c)
               0 ack_through RESET_FLAGS no_options nacks local_port remote_port [] of
          Inl e \<Rightarrow> (Inl e, m)
        | Inr request \<Rightarrow>
          (case connection_reset now_ms c of
             (Inl e, c') \<Rightarrow> (Inl (ManagerStreaming e), set_connection cid c' m)
           | (Inr _, c') \<Rightarrow>
               (Inr request, push_request request (cancel_ack cid (set_connection cid c' m))))))"

subsection \<open>Acknowledgements and retransmissions\<close>

definition build_simple_ack_request :: "StreamEnv \<Rightarrow> ConnectionId \<Rightarrow> StreamingManager \<Rightarrow> TransportSendRequest option" where
  "build_simple_ack_request env cid m =
     (case bt_get (sm_connections m) cid of
        None \<Rightarrow> None
      | Some c \<Rightarrow>
        (case plain_packet c 0 0 [] of
           Inl _ \<Rightarrow> None
         | Inr wire_bytes \<Rightarrow>
           (case wrap_packet env (sn_peer_destination_hash c) (sn_local_port c) (sn_remote_port c) 0
                   (sn_remote_stream_id c) (sn_local_stream_id c) wire_bytes of
              Inl _ \<Rightarrow> None
            | Inr request \<Rightarrow> Some request)))"

definition connection_active :: "StreamingConnection \<Rightarrow> bool" where
  "connection_active c \<longleftrightarrow> sn_state c \<notin> {ClosingLocal, ClosingRemote, Closed, Reset}"

text \<open>One turn of the loop of \<open>poll_acks\<close>, for a connection whose deadline has passed.\<close>

definition poll_ack ::
  "StreamEnv \<Rightarrow> u64 \<Rightarrow> ConnectionId \<Rightarrow> StreamingManager \<Rightarrow> TransportSendRequest list \<times> StreamingManager" where
  "poll_ack env now_ms cid m =
     (let m = cancel_ack cid m in
      case bt_get (sm_connections m) cid of
        None \<Rightarrow> ([], m)
      | Some c \<Rightarrow>
        if \<not> connection_active c then ([], m)
        else if delivered_over_cap m cid
        then ([], m\<lparr>sm_pending_acks :=
                     bt_insert cid (word_sat_add now_ms (sc_delayed_ack_ms (sm_config m))) (sm_pending_acks m)\<rparr>)
        else case build_simple_ack_request env cid m of
          None \<Rightarrow> ([], m)
        | Some request \<Rightarrow> ([request], push_request request m))"

partial_function (option) poll_acks_loop ::
  "StreamEnv \<Rightarrow> u64 \<Rightarrow> TransportSendRequest list \<Rightarrow> StreamingManager
     \<Rightarrow> (TransportSendRequest list \<times> StreamingManager) option" where
  "poll_acks_loop env now_ms out m =
     (case find (\<lambda>(_, deadline). deadline \<le> now_ms) (sm_pending_acks m) of
        None \<Rightarrow> Some (out, m)
      | Some entry \<Rightarrow>
          poll_acks_loop env now_ms (out @ fst (poll_ack env now_ms (fst entry) m))
            (snd (poll_ack env now_ms (fst entry) m)))"

definition poll_acks ::
  "StreamEnv \<Rightarrow> u64 \<Rightarrow> StreamingManager \<Rightarrow> (TransportSendRequest list \<times> StreamingManager) option" where
  "poll_acks env now_ms m = poll_acks_loop env now_ms [] m"

definition poll_retransmit ::
  "u64 \<Rightarrow> u64 \<Rightarrow> ConnectionId \<Rightarrow> u32 \<Rightarrow> TransportSendRequest list \<times> StreamingManager
     \<Rightarrow> TransportSendRequest list \<times> StreamingManager" where
  "poll_retransmit now_ms rto_ms cid sequence = (\<lambda>(out, m).
     case bt_get (sm_outbound_packets m) cid of
       None \<Rightarrow> (out, m)
     | Some tracked \<Rightarrow>
       (case bt_get tracked sequence of
          None \<Rightarrow> (out, m)
        | Some packet \<Rightarrow>
          if word_sat_sub now_ms (op_sent_at_ms packet) < rto_ms then (out, m)
          else if op_retransmit_count packet \<ge> ucast (sc_max_retransmit_count (sm_config m))
          then (out, m\<lparr>sm_outbound_packets := bt_insert cid (bt_remove sequence tracked) (sm_outbound_packets m)\<rparr>)
          else
          let packet = packet\<lparr>op_retransmit_count := word_sat_add (op_retransmit_count packet) 1,
                              op_sent_at_ms := now_ms\<rparr>;
              m = m\<lparr>sm_outbound_packets := bt_insert cid (bt_insert sequence packet tracked) (sm_outbound_packets m)\<rparr>;
              m = (case bt_get (sm_connections m) cid of
                     None \<Rightarrow> m
                   | Some c \<Rightarrow> set_connection cid
                       (c\<lparr>sn_send_window := mark_retransmitted sequence now_ms (sn_send_window c)\<rparr>) m)
          in (out @ [op_request packet], push_request (op_request packet) m)))"

definition poll_connection ::
  "u64 \<Rightarrow> ConnectionId \<Rightarrow> TransportSendRequest list \<times> StreamingManager
     \<Rightarrow> TransportSendRequest list \<times> StreamingManager" where
  "poll_connection now_ms cid = (\<lambda>(out, m).
     case bt_get (sm_connections m) cid of
       None \<Rightarrow> (out, m)
     | Some c \<Rightarrow>
       (case bt_get (sm_outbound_packets m) cid of
          None \<Rightarrow> (out, m)
        | Some tracked \<Rightarrow>
            fold (poll_retransmit now_ms (rp_current_rto_ms (sn_retransmit c)) cid) (bt_keys tracked) (out, m)))"

definition poll_retransmits :: "u64 \<Rightarrow> StreamingManager \<Rightarrow> TransportSendRequest list \<times> StreamingManager" where
  "poll_retransmits now_ms m = fold (poll_connection now_ms) (bt_keys (sm_outbound_packets m)) ([], m)"

subsection \<open>Removal and acceptance\<close>

definition remove_connection :: "ConnectionId \<Rightarrow> StreamingManager \<Rightarrow> StreamingConnection option \<times> StreamingManager" where
  "remove_connection cid m =
     (let removed = bt_get (sm_connections m) cid;
          m = m\<lparr>sm_connections := bt_remove cid (sm_connections m),
                sm_pending_syn_payloads := bt_remove cid (sm_pending_syn_payloads m)\<rparr>;
          m = (case removed of
                 None \<Rightarrow> m
               | Some c \<Rightarrow>
                 (case sn_direction c of
                    OutboundStream \<Rightarrow>
                      m\<lparr>sm_outbound_by_stream := bt_remove (sn_local_stream_id c) (sm_outbound_by_stream m)\<rparr>
                  | InboundStream \<Rightarrow>
                      m\<lparr>sm_inbound_by_stream := bt_remove (sn_local_stream_id c) (sm_inbound_by_stream m)\<rparr>))
      in (removed,
          m\<lparr>sm_outbound_packets := bt_remove cid (sm_outbound_packets m),
            sm_pending_acks := bt_remove cid (sm_pending_acks m),
            sm_pending_bytes_by_connection := bt_remove cid (sm_pending_bytes_by_connection m),
            sm_pending_delivered := filter (\<lambda>d. da_connection_id d \<noteq> cid) (sm_pending_delivered m)\<rparr>))"

definition accept :: "u16 \<Rightarrow> StreamingManager \<Rightarrow> ConnectionId option \<times> StreamingManager" where
  "accept port m =
     (case bt_get (sm_listeners m) port of
        None \<Rightarrow> (None, m)
      | Some [] \<Rightarrow> (None, m)
      | Some (cid # queue) \<Rightarrow> (Some cid, m\<lparr>sm_listeners := bt_insert port queue (sm_listeners m)\<rparr>))"

end
