(* ===== verification/Stream_Inbound.thy ===== *)
theory Stream_Inbound
  imports Stream_Manager
begin

section \<open>The streaming manager: inbound packets\<close>

text \<open>
  \<open>i2pr-client/src/streaming/manager.rs\<close>, second half: routing of an inbound packet by its peeked
  header, the handlers of a SYN, of a SYN response and of every other packet, and acceptance of a
  pending SYN. A run of \<open>process_inbound_packet\<close> returns, panics at its one \<open>expect\<close>, or diverges
  in the search for a free stream identifier.
\<close>

record WirePacketObservation =
  wo_connection_id :: "ConnectionId option"
  wo_send_stream_id :: u32
  wo_receive_stream_id :: u32
  wo_sequence :: u32
  wo_ack_through :: u32
  wo_nack_count :: nat
  wo_flags :: u16
  wo_payload_len :: nat

definition observation_of :: "ConnectionId \<Rightarrow> StreamingPacket \<Rightarrow> WirePacketObservation" where
  "observation_of cid packet =
     \<lparr>wo_connection_id = Some cid, wo_send_stream_id = sp_send_stream_id packet,
      wo_receive_stream_id = sp_receive_stream_id packet, wo_sequence = sp_sequence_num packet,
      wo_ack_through = sp_ack_through packet, wo_nack_count = length (sp_nacks packet),
      wo_flags = sp_flags packet, wo_payload_len = length (sp_payload packet)\<rparr>"

datatype 'a run = Returns 'a | Panics | Diverges

text \<open>
  The check a SYN and a SYN response share: the signature of the packet, over the packet with the
  signature zeroed, under the key of the destination in its own FROM field.
\<close>

definition verify_from_signature ::
  "StreamEnv \<Rightarrow> StreamingPacket \<Rightarrow> SignatureLocation option \<Rightarrow> bytes \<Rightarrow> StreamingPacketError + Destination" where
  "verify_from_signature env packet signature_location wire_bytes =
     bindR (ok_or (so_from_destination (sp_options packet)) SynMissingFrom) (\<lambda>destination.
     bindR (ok_or signature_location SignatureMissing) (\<lambda>location.
     let preimage = build_signature_preimage wire_bytes (Some location);
         key = destination_signing_key destination in
     bindR (ok_or (so_signature (sp_options packet)) SignatureMissing) (\<lambda>signature.
     bindR (map_sum (\<lambda>_. SignatureContextUnavailable) id (signature_value_new (sk_key_type key) signature))
       (\<lambda>signature_value.
     if verify_signature env key preimage signature_value then Inr destination
     else Inl PacketSignatureInvalid))))"

subsection \<open>SYN\<close>

text \<open>The part of \<open>handle_inbound_syn\<close> before any state changes.\<close>

definition check_inbound_syn ::
  "StreamEnv \<Rightarrow> StreamingPacket \<Rightarrow> SignatureLocation option \<Rightarrow> bytes \<Rightarrow> DestinationIdentity
     \<Rightarrow> StreamingManagerError + Destination" where
  "check_inbound_syn env packet signature_location wire_bytes to_destination =
     bindR (map_sum ManagerI2npCodec id (destination_hash (env_sha256 env) (di_destination to_destination)))
       (\<lambda>hash. case hash of Hash local_destination_hash \<Rightarrow>
     bindR (map_sum ManagerCodec id (validate_initial_syn packet local_destination_hash)) (\<lambda>_.
     if length (sp_payload packet) > unat DEFAULT_ADVERTISED_MAX_PAYLOAD
     then Inl (InitialSynPayloadTooLarge (length (sp_payload packet)) (unat DEFAULT_ADVERTISED_MAX_PAYLOAD))
     else map_sum ManagerCodec id (verify_from_signature env packet signature_location wire_bytes)))"

definition inbound_connection ::
  "ConnectionId \<Rightarrow> StreamingConfig \<Rightarrow> u32 \<Rightarrow> StreamingPacket \<Rightarrow> Destination \<Rightarrow> bytes \<Rightarrow> u16 \<Rightarrow> u16 \<Rightarrow> u64
     \<Rightarrow> StreamingConnection" where
  "inbound_connection cid config stream_id packet destination from_destination_hash source_port
     destination_port now_ms =
     (new_inbound cid config stream_id (sp_receive_stream_id packet) (destination_signing_key destination)
        from_destination_hash destination_port source_port now_ms)
     \<lparr>sn_remote_advertised_max_payload := so_max_payload_size (sp_options packet),
      sn_peer_destination := Some destination,
      sn_local_advertised_max_payload := DEFAULT_ADVERTISED_MAX_PAYLOAD\<rparr>"

text \<open>The tables of a new inbound connection are taken back when no listener accepts it.\<close>

definition drop_inbound :: "ConnectionId \<Rightarrow> u32 \<Rightarrow> StreamingManager \<Rightarrow> StreamingManager" where
  "drop_inbound cid stream_id m =
     m\<lparr>sm_connections := bt_remove cid (sm_connections m),
       sm_pending_syn_payloads := bt_remove cid (sm_pending_syn_payloads m),
       sm_inbound_by_stream := bt_remove stream_id (sm_inbound_by_stream m),
       sm_outbound_packets := bt_remove cid (sm_outbound_packets m)\<rparr>"

definition select_listener :: "u16 \<Rightarrow> StreamingManager \<Rightarrow> (u16 \<times> ConnectionId list) option" where
  "select_listener port m =
     (case bt_get (sm_listeners m) port of
        Some queue \<Rightarrow> Some (port, queue)
      | None \<Rightarrow> (case bt_get (sm_listeners m) 0 of Some queue \<Rightarrow> Some (0, queue) | None \<Rightarrow> None))"

definition handle_inbound_syn ::
  "StreamEnv \<Rightarrow> StreamingPacket \<Rightarrow> SignatureLocation option \<Rightarrow> bytes \<Rightarrow> bytes \<Rightarrow> DestinationIdentity \<Rightarrow> u16 \<Rightarrow> u16
     \<Rightarrow> u64 \<Rightarrow> StreamingManager
     \<Rightarrow> ((StreamingManagerError + WirePacketObservation) \<times> StreamingManager) option" where
  "handle_inbound_syn env packet signature_location wire_bytes from_destination_hash to_destination
     source_port destination_port now_ms m =
     (case check_inbound_syn env packet signature_location wire_bytes to_destination of
        Inl e \<Rightarrow> Some (Inl e, m)
      | Inr destination \<Rightarrow>
        let cid = ConnectionId (sm_next_connection_id m);
            m = m\<lparr>sm_next_connection_id := word_sat_add (sm_next_connection_id m) 1\<rparr>
        in case allocate_inbound_stream_id m of
          None \<Rightarrow> None
        | Some (stream_id, m) \<Rightarrow>
          let m = set_connection cid (inbound_connection cid (sm_config m) stream_id packet destination
                    from_destination_hash source_port destination_port now_ms) m;
              m = m\<lparr>sm_inbound_by_stream := bt_insert stream_id cid (sm_inbound_by_stream m),
                    sm_outbound_packets := bt_insert cid [] (sm_outbound_packets m)\<rparr>
          in case select_listener destination_port m of
            None \<Rightarrow> Some (Inl (NoMatchingListener destination_port), drop_inbound cid stream_id m)
          | Some (port, queue) \<Rightarrow>
            if length queue \<ge> unat (sc_max_listener_backlog (sm_config m))
            then Some (Inl ManagerListenerBacklogFull, drop_inbound cid stream_id m)
            else
            let m = m\<lparr>sm_listeners := bt_insert port (queue @ [cid]) (sm_listeners m)\<rparr>;
                m = (if sp_payload packet = [] then m
                     else m\<lparr>sm_pending_syn_payloads :=
                              bt_insert cid (sp_payload packet) (sm_pending_syn_payloads m)\<rparr>)
            in Some (Inr (observation_of cid packet), m))"

definition clone_for_syn_response :: "StreamingConnection \<Rightarrow> StreamingConnection" where
  "clone_for_syn_response c =
     c\<lparr>sn_send_window := send_window_new (send_window_config_from (sn_config c)),
       sn_recv_window := recv_window_new (recv_window_config_from (sn_config c)),
       sn_congestion := congestion_new (congestion_config_from (sn_config c)),
       sn_retransmit := retransmit_new (retransmit_config_from (sn_config c))\<rparr>"

definition accept_inbound_syn ::
  "StreamEnv \<Rightarrow> DestinationIdentity \<Rightarrow> RemoteDestination \<Rightarrow> ConnectionId \<Rightarrow> u16 \<Rightarrow> u16 \<Rightarrow> u16 \<Rightarrow> u64
     \<Rightarrow> (StreamingManager, StreamingManagerError, TransportSendRequest) rsm" where
  "accept_inbound_syn env local_dest remote cid local_port remote_port advertised_max_payload now_ms = (\<lambda>m.
     case bt_get (sm_connections m) cid of
       None \<Rightarrow> (Inl UnknownConnection, m)
     | Some c \<Rightarrow>
       if sn_local_port c \<noteq> local_port \<or> sn_remote_port c \<noteq> remote_port
       then (Inl (port_mismatch c remote_port local_port), m)
       else
       case build_syn_response_packet env local_dest remote (clone_for_syn_response c) local_port remote_port
              advertised_max_payload of
         Inl e \<Rightarrow> (Inl e, m)
       | Inr request \<Rightarrow>
         let c = c\<lparr>sn_local_advertised_max_payload := advertised_max_payload\<rparr>;
             negotiated = (case sn_remote_advertised_max_payload c of
                             None \<Rightarrow> DEFAULT_ADVERTISED_MAX_PAYLOAD | Some maximum \<Rightarrow> maximum)
         in (case transition_established (ucast negotiated) now_ms c of
               (Inl e, c') \<Rightarrow> (Inl (ManagerStreaming e), set_connection cid c' m)
             | (Inr _, c') \<Rightarrow>
               let m = set_connection cid c' m;
                   m = (case bt_get (sm_pending_syn_payloads m) cid of
                          None \<Rightarrow> m
                        | Some bs \<Rightarrow> push_delivered cid bs
                            (m\<lparr>sm_pending_syn_payloads := bt_remove cid (sm_pending_syn_payloads m)\<rparr>))
               in (Inr request, track_packet cid (new_tracked 0 0 now_ms request True) m)))"

subsection \<open>SYN response\<close>

text \<open>
  The connection's stored peer takes no part: the key that verifies the packet is the one the packet
  brings. The advertised maximum and the remote stream identifier are stored before the transition is
  tried.
\<close>

definition handle_inbound_syn_response ::
  "StreamEnv \<Rightarrow> StreamingPacket \<Rightarrow> SignatureLocation option \<Rightarrow> bytes \<Rightarrow> bytes \<Rightarrow> u64
     \<Rightarrow> (StreamingManager, StreamingManagerError, WirePacketObservation) rsm" where
  "handle_inbound_syn_response env packet signature_location wire_bytes from_destination_hash now_ms = (\<lambda>m.
     case bt_get (sm_outbound_by_stream m) (sp_send_stream_id packet) of
       None \<Rightarrow> (Inl UnknownConnection, m)
     | Some cid \<Rightarrow>
       (case bindR (validate_syn_response packet)
               (\<lambda>_. verify_from_signature env packet signature_location wire_bytes) of
          Inl e \<Rightarrow> (Inl (ManagerCodec e), m)
        | Inr _ \<Rightarrow>
          (case bt_get (sm_connections m) cid of
             None \<Rightarrow> (Inl UnknownConnection, m)
           | Some c \<Rightarrow>
             let remote_max = so_max_payload_size (sp_options packet);
                 c = (case remote_max of
                        None \<Rightarrow> c | Some maximum \<Rightarrow> c\<lparr>sn_remote_advertised_max_payload := Some maximum\<rparr>);
                 negotiated = (case remote_max of
                                 None \<Rightarrow> DEFAULT_ADVERTISED_MAX_PAYLOAD | Some maximum \<Rightarrow> maximum);
                 c = c\<lparr>sn_remote_stream_id := sp_receive_stream_id packet\<rparr>
             in (case transition_established (ucast negotiated) now_ms c of
                   (Inl e, c') \<Rightarrow> (Inl (ManagerStreaming e), set_connection cid c' m)
                 | (Inr _, c') \<Rightarrow> (Inr (observation_of cid packet), set_connection cid c' m)))))"

subsection \<open>Data, CLOSE, RESET and plain acknowledgements\<close>

definition verify_peer_signature ::
  "StreamEnv \<Rightarrow> SigningPublicKey \<Rightarrow> StreamingPacket \<Rightarrow> SignatureLocation option \<Rightarrow> bytes
     \<Rightarrow> StreamingPacketError + unit" where
  "verify_peer_signature env key packet signature_location wire_bytes =
     bindR (ok_or (signature_len (sk_key_type key)) SignatureContextUnavailable) (\<lambda>expected.
     bindR (ok_or (so_signature (sp_options packet)) SignatureMissing) (\<lambda>signature.
     if length signature \<noteq> expected then Inl (SignatureLengthMismatch expected (length signature))
     else
     bindR (ok_or signature_location SignatureMissing) (\<lambda>location.
     let preimage = build_signature_preimage wire_bytes (Some location) in
     bindR (map_sum (\<lambda>_. SignatureLengthMismatch expected (length signature)) id
              (signature_value_new (sk_key_type key) signature)) (\<lambda>signature_value.
     if verify_signature env key preimage signature_value then Inr () else Inl PacketSignatureInvalid))))"

text \<open>The transitions that the CLOSE and RESET flags cause, in this order.\<close>

definition apply_control_flags :: "StreamingFlags \<Rightarrow> u64 \<Rightarrow> StreamingConnection \<Rightarrow> StreamingConnection" where
  "apply_control_flags flags now_ms c =
     (let c = (if \<not> has_flag flags FLAG_CLOSE then c
               else if sn_state c = Established then snd (remote_close_received now_ms c)
               else if sn_state c = ClosingLocal then snd (connection_close now_ms c)
               else c)
      in if has_flag flags FLAG_RESET then snd (connection_reset now_ms c) else c)"

text \<open>The tracked packets an acknowledgement clears: at or below it and not reported missing below it.\<close>

definition clear_tracked :: "u32 \<Rightarrow> u32 list \<Rightarrow> (u32, OutboundPacket) btree \<Rightarrow> (u32, OutboundPacket) btree" where
  "clear_tracked ack_through nacks tracked =
     fold bt_remove
       (filter (\<lambda>sequence. sequence \<le> ack_through \<and> \<not> (sequence \<in> set nacks \<and> sequence < ack_through))
         (bt_keys tracked))
       tracked"

definition acknowledge_tracked :: "ConnectionId \<Rightarrow> u32 \<Rightarrow> u32 list \<Rightarrow> StreamingManager \<Rightarrow> StreamingManager" where
  "acknowledge_tracked cid ack_through nacks m =
     (case bt_get (sm_outbound_packets m) cid of
        None \<Rightarrow> m
      | Some tracked \<Rightarrow>
          m\<lparr>sm_outbound_packets := bt_insert cid (clear_tracked ack_through nacks tracked) (sm_outbound_packets m)\<rparr>)"

text \<open>The standalone acknowledgement that new data causes: at once when asked for, else at a deadline.\<close>

definition acknowledge_data ::
  "StreamEnv \<Rightarrow> ConnectionId \<Rightarrow> bool \<Rightarrow> u64 \<Rightarrow> StreamingManager \<Rightarrow> StreamingManager" where
  "acknowledge_data env cid requested_now now_ms m =
     (if requested_now \<and> \<not> delivered_over_cap m cid then
        (case build_simple_ack_request env cid m of None \<Rightarrow> m | Some request \<Rightarrow> push_request request m)
      else schedule_ack cid
        (if requested_now then now_ms else word_sat_add now_ms (sc_delayed_ack_ms (sm_config m))) m)"

text \<open>
  The part of \<open>handle_data_packet\<close> after the checks. \<open>receive_packet\<close> always returns a decision, so
  the decision is an option: none for a terminated connection and for a plain acknowledgement.
\<close>

definition commit_data_packet ::
  "StreamEnv \<Rightarrow> StreamingPacket \<Rightarrow> ConnectionId \<Rightarrow> u64 \<Rightarrow> StreamingConnection \<Rightarrow> StreamingManager \<Rightarrow> StreamingManager" where
  "commit_data_packet env packet cid now_ms c m =
     (let flags = sp_flags packet;
          c = apply_control_flags flags now_ms c;
          terminated = is_terminal c;
          acked = \<not> has_flag flags FLAG_NO_ACK \<and> \<not> terminated;
          c = (if acked then snd (receive_ack (sp_ack_through packet) (sp_nacks packet) now_ms c) else c);
          m = (if acked then acknowledge_tracked cid (sp_ack_through packet) (sp_nacks packet) m else m);
          plain_ack_form = (sp_sequence_num packet = 0 \<and> \<not> has_flag flags FLAG_SYNCHRONIZE);
          received = (if \<not> terminated \<and> \<not> plain_ack_form
                      then Some (receive (sp_sequence_num packet) (sp_payload packet) (sn_recv_window c)) else None);
          c = (case received of
                 None \<Rightarrow> c
               | Some _ \<Rightarrow> snd (receive_packet (sp_sequence_num packet) (sp_payload packet) now_ms c));
          m = set_connection cid c m;
          new_data = (case received of
                        Some (Delivered _ _, _) \<Rightarrow> True | Some (Buffered _, _) \<Rightarrow> True | _ \<Rightarrow> False);
          duplicate = (case received of Some (DuplicatePacket _, _) \<Rightarrow> True | _ \<Rightarrow> False);
          active = connection_active c;
          requested_now = (new_data \<and> active \<and> so_delay_requested (sp_options packet) = Some 0);
          m = (if terminated then cancel_ack cid m else m);
          m = (if duplicate \<and> active \<and> \<not> terminated then schedule_ack cid now_ms m else m);
          m = (if new_data \<and> active then acknowledge_data env cid requested_now now_ms m else m)
      in case received of
           Some (Delivered _ delivered, _) \<Rightarrow> push_delivered cid (concat (map re_payload delivered)) m
         | _ \<Rightarrow> m)"

definition handle_data_packet ::
  "StreamEnv \<Rightarrow> StreamingPacket \<Rightarrow> SignatureLocation option \<Rightarrow> bytes \<Rightarrow> ConnectionId \<Rightarrow> u64
     \<Rightarrow> (StreamingManager, StreamingManagerError, WirePacketObservation) rsm" where
  "handle_data_packet env packet signature_location wire_bytes cid now_ms = (\<lambda>m.
     let flags = sp_flags packet in
     if has_flag flags FLAG_CLOSE \<and> \<not> has_flag flags FLAG_SIGNATURE_INCLUDED
     then (Inl (ManagerCodec CloseMissingSignature), m)
     else if has_flag flags FLAG_RESET \<and> \<not> has_flag flags FLAG_SIGNATURE_INCLUDED
     then (Inl (ManagerCodec ResetMissingSignature), m)
     else case bt_get (sm_connections m) cid of
       None \<Rightarrow> (Inl UnknownConnection, m)
     | Some c \<Rightarrow>
       (case (if has_flag flags FLAG_SIGNATURE_INCLUDED
              then verify_peer_signature env (sn_peer_signing_key c) packet signature_location wire_bytes
              else Inr ()) of
          Inl e \<Rightarrow> (Inl (ManagerCodec e), m)
        | Inr _ \<Rightarrow> (Inr (observation_of cid packet), commit_data_packet env packet cid now_ms c m)))"

subsection \<open>Routing\<close>

definition decode_inbound ::
  "bytes \<Rightarrow> SigningPublicKey option \<Rightarrow> StreamingManagerError + StreamingPacket \<times> SignatureLocation option" where
  "decode_inbound wire_bytes key =
     map_sum ManagerCodec id (decode_streaming_packet wire_bytes destination_path_limit key)"

definition process_inbound_packet ::
  "StreamEnv \<Rightarrow> bytes \<Rightarrow> bytes \<Rightarrow> DestinationIdentity \<Rightarrow> u16 \<Rightarrow> u16 \<Rightarrow> u64 \<Rightarrow> StreamingManager
     \<Rightarrow> ((StreamingManagerError + WirePacketObservation) \<times> StreamingManager) run" where
  "process_inbound_packet env wire_bytes from_destination_hash to_destination source_port destination_port now_ms m =
     (case peek_streaming_header wire_bytes of
        Inl e \<Rightarrow> Returns (Inl (ManagerCodec e), m)
      | Inr peek \<Rightarrow>
        let synchronize = has_flag (pk_flags_bits peek AND NOT FLAG_RESERVED_MASK) FLAG_SYNCHRONIZE in
        if synchronize \<and> pk_send_stream_id peek = 0 \<and> pk_receive_stream_id peek \<noteq> 0 then
          (case decode_inbound wire_bytes None of
             Inl e \<Rightarrow> Returns (Inl e, m)
           | Inr (packet, location) \<Rightarrow>
             (case handle_inbound_syn env packet location wire_bytes from_destination_hash to_destination
                     source_port destination_port now_ms m of
                None \<Rightarrow> Diverges
              | Some r \<Rightarrow> Returns r))
        else if synchronize \<and> pk_send_stream_id peek \<noteq> 0 \<and> pk_receive_stream_id peek \<noteq> 0 then
          (case Option.bind (bt_get (sm_outbound_by_stream m) (pk_send_stream_id peek))
                  (bt_get (sm_connections m)) of
             None \<Rightarrow> Returns (Inl (PortTupleMismatch 0 0 source_port destination_port), m)
           | Some c \<Rightarrow>
             if \<not> ports_match c source_port destination_port
             then Returns (Inl (port_mismatch c source_port destination_port), m)
             else case decode_inbound wire_bytes None of
               Inl e \<Rightarrow> Returns (Inl e, m)
             | Inr (packet, location) \<Rightarrow>
                 Returns (handle_inbound_syn_response env packet location wire_bytes from_destination_hash now_ms m))
        else
          (case (case bt_get (sm_inbound_by_stream m) (pk_send_stream_id peek) of
                   Some cid \<Rightarrow> Some cid
                 | None \<Rightarrow> bt_get (sm_outbound_by_stream m) (pk_send_stream_id peek)) of
             None \<Rightarrow> Returns (Inl UnknownConnection, m)
           | Some cid \<Rightarrow>
             (case bt_get (sm_connections m) cid of
                None \<Rightarrow> Panics
              | Some c \<Rightarrow>
                if \<not> ports_match c source_port destination_port
                then Returns (Inl (port_mismatch c source_port destination_port), m)
                else case decode_inbound wire_bytes (Some (sn_peer_signing_key c)) of
                  Inl e \<Rightarrow> Returns (Inl e, m)
                | Inr (packet, location) \<Rightarrow>
                    Returns (handle_data_packet env packet location wire_bytes cid now_ms m))))"

definition process_inbound_envelope ::
  "StreamEnv \<Rightarrow> (bytes \<Rightarrow> bytes list \<times> string option \<times> nat) \<Rightarrow> bytes \<Rightarrow> bytes \<Rightarrow> DestinationIdentity \<Rightarrow> u16
     \<Rightarrow> u16 \<Rightarrow> u64 \<Rightarrow> StreamingManager
     \<Rightarrow> ((StreamingManagerError + WirePacketObservation) \<times> StreamingManager) run" where
  "process_inbound_envelope env inflate wire_bytes from_destination_hash to_destination source_port
     destination_port now_ms m =
     (case decode_client_payload inflate wire_bytes (MAX_STREAMING_PACKET_BYTES + 256) of
        Inl e \<Rightarrow> Returns (Inl (ManagerStreaming (InboundEnvelope e)), m)
      | Inr envelope \<Rightarrow>
        if cl_source_port envelope \<noteq> source_port \<or> cl_destination_port envelope \<noteq> destination_port
        then Returns (Inl (PortTupleMismatch destination_port source_port (cl_source_port envelope)
               (cl_destination_port envelope)), m)
        else process_inbound_packet env (cl_payload envelope) from_destination_hash to_destination source_port
               destination_port now_ms m)"

end
