(* ===== verification/Stream_Send_Laws.thy ===== *)
theory Stream_Send_Laws
  imports Stream_Send
begin

section \<open>The send window: closed form of acknowledge, and its invariant\<close>

text \<open>
  \<open>acknowledge_spec\<close> replaces the loop of \<open>acknowledge\<close> by the split of the map along one
  predicate, \<open>clears\<close>. \<open>send_wf\<close> is the invariant; \<open>send_step\<close> collects the operations of the window
  as events, and \<open>send_run_wf\<close> gives the invariant of every run that numbers fewer than \<open>2 ^ 32\<close>
  packets.
\<close>

definition clears :: "u32 \<Rightarrow> u32 list \<Rightarrow> u32 \<Rightarrow> bool" where
  "clears ack nacks key \<longleftrightarrow> key \<le> ack \<and> \<not> (key \<in> set nacks \<and> key < ack)"

definition send_wf :: "SendWindowPolicy \<Rightarrow> bool" where
  "send_wf w \<longleftrightarrow>
     bt_wf (sw_unacked w)
     \<and> sw_unacked_bytes w = bt_sum ue_payload_len (sw_unacked w)
     \<and> length (sw_unacked w) \<le> unat (swc_max_window_packets (sw_config w))
     \<and> sw_unacked_bytes w \<le> swc_max_window_bytes (sw_config w)
     \<and> swc_max_window_bytes (sw_config w) < usize_limit - 1
     \<and> (\<forall>(k, e)\<in>set (sw_unacked w). ue_sequence e = k)"

subsection \<open>Maps\<close>

lemma bt_get_in_keys: "bt_get m k = Some v \<Longrightarrow> k \<in> fst ` set m"
  by (force simp: bt_get_def dest: map_of_SomeD)

lemma bt_remove_retain: "bt_wf m \<Longrightarrow> bt_remove k m = bt_retain (\<lambda>j _. j \<noteq> k) m"
  by (rule bt_ext) (auto simp: bt_wf_remove bt_wf_retain bt_get_remove bt_get_retain split: option.splits)

lemma bt_retain_retain: "bt_retain P (bt_retain Q m) = bt_retain (\<lambda>k v. Q k v \<and> P k v) m"
  by (auto simp: bt_retain_def filter_filter case_prod_unfold intro: filter_cong)

lemma bt_retain_True [simp]: "bt_retain (\<lambda>_ _. True) m = m"
  by (simp add: bt_retain_def case_prod_unfold)

lemma bt_keys_distinct: "bt_wf m \<Longrightarrow> distinct (bt_keys m)"
  by (simp add: bt_wf_def bt_keys_def strict_sorted_iff)

lemma bt_lookup_keys:
  assumes "bt_wf m"
  shows "map (\<lambda>k. the (bt_get m k)) (filter P (bt_keys m)) = map snd (filter (\<lambda>(k, v). P k) m)"
proof -
  have "map (\<lambda>k. the (bt_get m k)) (filter P (map fst xs)) = map snd (filter (\<lambda>(k, v). P k) xs)"
    if "set xs \<subseteq> set m" for xs
    using that by (induction xs) (auto simp: bt_get_set [OF assms])
  then show ?thesis by (simp add: bt_keys_def)
qed

lemma bt_retain_cong:
  "(\<And>k v. (k, v) \<in> set m \<Longrightarrow> P k v = Q k v) \<Longrightarrow> bt_retain P m = bt_retain Q m"
  by (auto simp: bt_retain_def intro!: filter_cong)

subsection \<open>The acknowledgement loop\<close>

lemma ack_keys_fold:
  assumes "bt_wf (sw_unacked w)" "distinct ks" "set ks \<subseteq> set (bt_keys (sw_unacked w))"
    "sw_unacked_bytes w = bt_sum ue_payload_len (sw_unacked w)"
  shows "fold (ack_key N) ks (outcome, w) =
    (outcome\<lparr>ao_newly_acked := ao_newly_acked outcome @ map (\<lambda>k. the (bt_get (sw_unacked w) k)) (filter (\<lambda>k. k \<notin> set N) ks),
             ao_retained_nacks := ao_retained_nacks outcome @ filter (\<lambda>k. k \<in> set N) ks\<rparr>,
     w\<lparr>sw_unacked := bt_retain (\<lambda>k _. \<not> (k \<in> set ks \<and> k \<notin> set N)) (sw_unacked w),
       sw_unacked_bytes := bt_sum ue_payload_len (bt_retain (\<lambda>k _. \<not> (k \<in> set ks \<and> k \<notin> set N)) (sw_unacked w))\<rparr>)"
  using assms
proof (induction ks arbitrary: outcome w)
  case (Cons k ks)
  show ?case
  proof (cases "k \<in> set N")
    case True
    then have "ack_key N k (outcome, w) = (outcome\<lparr>ao_retained_nacks := ao_retained_nacks outcome @ [k]\<rparr>, w)"
      by (simp add: ack_key_def)
    moreover have "bt_retain (\<lambda>j _. \<not> (j \<in> set (k # ks) \<and> j \<notin> set N)) (sw_unacked w)
        = bt_retain (\<lambda>j _. \<not> (j \<in> set ks \<and> j \<notin> set N)) (sw_unacked w)"
      using True by (intro bt_retain_cong) auto
    ultimately show ?thesis using Cons.IH [of w] Cons.prems True by simp
  next
    case False
    from Cons.prems(3) have "bt_contains (sw_unacked w) k" by (simp add: bt_contains_keys)
    then obtain e where e: "bt_get (sw_unacked w) k = Some e" by (auto simp: bt_contains_def)
    let ?m = "bt_remove k (sw_unacked w)"
    let ?w = "w\<lparr>sw_unacked := ?m, sw_unacked_bytes := sw_unacked_bytes w - ue_payload_len e\<rparr>"
    have "ack_key N k (outcome, w) = (outcome\<lparr>ao_newly_acked := ao_newly_acked outcome @ [e]\<rparr>, ?w)"
      using False e by (simp add: ack_key_def)
    moreover have wf: "bt_wf ?m" using Cons.prems(1) by (rule bt_wf_remove)
    moreover have "set ks \<subseteq> set (bt_keys ?m)"
    proof
      fix j assume "j \<in> set ks"
      with Cons.prems(2,3) have "bt_contains (sw_unacked w) j" "j \<noteq> k" by (auto simp: bt_contains_keys)
      then show "j \<in> set (bt_keys ?m)"
        using bt_get_remove [OF Cons.prems(1), of k j]
        by (simp add: bt_contains_keys [symmetric] bt_contains_def)
    qed
    moreover have "sw_unacked_bytes w - ue_payload_len e = bt_sum ue_payload_len ?m"
      using bt.weight_rem_found [OF Cons.prems(1) e, of ue_payload_len] Cons.prems(4) by simp
    moreover have "map (\<lambda>j. the (bt_get ?m j)) (filter (\<lambda>j. j \<notin> set N) ks)
        = map (\<lambda>j. the (bt_get (sw_unacked w) j)) (filter (\<lambda>j. j \<notin> set N) ks)"
      using Cons.prems(1,2) by (auto simp: bt_get_remove)
    moreover have "bt_retain (\<lambda>j _. \<not> (j \<in> set ks \<and> j \<notin> set N)) ?m
        = bt_retain (\<lambda>j _. \<not> (j \<in> set (k # ks) \<and> j \<notin> set N)) (sw_unacked w)"
      unfolding bt_remove_retain [OF Cons.prems(1)] bt_retain_retain
      using False by (intro bt_retain_cong) auto
    ultimately show ?thesis using Cons.IH [of ?w] Cons.prems(2) False e by simp
  qed
qed (simp add: assms)

text \<open>\<open>acknowledge\<close> without the loop.\<close>

definition acknowledge_spec :: "u32 \<Rightarrow> u32 list \<Rightarrow> SendWindowPolicy \<Rightarrow> AckOutcome \<times> SendWindowPolicy" where
  "acknowledge_spec ack nacks w =
     (if ack < sw_last_ack w then (\<lparr>ao_newly_acked = [], ao_retained_nacks = [], ao_duplicate_ack = True\<rparr>, w)
      else
        let kept = bt_retain (\<lambda>k _. \<not> clears ack nacks k) (sw_unacked w);
            missing = {n\<in>set nacks. n < ack}
        in (\<lparr>ao_newly_acked = map snd (filter (\<lambda>(k, e). clears ack nacks k) (sw_unacked w)),
             ao_retained_nacks = filter (\<lambda>k. k \<in> set nacks \<and> k < ack) (bt_keys (sw_unacked w)),
             ao_duplicate_ack = False\<rparr>,
            w\<lparr>sw_unacked := kept, sw_unacked_bytes := bt_sum ue_payload_len kept,
              sw_last_ack := max (sw_last_ack w) (if missing = {} then ack else word_sat_sub (Min missing) 1)\<rparr>))"

lemma sort_remdups_cases:
  "(case sort (remdups xs) of [] \<Rightarrow> f | lowest # _ \<Rightarrow> g lowest) = (if set xs = {} then f else g (Min (set xs)))"
  for xs :: "'a::linorder list"
proof (cases "sort (remdups xs)")
  case (Cons lowest rest)
  then have "set xs = Set.insert lowest (set rest)" by (metis list.simps(15) set_remdups set_sort)
  moreover have "\<forall>x\<in>set rest. lowest \<le> x" using sorted_sort [of "remdups xs"] Cons by simp
  ultimately have "Min (set xs) = lowest" "set xs \<noteq> {}" by (auto intro!: Min_eqI)
  with Cons show ?thesis by simp
qed (metis list.simps(4) set_empty set_remdups set_sort)

lemma acknowledge_spec_eq:
  assumes "send_wf w"
  shows "acknowledge ack nacks w = acknowledge_spec ack nacks w"
proof (cases "ack < sw_last_ack w")
  case False
  define N where "N = sort (remdups (filter (\<lambda>s. s < ack) nacks))"
  have N: "k \<in> set N \<longleftrightarrow> k \<in> set nacks \<and> k < ack" for k by (auto simp: N_def)
  have wf: "bt_wf (sw_unacked w)" "sw_unacked_bytes w = bt_sum ue_payload_len (sw_unacked w)"
    using assms(1) by (simp_all add: send_wf_def)
  let ?ks = "filter (\<lambda>key. key \<le> ack) (bt_keys (sw_unacked w))"
  have ks: "distinct ?ks" "set ?ks \<subseteq> set (bt_keys (sw_unacked w))"
    using bt_keys_distinct [OF wf(1)] by auto
  note run = ack_keys_fold [OF wf(1) ks wf(2), of N
      "\<lparr>ao_newly_acked = [], ao_retained_nacks = [], ao_duplicate_ack = False\<rparr>"]
  have R: "bt_retain (\<lambda>k _. \<not> (k \<in> set ?ks \<and> k \<notin> set N)) (sw_unacked w)
      = bt_retain (\<lambda>k _. \<not> clears ack nacks k) (sw_unacked w)"
    by (intro bt_retain_cong) (force simp: clears_def N bt_keys_def)
  have F: "filter (\<lambda>k. k \<notin> set N) ?ks = filter (clears ack nacks) (bt_keys (sw_unacked w))"
    by (auto simp: clears_def N intro: filter_cong)
  have G: "filter (\<lambda>k. k \<in> set N) ?ks = filter (\<lambda>k. k \<in> set nacks \<and> k < ack) (bt_keys (sw_unacked w))"
    by (auto simp: N intro!: filter_cong)
  have last: "(case N of [] \<Rightarrow> max (sw_last_ack w) ack | lowest # _ \<Rightarrow> max (sw_last_ack w) (word_sat_sub lowest 1))
      = max (sw_last_ack w) (if {n\<in>set nacks. n < ack} = {} then ack else word_sat_sub (Min {n\<in>set nacks. n < ack}) 1)"
    unfolding N_def sort_remdups_cases by (auto intro: arg_cong [where f = Min])
  have "acknowledge ack nacks w =
    (\<lparr>ao_newly_acked = map snd (filter (\<lambda>(k, e). clears ack nacks k) (sw_unacked w)),
      ao_retained_nacks = filter (\<lambda>k. k \<in> set nacks \<and> k < ack) (bt_keys (sw_unacked w)), ao_duplicate_ack = False\<rparr>,
     w\<lparr>sw_unacked := bt_retain (\<lambda>k _. \<not> clears ack nacks k) (sw_unacked w),
       sw_unacked_bytes := bt_sum ue_payload_len (bt_retain (\<lambda>k _. \<not> clears ack nacks k) (sw_unacked w)),
       sw_last_ack := (case N of
          [] \<Rightarrow> max (sw_last_ack w) ack | lowest # _ \<Rightarrow> max (sw_last_ack w) (word_sat_sub lowest 1))\<rparr>)"
    using False unfolding acknowledge_def Let_def N_def [symmetric]
    by (simp add: run [unfolded R F G bt_lookup_keys [OF wf(1)]] cong: list.case_cong)
  then show ?thesis
    unfolding last acknowledge_spec_def Let_def using False by (simp only: if_False)
qed (simp add: acknowledge_def acknowledge_spec_def)

lemma acknowledge_closed:
  assumes "send_wf w" "\<not> ack < sw_last_ack w" "acknowledge ack nacks w = (out, w')"
  shows "ao_newly_acked out = map snd (filter (\<lambda>(k, e). clears ack nacks k) (sw_unacked w))"
    and "ao_retained_nacks out = filter (\<lambda>k. k \<in> set nacks \<and> k < ack) (bt_keys (sw_unacked w))"
    and "\<not> ao_duplicate_ack out"
    and "sw_unacked w' = bt_retain (\<lambda>k _. \<not> clears ack nacks k) (sw_unacked w)"
    and "sw_unacked_bytes w' = bt_sum ue_payload_len (sw_unacked w')"
    and "sw_config w' = sw_config w" "sw_next_sequence w' = sw_next_sequence w"
    and "sw_last_ack w \<le> sw_last_ack w'"
  using assms(2,3) unfolding acknowledge_spec_eq [OF assms(1)] by (auto simp: acknowledge_spec_def Let_def)

lemma acknowledge_duplicate:
  "ack < sw_last_ack w \<Longrightarrow>
     acknowledge ack nacks w = (\<lparr>ao_newly_acked = [], ao_retained_nacks = [], ao_duplicate_ack = True\<rparr>, w)"
  by (simp add: acknowledge_def)

subsection \<open>The operations keep the invariant\<close>

lemma send_new_wf: "send_wf (send_window_new (send_window_config_from config))"
proof -
  have "unat (sc_max_send_window_packets config) * 2048 < usize_limit - 1"
    using unat_u16_lt [of "sc_max_send_window_packets config"] unfolding usize_limit_def by linarith
  then show ?thesis
    by (simp add: send_wf_def send_window_new_def send_window_config_from_def
        MAX_PACKET_PAYLOAD_BYTES_def MAX_STREAMING_PAYLOAD_BYTES_def)
qed

lemma enqueue_accepts:
  assumes "send_wf w" "send_window_enqueue len now w = (Inr seq, w')"
  shows "seq = sw_next_sequence w" "sw_next_sequence w' = sw_next_sequence w + 1"
    "sw_unacked w' = bt_insert seq \<lparr>ue_sequence = seq, ue_payload_len = len, ue_sent_at_ms = now,
       ue_retransmit_count = 0\<rparr> (sw_unacked w)"
    "sw_unacked_bytes w' = sw_unacked_bytes w + len"
    "sw_config w' = sw_config w" "sw_last_ack w' = sw_last_ack w"
    "length (sw_unacked w) < unat (swc_max_window_packets (sw_config w))"
    "sw_unacked_bytes w + len \<le> swc_max_window_bytes (sw_config w)"
proof -
  have fit: "saturating_add (length (sw_unacked w)) 1 \<le> unat (swc_max_window_packets (sw_config w))"
    "saturating_add (sw_unacked_bytes w) len \<le> swc_max_window_bytes (sw_config w)"
    using assms(2) by (auto simp: send_window_enqueue_def send_window_evaluate_def Let_def split: if_splits)
  have small: "unat (swc_max_window_packets (sw_config w)) < usize_limit - 1"
    "swc_max_window_bytes (sw_config w) < usize_limit - 1"
    using less_trans [OF unat_u16_lt [of "swc_max_window_packets (sw_config w)"], of "usize_limit - 1"] assms(1)
    by (simp_all add: send_wf_def usize_limit_def)
  have no_sat: "saturating_add (length (sw_unacked w)) 1 = length (sw_unacked w) + 1"
    "saturating_add (sw_unacked_bytes w) len = sw_unacked_bytes w + len"
    using fit small by (auto simp: saturating_add_def split: if_splits)
  from fit no_sat show "length (sw_unacked w) < unat (swc_max_window_packets (sw_config w))"
    "sw_unacked_bytes w + len \<le> swc_max_window_bytes (sw_config w)" by simp_all
  show "seq = sw_next_sequence w" "sw_next_sequence w' = sw_next_sequence w + 1"
    "sw_unacked w' = bt_insert seq \<lparr>ue_sequence = seq, ue_payload_len = len, ue_sent_at_ms = now,
       ue_retransmit_count = 0\<rparr> (sw_unacked w)"
    "sw_unacked_bytes w' = sw_unacked_bytes w + len"
    "sw_config w' = sw_config w" "sw_last_ack w' = sw_last_ack w"
    using assms(2) no_sat(2) by (auto simp: send_window_enqueue_def Let_def split: if_splits)
qed

lemma bt_insert_mem: "bt_wf m \<Longrightarrow> (j, x) \<in> set (bt_insert k v m) \<longleftrightarrow> (j = k \<and> x = v) \<or> (j \<noteq> k \<and> (j, x) \<in> set m)"
  using bt_get_set [OF bt_wf_insert, of m j x k v] bt_get_set [of m j x] by (auto simp: bt_get_insert)

lemma bt_remove_mem: "bt_wf m \<Longrightarrow> (j, x) \<in> set (bt_remove k m) \<longleftrightarrow> j \<noteq> k \<and> (j, x) \<in> set m"
  using bt_get_set [OF bt_wf_remove, of m j x k] bt_get_set [of m j x] by (auto simp: bt_get_remove)

text \<open>A sequence number is fresh until \<open>2 ^ 32\<close> packets have been numbered.\<close>

definition send_fresh :: "SendWindowPolicy \<Rightarrow> bool" where
  "send_fresh w \<longleftrightarrow> bt_get (sw_unacked w) (sw_next_sequence w) = None"

lemma enqueue_wf:
  assumes "send_wf w" "send_fresh w" "send_window_enqueue len now w = (Inr seq, w')"
  shows "send_wf w'"
proof -
  note e = enqueue_accepts [OF assms(1,3)]
  have wf: "bt_wf (sw_unacked w)" using assms(1) by (simp add: send_wf_def)
  show ?thesis
    unfolding send_wf_def e(3-5)
    using assms(1,2) e(1,7,8) bt.weight_ins_fresh [OF wf, of seq ue_payload_len]
    by (auto simp: send_wf_def send_fresh_def bt_wf_insert length_bt_insert bt_insert_mem)
qed

lemma enqueue_rejects: "send_window_enqueue len now w = (Inl d, w') \<Longrightarrow> w' = w"
  by (auto simp: send_window_enqueue_def Let_def split: if_splits)

lemma acknowledge_wf: "send_wf w \<Longrightarrow> send_wf (snd (acknowledge ack nacks w))"
proof (cases "ack < sw_last_ack w")
  case False
  assume wf: "send_wf w"
  obtain out w' where run: "acknowledge ack nacks w = (out, w')" by (cases "acknowledge ack nacks w")
  note c = acknowledge_closed [OF wf False run]
  have "bt_sum ue_payload_len (bt_retain (\<lambda>k _. \<not> clears ack nacks k) (sw_unacked w)) \<le> bt_sum ue_payload_len (sw_unacked w)"
    using bt_sum_retain [of ue_payload_len "\<lambda>k _. \<not> clears ack nacks k" "sw_unacked w"] by simp
  moreover have "\<forall>(k, e)\<in>set (bt_retain (\<lambda>k _. \<not> clears ack nacks k) (sw_unacked w)). ue_sequence e = k"
    using wf by (auto simp: send_wf_def bt_retain_def)
  ultimately show ?thesis
    using wf c(4-6) length_bt_retain [of "\<lambda>k _. \<not> clears ack nacks k" "sw_unacked w"]
    by (simp add: send_wf_def run bt_wf_retain)
qed (simp add: acknowledge_duplicate)

lemma mark_retransmitted_wf: "send_wf w \<Longrightarrow> send_wf (mark_retransmitted seq now w)"
proof (cases "bt_get (sw_unacked w) seq")
  case (Some e)
  assume wf: "send_wf w"
  then have m: "bt_wf (sw_unacked w)" by (simp add: send_wf_def)
  let ?e = "e\<lparr>ue_retransmit_count := word_sat_add (ue_retransmit_count e) 1, ue_sent_at_ms := now\<rparr>"
  have "bt_sum ue_payload_len (bt_insert seq ?e (sw_unacked w)) = bt_sum ue_payload_len (sw_unacked w)"
    using bt_sum_insert [OF m, of ue_payload_len seq ?e] Some by simp
  moreover have "ue_sequence e = seq" using wf Some bt_get_set [OF m, of seq e] by (auto simp: send_wf_def)
  ultimately show ?thesis
    using wf Some by (auto simp: send_wf_def mark_retransmitted_def bt_wf_insert length_bt_insert bt_insert_mem m)
qed (simp add: mark_retransmitted_def)

lemma send_remove_wf: "send_wf w \<Longrightarrow> send_wf (snd (send_window_remove seq w))"
proof (cases "bt_get (sw_unacked w) seq")
  case (Some e)
  assume wf: "send_wf w"
  then have m: "bt_wf (sw_unacked w)" by (simp add: send_wf_def)
  have "bt_sum ue_payload_len (bt_remove seq (sw_unacked w)) = bt_sum ue_payload_len (sw_unacked w) - ue_payload_len e"
    using m Some by (rule bt.weight_rem_found)
  then show ?thesis
    using wf Some by (auto simp: send_wf_def send_window_remove_def bt_wf_remove length_bt_remove bt_remove_mem m)
qed (simp add: send_window_remove_def)

subsection \<open>Runs\<close>

datatype SendEvent =
    EnqueueEvent nat u64
  | AckEvent u32 "u32 list"
  | RetransmitEvent u32 u64
  | RemoveEvent u32

primrec send_step :: "SendEvent \<Rightarrow> SendWindowPolicy \<Rightarrow> SendWindowPolicy" where
  "send_step (EnqueueEvent len now) w = snd (send_window_enqueue len now w)"
| "send_step (AckEvent ack nacks) w = snd (acknowledge ack nacks w)"
| "send_step (RetransmitEvent seq now) w = mark_retransmitted seq now w"
| "send_step (RemoveEvent seq) w = snd (send_window_remove seq w)"

definition numbered :: "SendWindowPolicy \<Rightarrow> bool" where
  "numbered w \<longleftrightarrow> (\<forall>k\<in>fst ` set (sw_unacked w). k < sw_next_sequence w)"

lemma numbered_fresh: "numbered w \<Longrightarrow> send_fresh w"
proof (cases "bt_get (sw_unacked w) (sw_next_sequence w)")
  case (Some v)
  moreover assume "numbered w"
  ultimately show ?thesis using bt_get_in_keys [OF Some] unfolding numbered_def by (meson less_irrefl)
qed (simp add: send_fresh_def)

lemma acknowledge_numbered:
  "send_wf w \<Longrightarrow> numbered w \<Longrightarrow>
     numbered (snd (acknowledge ack nacks w)) \<and> sw_next_sequence (snd (acknowledge ack nacks w)) = sw_next_sequence w"
proof (cases "ack < sw_last_ack w")
  case False
  assume wf: "send_wf w" and n: "numbered w"
  obtain out w' where run: "acknowledge ack nacks w = (out, w')" by (cases "acknowledge ack nacks w")
  note c = acknowledge_closed [OF wf False run]
  show ?thesis using n unfolding numbered_def run snd_conv c(4) c(7) by (auto simp: bt_retain_def)
qed (simp add: acknowledge_duplicate)

lemma send_step_numbered:
  assumes wf: "send_wf w" and n: "numbered w" and room: "unat (sw_next_sequence w) + 1 < 2 ^ 32"
  shows "send_wf (send_step e w) \<and> numbered (send_step e w)
    \<and> unat (sw_next_sequence (send_step e w)) \<le> unat (sw_next_sequence w) + 1"
proof (cases e)
  case (EnqueueEvent len now)
  show ?thesis
  proof (cases "send_window_enqueue len now w")
    case (Pair r w')
    show ?thesis
    proof (cases r)
      case (Inr seq)
      note run = Pair [unfolded Inr]
      note q = enqueue_accepts [OF wf run]
      have succ: "unat (sw_next_sequence w + 1) = unat (sw_next_sequence w) + 1"
        using room by (simp add: unat_u32_succ)
      have "numbered w'"
        using n unfolding numbered_def q(2,3) set_bt_insert
        by (auto simp: word_less_nat_alt succ q(1) less_Suc_eq)
      then show ?thesis
        using enqueue_wf [OF wf numbered_fresh [OF n] run] EnqueueEvent run succ q(2) by simp
    qed (use Pair EnqueueEvent enqueue_rejects [of len now w] wf n in auto)
  qed
next
  case (AckEvent ack nacks)
  then show ?thesis using acknowledge_wf [OF wf] acknowledge_numbered [OF wf n] by simp
next
  case (RetransmitEvent seq now)
  moreover have "numbered (mark_retransmitted seq now w)"
  proof (cases "bt_get (sw_unacked w) seq")
    case (Some e)
    then show ?thesis
      using n bt_get_in_keys [OF Some] unfolding numbered_def
      by (auto simp: mark_retransmitted_def set_bt_insert simp del: ball_simps)
  qed (use n in \<open>simp add: mark_retransmitted_def\<close>)
  ultimately show ?thesis
    using mark_retransmitted_wf [OF wf] by (simp add: mark_retransmitted_def split: option.splits)
next
  case (RemoveEvent seq)
  moreover have "numbered (snd (send_window_remove seq w))"
    using n set_bt_remove [of seq "sw_unacked w"]
    by (auto simp: numbered_def send_window_remove_def split: option.splits)
  ultimately show ?thesis
    using send_remove_wf [OF wf] by (simp add: send_window_remove_def split: option.splits)
qed

lemma send_run_wf:
  "send_wf w \<Longrightarrow> numbered w \<Longrightarrow> unat (sw_next_sequence w) + length events < 2 ^ 32 \<Longrightarrow>
     send_wf (fold send_step events w) \<and> numbered (fold send_step events w)"
proof (induction events arbitrary: w)
  case (Cons e events)
  show ?case
    using send_step_numbered [OF Cons.prems(1,2), of e] Cons.prems(3)
    by (simp del: send_step.simps) (rule Cons.IH; simp)
qed simp

end
