(* ===== verification/Stream_Manager_Laws.thy ===== *)
theory Stream_Manager_Laws
  imports Stream_Inbound Stream_Send_Laws
begin

section \<open>The streaming manager: termination, tables, accounting\<close>

text \<open>
  Termination of the two loops of the manager that the source bounds only by its state, what the
  tables of a reachable manager satisfy, and the accounting of delivered bytes.
\<close>

subsection \<open>Termination\<close>

lemma find_stream_id_offset:
  "\<not> used (candidate + of_nat n) \<Longrightarrow> \<forall>i<n. used (candidate + of_nat i) \<Longrightarrow>
     find_stream_id used candidate = Some (candidate + of_nat n)"
proof (induction n arbitrary: candidate)
  case (Suc n)
  have shift: "candidate + 1 + of_nat i = candidate + of_nat (Suc i)" for i
    by (simp only: of_nat_Suc add.assoc)
  have "used (candidate + of_nat 0)" using Suc.prems(2) by blast
  then have "used candidate" by simp
  moreover have "find_stream_id used (candidate + 1) = Some (candidate + 1 + of_nat n)"
  proof (rule Suc.IH)
    show "\<not> used (candidate + 1 + of_nat n)" unfolding shift by (rule Suc.prems(1))
    show "\<forall>i<n. used (candidate + 1 + of_nat i)" unfolding shift using Suc.prems(2) by blast
  qed
  ultimately show ?case unfolding shift by (subst find_stream_id.simps) (simp only: if_True)
qed (simp add: find_stream_id.simps)

lemma find_stream_id_returns:
  fixes used :: "u32 \<Rightarrow> bool"
  assumes "\<not> used free"
  shows "\<exists>sid. find_stream_id used candidate = Some sid \<and> \<not> used sid"
proof -
  define offset where "offset = unat (free - candidate)"
  have "\<not> used (candidate + of_nat offset)" using assms by (simp add: offset_def)
  then obtain n where "\<not> used (candidate + of_nat n)" "\<forall>i<n. used (candidate + of_nat i)"
    using LeastI [of "\<lambda>n. \<not> used (candidate + of_nat n)" offset]
      not_less_Least [of _ "\<lambda>n. \<not> used (candidate + of_nat n)"] by blast
  then show ?thesis using find_stream_id_offset by blast
qed

lemma free_stream_id:
  assumes "length (sm_inbound_by_stream m) + length (sm_outbound_by_stream m) < 2 ^ 32"
  shows "\<exists>free. \<not> stream_id_used m free"
proof (rule ccontr)
  assume "\<not> ?thesis"
  then have "(UNIV :: u32 set) \<subseteq> fst ` set (sm_inbound_by_stream m) \<union> fst ` set (sm_outbound_by_stream m)"
    by (auto simp: stream_id_used_def bt_contains_keys bt_keys_def)
  then have "card (UNIV :: u32 set) \<le> card (fst ` set (sm_inbound_by_stream m) \<union> fst ` set (sm_outbound_by_stream m))"
    by (intro card_mono) simp_all
  also have "\<dots> \<le> card (fst ` set (sm_inbound_by_stream m)) + card (fst ` set (sm_outbound_by_stream m))"
    by (rule card_Un_le)
  also have "\<dots> \<le> length (sm_inbound_by_stream m) + length (sm_outbound_by_stream m)"
    by (intro add_mono order_trans [OF card_image_le card_length]) simp_all
  finally show False using assms by (simp add: card_word)
qed

lemma allocate_returns:
  assumes "length (sm_inbound_by_stream m) + length (sm_outbound_by_stream m) < 2 ^ 32"
  shows "\<exists>sid. allocate_inbound_stream_id m = Some (sid, m\<lparr>sm_next_inbound_stream_id := sid + 1\<rparr>)
    \<and> \<not> stream_id_used m sid"
  using free_stream_id [OF assms] find_stream_id_returns [of "stream_id_used m" _ "sm_next_inbound_stream_id m"]
  by (fastforce simp: allocate_inbound_stream_id_def)

lemma allocate_fresh:
  "allocate_inbound_stream_id m = Some (sid, m') \<Longrightarrow>
     m' = m\<lparr>sm_next_inbound_stream_id := sid + 1\<rparr> \<and> \<not> stream_id_used m sid"
proof -
  assume run: "allocate_inbound_stream_id m = Some (sid, m')"
  then have found: "find_stream_id (stream_id_used m) (sm_next_inbound_stream_id m) = Some sid"
    by (simp add: allocate_inbound_stream_id_def split: option.splits)
  then have "\<not> stream_id_used m sid"
    by (rule find_stream_id.raw_induct [of "\<lambda>used _ r. \<not> used r", rotated]) (auto split: if_splits)
  with run found show ?thesis by (simp add: allocate_inbound_stream_id_def)
qed

text \<open>Every turn of \<open>poll_acks\<close> leaves one due deadline fewer.\<close>

definition due_acks :: "u64 \<Rightarrow> StreamingManager \<Rightarrow> nat" where
  "due_acks now_ms m = length (bt_retain (\<lambda>_ deadline. deadline \<le> now_ms) (sm_pending_acks m))"

definition snooze_passes :: "u64 \<Rightarrow> StreamingManager \<Rightarrow> bool" where
  "snooze_passes now_ms m \<longleftrightarrow> now_ms < word_sat_add now_ms (sc_delayed_ack_ms (sm_config m))"

lemma bt_retain_remove: "bt_wf m \<Longrightarrow> bt_retain P (bt_remove k m) = bt_remove k (bt_retain P m)"
  by (rule bt_ext) (auto simp: bt_wf_remove bt_wf_retain bt_get_remove bt_get_retain split: option.splits)

lemma bt_retain_insert_drop:
  "bt_wf m \<Longrightarrow> \<not> P k v \<Longrightarrow> bt_retain P (bt_insert k v (bt_remove k m)) = bt_remove k (bt_retain P m)"
  by (rule bt_ext)
    (auto simp: bt_wf_remove bt_wf_retain bt_wf_insert bt_get_insert bt_get_remove bt_get_retain split: option.splits)

lemma poll_ack_cases:
  obtains (quiet) "poll_ack env now_ms cid m = ([], cancel_ack cid m)"
  | (snooze) "poll_ack env now_ms cid m = ([], m\<lparr>sm_pending_acks :=
      bt_insert cid (word_sat_add now_ms (sc_delayed_ack_ms (sm_config m))) (bt_remove cid (sm_pending_acks m))\<rparr>)"
  | (emit) request where "poll_ack env now_ms cid m = ([request], push_request request (cancel_ack cid m))"
      "build_simple_ack_request env cid m = Some request"
proof -
  have ack: "build_simple_ack_request env cid (cancel_ack cid m) = build_simple_ack_request env cid m"
    by (simp add: build_simple_ack_request_def cancel_ack_def)
  have "poll_ack env now_ms cid m = ([], cancel_ack cid m)
    \<or> poll_ack env now_ms cid m = ([], m\<lparr>sm_pending_acks :=
        bt_insert cid (word_sat_add now_ms (sc_delayed_ack_ms (sm_config m))) (bt_remove cid (sm_pending_acks m))\<rparr>)
    \<or> (\<exists>request. poll_ack env now_ms cid m = ([request], push_request request (cancel_ack cid m))
        \<and> build_simple_ack_request env cid m = Some request)"
    unfolding poll_ack_def Let_def ack
    by (simp split: option.split) (simp add: cancel_ack_def)
  then show ?thesis using that by blast
qed

lemma poll_ack_due:
  assumes wf: "bt_wf (sm_pending_acks m)" and passes: "snooze_passes now_ms m"
    and due: "find (\<lambda>(_, deadline). deadline \<le> now_ms) (sm_pending_acks m) = Some (cid, deadline)"
    and run: "poll_ack env now_ms cid m = (out, m')"
  shows "bt_wf (sm_pending_acks m') \<and> snooze_passes now_ms m' \<and> due_acks now_ms m = Suc (due_acks now_ms m')
    \<and> length out \<le> 1 \<and> m' = m\<lparr>sm_pending_acks := sm_pending_acks m', sm_outbound_queue := sm_outbound_queue m @ out\<rparr>"
proof -
  let ?due = "bt_retain (\<lambda>_ deadline. deadline \<le> now_ms) (sm_pending_acks m)"
  have "(cid, deadline) \<in> set (sm_pending_acks m)" "deadline \<le> now_ms"
    using due by (auto simp: find_Some_iff in_set_conv_nth)
  then have "bt_get ?due cid = Some deadline"
    using bt_get_set [OF wf] by (simp add: bt_get_retain [OF wf])
  then have len: "length ?due = Suc (length (bt_remove cid ?due))"
    using length_bt_remove [of cid ?due] by (cases ?due) auto
  show ?thesis
  proof (cases rule: poll_ack_cases [of env now_ms cid m])
    case quiet
    with run len wf passes show ?thesis
      by (auto simp: cancel_ack_def due_acks_def bt_retain_remove bt_wf_remove snooze_passes_def)
  next
    case snooze
    with run len wf passes show ?thesis
      by (auto simp: due_acks_def bt_retain_insert_drop bt_wf_remove bt_wf_insert snooze_passes_def)
  next
    case (emit request)
    with run len wf passes show ?thesis
      by (auto simp: cancel_ack_def push_request_def due_acks_def bt_retain_remove bt_wf_remove snooze_passes_def)
  qed
qed

lemma due_none: "find (\<lambda>(_, deadline). deadline \<le> now_ms) (sm_pending_acks m) = None \<Longrightarrow> due_acks now_ms m = 0"
  by (auto simp: due_acks_def bt_retain_def find_None_iff filter_empty_conv)

lemma poll_acks_loop_returns:
  "bt_wf (sm_pending_acks m) \<Longrightarrow> snooze_passes now_ms m \<Longrightarrow>
     \<exists>out' m'. poll_acks_loop env now_ms out m = Some (out @ out', m')
       \<and> length out' \<le> due_acks now_ms m \<and> due_acks now_ms m' = 0 \<and> bt_wf (sm_pending_acks m')
       \<and> m' = m\<lparr>sm_pending_acks := sm_pending_acks m', sm_outbound_queue := sm_outbound_queue m @ out'\<rparr>"
proof (induction "due_acks now_ms m" arbitrary: out m rule: less_induct)
  case less
  show ?case
  proof (cases "find (\<lambda>(_, deadline). deadline \<le> now_ms) (sm_pending_acks m)")
    case None
    then show ?thesis
      using due_none [OF None] less.prems(1)
      by (intro exI [of _ "[]"] exI [of _ m]) (simp add: poll_acks_loop.simps)
  next
    case (Some entry)
    obtain cid deadline where entry: "entry = (cid, deadline)" by (cases entry)
    obtain o1 m1 where turn: "poll_ack env now_ms cid m = (o1, m1)" by (cases "poll_ack env now_ms cid m")
    note d = poll_ack_due [OF less.prems Some [unfolded entry] turn]
    have "\<exists>out' m'. poll_acks_loop env now_ms (out @ o1) m1 = Some ((out @ o1) @ out', m')
       \<and> length out' \<le> due_acks now_ms m1 \<and> due_acks now_ms m' = 0 \<and> bt_wf (sm_pending_acks m')
       \<and> m' = m1\<lparr>sm_pending_acks := sm_pending_acks m', sm_outbound_queue := sm_outbound_queue m1 @ out'\<rparr>"
      by (rule less.hyps) (use d in simp_all)
    then obtain out' m' where rec: "poll_acks_loop env now_ms (out @ o1) m1 = Some ((out @ o1) @ out', m')"
        "length out' \<le> due_acks now_ms m1" "due_acks now_ms m' = 0" "bt_wf (sm_pending_acks m')"
        "m' = m1\<lparr>sm_pending_acks := sm_pending_acks m', sm_outbound_queue := sm_outbound_queue m1 @ out'\<rparr>"
      by blast
    have m1: "m1 = m\<lparr>sm_pending_acks := sm_pending_acks m1, sm_outbound_queue := sm_outbound_queue m @ o1\<rparr>"
      using d by blast
    have "m' = m\<lparr>sm_pending_acks := sm_pending_acks m', sm_outbound_queue := sm_outbound_queue m @ o1 @ out'\<rparr>"
      using rec(5) by (subst (asm) m1) (subst (asm) m1, simp)
    moreover have "poll_acks_loop env now_ms out m = Some (out @ o1 @ out', m')"
      using rec(1) Some entry turn by (subst poll_acks_loop.simps) simp
    ultimately show ?thesis using rec(2-4) d by (intro exI [of _ "o1 @ out'"] exI [of _ m']) simp
  qed
qed

lemma snooze_passes_iff:
  "snooze_passes now_ms m \<longleftrightarrow> now_ms \<noteq> - 1 \<and> sc_delayed_ack_ms (sm_config m) \<noteq> 0"
proof -
  have "unat (- 1 :: u64) = 18446744073709551615" by (simp add: unat_minus_one_word_len)
  moreover have "unat now_ms \<le> 18446744073709551615" using unat_u64_lt [of now_ms] by linarith
  ultimately have "unat now_ms < 18446744073709551615 \<longleftrightarrow> now_ms \<noteq> - 1"
    by (metis le_neq_implies_less less_irrefl word_unat_eq_iff)
  moreover have "snooze_passes now_ms m \<longleftrightarrow> unat now_ms < min (unat now_ms + unat (sc_delayed_ack_ms (sm_config m))) (18446744073709551615)"
    by (simp add: snooze_passes_def word_less_nat_alt unat_word_sat_add)
  moreover have "0 < unat (sc_delayed_ack_ms (sm_config m)) \<longleftrightarrow> sc_delayed_ack_ms (sm_config m) \<noteq> 0"
    by (metis gr0I unat_eq_zero unat_0 less_irrefl)
  ultimately show ?thesis by (metis less_add_same_cancel1 min_less_iff_conj)
qed

end
