(* ===== verification/Stream_Machine.thy ===== *)
theory Stream_Machine
  imports Stream_Manager_Laws
begin

section \<open>The streaming manager as a machine\<close>

text \<open>
  \<open>manager_run\<close> is the manager under every sequence of its operations. The invariant has three parts:
  the stream tables and the connection table describe each other (\<open>tables_ok\<close>), the byte counters are
  the sizes of what is queued (\<open>accounted\<close>), and the maps are sorted (\<open>wf_tables\<close>). An operation that
  neither creates nor removes a connection nor delivers bytes is \<open>calm\<close>: it keeps all three.
\<close>

subsection \<open>Views\<close>

definition endpoint :: "StreamingConnection \<Rightarrow> ConnectionId \<times> StreamDirection \<times> u32" where
  "endpoint c = (sn_id c, sn_direction c, sn_local_stream_id c)"

definition endpoints :: "StreamingManager \<Rightarrow> ConnectionId \<Rightarrow> (ConnectionId \<times> StreamDirection \<times> u32) option" where
  "endpoints m cid = map_option endpoint (bt_get (sm_connections m) cid)"

definition stream_table :: "StreamDirection \<Rightarrow> StreamingManager \<Rightarrow> (u32, ConnectionId) btree" where
  "stream_table d m = (case d of OutboundStream \<Rightarrow> sm_outbound_by_stream m | InboundStream \<Rightarrow> sm_inbound_by_stream m)"

definition wf_tables :: "StreamingManager \<Rightarrow> bool" where
  "wf_tables m \<longleftrightarrow> bt_wf (sm_connections m) \<and> bt_wf (sm_outbound_by_stream m) \<and> bt_wf (sm_inbound_by_stream m)
     \<and> bt_wf (sm_pending_acks m) \<and> bt_wf (sm_pending_bytes_by_connection m)"

definition tables_ok :: "StreamingManager \<Rightarrow> bool" where
  "tables_ok m \<longleftrightarrow>
     (\<forall>d sid cid. bt_get (stream_table d m) sid = Some cid \<longleftrightarrow> endpoints m cid = Some (cid, d, sid))
     \<and> (\<forall>cid e. endpoints m cid = Some e \<longrightarrow> fst e = cid)
     \<and> (\<forall>k. endpoints m (ConnectionId k) \<noteq> None \<longrightarrow> k < sm_next_connection_id m)
     \<and> (\<forall>cid cid' e e'. endpoints m cid = Some e \<longrightarrow> endpoints m cid' = Some e' \<longrightarrow> snd (snd e) = snd (snd e') \<longrightarrow> cid = cid')"

definition held_bytes :: "DeliveredApplicationBytes list \<Rightarrow> ConnectionId \<Rightarrow> nat" where
  "held_bytes queue cid = (\<Sum>d\<leftarrow>filter (\<lambda>d. da_connection_id d = cid) queue. length (da_bytes d))"

definition accounted :: "StreamingManager \<Rightarrow> bool" where
  "accounted m \<longleftrightarrow>
     (\<forall>cid. bt_get (sm_pending_bytes_by_connection m) cid =
        (let held = held_bytes (sm_pending_delivered m) cid in if held = 0 then None else Some held))"

lemma tables_okD:
  assumes "tables_ok m"
  shows "bt_get (stream_table d m) sid = Some cid \<longleftrightarrow> endpoints m cid = Some (cid, d, sid)"
    and "endpoints m cid = Some e \<Longrightarrow> fst e = cid"
    and "endpoints m (ConnectionId k) = Some e \<Longrightarrow> k < sm_next_connection_id m"
    and "endpoints m cid = Some e \<Longrightarrow> endpoints m cid' = Some e' \<Longrightarrow> snd (snd e) = snd (snd e') \<Longrightarrow> cid = cid'"
  using assms unfolding tables_ok_def by blast+

lemma tables_okI:
  assumes "\<And>d sid cid. bt_get (stream_table d m) sid = Some cid \<longleftrightarrow> endpoints m cid = Some (cid, d, sid)"
    and "\<And>cid e. endpoints m cid = Some e \<Longrightarrow> fst e = cid"
    and "\<And>k e. endpoints m (ConnectionId k) = Some e \<Longrightarrow> k < sm_next_connection_id m"
    and "\<And>cid cid' e e'. endpoints m cid = Some e \<Longrightarrow> endpoints m cid' = Some e' \<Longrightarrow> snd (snd e) = snd (snd e') \<Longrightarrow> cid = cid'"
  shows "tables_ok m"
  using assms unfolding tables_ok_def by blast

lemmas view_defs = endpoints_def stream_table_def

subsection \<open>Calm steps\<close>

definition calm :: "StreamingManager \<Rightarrow> StreamingManager \<Rightarrow> bool" where
  "calm m m' \<longleftrightarrow>
     endpoints m' = endpoints m \<and> sm_outbound_by_stream m' = sm_outbound_by_stream m
     \<and> sm_inbound_by_stream m' = sm_inbound_by_stream m \<and> sm_next_connection_id m' = sm_next_connection_id m
     \<and> sm_pending_delivered m' = sm_pending_delivered m
     \<and> sm_pending_bytes_by_connection m' = sm_pending_bytes_by_connection m
     \<and> sm_config m' = sm_config m \<and> (wf_tables m \<longrightarrow> wf_tables m')"

lemma calm_refl [intro!, simp]: "calm m m"
  by (simp add: calm_def)

lemma calm_trans: "calm m n \<Longrightarrow> calm n k \<Longrightarrow> calm m k"
  by (simp add: calm_def)

lemma calm_push [intro]: "calm m n \<Longrightarrow> calm m (push_request r n)"
  by (simp add: calm_def push_request_def view_defs wf_tables_def fun_eq_iff)

lemma calm_track [intro]: "calm m n \<Longrightarrow> calm m (track_packet cid p n)"
  by (simp add: calm_def track_packet_def view_defs wf_tables_def fun_eq_iff)

lemma calm_cancel [intro]: "calm m n \<Longrightarrow> calm m (cancel_ack cid n)"
  by (simp add: calm_def cancel_ack_def view_defs wf_tables_def fun_eq_iff bt_wf_remove)

lemma calm_schedule [intro]: "calm m n \<Longrightarrow> calm m (schedule_ack cid t n)"
  by (simp add: calm_def schedule_ack_def view_defs wf_tables_def fun_eq_iff bt_wf_insert)

lemma calm_acknowledge_tracked [intro]: "calm m n \<Longrightarrow> calm m (acknowledge_tracked cid a ns n)"
  by (simp add: calm_def acknowledge_tracked_def view_defs wf_tables_def fun_eq_iff split: option.split)

lemma calm_acknowledge_data [intro]: "calm m n \<Longrightarrow> calm m (acknowledge_data env cid r now n)"
  unfolding acknowledge_data_def by (auto split: option.split)

lemma calm_listeners: "calm m (m\<lparr>sm_listeners := l\<rparr>)"
  by (simp add: calm_def view_defs wf_tables_def fun_eq_iff)

lemma calm_set:
  assumes "calm m n" "bt_get (sm_connections m) cid = Some c" "endpoint c' = endpoint c"
  shows "calm m (set_connection cid c' n)"
proof -
  have "endpoints n cid = Some (endpoint c)"
    using assms(1,2) by (simp add: calm_def endpoints_def)
  then have "endpoints (set_connection cid c' n) = endpoints n"
    using assms(3) by (auto simp: endpoints_def set_connection_def bt_get_insert fun_eq_iff)
  with assms(1) show ?thesis
    by (simp add: calm_def set_connection_def wf_tables_def bt_wf_insert)
qed

subsection \<open>Connections keep their endpoint\<close>

lemma endpoint_update [simp]:
  "endpoint (c\<lparr>sn_state := st\<rparr>) = endpoint c" "endpoint (c\<lparr>sn_send_window := w\<rparr>) = endpoint c"
  "endpoint (c\<lparr>sn_recv_window := v\<rparr>) = endpoint c" "endpoint (c\<lparr>sn_congestion := g\<rparr>) = endpoint c"
  "endpoint (c\<lparr>sn_remote_stream_id := sid\<rparr>) = endpoint c" "endpoint (c\<lparr>sn_last_activity_ms := t\<rparr>) = endpoint c"
  "endpoint (c\<lparr>sn_max_payload_size := p\<rparr>) = endpoint c"
  "endpoint (c\<lparr>sn_local_advertised_max_payload := a\<rparr>) = endpoint c"
  "endpoint (c\<lparr>sn_remote_advertised_max_payload := b\<rparr>) = endpoint c"
  by (simp_all add: endpoint_def)

lemma endpoint_transition [simp]:
  "transition_established mx now c = (r, c') \<Longrightarrow> endpoint c' = endpoint c"
  "begin_close now c = (r, c') \<Longrightarrow> endpoint c' = endpoint c"
  "remote_close_received now c = (r, c') \<Longrightarrow> endpoint c' = endpoint c"
  "connection_close now c = (r, c') \<Longrightarrow> endpoint c' = endpoint c"
  "connection_reset now c = (r, c') \<Longrightarrow> endpoint c' = endpoint c"
  by (auto simp: transition_established_def begin_close_def remote_close_received_def connection_close_def
      connection_reset_def Let_def split: if_splits)

lemma endpoint_snd [simp]:
  "endpoint (snd (begin_close now c)) = endpoint c" "endpoint (snd (remote_close_received now c)) = endpoint c"
  "endpoint (snd (connection_close now c)) = endpoint c" "endpoint (snd (connection_reset now c)) = endpoint c"
  by (metis endpoint_transition prod.collapse)+

lemma endpoint_enqueue: "enqueue_send len now c = (r, c') \<Longrightarrow> endpoint c' = endpoint c"
  by (auto simp: enqueue_send_def split: if_splits CongestionDecision.splits SendWindowDecision.splits
      prod.splits sum.splits)

lemma endpoint_receive [simp]:
  "endpoint (snd (receive_packet seq bs now c)) = endpoint c" "endpoint (snd (receive_ack a ns now c)) = endpoint c"
  by (simp_all add: receive_packet_def receive_ack_def Let_def split: prod.split)

lemma endpoint_control [simp]: "endpoint (apply_control_flags flags now c) = endpoint c"
  by (simp add: apply_control_flags_def Let_def)

subsection \<open>Calm operations\<close>

lemma calm_listen: "calm m (snd (listen port m))"
  by (simp add: listen_def Let_def calm_listeners)

lemma calm_accept: "calm m (snd (accept port m))"
  by (simp add: accept_def calm_listeners split: option.split list.split)

lemma calm_drain_outbound: "calm m (snd (drain_outbound m))"
  by (simp add: drain_outbound_def calm_def view_defs wf_tables_def fun_eq_iff)

lemma calm_send_data: "calm m (snd (send_data env cid remote lp rp payload now m))"
proof (cases "bt_get (sm_connections m) cid")
  case (Some c)
  have set: "calm m (set_connection cid c' m)" if "enqueue_send (length payload) now c = (r, c')" for r c'
    using calm_refl Some endpoint_enqueue [OF that] by (rule calm_set)
  show ?thesis
    unfolding send_data_def Let_def
    by (auto simp: Some split: sum.split prod.split intro: set intro!: calm_cancel calm_push calm_track)
qed (simp add: send_data_def)

lemma calm_send_close: "calm m (snd (send_close env cid local remote lp rp now m))"
proof (cases "bt_get (sm_connections m) cid")
  case (Some c)
  have set: "calm m (set_connection cid c' m)" if "endpoint c' = endpoint c" for c'
    using calm_refl Some that by (rule calm_set)
  show ?thesis
    unfolding send_close_def Let_def
    by (auto simp: Some split: sum.split prod.split intro: set intro!: calm_cancel calm_push calm_track)
qed (simp add: send_close_def)

lemma calm_send_reset: "calm m (snd (send_reset env cid local remote lp rp now m))"
proof (cases "bt_get (sm_connections m) cid")
  case (Some c)
  have set: "calm m (set_connection cid c' m)" if "connection_reset now c = (r, c')" for r c'
    using calm_refl Some endpoint_transition(5) [OF that] by (rule calm_set)
  show ?thesis
    unfolding send_reset_def Let_def
    by (auto simp: Some split: sum.split prod.split intro: set intro!: calm_cancel calm_push)
qed (simp add: send_reset_def)

lemma calm_syn_response: "calm m (snd (handle_inbound_syn_response env packet loc wire fh now m))"
proof (cases "Option.bind (bt_get (sm_outbound_by_stream m) (sp_send_stream_id packet)) (bt_get (sm_connections m))")
  case None
  then show ?thesis
    unfolding handle_inbound_syn_response_def by (auto split: option.split sum.split Option.bind_splits)
next
  case (Some c)
  then obtain cid where cid: "bt_get (sm_outbound_by_stream m) (sp_send_stream_id packet) = Some cid"
      "bt_get (sm_connections m) cid = Some c"
    by (auto split: Option.bind_splits)
  have set: "calm m (set_connection cid c' m)" if "endpoint c' = endpoint c" for c'
    using calm_refl cid(2) that by (rule calm_set)
  show ?thesis
    unfolding handle_inbound_syn_response_def Let_def
    by (auto simp: cid split: sum.split prod.split option.split intro!: set dest!: endpoint_transition(1))
qed

lemma calm_poll_ack: "calm m (snd (poll_ack env now cid m))"
proof (cases rule: poll_ack_cases [of env now cid m])
  case snooze
  then show ?thesis
    by (simp add: calm_def view_defs wf_tables_def fun_eq_iff bt_wf_insert bt_wf_remove)
qed (auto intro: calm_push calm_cancel)

lemma calm_poll_acks:
  assumes "poll_acks env now m = Some (out, m')"
  shows "calm m m'"
proof -
  have "calm m (snd r)" if "poll_acks_loop env now out0 m = Some r" for r out0 m
    using that
  proof (rule poll_acks_loop.raw_induct [of "\<lambda>env now out0 m r. calm m (snd r)", rotated])
    fix loop env now out0 m r
    assume step: "\<And>env now out0 m r. loop env now out0 m = Some r \<Longrightarrow> calm m (snd r)"
      and run: "(case find (\<lambda>(_, deadline). deadline \<le> now) (sm_pending_acks m) of
        None \<Rightarrow> Some (out0, m)
      | Some entry \<Rightarrow> loop env now (out0 @ fst (poll_ack env now (fst entry) m)) (snd (poll_ack env now (fst entry) m)))
        = Some r"
    show "calm m (snd r)"
    proof (cases "find (\<lambda>(_, deadline). deadline \<le> now) (sm_pending_acks m)")
      case (Some entry)
      with run have "calm (snd (poll_ack env now (fst entry) m)) (snd r)" by (intro step) simp
      with calm_poll_ack show ?thesis by (rule calm_trans)
    qed (use run in auto)
  qed
  from this [of "[]"] assms show ?thesis by (auto simp: poll_acks_def)
qed

lemma calm_outbound_packets: "calm m n \<Longrightarrow> calm m (n\<lparr>sm_outbound_packets := t\<rparr>)"
  by (simp add: calm_def view_defs wf_tables_def fun_eq_iff)

lemma calm_poll_retransmit: "calm m (snd (poll_retransmit now rto cid seq (out, m)))"
proof -
  have "calm m (case bt_get (sm_connections (m\<lparr>sm_outbound_packets := t\<rparr>)) cid of
      None \<Rightarrow> m\<lparr>sm_outbound_packets := t\<rparr>
    | Some c \<Rightarrow> set_connection cid (c\<lparr>sn_send_window := mark_retransmitted seq now (sn_send_window c)\<rparr>)
        (m\<lparr>sm_outbound_packets := t\<rparr>))" for t
    by (auto split: option.split intro: calm_outbound_packets calm_set)
  then show ?thesis
    unfolding poll_retransmit_def Let_def
    by (auto split: option.split intro!: calm_outbound_packets calm_push)
qed

lemma calm_fold:
  assumes "\<And>x out m. calm m (snd (f x (out, m)))"
  shows "calm m (snd (fold f xs (out, m)))"
proof (induction xs arbitrary: out m)
  case (Cons x xs)
  then show ?case using assms [of m x out] by (metis calm_trans fold_simps(2) prod.collapse)
qed simp

lemma calm_poll_retransmits: "calm m (snd (poll_retransmits now m))"
proof -
  have "calm m (snd (poll_connection now cid (out, m)))" for cid out m
    unfolding poll_connection_def by (auto split: option.split intro: calm_fold calm_poll_retransmit)
  then show ?thesis unfolding poll_retransmits_def by (rule calm_fold)
qed

lemma calm_tables_ok:
  assumes "calm m m'" "tables_ok m"
  shows "tables_ok m'"
proof -
  have "stream_table d m' = stream_table d m" for d
    using assms(1) by (cases d) (simp_all add: calm_def stream_table_def)
  then show ?thesis using assms by (simp add: calm_def tables_ok_def)
qed

lemma calm_accounted: "calm m m' \<Longrightarrow> accounted m \<Longrightarrow> accounted m'"
  by (simp add: calm_def accounted_def)

subsection \<open>Delivered bytes\<close>

lemma held_append: "held_bytes (q @ r) cid = held_bytes q cid + held_bytes r cid"
  by (simp add: held_bytes_def)

lemma held_le: "held_bytes q cid \<le> (\<Sum>d\<leftarrow>q. length (da_bytes d))"
  by (induction q) (auto simp: held_bytes_def)

lemma push_delivered_accounted:
  assumes acc: "accounted m" and fits: "pending_delivered_bytes (push_delivered cid bs m) < usize_limit"
  shows "accounted (push_delivered cid bs m)"
proof -
  have queue: "sm_pending_delivered (push_delivered cid bs m) =
      sm_pending_delivered m @ [\<lparr>da_connection_id = cid, da_bytes = bs\<rparr>]"
    by (simp add: push_delivered_def note_delivered_bytes_def Let_def)
  have "held_bytes (sm_pending_delivered m) cid + length bs < usize_limit"
    using fits held_le [of "sm_pending_delivered m" cid] by (simp add: pending_delivered_bytes_def queue)
  then have sat: "saturating_add (held_bytes (sm_pending_delivered m) cid) (length bs)
      = held_bytes (sm_pending_delivered m) cid + length bs"
    by (simp add: saturating_add_def)
  have "held_bytes (sm_pending_delivered (push_delivered cid bs m)) j =
      held_bytes (sm_pending_delivered m) j + (if j = cid then length bs else 0)" for j
    by (simp add: queue held_append) (simp add: held_bytes_def)
  moreover have "bt_get (sm_pending_bytes_by_connection m) j =
      (if held_bytes (sm_pending_delivered m) j = 0 then None else Some (held_bytes (sm_pending_delivered m) j))" for j
    using acc by (simp add: accounted_def Let_def)
  ultimately show ?thesis
    unfolding accounted_def Let_def
    by (auto simp: push_delivered_def note_delivered_bytes_def bt_get_insert sat)
qed

lemma forget_get:
  "bt_wf (sm_pending_bytes_by_connection m) \<Longrightarrow>
     bt_get (sm_pending_bytes_by_connection (forget_delivered_bytes cid n m)) j =
       (case bt_get (sm_pending_bytes_by_connection m) j of
          None \<Rightarrow> None
        | Some held \<Rightarrow> if j = cid \<and> n \<noteq> 0 then (if held - n = 0 then None else Some (held - n)) else Some held)"
  by (auto simp: forget_delivered_bytes_def bt_get_insert bt_get_remove split: option.splits)

lemma forget_frame:
  "sm_pending_delivered (forget_delivered_bytes cid n m) = sm_pending_delivered m"
  "endpoints (forget_delivered_bytes cid n m) = endpoints m"
  "sm_outbound_by_stream (forget_delivered_bytes cid n m) = sm_outbound_by_stream m"
  "sm_inbound_by_stream (forget_delivered_bytes cid n m) = sm_inbound_by_stream m"
  "sm_next_connection_id (forget_delivered_bytes cid n m) = sm_next_connection_id m"
  "wf_tables m \<Longrightarrow> wf_tables (forget_delivered_bytes cid n m)"
  by (auto simp: forget_delivered_bytes_def view_defs wf_tables_def fun_eq_iff bt_wf_insert bt_wf_remove split: option.split)

definition held_entry :: "nat \<Rightarrow> nat option" where
  "held_entry n = (if n = 0 then None else Some n)"

lemma accounted_entry:
  "accounted m \<longleftrightarrow> (\<forall>cid. bt_get (sm_pending_bytes_by_connection m) cid =
     held_entry (held_bytes (sm_pending_delivered m) cid))"
  by (simp add: accounted_def held_entry_def Let_def)

definition forget_all :: "DeliveredApplicationBytes list \<Rightarrow> StreamingManager \<Rightarrow> StreamingManager" where
  "forget_all = fold (\<lambda>d. forget_delivered_bytes (da_connection_id d) (length (da_bytes d)))"

lemma forget_all_get:
  "wf_tables m \<Longrightarrow> (\<And>j. bt_get (sm_pending_bytes_by_connection m) j = held_entry (held_bytes queue j + rest j)) \<Longrightarrow>
     bt_get (sm_pending_bytes_by_connection (forget_all queue m)) j = held_entry (rest j)"
proof (induction queue arbitrary: m)
  case Nil
  then show ?case by (simp add: forget_all_def held_bytes_def)
next
  case (Cons d queue)
  let ?m = "forget_delivered_bytes (da_connection_id d) (length (da_bytes d)) m"
  have wf: "bt_wf (sm_pending_bytes_by_connection m)" using Cons.prems(1) by (simp add: wf_tables_def)
  have "bt_get (sm_pending_bytes_by_connection ?m) i = held_entry (held_bytes queue i + rest i)" for i
  proof -
    have "held_bytes (d # queue) i = (if da_connection_id d = i then length (da_bytes d) else 0) + held_bytes queue i"
      by (simp add: held_bytes_def)
    with Cons.prems(2) [of i] have "bt_get (sm_pending_bytes_by_connection m) i =
        held_entry ((if da_connection_id d = i then length (da_bytes d) else 0) + (held_bytes queue i + rest i))"
      by (simp add: add.assoc)
    then show ?thesis by (simp add: forget_get [OF wf] held_entry_def)
  qed
  with Cons.prems(1) have "bt_get (sm_pending_bytes_by_connection (forget_all queue ?m)) j = held_entry (rest j)"
    by (intro Cons.IH) (simp_all add: forget_frame)
  then show ?case by (simp add: forget_all_def)
qed

lemma forget_all_frame:
  "sm_pending_delivered (forget_all queue m) = sm_pending_delivered m"
  "endpoints (forget_all queue m) = endpoints m"
  "sm_outbound_by_stream (forget_all queue m) = sm_outbound_by_stream m"
  "sm_inbound_by_stream (forget_all queue m) = sm_inbound_by_stream m"
  "sm_next_connection_id (forget_all queue m) = sm_next_connection_id m"
  "wf_tables m \<Longrightarrow> wf_tables (forget_all queue m)"
  by (induction queue arbitrary: m) (auto simp: forget_all_def forget_frame)

lemma drain_delivered_forget: "drain_delivered m = (sm_pending_delivered m, forget_all (sm_pending_delivered m) (m\<lparr>sm_pending_delivered := []\<rparr>))"
  by (simp add: drain_delivered_def forget_all_def Let_def)

lemma drain_for_forget:
  "drain_delivered_for cid m =
     (filter (\<lambda>d. da_connection_id d = cid) (sm_pending_delivered m),
      forget_all (filter (\<lambda>d. da_connection_id d = cid) (sm_pending_delivered m))
        (m\<lparr>sm_pending_delivered := filter (\<lambda>d. da_connection_id d \<noteq> cid) (sm_pending_delivered m)\<rparr>))"
  unfolding drain_delivered_for_def forget_all_def Let_def by (auto intro!: fold_cong)

lemma held_filter:
  "held_bytes (filter (\<lambda>d. da_connection_id d = cid) q) j + held_bytes (filter (\<lambda>d. da_connection_id d \<noteq> cid) q) j = held_bytes q j"
  by (induction q) (auto simp: held_bytes_def)

text \<open>Operations that keep the routing tables and the well-formedness of the maps.\<close>

definition same_routing :: "StreamingManager \<Rightarrow> StreamingManager \<Rightarrow> bool" where
  "same_routing m m' \<longleftrightarrow>
     endpoints m' = endpoints m \<and> sm_outbound_by_stream m' = sm_outbound_by_stream m
     \<and> sm_inbound_by_stream m' = sm_inbound_by_stream m \<and> sm_next_connection_id m' = sm_next_connection_id m
     \<and> (wf_tables m \<longrightarrow> wf_tables m')"

lemma calm_same: "calm m m' \<Longrightarrow> same_routing m m'"
  by (simp add: calm_def same_routing_def)

lemma same_tables_ok:
  assumes "same_routing m m'" "tables_ok m"
  shows "tables_ok m'"
proof -
  have "stream_table d m' = stream_table d m" for d
    using assms(1) by (cases d) (simp_all add: same_routing_def stream_table_def)
  then show ?thesis using assms by (simp add: same_routing_def tables_ok_def)
qed

lemma same_push: "same_routing m n \<Longrightarrow> same_routing m (push_delivered cid bs n)"
  by (simp add: same_routing_def push_delivered_def note_delivered_bytes_def Let_def view_defs wf_tables_def
      fun_eq_iff bt_wf_insert)

lemma same_drain: "same_routing m (snd (drain_delivered m))" "same_routing m (snd (drain_delivered_for cid m))"
proof -
  have "wf_tables (m\<lparr>sm_pending_delivered := q\<rparr>) = wf_tables m" "endpoints (m\<lparr>sm_pending_delivered := q\<rparr>) = endpoints m" for q
    by (simp_all add: view_defs wf_tables_def fun_eq_iff)
  then show "same_routing m (snd (drain_delivered m))" "same_routing m (snd (drain_delivered_for cid m))"
    by (simp_all add: drain_delivered_forget drain_for_forget same_routing_def forget_all_frame)
qed

lemma drain_accounted:
  assumes "wf_tables m" "accounted m"
  shows "accounted (snd (drain_delivered m))" "accounted (snd (drain_delivered_for cid m))"
proof -
  have wf: "wf_tables (m\<lparr>sm_pending_delivered := q\<rparr>)" for q
    using assms(1) by (simp add: wf_tables_def)
  have "bt_get (sm_pending_bytes_by_connection (forget_all (sm_pending_delivered m) (m\<lparr>sm_pending_delivered := []\<rparr>))) j
      = held_entry ((\<lambda>_. 0) j)" for j
    by (rule forget_all_get [OF wf]) (use assms(2) in \<open>simp add: accounted_entry\<close>)
  then show "accounted (snd (drain_delivered m))"
    by (simp add: accounted_entry drain_delivered_forget forget_all_frame held_bytes_def)
  let ?keep = "filter (\<lambda>d. da_connection_id d \<noteq> cid) (sm_pending_delivered m)"
  have "bt_get (sm_pending_bytes_by_connection (forget_all (filter (\<lambda>d. da_connection_id d = cid) (sm_pending_delivered m))
      (m\<lparr>sm_pending_delivered := ?keep\<rparr>))) j = held_entry (held_bytes ?keep j)" for j
    by (rule forget_all_get [OF wf]) (use assms(2) in \<open>simp add: accounted_entry held_filter\<close>)
  then show "accounted (snd (drain_delivered_for cid m))"
    by (simp add: accounted_entry drain_for_forget forget_all_frame)
qed

subsection \<open>Packets and acceptance\<close>

text \<open>A data packet is a calm step, then at most one delivery.\<close>

definition calm_then :: "ConnectionId \<Rightarrow> StreamingManager \<Rightarrow> StreamingManager \<Rightarrow> bool" where
  "calm_then cid m r \<longleftrightarrow> (\<exists>m'. calm m m' \<and> (r = m' \<or> (\<exists>bs. r = push_delivered cid bs m')))"

lemma calm_then_received:
  "calm m m' \<Longrightarrow>
     calm_then cid m
       (case received of Some (Delivered _ delivered, _) \<Rightarrow> push_delivered cid (f delivered) m' | _ \<Rightarrow> m')"
  by (auto simp: calm_then_def split: option.split RecvWindowDecision.split)

lemma calm_if: "calm m a \<Longrightarrow> calm m b \<Longrightarrow> calm m (if P then a else b)"
  by simp

lemma commit_data_calm_then:
  assumes "bt_get (sm_connections m) cid = Some c"
  shows "calm_then cid m (commit_data_packet env packet cid now c m)"
proof -
  have cond: "endpoint (if P then a else b) = endpoint c" if "endpoint a = endpoint c" "endpoint b = endpoint c" for P a b
    using that by simp
  have opt: "endpoint (case received of None \<Rightarrow> b | Some _ \<Rightarrow> a) = endpoint c"
    if "endpoint a = endpoint c" "endpoint b = endpoint c" for a b and received :: "'x option"
    using that by (cases received) simp_all
  show ?thesis
    unfolding commit_data_packet_def Let_def
    by (intro calm_then_received calm_if calm_acknowledge_data calm_schedule calm_cancel calm_acknowledge_tracked
        calm_refl calm_set [OF _ assms] opt cond) (simp_all add: cond)
qed

lemma handle_data_calm_then: "calm_then cid m (snd (handle_data_packet env packet loc wire cid now m))"
proof -
  have refl: "calm_then cid m m" by (auto simp: calm_then_def)
  then show ?thesis
    unfolding handle_data_packet_def Let_def by (simp add: commit_data_calm_then split: option.split sum.split)
qed

lemma track_push_delivered:
  "track_packet cid p (push_delivered j bs m) = push_delivered j bs (track_packet cid p m)"
  by (simp add: track_packet_def push_delivered_def note_delivered_bytes_def Let_def)

lemma calm_syn_payloads: "calm m n \<Longrightarrow> calm m (n\<lparr>sm_pending_syn_payloads := t\<rparr>)"
  by (simp add: calm_def view_defs wf_tables_def fun_eq_iff)

lemma accept_inbound_calm_then: "calm_then cid m (snd (accept_inbound_syn env local remote cid lp rp mx now m))"
proof (cases "bt_get (sm_connections m) cid")
  case (Some c)
  let ?c = "c\<lparr>sn_local_advertised_max_payload := mx\<rparr>"
  have set: "calm m (set_connection cid c' m)" if "transition_established x now ?c = (r, c')" for x r c'
    using calm_refl Some by (rule calm_set) (use endpoint_transition(1) [OF that] in simp)
  have refl: "calm_then cid m m" by (auto simp: calm_then_def)
  have fail: "calm_then cid m (set_connection cid c' m)" if "transition_established x now ?c = (r, c')" for x r c'
    using set [OF that] by (auto simp: calm_then_def)
  have "calm_then cid m (track_packet cid p (case bt_get (sm_pending_syn_payloads (set_connection cid c' m)) cid of
        None \<Rightarrow> set_connection cid c' m
      | Some bs \<Rightarrow> push_delivered cid bs ((set_connection cid c' m)\<lparr>sm_pending_syn_payloads := t\<rparr>)))"
    if "transition_established x now ?c = (r, c')" for x r c' p t
    using set [OF that]
    by (auto simp: calm_then_def track_push_delivered split: option.split intro!: calm_track calm_syn_payloads)
  then show ?thesis
    unfolding accept_inbound_syn_def Let_def
    using refl fail by (auto simp: Some split: sum.split prod.split)
qed (auto simp: accept_inbound_syn_def calm_then_def)

lemma calm_then_same: "calm_then cid m m' \<Longrightarrow> same_routing m m'"
  by (auto simp: calm_then_def intro: calm_same same_push)

lemma calm_then_accounted:
  "calm_then cid m m' \<Longrightarrow> accounted m \<Longrightarrow> pending_delivered_bytes m' < usize_limit \<Longrightarrow> accounted m'"
  by (auto simp: calm_then_def intro: calm_accounted push_delivered_accounted)

subsection \<open>Creating and removing connections\<close>

text \<open>A connection enters the table of its direction under a fresh number and a fresh stream identifier.\<close>

definition register :: "StreamDirection \<Rightarrow> StreamingConnection \<Rightarrow> StreamingManager \<Rightarrow> StreamingManager" where
  "register d c m =
     (let m = set_connection (sn_id c) c m in
      case d of
        OutboundStream \<Rightarrow> m\<lparr>sm_outbound_by_stream := bt_insert (sn_local_stream_id c) (sn_id c) (sm_outbound_by_stream m)\<rparr>
      | InboundStream \<Rightarrow> m\<lparr>sm_inbound_by_stream := bt_insert (sn_local_stream_id c) (sn_id c) (sm_inbound_by_stream m)\<rparr>)"

lemma register_get:
  "bt_get (stream_table e (register d c m)) sid =
     (if e = d \<and> sid = sn_local_stream_id c then Some (sn_id c) else bt_get (stream_table e m) sid)"
  by (cases d; cases e) (simp_all add: register_def stream_table_def set_connection_def bt_get_insert)

lemma register_endpoints:
  "endpoints (register d c m) cid = (if cid = sn_id c then Some (endpoint c) else endpoints m cid)"
  by (cases d) (simp_all add: register_def endpoints_def set_connection_def bt_get_insert)

lemma register_next: "sm_next_connection_id (register d c m) = sm_next_connection_id m"
  by (cases d) (simp_all add: register_def set_connection_def)

lemma sat_succ_less: "n \<noteq> - 1 \<Longrightarrow> k < word_sat_add n 1 \<longleftrightarrow> k \<le> n" for n k :: u64
proof -
  assume "n \<noteq> - 1"
  moreover have "unat (- 1 :: u64) = 18446744073709551615" by (simp add: unat_minus_one_word_len)
  moreover have "unat n \<le> 18446744073709551615" using unat_u64_lt [of n] by linarith
  ultimately have "unat n < 18446744073709551615" by (metis le_neq_implies_less word_unat_eq_iff)
  then show ?thesis by (simp add: word_less_nat_alt word_le_nat_alt unat_word_sat_add less_Suc_eq_le)
qed

lemma register_tables_ok:
  assumes ok: "tables_ok m" and fresh: "\<And>e. bt_get (stream_table e m) (sn_local_stream_id c) = None"
    and number: "sn_id c = ConnectionId (sm_next_connection_id m)" and room: "sm_next_connection_id m \<noteq> - 1"
    and direction: "sn_direction c = d"
  shows "tables_ok ((register d c m)\<lparr>sm_next_connection_id := word_sat_add (sm_next_connection_id m) 1\<rparr>)"
    (is "tables_ok ?m")
proof -
  have table: "stream_table e ?m = stream_table e (register d c m)" for e
    by (cases e) (simp_all add: stream_table_def)
  have "endpoints ?m cid = endpoints (register d c m) cid" for cid
    by (simp add: endpoints_def)
  then have ends: "endpoints ?m cid = (if cid = sn_id c then Some (sn_id c, d, sn_local_stream_id c) else endpoints m cid)" for cid
    using direction by (simp add: register_endpoints endpoint_def)
  have new: "endpoints m (sn_id c) = None"
    using tables_okD(3) [OF ok] number by (cases "endpoints m (sn_id c)") auto
  have unused: "snd (snd e) \<noteq> sn_local_stream_id c" if "endpoints m cid = Some e" for cid e
    using tables_okD(2) [OF ok that] tables_okD(1) [OF ok, of "fst (snd e)" "snd (snd e)" cid] that fresh [of "fst (snd e)"]
    by (cases e) auto
  show ?thesis
  proof (rule tables_okI)
    show "bt_get (stream_table e ?m) sid = Some cid \<longleftrightarrow> endpoints ?m cid = Some (cid, e, sid)" for e sid cid
      unfolding table register_get ends
      using tables_okD(1) [OF ok, of e sid cid] new unused [of cid] fresh [of e] by auto
    show "fst e = cid" if "endpoints ?m cid = Some e" for cid e
      using that tables_okD(2) [OF ok, of cid e] by (auto simp: ends split: if_splits)
    show "k < sm_next_connection_id ?m" if "endpoints ?m (ConnectionId k) = Some e" for k e
      using that tables_okD(3) [OF ok, of k e] number by (auto simp: ends sat_succ_less [OF room] split: if_splits)
    show "cid = cid'" if "endpoints ?m cid = Some e" "endpoints ?m cid' = Some e'" "snd (snd e) = snd (snd e')" for cid cid' e e'
      using that tables_okD(4) [OF ok, of cid e cid' e'] unused [of cid e] unused [of cid' e']
      by (auto simp: ends split: if_splits)
  qed
qed

lemma remove_tables_ok:
  assumes ok: "tables_ok m" and wf: "wf_tables m"
  shows "tables_ok (snd (remove_connection cid m))" (is "tables_ok ?m")
proof -
  have ends: "endpoints ?m j = (if j = cid then None else endpoints m j)" for j
    using wf by (auto simp: remove_connection_def Let_def endpoints_def wf_tables_def bt_get_remove
        split: option.split StreamDirection.split)
  have table: "bt_get (stream_table d ?m) sid =
      (if endpoints m cid = Some (cid, d, sid) then None else bt_get (stream_table d m) sid)" for d sid
  proof (cases "bt_get (sm_connections m) cid")
    case None
    then show ?thesis by (cases d) (simp_all add: remove_connection_def Let_def endpoints_def stream_table_def)
  next
    case (Some c)
    then have "sn_id c = cid" using tables_okD(2) [OF ok, of cid "endpoint c"] by (simp add: endpoints_def endpoint_def)
    then show ?thesis
      using Some wf by (cases d; cases "sn_direction c")
        (auto simp: remove_connection_def Let_def endpoints_def endpoint_def stream_table_def wf_tables_def bt_get_remove)
  qed
  have next': "sm_next_connection_id ?m = sm_next_connection_id m"
    by (simp add: remove_connection_def Let_def split: option.split StreamDirection.split)
  show ?thesis
  proof (rule tables_okI)
    show "bt_get (stream_table e ?m) sid = Some j \<longleftrightarrow> endpoints ?m j = Some (j, e, sid)" for e sid j
      unfolding table ends using tables_okD(1) [OF ok, of e sid j] tables_okD(1) [OF ok, of e sid cid] by auto
  qed (auto simp: ends next' split: if_splits dest: tables_okD(2-4) [OF ok])
qed

lemma remove_accounted:
  assumes acc: "accounted m" and wf: "wf_tables m"
  shows "accounted (snd (remove_connection cid m))" (is "accounted ?m")
proof -
  have "sm_pending_bytes_by_connection ?m = bt_remove cid (sm_pending_bytes_by_connection m)"
    "sm_pending_delivered ?m = filter (\<lambda>d. da_connection_id d \<noteq> cid) (sm_pending_delivered m)"
    by (simp_all add: remove_connection_def Let_def split: option.split StreamDirection.split)
  moreover have "held_bytes (filter (\<lambda>d. da_connection_id d \<noteq> cid) q) j = (if j = cid then 0 else held_bytes q j)" for q j
    by (auto simp: held_bytes_def intro!: arg_cong [where f = sum_list] arg_cong [where f = "map _"] filter_cong)
  ultimately show ?thesis
    using acc wf by (simp add: accounted_entry bt_get_remove wf_tables_def held_entry_def)
qed

lemma remove_wf: "wf_tables m \<Longrightarrow> wf_tables (snd (remove_connection cid m))"
  by (simp add: remove_connection_def Let_def wf_tables_def bt_wf_remove split: option.split StreamDirection.split)

text \<open>What a refused SYN or a failed connect leaves: only the counters moved.\<close>

definition bumped :: "StreamingManager \<Rightarrow> StreamingManager" where
  "bumped m = m\<lparr>sm_next_connection_id := word_sat_add (sm_next_connection_id m) 1\<rparr>"

definition registered :: "StreamDirection \<Rightarrow> StreamingConnection \<Rightarrow> StreamingManager \<Rightarrow> StreamingManager" where
  "registered d c m = (register d c m)\<lparr>sm_next_connection_id := word_sat_add (sm_next_connection_id m) 1\<rparr>"

lemma bumped_inv:
  assumes "tables_ok m"
  shows "tables_ok (bumped m)"
proof -
  have table: "stream_table d (bumped m) = stream_table d m" for d
    by (cases d) (simp_all add: bumped_def stream_table_def)
  have ends: "endpoints (bumped m) = endpoints m" by (simp add: bumped_def endpoints_def fun_eq_iff)
  have "unat (sm_next_connection_id m) \<le> 18446744073709551615"
    using unat_u64_lt [of "sm_next_connection_id m"] by linarith
  then have "sm_next_connection_id m \<le> sm_next_connection_id (bumped m)"
    by (simp add: bumped_def word_le_nat_alt unat_word_sat_add min_def)
  note grows = this
  show ?thesis
  proof (rule tables_okI; unfold table ends)
    show "k < sm_next_connection_id (bumped m)" if "endpoints m (ConnectionId k) = Some e" for k e
      using tables_okD(3) [OF assms that] grows by (rule less_le_trans)
  qed (fact tables_okD [OF assms])+
qed

definition creates :: "StreamingManager \<Rightarrow> StreamingManager \<Rightarrow> bool" where
  "creates m m' \<longleftrightarrow> m' = m \<or> calm (bumped m) m'
     \<or> (\<exists>d c. calm (registered d c m) m' \<and> sn_id c = ConnectionId (sm_next_connection_id m) \<and> sn_direction c = d
          \<and> (\<forall>e. bt_get (stream_table e m) (sn_local_stream_id c) = None))"

lemma unused_tables: "\<not> stream_id_used m sid \<Longrightarrow> bt_get (stream_table e m) sid = None"
  by (cases e) (auto simp: stream_id_used_def bt_contains_def stream_table_def)

lemma registered_creates:
  assumes alloc: "allocate_inbound_stream_id (bumped m) = Some (sid, n)"
    and c: "sn_id c = ConnectionId (sm_next_connection_id m)" "sn_local_stream_id c = sid" "sn_direction c = d"
    and m': "calm (register d c n) m'"
  shows "creates m m'"
proof -
  note f = allocate_fresh [OF alloc]
  have "calm (registered d c m) (register d c n)"
    using f unfolding registered_def register_def bumped_def
    by (cases d) (simp_all add: calm_def set_connection_def view_defs wf_tables_def fun_eq_iff)
  then have "calm (registered d c m) m'" using m' by (rule calm_trans)
  moreover have "\<not> stream_id_used m sid" using f by (simp add: stream_id_used_def bumped_def)
  then have "bt_get (stream_table e m) (sn_local_stream_id c) = None" for e
    using c(2) by (simp add: unused_tables)
  ultimately show ?thesis using c unfolding creates_def by blast
qed

lemma allocate_bumped: "allocate_inbound_stream_id (bumped m) = Some (sid, n) \<Longrightarrow> calm (bumped m) n"
  using allocate_fresh by (fastforce simp: calm_def view_defs wf_tables_def fun_eq_iff)

lemma connect_creates:
  assumes run: "connect_with_initial_payload env local remote lp rp mx payload now m = Some (r, m')"
  shows "creates m m'"
proof (cases "length (sm_connections m) \<ge> unat (sc_max_streams_per_destination (sm_config m)) \<or> length payload > unat mx")
  case True
  with run have "m' = m" by (auto simp: connect_with_initial_payload_def split: if_splits)
  then show ?thesis by (simp add: creates_def)
next
  case False
  let ?cid = "ConnectionId (sm_next_connection_id m)"
  note run = run [unfolded connect_with_initial_payload_def Let_def, folded bumped_def]
  obtain sid n where alloc: "allocate_inbound_stream_id (bumped m) = Some (sid, n)"
    using run False by (cases "allocate_inbound_stream_id (bumped m)") (auto simp: not_le)
  show ?thesis
  proof (cases "build_syn_packet env local remote sid lp rp mx payload")
    case (Inl e)
    with run False alloc have "m' = n" by (auto simp: not_le)
    with allocate_bumped [OF alloc] show ?thesis by (simp add: creates_def)
  next
    case (Inr request)
    let ?c = "(new_outbound ?cid (sm_config n) sid 0 (rd_signing_public_key remote) (rd_destination_hash remote)
        lp rp now)\<lparr>sn_local_advertised_max_payload := mx\<rparr>"
    have "m' = push_request request ((register OutboundStream ?c n)\<lparr>sm_outbound_packets := bt_insert ?cid [] (sm_outbound_packets n)\<rparr>)"
      using run False alloc Inr
      by (auto simp: not_le register_def set_connection_def new_outbound_def connection_new_def)
    then have "calm (register OutboundStream ?c n) m'"
      by (auto intro: calm_push calm_outbound_packets)
    then show ?thesis
      using alloc by (intro registered_creates [of m sid n ?c]) (simp_all add: new_outbound_def connection_new_def)
  qed
qed

lemma drop_registered:
  assumes alloc: "allocate_inbound_stream_id (bumped m) = Some (sid, n)" and ok: "tables_ok m" and wf: "wf_tables m"
    and c: "sn_id c = ConnectionId (sm_next_connection_id m)" "sn_local_stream_id c = sid"
  shows "calm (bumped m) (drop_inbound (sn_id c) sid ((register InboundStream c n)\<lparr>sm_outbound_packets := p\<rparr>))"
    (is "calm _ ?n")
proof -
  note f = allocate_fresh [OF alloc]
  have "endpoints m (sn_id c) = None"
    using tables_okD(3) [OF ok] c(1) by (cases "endpoints m (sn_id c)") auto
  then have "bt_get (sm_connections m) (sn_id c) = None" by (simp add: endpoints_def)
  moreover have "bt_get (sm_inbound_by_stream m) sid = None"
    using f by (auto simp: stream_id_used_def bumped_def bt_contains_def)
  ultimately have "sm_connections ?n = sm_connections m" "sm_inbound_by_stream ?n = sm_inbound_by_stream m"
    using f wf c(2)
    by (simp_all add: drop_inbound_def register_def set_connection_def bumped_def wf_tables_def bt_remove_insert)
  then show ?thesis
    using f by (simp add: calm_def drop_inbound_def register_def set_connection_def bumped_def view_defs
        wf_tables_def fun_eq_iff)
qed

lemma syn_creates:
  assumes run: "handle_inbound_syn env packet loc wire fh to sp dp now m = Some (r, m')"
    and ok: "tables_ok m" and wf: "wf_tables m"
  shows "creates m m'"
proof (cases "check_inbound_syn env packet loc wire to")
  case (Inl e)
  with run show ?thesis by (simp add: handle_inbound_syn_def creates_def)
next
  case (Inr destination)
  let ?cid = "ConnectionId (sm_next_connection_id m)"
  note run = run [unfolded handle_inbound_syn_def Let_def, folded bumped_def]
  obtain sid n where alloc: "allocate_inbound_stream_id (bumped m) = Some (sid, n)"
    using run Inr by (cases "allocate_inbound_stream_id (bumped m)") auto
  let ?c = "inbound_connection ?cid (sm_config n) sid packet destination fh sp dp now"
  let ?n = "(register InboundStream ?c n)\<lparr>sm_outbound_packets := bt_insert ?cid [] (sm_outbound_packets n)\<rparr>"
  have c: "sn_id ?c = ?cid" "sn_local_stream_id ?c = sid" "sn_direction ?c = InboundStream"
    by (simp_all add: inbound_connection_def new_inbound_def connection_new_def)
  have n: "(set_connection ?cid ?c n)\<lparr>sm_inbound_by_stream := bt_insert sid ?cid (sm_inbound_by_stream (set_connection ?cid ?c n)),
      sm_outbound_packets := bt_insert ?cid [] (sm_outbound_packets (set_connection ?cid ?c n))\<rparr> = ?n"
    by (simp add: register_def set_connection_def c)
  have drop: "creates m (drop_inbound ?cid sid ?n)"
    using drop_registered [OF alloc ok wf c(1,2)] by (simp add: creates_def c)
  show ?thesis
  proof (cases "select_listener dp ?n")
    case None
    with run Inr alloc drop show ?thesis by (simp add: n)
  next
    case (Some entry)
    obtain port queue where entry: "entry = (port, queue)" by (cases entry)
    show ?thesis
    proof (cases "length queue \<ge> unat (sc_max_listener_backlog (sm_config ?n))")
      case True
      with run Inr alloc drop Some entry show ?thesis by (simp add: n)
    next
      case False
      have "calm (register InboundStream ?c n) m'"
        using run Inr alloc Some entry False
        by (auto simp: n split: if_splits intro!: calm_syn_payloads calm_trans [OF calm_outbound_packets calm_listeners])
      then show ?thesis by (rule registered_creates [OF alloc c])
    qed
  qed
qed

lemma creates_inv:
  assumes creates: "creates m m'" and ok: "tables_ok m" and wf: "wf_tables m" and acc: "accounted m"
    and room: "sm_next_connection_id m \<noteq> - 1"
  shows "wf_tables m' \<and> tables_ok m' \<and> accounted m'"
  using creates unfolding creates_def
proof (elim disjE exE conjE)
  assume "calm (bumped m) m'"
  moreover have "wf_tables (bumped m)" "accounted (bumped m)"
    using wf acc by (simp_all add: bumped_def wf_tables_def accounted_def)
  ultimately show ?thesis
    using bumped_inv [OF ok] calm_tables_ok calm_accounted by (auto simp: calm_def)
next
  fix d c
  assume calm: "calm (registered d c m) m'" and c: "sn_id c = ConnectionId (sm_next_connection_id m)" "sn_direction c = d"
    "\<forall>e. bt_get (stream_table e m) (sn_local_stream_id c) = None"
  have "tables_ok (registered d c m)"
    unfolding registered_def using ok c room by (intro register_tables_ok) auto
  moreover have "wf_tables (registered d c m)" "accounted (registered d c m)"
    using wf acc by (cases d; simp add: registered_def register_def set_connection_def wf_tables_def accounted_def bt_wf_insert)+
  ultimately show ?thesis
    using calm calm_tables_ok calm_accounted by (auto simp: calm_def)
qed (use assms in simp)

subsection \<open>Runs\<close>

text \<open>One call of an operation of the manager that returned. The identity, the peer, the ports, the
payload and the time are the caller's.\<close>

inductive manager_step :: "StreamEnv \<Rightarrow> StreamingManager \<Rightarrow> StreamingManager \<Rightarrow> bool" for env where
  Listen: "manager_step env m (snd (listen port m))"
| Connect: "connect_with_initial_payload env local_dest remote local_port remote_port advertised payload now m = Some (r, m')
    \<Longrightarrow> manager_step env m m'"
| Process: "process_inbound_packet env wire from_hash to_destination source_port destination_port now m = Returns (r, m')
    \<Longrightarrow> manager_step env m m'"
| Accept: "manager_step env m (snd (accept port m))"
| Accept_Syn: "manager_step env m (snd (accept_inbound_syn env local_dest remote cid local_port remote_port advertised now m))"
| Send_Data: "manager_step env m (snd (send_data env cid remote local_port remote_port payload now m))"
| Send_Close: "manager_step env m (snd (send_close env cid local_dest remote local_port remote_port now m))"
| Send_Reset: "manager_step env m (snd (send_reset env cid local_dest remote local_port remote_port now m))"
| Poll_Acks: "poll_acks env now m = Some (out, m') \<Longrightarrow> manager_step env m m'"
| Poll_Retransmits: "manager_step env m (snd (poll_retransmits now m))"
| Queue_Outbound: "manager_step env m (push_request request m)"
| Drain_Outbound: "manager_step env m (snd (drain_outbound m))"
| Drain_Delivered: "manager_step env m (snd (drain_delivered m))"
| Drain_Delivered_For: "manager_step env m (snd (drain_delivered_for cid m))"
| Remove: "manager_step env m (snd (remove_connection cid m))"

text \<open>
  A run of a manager: the queue of delivered bytes fits the address space, and the connection counter
  has not saturated.
\<close>

inductive manager_run :: "StreamEnv \<Rightarrow> StreamingConfig \<Rightarrow> StreamingManager \<Rightarrow> bool" for env config where
  Start: "manager_run env config (manager_new config)"
| Step: "manager_run env config m \<Longrightarrow> manager_step env m m' \<Longrightarrow> pending_delivered_bytes m' < usize_limit
    \<Longrightarrow> sm_next_connection_id m' \<noteq> - 1 \<Longrightarrow> manager_run env config m'"

definition manager_inv :: "StreamingManager \<Rightarrow> bool" where
  "manager_inv m \<longleftrightarrow> wf_tables m \<and> tables_ok m \<and> accounted m"

lemma manager_inv_calm: "manager_inv m \<Longrightarrow> calm m m' \<Longrightarrow> manager_inv m'"
  unfolding manager_inv_def using calm_tables_ok calm_accounted by (auto simp: calm_def)

lemma manager_inv_calm_then:
  "manager_inv m \<Longrightarrow> calm_then cid m m' \<Longrightarrow> pending_delivered_bytes m' < usize_limit \<Longrightarrow> manager_inv m'"
  unfolding manager_inv_def
  using calm_then_same [of cid m m'] same_tables_ok [of m m'] calm_then_accounted [of cid m m']
  by (auto simp: same_routing_def)

lemma process_inv:
  assumes run: "process_inbound_packet env wire fh to sp dp now m = Returns (r, m')" and inv: "manager_inv m"
    and fits: "pending_delivered_bytes m' < usize_limit" and room: "sm_next_connection_id m \<noteq> - 1"
  shows "manager_inv m'"
proof -
  have "m' = m \<or> (\<exists>packet loc. handle_inbound_syn env packet loc wire fh to sp dp now m = Some (r, m'))
    \<or> (\<exists>packet loc. handle_inbound_syn_response env packet loc wire fh now m = (r, m'))
    \<or> (\<exists>packet loc cid. handle_data_packet env packet loc wire cid now m = (r, m'))"
    using run unfolding process_inbound_packet_def Let_def
    by (auto split: sum.splits if_splits option.splits)
  then show ?thesis
  proof (elim disjE exE)
    fix packet loc
    assume "handle_inbound_syn env packet loc wire fh to sp dp now m = Some (r, m')"
    then show ?thesis
      using inv creates_inv [OF syn_creates] room by (simp add: manager_inv_def)
  next
    fix packet loc
    assume "handle_inbound_syn_response env packet loc wire fh now m = (r, m')"
    then show ?thesis
      using inv calm_syn_response [of m env packet loc wire fh now] by (auto intro: manager_inv_calm)
  next
    fix packet loc cid
    assume "handle_data_packet env packet loc wire cid now m = (r, m')"
    then show ?thesis
      using inv handle_data_calm_then [of cid m env packet loc wire now] fits by (auto intro: manager_inv_calm_then)
  qed (use inv in simp)
qed

lemma manager_step_inv:
  assumes "manager_step env m m'" "manager_inv m" "pending_delivered_bytes m' < usize_limit"
    and "sm_next_connection_id m \<noteq> - 1"
  shows "manager_inv m'"
  using assms
proof (induction rule: manager_step.induct)
  case (Connect local_dest remote local_port remote_port advertised payload now m r m')
  then show ?case using creates_inv [OF connect_creates] by (simp add: manager_inv_def)
next
  case (Process wire from_hash to_destination source_port destination_port now m r m')
  then show ?case using process_inv by blast
next
  case (Accept_Syn m)
  then show ?case using accept_inbound_calm_then manager_inv_calm_then by blast
next
  case (Drain_Delivered m)
  then show ?case
    using drain_accounted same_drain(1) [of m] same_tables_ok [of m] by (auto simp: manager_inv_def same_routing_def)
next
  case (Drain_Delivered_For m cid)
  then show ?case
    using drain_accounted same_drain(2) [of m cid] same_tables_ok [of m] by (auto simp: manager_inv_def same_routing_def)
next
  case (Remove m cid)
  then show ?case using remove_tables_ok remove_accounted remove_wf by (simp add: manager_inv_def)
qed (auto intro: manager_inv_calm calm_listen calm_accept calm_send_data calm_send_close calm_send_reset
    calm_poll_acks calm_poll_retransmits calm_drain_outbound calm_push)

lemma manager_new_inv: "manager_inv (manager_new config)"
proof -
  have "stream_table d (manager_new config) = []" for d
    by (cases d) (simp_all add: stream_table_def manager_new_def)
  then show ?thesis
    by (auto simp: manager_inv_def tables_ok_def endpoints_def accounted_def held_bytes_def wf_tables_def manager_new_def)
qed

lemma manager_run_inv: "manager_run env config m \<Longrightarrow> manager_inv m \<and> sm_next_connection_id m \<noteq> - 1"
proof (induction rule: manager_run.induct)
  case Start
  then show ?case using manager_new_inv by (simp add: manager_new_def)
next
  case (Step m m')
  then show ?case using manager_step_inv by blast
qed

text \<open>A connection that a stream table names exists, so the \<open>expect\<close> of the router is not reached.\<close>

lemma routed_exists:
  assumes "tables_ok m" "bt_get (stream_table d m) sid = Some cid"
  shows "\<exists>c. bt_get (sm_connections m) cid = Some c \<and> sn_local_stream_id c = sid \<and> sn_direction c = d"
  using tables_okD(1) [OF assms(1), of d sid cid] assms(2) by (auto simp: endpoints_def endpoint_def)

lemma process_no_panic:
  assumes "tables_ok m"
  shows "process_inbound_packet env wire fh to sp dp now m \<noteq> Panics"
proof -
  have "\<exists>c. bt_get (sm_connections m) cid = Some c"
    if "bt_get (sm_inbound_by_stream m) sid = Some cid \<or> bt_get (sm_outbound_by_stream m) sid = Some cid" for sid cid
    using that routed_exists [OF assms, of InboundStream sid cid] routed_exists [OF assms, of OutboundStream sid cid]
    by (auto simp: stream_table_def)
  note exists = this
  show ?thesis
  proof
    assume "process_inbound_packet env wire fh to sp dp now m = Panics"
    then obtain sid cid where "bt_get (sm_inbound_by_stream m) sid = Some cid \<or> bt_get (sm_outbound_by_stream m) sid = Some cid"
        "bt_get (sm_connections m) cid = None"
      unfolding process_inbound_packet_def Let_def by (auto split: sum.splits option.splits if_splits)
    with exists show False by fastforce
  qed
qed

end
