(* ===== verification/Stream_Packet_Laws.thy ===== *)
theory Stream_Packet_Laws
  imports Stream_Packet
begin

section \<open>Streaming packets: the wire form, and the signature preimage\<close>

text \<open>
  \<open>header_wire\<close> and \<open>builder_wire\<close> are the bytes of a packet. The encoder writes exactly them, the
  decoder accepts exactly them, and the option region decodes to the fields it was encoded from.
  \<open>preimage_of_installed\<close> is what makes signatures work: zeroing the signature of a packet gives
  back the bytes that were signed.
\<close>

definition header_wire :: "PacketHeader \<Rightarrow> bytes" where
  "header_wire h =
     be_encode 4 (unat (ph_send_stream_id h)) @ be_encode 4 (unat (ph_receive_stream_id h))
     @ be_encode 4 (unat (ph_sequence_num h)) @ be_encode 4 (unat (ph_ack_through h))
     @ [of_nat (length (ph_nacks h))] @ concat (map (\<lambda>n. be_encode 4 (unat n)) (ph_nacks h))
     @ [ph_resend_delay h] @ be_encode 2 (unat (ph_flags h)) @ be_encode 2 (ph_option_size h)"

definition header_ok :: "StreamingLimit \<Rightarrow> PacketHeader \<Rightarrow> bool" where
  "header_ok limit h \<longleftrightarrow>
     length (ph_nacks h) \<le> sl_max_nack_count limit \<and> length (ph_nacks h) < 256
     \<and> ph_flags h AND FLAG_RESERVED_MASK = 0
     \<and> ph_option_size h \<le> sl_max_option_bytes limit \<and> ph_option_size h < 65536"

lemma length_concat_be4: "length (concat (map (\<lambda>n. be_encode 4 (unat n)) ns)) = 4 * length ns"
  by (induction ns) simp_all

lemma length_header_wire: "length (header_wire h) = 22 + 4 * length (ph_nacks h)"
  by (simp add: header_wire_def length_concat_be4)

lemma decodes_header:
  assumes "header_ok limit h"
  shows "decodes (read_packet_header limit) (header_wire h) h"
proof -
  have n: "unat (of_nat (length (ph_nacks h)) :: u8) = length (ph_nacks h)"
    using assms by (intro unat_of_nat_u8) (simp add: header_ok_def)
  have o: "unat (of_nat (ph_option_size h) :: u16) = ph_option_size h"
    using assms by (intro unat_of_nat_u16) (simp add: header_ok_def)
  have size: "be_encode 2 (ph_option_size h) = be_encode 2 (unat (of_nat (ph_option_size h) :: u16))"
    by (simp add: o)
  have nacks: "decodes (repeatS (unat (of_nat (length (ph_nacks h)) :: u8)) (map_errS packet_error_from read_u32))
      (concat (map (\<lambda>n. be_encode 4 (unat n)) (ph_nacks h))) (ph_nacks h)"
    unfolding n by (intro decodes_repeat decodes_map_err decodes_u32) simp
  have tail: "decodes (retS \<lparr>ph_send_stream_id = ph_send_stream_id h, ph_receive_stream_id = ph_receive_stream_id h,
      ph_sequence_num = ph_sequence_num h, ph_ack_through = ph_ack_through h, ph_nacks = ph_nacks h,
      ph_resend_delay = ph_resend_delay h, ph_flags = ph_flags h,
      ph_option_size = unat (of_nat (ph_option_size h) :: u16)\<rparr> :: (DecodeCursor, StreamingPacketError, PacketHeader) rsm) [] h"
    unfolding o by (cases h) (simp add: decodes_ret)
  show ?thesis
    unfolding read_packet_header_def header_wire_def size
    apply (rule decodes_bind [OF decodes_map_err [OF decodes_u32]])
    apply (rule decodes_bind [OF decodes_map_err [OF decodes_u32]])
    apply (rule decodes_bind [OF decodes_map_err [OF decodes_u32]])
    apply (rule decodes_bind [OF decodes_map_err [OF decodes_u32]])
    apply (rule decodes_bind [OF decodes_map_err [OF decodes_u8]])
    apply (subst if_not_P)
     apply (use assms n in \<open>simp add: header_ok_def\<close>)
    apply (rule decodes_bind [OF nacks])
    apply (rule decodes_bind [OF decodes_map_err [OF decodes_u8]])
    apply (rule decodes_bind [OF decodes_map_err [OF decodes_u16]])
    apply (rule decodes_bind_lift [where v = "ph_flags h"])
     apply (use assms in \<open>simp add: flags_new_def header_ok_def\<close>)
    apply (rule decodes_bind_last [OF decodes_map_err [OF decodes_u16]])
    apply (subst if_not_P)
     apply (use assms o in \<open>simp add: header_ok_def\<close>)
    by (rule tail)
qed

lemma sound_nacks: "sound (repeatS n (map_errS packet_error_from read_u32))
    (\<lambda>vs xs. xs = concat (map (\<lambda>n. be_encode 4 (unat n)) vs) \<and> length vs = n)"
proof -
  have "sound (map_errS packet_error_from read_u32) (\<lambda>v xs. xs = be_encode 4 (unat v) \<and> True)"
    using sound_map_err [OF sound_u32] by simp
  from sound_repeat [OF this] show ?thesis by (rule sound_mono) simp
qed

lemma sound_header: "sound (read_packet_header limit) (\<lambda>h xs. xs = header_wire h \<and> header_ok limit h)"
  unfolding read_packet_header_def
  apply (rule sound_bind [OF sound_map_err [OF sound_u32]])
  apply (rule sound_bind [OF sound_map_err [OF sound_u32]])
  apply (rule sound_bind [OF sound_map_err [OF sound_u32]])
  apply (rule sound_bind [OF sound_map_err [OF sound_u32]])
  apply (rule sound_bind [OF sound_map_err [OF sound_u8]])
  apply (rule sound_if [OF sound_fail])
  apply (rule sound_bind [OF sound_nacks])
  apply (rule sound_bind [OF sound_map_err [OF sound_u8]])
  apply (rule sound_bind [OF sound_map_err [OF sound_u16]])
  apply (rule sound_bind_lift)
  apply (rule sound_bind [OF sound_map_err [OF sound_u16]])
  apply (rule sound_if [OF sound_fail])
  apply (rule sound_ret)
  apply (auto simp: header_wire_def header_ok_def flags_new_def split: if_splits)
  done

subsection \<open>The encoder\<close>

definition builder_header :: "StreamingPacketBuilder \<Rightarrow> PacketHeader" where
  "builder_header b =
     \<lparr>ph_send_stream_id = sb_send_stream_id b, ph_receive_stream_id = sb_receive_stream_id b,
      ph_sequence_num = sb_sequence_num b, ph_ack_through = sb_ack_through b, ph_nacks = sb_nacks b,
      ph_resend_delay = sb_resend_delay b, ph_flags = sb_flags b,
      ph_option_size = length (sb_option_bytes b)\<rparr>"

definition builder_wire :: "StreamingPacketBuilder \<Rightarrow> bytes" where
  "builder_wire b = header_wire (builder_header b) @ sb_option_bytes b @ sb_payload b"

definition limit_ok :: "StreamingLimit \<Rightarrow> bool" where
  "limit_ok limit \<longleftrightarrow> sl_max_nack_count limit < 256 \<and> sl_max_option_bytes limit < 65536
     \<and> sl_max_packet_bytes limit < usize_limit"

definition builder_fits :: "StreamingLimit \<Rightarrow> StreamingPacketBuilder \<Rightarrow> bool" where
  "builder_fits limit b \<longleftrightarrow>
     length (sb_nacks b) \<le> sl_max_nack_count limit
     \<and> length (sb_option_bytes b) \<le> sl_max_option_bytes limit
     \<and> length (sb_payload b) \<le> sl_max_payload_bytes limit
     \<and> 22 + 4 * length (sb_nacks b) + length (sb_option_bytes b) + length (sb_payload b)
         \<le> sl_max_packet_bytes limit"

lemma default_limit_ok: "limit_ok default_limit" "limit_ok destination_path_limit"
  by (simp_all add: limit_ok_def default_limit_def destination_path_limit_def packet_limits usize_limit_def)

lemma length_builder_wire:
  "length (builder_wire b) = 22 + 4 * length (sb_nacks b) + length (sb_option_bytes b) + length (sb_payload b)"
  by (simp add: builder_wire_def length_header_wire builder_header_def)

lemma writes_length_word:
  "n < bound \<Longrightarrow> writes (f n) xs \<Longrightarrow> writes (bindS (length_word n bound context) f) xs"
  by (simp add: writes_def length_word_def bindS_def)

lemma writes_packet:
  assumes "length (sb_nacks b) < 256" "length (sb_option_bytes b) < 65536"
  shows "writes
     (seqS (write_u32 (sb_send_stream_id b))
     (seqS (write_u32 (sb_receive_stream_id b))
     (seqS (write_u32 (sb_sequence_num b))
     (seqS (write_u32 (sb_ack_through b))
     (seqS (bindS (length_word (length (sb_nacks b)) 256 ''nack count conversion'') (\<lambda>n. write_u8 (of_nat n)))
     (seqS (eachS write_u32 (sb_nacks b))
     (seqS (write_u8 (sb_resend_delay b))
     (seqS (write_u16 (sb_flags b))
     (seqS (bindS (length_word (length (sb_option_bytes b)) 65536 ''option bytes conversion'')
             (\<lambda>n. write_u16 (of_nat n)))
           (write_raw (sb_option_bytes b)))))))))))
     (header_wire (builder_header b) @ sb_option_bytes b)"
proof -
  have size: "be_encode 2 (length (sb_option_bytes b)) = be_encode 2 (unat (of_nat (length (sb_option_bytes b)) :: u16))"
    using assms(2) by (simp add: unat_of_nat_u16)
  show ?thesis
    unfolding header_wire_def builder_header_def PacketHeader.simps size append_assoc
    by (intro writes_seq writes_u32 writes_u8 writes_u16 writes_raw writes_each
        writes_length_word [OF assms(1)] writes_length_word [OF assms(2)])
qed

lemma encode_packet_iff:
  assumes "limit_ok limit"
  shows "encode_streaming_packet b limit = Inr bs \<longleftrightarrow> builder_fits limit b \<and> bs = builder_wire b"
proof (cases "builder_fits limit b")
  case False
  then show ?thesis
    by (auto simp: encode_streaming_packet_def builder_fits_def MIN_STREAMING_HEADER_BYTES_def
        checked_add_def bindR_eq_Inr ok_or_eq_Inr split: if_splits option.splits)
next
  case True
  let ?h = "header_wire (builder_header b) @ sb_option_bytes b"
  let ?m = "sl_max_packet_bytes limit"
  have small: "length (sb_nacks b) < 256" "length (sb_option_bytes b) < 65536" "?m < usize_limit"
    using True assms by (auto simp: builder_fits_def limit_ok_def)
  have len: "length ?h \<le> ?m"
    using True by (simp add: builder_fits_def length_header_wire builder_header_def)
  let ?b = "\<lparr>eb_output = [], eb_start_len = 0, eb_maximum = ?m\<rparr>"
  note run = writesD_fits [OF writes_packet [OF small(1,2)], of ?b]
  have sums: "22 + length (sb_nacks b) * 4 < usize_limit"
    "22 + length (sb_nacks b) * 4 + length (sb_option_bytes b) < usize_limit"
    "22 + length (sb_nacks b) * 4 + length (sb_option_bytes b) + length (sb_payload b) < usize_limit"
    "\<not> 22 + length (sb_nacks b) * 4 + length (sb_option_bytes b) + length (sb_payload b) > ?m"
    using True small(3) by (auto simp: builder_fits_def)
  have "encode_streaming_packet b limit = Inr (?h @ sb_payload b)"
    using True run len small(3) sums unfolding builder_fits_def
    by (simp add: encode_streaming_packet_def MIN_STREAMING_HEADER_BYTES_def encode_to_vec_def buffer_new_def)
  with True show ?thesis by (auto simp: builder_wire_def)
qed

subsection \<open>The decoder\<close>

definition packet_of :: "PacketHeader \<Rightarrow> bytes \<Rightarrow> bytes \<Rightarrow> StreamingOptions \<Rightarrow> StreamingPacket" where
  "packet_of h option_bytes payload options =
     \<lparr>sp_send_stream_id = ph_send_stream_id h, sp_receive_stream_id = ph_receive_stream_id h,
      sp_sequence_num = ph_sequence_num h, sp_ack_through = ph_ack_through h,
      sp_nacks = ph_nacks h, sp_resend_delay = ph_resend_delay h, sp_flags = ph_flags h,
      sp_option_bytes = option_bytes, sp_options = options, sp_payload = payload\<rparr>"

lemma decode_packet_wire:
  assumes "limit_ok limit" "header_ok limit h" "ph_option_size h = length option_bytes"
    and "length (header_wire h @ option_bytes @ payload) \<le> sl_max_packet_bytes limit"
    and "length payload \<le> sl_max_payload_bytes limit"
  shows "decode_streaming_packet (header_wire h @ option_bytes @ payload) limit key =
    bindR (parse_options (ph_flags h) option_bytes (length (header_wire h)) key) (\<lambda>(options, location).
      Inr (packet_of h option_bytes payload options, location))"
proof -
  let ?bs = "header_wire h @ option_bytes @ payload"
  have small: "length ?bs < usize_limit" using assms(1,4) by (simp add: limit_ok_def)
  have "read_packet_header limit \<lparr>dc_input = ?bs, dc_offset = 0\<rparr> =
      (Inr h, \<lparr>dc_input = ?bs, dc_offset = length (header_wire h)\<rparr>)"
    using decodesD [OF decodes_header [OF assms(2)], of "[]" "option_bytes @ payload"] small by simp
  with assms small show ?thesis
    by (simp add: decode_streaming_packet_def cursor_new_def length_header_wire packet_limits packet_of_def
        not_less)
qed

lemma decode_packet_canonical:
  assumes "limit_ok limit" "decode_streaming_packet bs limit key = Inr (p, location)"
  obtains h where "header_ok limit h" "ph_option_size h = length (sp_option_bytes p)"
    "bs = header_wire h @ sp_option_bytes p @ sp_payload p"
    "p = packet_of h (sp_option_bytes p) (sp_payload p) (sp_options p)"
    "parse_options (ph_flags h) (sp_option_bytes p) (length (header_wire h)) key = Inr (sp_options p, location)"
    "length bs \<le> sl_max_packet_bytes limit" "length (sp_payload p) \<le> sl_max_payload_bytes limit"
proof -
  let ?c = "\<lparr>dc_input = bs, dc_offset = 0\<rparr>"
  obtain h c' where run: "read_packet_header limit ?c = (Inr h, c')"
    and max: "length bs \<le> sl_max_packet_bytes limit"
    and tail: "dc_offset c' + ph_option_size h \<le> length bs"
      "length (drop (dc_offset c' + ph_option_size h) bs) \<le> sl_max_payload_bytes limit"
      "parse_options (ph_flags h) (take (ph_option_size h) (drop (dc_offset c') bs)) (dc_offset c') key
         = Inr (sp_options p, location)"
      "p = packet_of h (take (ph_option_size h) (drop (dc_offset c') bs)) (drop (dc_offset c' + ph_option_size h) bs) (sp_options p)"
    using assms(2)
    by (auto simp: decode_streaming_packet_def cursor_new_def bindR_eq_Inr ok_or_eq_Inr checked_add_eq_Some
        packet_of_def Let_def not_less split: if_splits prod.splits)
  have bounds: "in_bounds ?c" using max assms(1) by (simp add: in_bounds_def limit_ok_def)
  from sound_header [of limit, unfolded sound_def, rule_format, OF bounds run]
  have h: "dc_offset c' = length (header_wire h)" "take (length (header_wire h)) bs = header_wire h" "header_ok limit h"
    by auto
  let ?o = "take (ph_option_size h) (drop (length (header_wire h)) bs)"
  let ?y = "drop (length (header_wire h) + ph_option_size h) bs"
  have p: "sp_option_bytes p = ?o" "sp_payload p = ?y"
    using tail(4) unfolding h(1) by (simp_all add: packet_of_def) (metis StreamingPacket.select_convs(8,10))+
  have bs: "bs = header_wire h @ ?o @ ?y"
    using h(2) by (metis append_take_drop_id drop_drop add.commute)
  show thesis
  proof (rule that)
    show "header_ok limit h" by (rule h(3))
    show "ph_option_size h = length (sp_option_bytes p)" using tail(1) unfolding p h(1) by simp
    show "bs = header_wire h @ sp_option_bytes p @ sp_payload p" unfolding p by (rule bs)
    show "p = packet_of h (sp_option_bytes p) (sp_payload p) (sp_options p)" using tail(4) unfolding p h(1) .
    show "parse_options (ph_flags h) (sp_option_bytes p) (length (header_wire h)) key = Inr (sp_options p, location)"
      using tail(3) unfolding p h(1) .
    show "length bs \<le> sl_max_packet_bytes limit" by (rule max)
    show "length (sp_payload p) \<le> sl_max_payload_bytes limit" using tail(2) unfolding p h(1) .
  qed
qed

subsection \<open>The option region\<close>

text \<open>The fields in front of the signature, and the options that a packet with these flags carries.\<close>

definition options_prefix :: "StreamingFlags \<Rightarrow> StreamingOptions \<Rightarrow> bytes" where
  "options_prefix flags options =
     (if has_flag flags FLAG_DELAY_REQUESTED then be_encode 2 (unat (the (so_delay_requested options))) else [])
     @ (if has_flag flags FLAG_FROM_INCLUDED then destination_wire (the (so_from_destination options)) else [])
     @ (if has_flag flags FLAG_MAX_PACKET_SIZE_INCLUDED then be_encode 2 (unat (the (so_max_payload_size options))) else [])"

definition options_match :: "StreamingFlags \<Rightarrow> StreamingOptions \<Rightarrow> bool" where
  "options_match flags options \<longleftrightarrow>
     (so_delay_requested options \<noteq> None \<longleftrightarrow> has_flag flags FLAG_DELAY_REQUESTED)
     \<and> (so_from_destination options \<noteq> None \<longleftrightarrow> has_flag flags FLAG_FROM_INCLUDED)
     \<and> (so_max_payload_size options \<noteq> None \<longleftrightarrow> has_flag flags FLAG_MAX_PACKET_SIZE_INCLUDED)
     \<and> \<not> has_flag flags FLAG_OFFLINE_SIGNATURE
     \<and> (\<forall>d. so_from_destination options = Some d \<longrightarrow> destination_ok d)"

lemma destination_codec:
  assumes "destination_ok d" "length (destination_wire d) \<le> MAX_COMMON_STRUCTURE_SIZE"
  shows "destination_encode_to_vec d MAX_COMMON_STRUCTURE_SIZE = Inr (destination_wire d)"
    and "destination_len d = Inr (length (destination_wire d))"
    and "length (destination_wire d @ rest) \<le> MAX_COMMON_STRUCTURE_SIZE \<Longrightarrow>
      destination_decode_from_cursor (destination_wire d @ rest) MAX_COMMON_STRUCTURE_SIZE = Inr d"
proof -
  have max: "MAX_COMMON_STRUCTURE_SIZE < usize_limit" by (simp add: MAX_COMMON_STRUCTURE_SIZE_def usize_limit_def)
  show enc: "destination_encode_to_vec d MAX_COMMON_STRUCTURE_SIZE = Inr (destination_wire d)"
    unfolding destination_encode_to_vec_def by (rule destination.encode_wire [OF assms max])
  then show "destination_len d = Inr (length (destination_wire d))" by (simp add: destination_len_def)
  assume len: "length (destination_wire d @ rest) \<le> MAX_COMMON_STRUCTURE_SIZE"
  with max have "length (destination_wire d @ rest) < usize_limit" by linarith
  with decodesD [OF destination.decodes_wire [OF assms(1)], of "[]" rest]
  have "destination_decode_from \<lparr>dc_input = destination_wire d @ rest, dc_offset = 0\<rparr> =
      (Inr d, \<lparr>dc_input = destination_wire d @ rest, dc_offset = length (destination_wire d)\<rparr>)" by simp
  with len show "destination_decode_from_cursor (destination_wire d @ rest) MAX_COMMON_STRUCTURE_SIZE = Inr d"
    by (simp add: destination_decode_from_cursor_def cursor_new_def)
qed

lemma parse_u16_wire:
  assumes "length (pre @ be_encode 2 (unat w) @ rest) < usize_limit"
  shows "parse_u16_field True (pre @ be_encode 2 (unat w) @ rest) (length pre) = Inr (Some (w :: u16), length pre + 2)"
  using assms by (simp add: parse_u16_field_def field_at_def be_decode_encode)

lemma parse_from_wire:
  assumes "destination_ok d" "length (pre @ destination_wire d @ rest) \<le> MAX_COMMON_STRUCTURE_SIZE"
  shows "parse_from_field True (pre @ destination_wire d @ rest) (length pre)
    = Inr (Some d, length pre + length (destination_wire d))"
proof -
  have "length (destination_wire d) \<le> MAX_COMMON_STRUCTURE_SIZE"
    "length (destination_wire d @ rest) \<le> MAX_COMMON_STRUCTURE_SIZE" using assms(2) by simp_all
  with destination_codec [OF assms(1)] show ?thesis by (simp add: parse_from_field_def)
qed

text \<open>
  Parsing an option region that was laid out from \<open>options\<close>, with \<open>signature\<close> in the last field:
  every field comes back, and the location points at the signature.
\<close>

lemma parse_options_wire:
  assumes match: "options_match flags options"
    and sig: "has_flag flags FLAG_SIGNATURE_INCLUDED \<Longrightarrow>
      expected_signature_len (so_from_destination options) key = Inr (length signature)"
    and len: "length (options_prefix flags options @ signature) \<le> MAX_STREAMING_OPTION_BYTES"
    and flag: "has_flag flags FLAG_SIGNATURE_INCLUDED \<or> signature = []"
  shows "parse_options flags (options_prefix flags options @ signature) start key =
    Inr (options\<lparr>so_signature := if has_flag flags FLAG_SIGNATURE_INCLUDED then Some signature else None\<rparr>,
         if has_flag flags FLAG_SIGNATURE_INCLUDED
         then Some \<lparr>loc_offset = start + length (options_prefix flags options), loc_length = length signature\<rparr>
         else None)"
proof -
  let ?delay = "if has_flag flags FLAG_DELAY_REQUESTED then be_encode 2 (unat (the (so_delay_requested options))) else []"
  let ?from = "if has_flag flags FLAG_FROM_INCLUDED then destination_wire (the (so_from_destination options)) else []"
  let ?max = "if has_flag flags FLAG_MAX_PACKET_SIZE_INCLUDED then be_encode 2 (unat (the (so_max_payload_size options))) else []"
  let ?ob = "options_prefix flags options @ signature"
  have ob: "?ob = ?delay @ ?from @ ?max @ signature" by (simp add: options_prefix_def)
  have limit: "MAX_STREAMING_OPTION_BYTES \<le> MAX_COMMON_STRUCTURE_SIZE" "MAX_STREAMING_OPTION_BYTES < usize_limit"
    by (simp_all add: packet_limits MAX_COMMON_STRUCTURE_SIZE_def usize_limit_def)
  have small: "length ?ob < usize_limit" "length ?ob \<le> MAX_COMMON_STRUCTURE_SIZE" using len limit by simp_all
  have delay: "parse_u16_field (has_flag flags FLAG_DELAY_REQUESTED) ?ob 0 = Inr (so_delay_requested options, length ?delay)"
  proof (cases "has_flag flags FLAG_DELAY_REQUESTED")
    case True
    with match obtain w where "so_delay_requested options = Some w" by (auto simp: options_match_def)
    with True parse_u16_wire [of "[]" w "?from @ ?max @ signature"] small(1) show ?thesis by (simp add: ob)
  qed (use match in \<open>auto simp: parse_u16_field_def options_match_def\<close>)
  have from_f: "parse_from_field (has_flag flags FLAG_FROM_INCLUDED) ?ob (length ?delay)
      = Inr (so_from_destination options, length (?delay @ ?from))"
  proof (cases "has_flag flags FLAG_FROM_INCLUDED")
    case True
    with match obtain d where "so_from_destination options = Some d" "destination_ok d" by (auto simp: options_match_def)
    with True parse_from_wire [of d ?delay "?max @ signature"] small(2) show ?thesis by (simp add: ob)
  qed (use match in \<open>auto simp: parse_from_field_def options_match_def\<close>)
  have max_f: "parse_u16_field (has_flag flags FLAG_MAX_PACKET_SIZE_INCLUDED) ?ob (length (?delay @ ?from))
      = Inr (so_max_payload_size options, length (options_prefix flags options))"
  proof (cases "has_flag flags FLAG_MAX_PACKET_SIZE_INCLUDED")
    case True
    with match obtain w where "so_max_payload_size options = Some w" by (auto simp: options_match_def)
    with True parse_u16_wire [of "?delay @ ?from" w signature] small(1) show ?thesis
      by (simp add: ob) (simp add: options_prefix_def)
  qed (use match in \<open>auto simp: parse_u16_field_def options_match_def options_prefix_def\<close>)
  have sig_f: "parse_signature_field (has_flag flags FLAG_SIGNATURE_INCLUDED) (so_from_destination options) key ?ob start
        (length (options_prefix flags options)) =
      Inr (if has_flag flags FLAG_SIGNATURE_INCLUDED then Some signature else None,
           if has_flag flags FLAG_SIGNATURE_INCLUDED
           then Some \<lparr>loc_offset = start + length (options_prefix flags options), loc_length = length signature\<rparr> else None,
           length ?ob)"
    using sig flag small(1) by (auto simp: parse_signature_field_def field_at_def)
  have "\<not> has_flag flags FLAG_OFFLINE_SIGNATURE" using match by (simp add: options_match_def)
  then show ?thesis
    unfolding parse_options_def delay bindR_simps prod.case from_f max_f if_not_P sig_f
    by (cases options) simp
qed

lemma encode_placeholder_iff:
  assumes "options_match flags options" "so_signature options = None"
    and "\<forall>d. so_from_destination options = Some d \<longrightarrow> length (destination_wire d) \<le> MAX_COMMON_STRUCTURE_SIZE"
  shows "encode_with_placeholder options flags n =
    (let out = options_prefix flags options @ (if has_flag flags FLAG_SIGNATURE_INCLUDED then replicate n 0 else [])
     in if length out > MAX_STREAMING_OPTION_BYTES then Inl (OptionOverflow (length out) MAX_STREAMING_OPTION_BYTES)
        else Inr out)"
proof -
  have from_bytes: "(if has_flag flags FLAG_FROM_INCLUDED
      then bindR (ok_or (so_from_destination options) SynMissingFrom) (\<lambda>destination.
             map_sum packet_error_from id (destination_encode_to_vec destination MAX_COMMON_STRUCTURE_SIZE))
      else Inr []) = Inr (if has_flag flags FLAG_FROM_INCLUDED then destination_wire (the (so_from_destination options)) else [])"
  proof (cases "has_flag flags FLAG_FROM_INCLUDED")
    case True
    with assms(1) obtain d where d: "so_from_destination options = Some d" "destination_ok d" by (auto simp: options_match_def)
    with assms(3) destination_codec(1) [of d] True show ?thesis by simp
  qed simp
  show ?thesis
    using assms(1,2) unfolding encode_with_placeholder_def from_bytes
    by (auto simp: options_match_def options_prefix_def Let_def)
qed

subsection \<open>Signatures\<close>

text \<open>A packet with \<open>sig\<close> in the signature field, or zeros there.\<close>

lemma install_signature:
  assumes "sig \<noteq> []" "length pre + length sig < usize_limit"
  shows "install_packet_signature_at (pre @ replicate (length sig) 0 @ suf)
      \<lparr>loc_offset = length pre, loc_length = length sig\<rparr> sig = Inr (length pre, pre @ sig @ suf)"
  using assms by (simp add: install_packet_signature_at_def list_all_iff)

lemma install_at_the_end:
  assumes "sig \<noteq> []" "length sig \<le> length wire" "length wire < usize_limit"
  shows "install_packet_signature wire sig =
    install_packet_signature_at wire \<lparr>loc_offset = length wire - length sig, loc_length = length sig\<rparr> sig"
  using assms
  by (simp add: install_packet_signature_def install_packet_signature_at_def checked_add_def Let_def)

lemma preimage_of_installed:
  assumes "length pre + length sig < usize_limit"
  shows "build_signature_preimage (pre @ sig @ suf) (Some \<lparr>loc_offset = length pre, loc_length = length sig\<rparr>)
    = pre @ replicate (length sig) 0 @ suf"
  using assms by (simp add: build_signature_preimage_def map_replicate_const)

end
