(* ===== verification/Stream_Handshake.thy ===== *)
theory Stream_Handshake
  imports Stream_Machine Stream_Packet_Laws
begin

section \<open>The streaming handshake\<close>

text \<open>
  Two managers and the two packets between them. \<open>env_ok\<close> and \<open>identity_ok\<close> say what is used of the
  compressor and of Ed25519: decompression inverts compression, a compressed packet is at most 64
  bytes longer, and a signature made with the seed of an identity has 64 bytes and verifies under the
  key in its destination.
\<close>

definition env_ok :: "StreamEnv \<Rightarrow> (bytes \<Rightarrow> bytes list \<times> string option \<times> nat) \<Rightarrow> bool" where
  "env_ok env inflate \<longleftrightarrow> inflates (env_deflate env) inflate
     \<and> (\<forall>bs. length bs \<le> MAX_STREAMING_PACKET_BYTES \<longrightarrow> length (env_deflate env bs) \<le> length bs + 64)
     \<and> (\<forall>bs. length (env_sha256 env bs) = 32)"

definition identity_ok :: "StreamEnv \<Rightarrow> DestinationIdentity \<Rightarrow> bool" where
  "identity_ok env identity \<longleftrightarrow>
     (let d = di_destination identity in
      destination_ok d \<and> length (destination_wire d) \<le> 900
      \<and> sk_key_type (destination_signing_key d) = EdDsaSha512Ed25519
      \<and> length (sk_bytes (destination_signing_key d)) = 32
      \<and> (\<forall>message. length (env_ed25519_sign env (di_signing_seed identity) message) = 64
           \<and> env_ed25519_verify env (sk_bytes (destination_signing_key d)) message
               (env_ed25519_sign env (di_signing_seed identity) message)))"

lemma identity_okD:
  assumes "identity_ok env identity"
  shows "destination_ok (di_destination identity)" "length (destination_wire (di_destination identity)) \<le> 900"
    "sk_key_type (destination_signing_key (di_destination identity)) = EdDsaSha512Ed25519"
    "length (sk_bytes (destination_signing_key (di_destination identity))) = 32"
    "length (env_ed25519_sign env (di_signing_seed identity) message) = 64"
    "env_ed25519_verify env (sk_bytes (destination_signing_key (di_destination identity))) message
       (env_ed25519_sign env (di_signing_seed identity) message)"
  using assms by (simp_all add: identity_ok_def Let_def)

subsection \<open>Signed packets\<close>

text \<open>The two shapes of signed packet the manager builds: with SYN options, and with none.\<close>

definition options_of :: "DestinationIdentity \<Rightarrow> StreamingFlags \<Rightarrow> StreamingOptions \<Rightarrow> bool" where
  "options_of identity flags options \<longleftrightarrow>
     options_match flags options \<and> so_signature options = None \<and> so_delay_requested options = None
     \<and> so_from_destination options \<in> {None, Some (di_destination identity)}
     \<and> has_flag flags FLAG_SIGNATURE_INCLUDED \<and> flags AND FLAG_RESERVED_MASK = 0"

definition signed_header :: "u32 \<Rightarrow> u32 \<Rightarrow> u32 \<Rightarrow> u32 \<Rightarrow> u32 list \<Rightarrow> StreamingFlags \<Rightarrow> StreamingOptions \<Rightarrow> PacketHeader" where
  "signed_header send_id receive_id sequence ack nacks flags options =
     \<lparr>ph_send_stream_id = send_id, ph_receive_stream_id = receive_id, ph_sequence_num = sequence,
      ph_ack_through = ack, ph_nacks = nacks, ph_resend_delay = 0, ph_flags = flags,
      ph_option_size = length (options_prefix flags options) + 64\<rparr>"

definition signed_wire :: "PacketHeader \<Rightarrow> bytes \<Rightarrow> bytes \<Rightarrow> bytes \<Rightarrow> bytes" where
  "signed_wire h prefix signature payload = header_wire h @ (prefix @ signature) @ payload"

lemma options_prefix_le:
  assumes "identity_ok env identity" "options_of identity flags options"
  shows "length (options_prefix flags options) \<le> 902"
proof -
  have "\<not> has_flag flags FLAG_DELAY_REQUESTED" using assms(2) by (auto simp: options_of_def options_match_def)
  moreover have "so_from_destination options = Some d \<Longrightarrow> length (destination_wire d) \<le> 900" for d
    using assms identity_okD(2) by (auto simp: options_of_def)
  ultimately show ?thesis using assms(2)
    by (auto simp: options_prefix_def options_of_def options_match_def)
qed

lemma sign_packet_wire:
  fixes env identity send_id receive_id sequence ack
  assumes id: "identity_ok env identity" and opts: "options_of identity flags options"
    and nacks: "length nacks \<le> 64" and payload: "length payload \<le> MAX_STREAMING_PAYLOAD_BYTES"
  defines "h \<equiv> signed_header send_id receive_id sequence ack nacks flags options"
    and "sig \<equiv> env_ed25519_sign env (di_signing_seed identity)
      (signed_wire (signed_header send_id receive_id sequence ack nacks flags options)
         (options_prefix flags options) (replicate 64 0) payload)"
  shows "sign_packet env identity send_id receive_id sequence ack flags options nacks payload
    = Inr (signed_wire h (options_prefix flags options) sig payload)"
proof -
  let ?p = "options_prefix flags options"
  let ?b = "\<lparr>sb_send_stream_id = send_id, sb_receive_stream_id = receive_id, sb_sequence_num = sequence,
    sb_ack_through = ack, sb_nacks = nacks, sb_resend_delay = 0, sb_flags = flags,
    sb_option_bytes = ?p @ replicate 64 0, sb_payload = payload\<rparr>"
  note I = identity_okD [OF id]
  have plen: "length ?p \<le> 902" by (rule options_prefix_le [OF id opts])
  have sig64: "length sig = 64" unfolding sig_def by (rule I(5))
  have flags: "flags_new flags = Inr flags" "has_flag flags FLAG_SIGNATURE_INCLUDED"
    using opts by (simp_all add: flags_new_def options_of_def)
  have "encode_with_placeholder options flags 64 = Inr (?p @ replicate 64 0)"
    using opts plen I(1,2)
    by (subst encode_placeholder_iff)
      (auto simp: options_of_def packet_limits MAX_COMMON_STRUCTURE_SIZE_def Let_def)
  moreover have "encode_streaming_packet ?b default_limit = Inr (signed_wire h ?p (replicate 64 0) payload)"
    using plen nacks payload
    by (subst encode_packet_iff [OF default_limit_ok(1)])
      (simp add: builder_fits_def builder_wire_def builder_header_def signed_wire_def h_def signed_header_def
        default_limit_def packet_limits)
  moreover have "install_packet_signature_at (signed_wire h ?p (replicate 64 0) payload)
      \<lparr>loc_offset = 22 + length nacks * 4 + length ?p, loc_length = 64\<rparr> sig
      = Inr (22 + length nacks * 4 + length ?p, signed_wire h ?p sig payload)"
  proof -
    have off: "length (header_wire h @ ?p) = 22 + length nacks * 4 + length ?p"
      by (simp add: length_header_wire h_def signed_header_def)
    have "length (header_wire h @ ?p) + length sig < usize_limit" "sig \<noteq> []"
      using sig64 plen nacks unfolding off by (auto simp: usize_limit_def)
    from install_signature [OF this(2,1), of payload] show ?thesis
      unfolding off sig64 by (simp add: signed_wire_def)
  qed
  moreover have "identity_sign env identity (signed_wire h ?p (replicate 64 0) payload)
      = Inr \<lparr>sv_key_type = EdDsaSha512Ed25519, sv_bytes = sig\<rparr>"
    using sig64 by (simp add: identity_sign_def signature_value_new_def sig_def h_def)
  ultimately show ?thesis
    unfolding sign_packet_def using flags I(3) nacks plen
    by (simp add: usize_limit_def checked_sub_def MIN_STREAMING_HEADER_BYTES_def)
qed

text \<open>
  Reading a signed packet back: every field returns, and zeroing the signature where the decoder
  found it gives the bytes that were signed.
\<close>

lemma decode_signed:
  assumes id: "identity_ok env identity" and opts: "options_of identity flags options"
    and nacks: "length nacks \<le> 64" and payload: "length payload \<le> MAX_STREAMING_PAYLOAD_BYTES"
    and sig: "length sig = 64" and h: "h = signed_header send_id receive_id sequence ack nacks flags options"
    and key: "so_from_destination options = None \<Longrightarrow>
      \<exists>k. key = Some k \<and> sk_key_type k = EdDsaSha512Ed25519"
  shows "decode_streaming_packet (signed_wire h (options_prefix flags options) sig payload) destination_path_limit key
      = Inr (packet_of h (options_prefix flags options @ sig) payload (options\<lparr>so_signature := Some sig\<rparr>),
             Some \<lparr>loc_offset = length (header_wire h @ options_prefix flags options), loc_length = 64\<rparr>)"
    and "build_signature_preimage (signed_wire h (options_prefix flags options) sig payload)
        (Some \<lparr>loc_offset = length (header_wire h @ options_prefix flags options), loc_length = 64\<rparr>)
      = signed_wire h (options_prefix flags options) (replicate 64 0) payload"
proof -
  let ?p = "options_prefix flags options"
  have plen: "length ?p \<le> 902" by (rule options_prefix_le [OF id opts])
  have match: "options_match flags options" and flag: "has_flag flags FLAG_SIGNATURE_INCLUDED"
    using opts by (auto simp: options_of_def)
  have "expected_signature_len (so_from_destination options) key = Inr (length sig)"
    using opts key identity_okD(3) [OF id] sig by (auto simp: expected_signature_len_def options_of_def)
  with parse_options_wire [OF match _ _ disjI1 [OF flag], of key sig "length (header_wire h)"] plen sig flag
  have "parse_options flags (?p @ sig) (length (header_wire h)) key =
      Inr (options\<lparr>so_signature := Some sig\<rparr>, Some \<lparr>loc_offset = length (header_wire h @ ?p), loc_length = 64\<rparr>)"
    by (simp add: packet_limits)
  moreover have "header_ok destination_path_limit h" "ph_option_size h = length (?p @ sig)" "ph_flags h = flags"
    using opts nacks plen sig
    by (simp_all add: header_ok_def h signed_header_def destination_path_limit_def packet_limits options_of_def)
  moreover have "length (header_wire h @ (?p @ sig) @ payload) \<le> sl_max_packet_bytes destination_path_limit"
    "length payload \<le> sl_max_payload_bytes destination_path_limit"
    using nacks plen sig payload
    by (simp_all add: length_header_wire h signed_header_def destination_path_limit_def packet_limits)
  ultimately show "decode_streaming_packet (signed_wire h ?p sig payload) destination_path_limit key
      = Inr (packet_of h (?p @ sig) payload (options\<lparr>so_signature := Some sig\<rparr>),
             Some \<lparr>loc_offset = length (header_wire h @ ?p), loc_length = 64\<rparr>)"
    unfolding signed_wire_def by (subst decode_packet_wire [OF default_limit_ok(2)]) simp_all
  have "length (header_wire h @ ?p) + length sig < usize_limit"
    using nacks plen sig by (simp add: length_header_wire h signed_header_def usize_limit_def)
  from preimage_of_installed [OF this, of payload] show
    "build_signature_preimage (signed_wire h ?p sig payload) (Some \<lparr>loc_offset = length (header_wire h @ ?p), loc_length = 64\<rparr>)
      = signed_wire h ?p (replicate 64 0) payload"
    by (simp add: signed_wire_def sig)
qed

lemma verify_own_signature:
  assumes id: "identity_ok env identity"
  shows "verify_signature env (destination_signing_key (di_destination identity)) message
    \<lparr>sv_key_type = EdDsaSha512Ed25519, sv_bytes = env_ed25519_sign env (di_signing_seed identity) message\<rparr>"
  using identity_okD [OF id] by (simp add: verify_signature_def)

text \<open>The header fields that route a packet.\<close>

lemma be_at_prefix: "length xs = n \<Longrightarrow> length ys = k \<Longrightarrow> be_at (xs @ ys @ zs) n k = be_decode ys"
  by (simp add: be_at_def)

lemma peek_header_wire:
  assumes "length (ph_nacks h) < 256"
  shows "peek_streaming_header (header_wire h @ rest) =
    Inr \<lparr>pk_send_stream_id = ph_send_stream_id h, pk_receive_stream_id = ph_receive_stream_id h,
         pk_sequence_num = ph_sequence_num h, pk_flags_bits = ph_flags h\<rparr>"
proof -
  let ?n = "length (ph_nacks h)"
  let ?s = "be_encode 4 (unat (ph_send_stream_id h))" and ?r = "be_encode 4 (unat (ph_receive_stream_id h))"
    and ?q = "be_encode 4 (unat (ph_sequence_num h))" and ?a = "be_encode 4 (unat (ph_ack_through h))"
    and ?k = "concat (map (\<lambda>n. be_encode 4 (unat n)) (ph_nacks h))"
    and ?f = "be_encode 2 (unat (ph_flags h))" and ?o = "be_encode 2 (ph_option_size h)"
  let ?w = "header_wire h @ rest"
  have n: "unat (of_nat ?n :: u8) = ?n" using assms by (rule unat_of_nat_u8)
  have w: "?w = ?s @ ?r @ ?q @ ?a @ [of_nat ?n] @ ?k @ [ph_resend_delay h] @ ?f @ ?o @ rest"
    by (simp add: header_wire_def)
  have "?w ! 16 = of_nat ?n" unfolding w by (simp add: nth_append)
  moreover have "be_at ?w 0 4 = unat (ph_send_stream_id h)"
    unfolding w using be_at_prefix [of "[]" 0 ?s 4] by (simp add: be_decode_encode)
  moreover have "be_at ?w 4 4 = unat (ph_receive_stream_id h)"
    unfolding w using be_at_prefix [of ?s 4 ?r 4] by (simp add: be_decode_encode)
  moreover have "be_at ?w 8 4 = unat (ph_sequence_num h)"
    unfolding w using be_at_prefix [of "?s @ ?r" 8 ?q 4] by (simp add: be_decode_encode)
  moreover have "be_at ?w (18 + ?n * 4) 2 = unat (ph_flags h)"
    unfolding w
    using be_at_prefix [of "?s @ ?r @ ?q @ ?a @ [of_nat ?n] @ ?k @ [ph_resend_delay h]" "18 + ?n * 4" ?f 2]
    by (simp add: be_decode_encode length_concat_be4)
  ultimately show ?thesis
    using assms n unfolding peek_streaming_header_def
    by (simp add: length_header_wire MIN_STREAMING_HEADER_BYTES_def usize_limit_def Let_def)
qed

subsection \<open>Replay binding and envelope\<close>

lemma concat_hash_words: "concat (map (\<lambda>i. take 4 (drop (i * 4) xs)) [0..<n]) = take (n * 4) xs"
proof (induction n)
  case (Suc n)
  then show ?case by (simp add: take_add [symmetric] add.commute)
qed simp

lemma replay_binding_wire:
  assumes "length digest = 32"
  shows "concat (map (\<lambda>nack. be_encode 4 (unat nack)) (encode_syn_replay_binding digest)) = digest"
    and "length (encode_syn_replay_binding digest) = 8"
proof -
  have chunk: "be_encode 4 (unat (of_nat (be_at digest (i * 4) 4) :: u32)) = take 4 (drop (i * 4) digest)"
    if "i \<in> set [0..<8]" for i
  proof -
    let ?c = "take 4 (drop (i * 4) digest)"
    have len: "length ?c = 4" using assms that by auto
    have "be_decode ?c < 4294967296" using be_decode_less [of ?c] unfolding len by simp
    then have "unat (of_nat (be_decode ?c) :: u32) = be_decode ?c" by (rule unat_of_nat_u32)
    with be_encode_decode [of ?c, unfolded len] show ?thesis by (simp add: be_at_def)
  qed
  have "concat (map (\<lambda>nack. be_encode 4 (unat nack)) (encode_syn_replay_binding digest))
      = concat (map (\<lambda>i. take 4 (drop (i * 4) digest)) [0..<8])"
    unfolding encode_syn_replay_binding_def SYN_REPLAY_NACK_COUNT_def map_map comp_def
    by (intro arg_cong [where f = concat] map_cong refl) (rule chunk)
  also have "\<dots> = digest" using assms by (simp only: concat_hash_words) simp
  finally show "concat (map (\<lambda>nack. be_encode 4 (unat nack)) (encode_syn_replay_binding digest)) = digest" .
  show "length (encode_syn_replay_binding digest) = 8"
    by (simp add: encode_syn_replay_binding_def SYN_REPLAY_NACK_COUNT_def)
qed

lemma writes_encode:
  assumes "writes e xs" "length xs \<le> maximum" "maximum < usize_limit"
  shows "encode_to_vec maximum e = Inr xs"
  using writesD_fits [OF assms(1), of "\<lparr>eb_output = [], eb_start_len = 0, eb_maximum = maximum\<rparr>"] assms(2,3)
  by (simp add: encode_to_vec_def buffer_new_def)

text \<open>The envelope around a packet opens on the other side to the same packet and ports.\<close>

lemma envelope_opens:
  assumes env: "env_ok env inflate" and wire: "length wire \<le> MAX_STREAMING_PACKET_BYTES"
  obtains request where "wrap_packet env target lp rp sequence send_id receive_id wire = Inr request"
    "\<And>fh identity now m. process_inbound_envelope env inflate (ts_application_payload request) fh identity lp rp now m
       = process_inbound_packet env wire fh identity lp rp now m"
proof -
  let ?p = "\<lparr>cl_protocol = STREAMING_PROTOCOL_NUMBER, cl_source_port = lp, cl_destination_port = rp, cl_payload = wire\<rparr>"
  let ?d = "env_deflate env wire"
  let ?e = "seqS (write_raw (gzip_header ?p)) (seqS (write_raw ?d)
      (seqS (write_raw (le_bytes (crc32 wire))) (write_raw (le_bytes (of_nat (length wire))))))"
  let ?xs = "gzip_header ?p @ ?d @ le_bytes (crc32 wire) @ le_bytes (of_nat (length wire))"
  have "length ?d \<le> length wire + 64" using env wire by (simp add: env_ok_def)
  then have len: "length ?xs \<le> MAX_STREAMING_PACKET_BYTES + 256"
    using wire by (simp add: gzip_header_def GZIP_MAGIC_def)
  have max: "MAX_STREAMING_PACKET_BYTES + 256 \<le> MAX_CLIENT_PAYLOAD_BYTES" "MAX_CLIENT_PAYLOAD_BYTES < usize_limit"
    "MAX_STREAMING_PACKET_BYTES \<le> MAX_APPLICATION_PAYLOAD_BYTES"
    by (simp_all add: packet_limits payload_limits usize_limit_def MAX_STREAMING_PACKET_BYTES_def)
  have w: "writes ?e ?xs" by (intro writes_seq writes_raw)
  have "encode_to_vec MAX_CLIENT_PAYLOAD_BYTES ?e = Inr ?xs"
    using len max(1,2) by (intro writes_encode [OF w]) simp_all
  then have enc: "encode_client_payload (env_deflate env) ?p = Inr ?xs"
    using wire max(3) by (simp add: encode_client_payload_def STREAMING_PROTOCOL_NUMBER_def)
  have "inflates (env_deflate env) inflate" using env by (simp add: env_ok_def)
  from client_payload_round_trip [OF this enc len]
  show ?thesis
    by (intro that [of "\<lparr>ts_destination_hash = target, ts_source_port = lp, ts_destination_port = rp,
          ts_application_payload = ?xs, ts_sequence = sequence, ts_send_stream_id = send_id,
          ts_receive_stream_id = receive_id\<rparr>"])
      (simp_all add: wrap_packet_def enc process_inbound_envelope_def)
qed

text \<open>What a peer knows of an identity.\<close>

definition remote_of :: "StreamEnv \<Rightarrow> DestinationIdentity \<Rightarrow> RemoteDestination" where
  "remote_of env identity =
     \<lparr>rd_destination_hash = env_sha256 env (destination_wire (di_destination identity)),
      rd_signing_public_key = destination_signing_key (di_destination identity)\<rparr>"

text \<open>A signed packet in its envelope, as the builder returns it and as the other side opens it.\<close>

lemma build_signed_opens:
  assumes env: "env_ok env inflate" and id: "identity_ok env identity" and opts: "options_of identity flags options"
    and nacks: "length nacks \<le> 64" and payload: "length payload \<le> MAX_STREAMING_PAYLOAD_BYTES"
    and h: "h = signed_header send_id receive_id sequence ack nacks flags options"
  obtains request sig where
    "build_signed_packet env identity remote send_id receive_id sequence ack flags options nacks lp rp payload = Inr request"
    "\<forall>fh identity' now m. process_inbound_envelope env inflate (ts_application_payload request) fh identity' lp rp now m
       = process_inbound_packet env (signed_wire h (options_prefix flags options) sig payload) fh identity' lp rp now m"
    "sig = env_ed25519_sign env (di_signing_seed identity) (signed_wire h (options_prefix flags options) (replicate 64 0) payload)"
proof -
  let ?p = "options_prefix flags options"
  let ?sig = "env_ed25519_sign env (di_signing_seed identity) (signed_wire h ?p (replicate 64 0) payload)"
  have "length (signed_wire h ?p ?sig payload) \<le> MAX_STREAMING_PACKET_BYTES"
    using options_prefix_le [OF id opts] nacks payload identity_okD(5) [OF id]
    by (simp add: signed_wire_def length_header_wire h signed_header_def packet_limits)
  from envelope_opens [OF env this, of "rd_destination_hash remote" lp rp sequence send_id receive_id]
  obtain request where r: "wrap_packet env (rd_destination_hash remote) lp rp sequence send_id receive_id
        (signed_wire h ?p ?sig payload) = Inr request"
      "\<And>fh identity' now m. process_inbound_envelope env inflate (ts_application_payload request) fh identity' lp rp now m
       = process_inbound_packet env (signed_wire h ?p ?sig payload) fh identity' lp rp now m" by blast
  show ?thesis
    by (rule that [of request ?sig])
      (use sign_packet_wire [OF id opts nacks payload, of send_id receive_id sequence ack] r
       in \<open>simp_all add: build_signed_packet_def h\<close>)
qed

lemma syn_options_of:
  assumes "identity_ok env identity"
  shows "options_of identity INITIAL_SYN_FLAGS (syn_options identity advertised)"
    and "options_of identity SYN_RESPONSE_FLAGS (syn_options identity advertised)"
  using identity_okD(1) [OF assms]
  by (simp_all add: options_of_def options_match_def syn_options_def has_flag_def flag_defs)

text \<open>A packet with FROM that its identity signed passes the check against its own FROM.\<close>

lemma verify_from_own:
  assumes id: "identity_ok env identity" and opts: "options_of identity flags options"
    and nacks: "length nacks \<le> 64" and payload: "length payload \<le> MAX_STREAMING_PAYLOAD_BYTES"
    and h: "h = signed_header send_id receive_id sequence ack nacks flags options"
    and sig: "sig = env_ed25519_sign env (di_signing_seed identity) (signed_wire h (options_prefix flags options) (replicate 64 0) payload)"
    and from_id: "so_from_destination options = Some (di_destination identity)"
  shows "decode_inbound (signed_wire h (options_prefix flags options) sig payload) key
      = Inr (packet_of h (options_prefix flags options @ sig) payload (options\<lparr>so_signature := Some sig\<rparr>),
             Some \<lparr>loc_offset = length (header_wire h @ options_prefix flags options), loc_length = 64\<rparr>)"
    and "verify_from_signature env
        (packet_of h (options_prefix flags options @ sig) payload (options\<lparr>so_signature := Some sig\<rparr>))
        (Some \<lparr>loc_offset = length (header_wire h @ options_prefix flags options), loc_length = 64\<rparr>)
        (signed_wire h (options_prefix flags options) sig payload) = Inr (di_destination identity)"
proof -
  have sig64: "length sig = 64" unfolding sig by (rule identity_okD(5) [OF id])
  note d = decode_signed [OF id opts nacks payload sig64 h, of key]
  show "decode_inbound (signed_wire h (options_prefix flags options) sig payload) key
      = Inr (packet_of h (options_prefix flags options @ sig) payload (options\<lparr>so_signature := Some sig\<rparr>),
             Some \<lparr>loc_offset = length (header_wire h @ options_prefix flags options), loc_length = 64\<rparr>)"
    using d(1) from_id by (simp add: decode_inbound_def)
  show "verify_from_signature env
        (packet_of h (options_prefix flags options @ sig) payload (options\<lparr>so_signature := Some sig\<rparr>))
        (Some \<lparr>loc_offset = length (header_wire h @ options_prefix flags options), loc_length = 64\<rparr>)
        (signed_wire h (options_prefix flags options) sig payload) = Inr (di_destination identity)"
    using d(2) from_id sig64 verify_own_signature [OF id] identity_okD(3) [OF id]
    by (simp add: verify_from_signature_def packet_of_def signature_value_new_def sig [symmetric])
      (simp add: sig)
qed

subsection \<open>The four steps\<close>

definition can_allocate :: "StreamingManager \<Rightarrow> bool" where
  "can_allocate m \<longleftrightarrow> \<not> stream_id_used m (sm_next_inbound_stream_id m) \<and> sm_next_inbound_stream_id m \<noteq> 0"

lemma allocate_next:
  "can_allocate m \<Longrightarrow> allocate_inbound_stream_id m =
     Some (sm_next_inbound_stream_id m, m\<lparr>sm_next_inbound_stream_id := sm_next_inbound_stream_id m + 1\<rparr>)"
  by (subst allocate_inbound_stream_id_def, subst find_stream_id.simps) (simp add: can_allocate_def)

lemma can_allocate_bumped: "can_allocate m \<Longrightarrow> can_allocate (m\<lparr>sm_next_connection_id := n\<rparr>)"
  by (simp add: can_allocate_def stream_id_used_def)

definition next_cid :: "StreamingManager \<Rightarrow> ConnectionId" where
  "next_cid m = ConnectionId (sm_next_connection_id m)"

text \<open>The SYN of an identity with free identifier \<open>sid\<close>, and the answer of the other side.\<close>

definition syn_wire :: "StreamEnv \<Rightarrow> DestinationIdentity \<Rightarrow> DestinationIdentity \<Rightarrow> u32 \<Rightarrow> u16 \<Rightarrow> bytes \<Rightarrow> bytes \<Rightarrow> bytes" where
  "syn_wire env identity peer sid advertised sig payload =
     signed_wire (signed_header 0 sid 0 0 (encode_syn_replay_binding (rd_destination_hash (remote_of env peer)))
         INITIAL_SYN_FLAGS (syn_options identity advertised))
       (options_prefix INITIAL_SYN_FLAGS (syn_options identity advertised)) sig payload"

lemma connect_sends_syn:
  assumes env: "env_ok env inflate" and id: "identity_ok env identity" and free: "can_allocate m"
    and room: "length (sm_connections m) < unat (sc_max_streams_per_destination (sm_config m))"
    and payload: "length payload \<le> unat advertised" "length payload \<le> MAX_STREAMING_PAYLOAD_BYTES"
    and sid: "sid = sm_next_inbound_stream_id m"
  obtains syn m' sig where
    "connect_with_initial_payload env identity (remote_of env peer) lp rp advertised payload now m
       = Some (Inr (SynSent (next_cid m) 0 sid), m')"
    "sm_outbound_queue m' = sm_outbound_queue m @ [syn]"
    "\<forall>fh identity' t n. process_inbound_envelope env inflate (ts_application_payload syn) fh identity' lp rp t n
       = process_inbound_packet env (syn_wire env identity peer sid advertised sig payload) fh identity' lp rp t n"
    "sig = env_ed25519_sign env (di_signing_seed identity) (syn_wire env identity peer sid advertised (replicate 64 0) payload)"
    "bt_get (sm_connections m') (next_cid m) = Some ((new_outbound (next_cid m) (sm_config m) sid 0
       (rd_signing_public_key (remote_of env peer)) (rd_destination_hash (remote_of env peer)) lp rp now)
         \<lparr>sn_local_advertised_max_payload := advertised\<rparr>)"
    "bt_get (sm_outbound_by_stream m') sid = Some (next_cid m)"
proof -
  let ?n = "encode_syn_replay_binding (rd_destination_hash (remote_of env peer))"
  have n: "length ?n \<le> 64" using env replay_binding_wire(2) by (simp add: env_ok_def remote_of_def)
  define h where "h = signed_header 0 sid 0 0 ?n INITIAL_SYN_FLAGS (syn_options identity advertised)"
  let ?o = "options_prefix INITIAL_SYN_FLAGS (syn_options identity advertised)"
  obtain request sig where
      "build_signed_packet env identity (remote_of env peer) 0 sid 0 0 INITIAL_SYN_FLAGS (syn_options identity advertised) ?n lp rp payload = Inr request"
      "\<forall>fh identity' t n. process_inbound_envelope env inflate (ts_application_payload request) fh identity' lp rp t n
       = process_inbound_packet env (signed_wire h ?o sig payload) fh identity' lp rp t n"
      "sig = env_ed25519_sign env (di_signing_seed identity) (signed_wire h ?o (replicate 64 0) payload)"
    by (rule build_signed_opens [OF env id syn_options_of(1) [OF id] n payload(2) h_def,
          where remote = "remote_of env peer" and lp = lp and rp = rp])
  note r = this [unfolded h_def, folded syn_wire_def]
  have build: "build_syn_packet env identity (remote_of env peer) sid lp rp advertised payload = Inr request"
    using r(1) by (simp add: build_syn_packet_def)
  let ?c = "(new_outbound (next_cid m) (sm_config m) sid 0 (rd_signing_public_key (remote_of env peer))
      (rd_destination_hash (remote_of env peer)) lp rp now)\<lparr>sn_local_advertised_max_payload := advertised\<rparr>"
  define m' where "m' = m\<lparr>sm_next_connection_id := word_sat_add (sm_next_connection_id m) 1,
      sm_next_inbound_stream_id := sid + 1, sm_connections := bt_insert (next_cid m) ?c (sm_connections m),
      sm_outbound_by_stream := bt_insert sid (next_cid m) (sm_outbound_by_stream m),
      sm_outbound_packets := bt_insert (next_cid m) [] (sm_outbound_packets m),
      sm_outbound_queue := sm_outbound_queue m @ [request]\<rparr>"
  have run: "connect_with_initial_payload env identity (remote_of env peer) lp rp advertised payload now m
      = Some (Inr (SynSent (next_cid m) 0 sid), m')"
    using allocate_next [OF can_allocate_bumped [OF free], of "word_sat_add (sm_next_connection_id m) 1"]
      room payload(1) build sid
    by (simp add: connect_with_initial_payload_def push_request_def set_connection_def next_cid_def m'_def Let_def)
  show ?thesis
    by (rule that [OF run _ r(2,3)]) (simp_all add: m'_def bt_get_insert)
qed

text \<open>A connection as the SYN leaves it on the side that received it.\<close>

definition syn_received :: "StreamingConnection \<Rightarrow> u16 \<Rightarrow> u16 \<Rightarrow> u32 \<Rightarrow> u32 \<Rightarrow> u16 \<Rightarrow> bool" where
  "syn_received c lp rp local_id remote_id advertised \<longleftrightarrow>
     sn_state c = InboundSynReceived \<and> sn_local_port c = lp \<and> sn_remote_port c = rp
     \<and> sn_local_stream_id c = local_id \<and> sn_remote_stream_id c = remote_id
     \<and> sn_remote_advertised_max_payload c = Some advertised"

lemma check_own_syn:
  assumes env: "env_ok env inflate" and id: "identity_ok env identity" and peer: "identity_ok env peer"
    and payload: "length payload \<le> unat DEFAULT_ADVERTISED_MAX_PAYLOAD"
    and sig: "sig = env_ed25519_sign env (di_signing_seed identity) (syn_wire env identity peer sid advertised (replicate 64 0) payload)"
    and wire: "wire = syn_wire env identity peer sid advertised sig payload"
  obtains packet location where
    "peek_streaming_header wire = Inr \<lparr>pk_send_stream_id = 0, pk_receive_stream_id = sid, pk_sequence_num = 0,
       pk_flags_bits = INITIAL_SYN_FLAGS\<rparr>"
    "decode_inbound wire None = Inr (packet, location)"
    "check_inbound_syn env packet location wire peer = Inr (di_destination identity)"
    "sp_receive_stream_id packet = sid" "sp_payload packet = payload"
    "so_max_payload_size (sp_options packet) = Some advertised"
proof -
  let ?o = "syn_options identity advertised"
  let ?digest = "env_sha256 env (destination_wire (di_destination peer))"
  let ?n = "encode_syn_replay_binding ?digest"
  let ?h = "signed_header 0 sid 0 0 ?n INITIAL_SYN_FLAGS ?o"
  let ?p = "packet_of ?h (options_prefix INITIAL_SYN_FLAGS ?o @ sig) payload (?o\<lparr>so_signature := Some sig\<rparr>)"
  let ?l = "\<lparr>loc_offset = length (header_wire ?h @ options_prefix INITIAL_SYN_FLAGS ?o), loc_length = 64\<rparr>"
  have digest: "length ?digest = 32" using env by (simp add: env_ok_def)
  note bind = replay_binding_wire [OF digest]
  have n: "length ?n \<le> 64" using bind(2) by simp
  have payload': "length payload \<le> MAX_STREAMING_PAYLOAD_BYTES"
    using payload by (simp add: DEFAULT_ADVERTISED_MAX_PAYLOAD_def packet_limits)
  have wire': "wire = signed_wire ?h (options_prefix INITIAL_SYN_FLAGS ?o) sig payload"
    by (simp add: wire syn_wire_def remote_of_def)
  have sig': "sig = env_ed25519_sign env (di_signing_seed identity)
      (signed_wire ?h (options_prefix INITIAL_SYN_FLAGS ?o) (replicate 64 0) payload)"
    by (simp only: sig syn_wire_def remote_of_def RemoteDestination.simps)
  note v = verify_from_own [OF id syn_options_of(1) [OF id] n payload' refl sig', folded wire']
  have from_id: "so_from_destination ?o = Some (di_destination identity)" by (simp add: syn_options_def)
  have "destination_hash (env_sha256 env) (di_destination peer) = Inr (Hash ?digest)"
    using destination_codec(1) [OF identity_okD(1) [OF peer]] identity_okD(2) [OF peer]
    by (simp add: destination_hash_def hash_digest_def MAX_COMMON_STRUCTURE_SIZE_def)
  moreover have "validate_initial_syn ?p ?digest = Inr ()"
    using bind by (simp add: validate_initial_syn_def verify_syn_replay_binding_def packet_of_def signed_header_def
        has_flag_def flag_defs SYN_REPLAY_NACK_COUNT_def)
  moreover have "length (sp_payload ?p) \<le> unat DEFAULT_ADVERTISED_MAX_PAYLOAD"
    using payload by (simp add: packet_of_def)
  ultimately have "check_inbound_syn env ?p (Some ?l) wire peer = Inr (di_destination identity)"
    using v(2) [OF from_id] by (simp add: check_inbound_syn_def)
  moreover have "peek_streaming_header wire = Inr \<lparr>pk_send_stream_id = 0, pk_receive_stream_id = sid, pk_sequence_num = 0,
      pk_flags_bits = INITIAL_SYN_FLAGS\<rparr>"
    using n unfolding wire' signed_wire_def
    by (subst peek_header_wire) (simp_all add: signed_header_def)
  ultimately show ?thesis
    by (intro that [OF _ v(1) [OF from_id]]) (simp_all add: packet_of_def signed_header_def syn_options_def)
qed

lemma process_own_syn:
  assumes env: "env_ok env inflate" and id: "identity_ok env identity" and peer: "identity_ok env peer"
    and payload: "length payload \<le> unat DEFAULT_ADVERTISED_MAX_PAYLOAD"
    and sig: "sig = env_ed25519_sign env (di_signing_seed identity) (syn_wire env identity peer sid advertised (replicate 64 0) payload)"
    and sid: "sid \<noteq> 0" and free: "can_allocate m" and listener: "bt_get (sm_listeners m) rp = Some queue"
    and backlog: "length queue < unat (sc_max_listener_backlog (sm_config m))"
  obtains obs m' c where
    "process_inbound_packet env (syn_wire env identity peer sid advertised sig payload) fh peer lp rp now m
       = Returns (Inr obs, m')"
    "wo_connection_id obs = Some (next_cid m)" "bt_get (sm_connections m') (next_cid m) = Some c"
    "syn_received c rp lp (sm_next_inbound_stream_id m) sid advertised"
    "payload \<noteq> [] \<longrightarrow> bt_get (sm_pending_syn_payloads m') (next_cid m) = Some payload"
    "sm_pending_delivered m' = sm_pending_delivered m"
proof -
  let ?w = "syn_wire env identity peer sid advertised sig payload"
  obtain packet location where s: "peek_streaming_header ?w = Inr \<lparr>pk_send_stream_id = 0, pk_receive_stream_id = sid,
      pk_sequence_num = 0, pk_flags_bits = INITIAL_SYN_FLAGS\<rparr>"
      "decode_inbound ?w None = Inr (packet, location)"
      "check_inbound_syn env packet location ?w peer = Inr (di_destination identity)"
      "sp_receive_stream_id packet = sid" "sp_payload packet = payload"
      "so_max_payload_size (sp_options packet) = Some advertised"
    by (rule check_own_syn [OF env id peer payload sig refl])
  let ?sid = "sm_next_inbound_stream_id m"
  define c where "c = inbound_connection (next_cid m) (sm_config m) ?sid packet (di_destination identity) fh lp rp now"
  define m' where "m' = m\<lparr>sm_next_connection_id := word_sat_add (sm_next_connection_id m) 1,
      sm_next_inbound_stream_id := ?sid + 1, sm_connections := bt_insert (next_cid m) c (sm_connections m),
      sm_inbound_by_stream := bt_insert ?sid (next_cid m) (sm_inbound_by_stream m),
      sm_outbound_packets := bt_insert (next_cid m) [] (sm_outbound_packets m),
      sm_listeners := bt_insert rp (queue @ [next_cid m]) (sm_listeners m),
      sm_pending_syn_payloads := (if payload = [] then sm_pending_syn_payloads m
        else bt_insert (next_cid m) payload (sm_pending_syn_payloads m))\<rparr>"
  have "handle_inbound_syn env packet location ?w fh peer lp rp now m = Some (Inr (observation_of (next_cid m) packet), m')"
    using allocate_next [OF can_allocate_bumped [OF free], of "word_sat_add (sm_next_connection_id m) 1"] s(3,5)
      listener backlog
    by (simp add: handle_inbound_syn_def Let_def set_connection_def select_listener_def next_cid_def c_def m'_def)
  then have run: "process_inbound_packet env ?w fh peer lp rp now m = Returns (Inr (observation_of (next_cid m) packet), m')"
    using sid by (simp add: process_inbound_packet_def s(1,2) Let_def has_flag_def flag_defs)
  have c: "syn_received c rp lp ?sid sid advertised"
    by (simp add: syn_received_def c_def inbound_connection_def new_inbound_def connection_new_def s(4,6))
  show ?thesis
    by (rule that [OF run _ _ c]) (simp_all add: m'_def bt_get_insert observation_of_def)
qed

definition response_wire :: "DestinationIdentity \<Rightarrow> u32 \<Rightarrow> u32 \<Rightarrow> u16 \<Rightarrow> bytes \<Rightarrow> bytes" where
  "response_wire identity send_id receive_id advertised sig =
     signed_wire (signed_header send_id receive_id 0 0 [] SYN_RESPONSE_FLAGS (syn_options identity advertised))
       (options_prefix SYN_RESPONSE_FLAGS (syn_options identity advertised)) sig []"

definition open_connection :: "StreamingConnection \<Rightarrow> u32 \<Rightarrow> u32 \<Rightarrow> u16 \<Rightarrow> u16 \<Rightarrow> bool" where
  "open_connection c local_id remote_id advertised peer_advertised \<longleftrightarrow>
     sn_state c = Established \<and> sn_local_stream_id c = local_id \<and> sn_remote_stream_id c = remote_id
     \<and> sn_max_payload_size c = min (ucast advertised) (ucast peer_advertised)"

lemma ack_view_new: "ack_view (recv_window_new config) = (0, [])"
  by (simp add: ack_view_def recv_window_new_def)

lemma accept_answers:
  assumes env: "env_ok env inflate" and id: "identity_ok env identity"
    and conn: "bt_get (sm_connections m) cid = Some c" and c: "syn_received c lp rp local_id remote_id peer_advertised"
  obtains response m' c' sig where
    "accept_inbound_syn env identity remote cid lp rp advertised now m = (Inr response, m')"
    "\<forall>fh identity' t n. process_inbound_envelope env inflate (ts_application_payload response) fh identity' lp rp t n
       = process_inbound_packet env (response_wire identity remote_id local_id advertised sig) fh identity' lp rp t n"
    "sig = env_ed25519_sign env (di_signing_seed identity) (response_wire identity remote_id local_id advertised (replicate 64 0))"
    "bt_get (sm_connections m') cid = Some c'" "open_connection c' local_id remote_id advertised peer_advertised"
    "\<forall>bs. bt_get (sm_pending_syn_payloads m) cid = Some bs \<longrightarrow>
       sm_pending_delivered m' = sm_pending_delivered m @ [\<lparr>da_connection_id = cid, da_bytes = bs\<rparr>]"
proof -
  let ?o = "options_prefix SYN_RESPONSE_FLAGS (syn_options identity advertised)"
  define h where "h = signed_header remote_id local_id 0 0 [] SYN_RESPONSE_FLAGS (syn_options identity advertised)"
  obtain response sig where
      "build_signed_packet env identity remote remote_id local_id 0 0 SYN_RESPONSE_FLAGS (syn_options identity advertised) [] lp rp [] = Inr response"
      "\<forall>fh identity' t n. process_inbound_envelope env inflate (ts_application_payload response) fh identity' lp rp t n
       = process_inbound_packet env (signed_wire h ?o sig []) fh identity' lp rp t n"
      "sig = env_ed25519_sign env (di_signing_seed identity) (signed_wire h ?o (replicate 64 0) [])"
    by (rule build_signed_opens [OF env id syn_options_of(2) [OF id] _ _ h_def,
          where remote = remote and lp = lp and rp = rp and payload = "[]"]) simp_all
  note r = this [unfolded h_def, folded response_wire_def]
  have build: "build_syn_response_packet env identity remote (clone_for_syn_response c) lp rp advertised = Inr response"
    using r(1) c by (simp add: build_syn_response_packet_def clone_for_syn_response_def ack_view_new syn_received_def)
  define c' where "c' = c\<lparr>sn_local_advertised_max_payload := advertised, sn_state := Established,
      sn_last_activity_ms := now, sn_max_payload_size := min (ucast advertised) (ucast peer_advertised)\<rparr>"
  obtain m' where m': "accept_inbound_syn env identity remote cid lp rp advertised now m = (Inr response, m')"
      "bt_get (sm_connections m') cid = Some c'"
      "\<forall>bs. bt_get (sm_pending_syn_payloads m) cid = Some bs \<longrightarrow>
         sm_pending_delivered m' = sm_pending_delivered m @ [\<lparr>da_connection_id = cid, da_bytes = bs\<rparr>]"
    using conn c build
    by (simp add: accept_inbound_syn_def Let_def syn_received_def transition_established_def c'_def
        track_packet_def set_connection_def push_delivered_def note_delivered_bytes_def bt_get_insert
        split: option.split)
  have "open_connection c' local_id remote_id advertised peer_advertised"
    using c by (simp add: open_connection_def syn_received_def c'_def)
  with m' r show ?thesis by (intro that)
qed

lemma process_own_response:
  assumes env: "env_ok env inflate" and id: "identity_ok env identity" and ids: "local_id \<noteq> 0" "remote_id \<noteq> 0"
    and sig: "sig = env_ed25519_sign env (di_signing_seed identity) (response_wire identity local_id remote_id advertised (replicate 64 0))"
    and out: "bt_get (sm_outbound_by_stream m) local_id = Some cid" and conn: "bt_get (sm_connections m) cid = Some c"
    and c: "sn_state c = OutboundSynSent" "sn_local_stream_id c = local_id" "sn_local_port c = rp" "sn_remote_port c = lp"
      "sn_local_advertised_max_payload c = own_advertised"
  obtains obs m' c' where
    "process_inbound_packet env (response_wire identity local_id remote_id advertised sig) fh peer lp rp now m
       = Returns (Inr obs, m')"
    "bt_get (sm_connections m') cid = Some c'" "open_connection c' local_id remote_id own_advertised advertised"
proof -
  let ?o = "syn_options identity advertised"
  let ?h = "signed_header local_id remote_id 0 0 [] SYN_RESPONSE_FLAGS ?o"
  let ?w = "response_wire identity local_id remote_id advertised sig"
  let ?p = "packet_of ?h (options_prefix SYN_RESPONSE_FLAGS ?o @ sig) [] (?o\<lparr>so_signature := Some sig\<rparr>)"
  let ?l = "\<lparr>loc_offset = length (header_wire ?h @ options_prefix SYN_RESPONSE_FLAGS ?o), loc_length = 64\<rparr>"
  have n: "length ([] :: u32 list) \<le> 64" "length ([] :: bytes) \<le> MAX_STREAMING_PAYLOAD_BYTES" by simp_all
  note v = verify_from_own [OF id syn_options_of(2) [OF id] n refl sig [unfolded response_wire_def], folded response_wire_def]
  have from_id: "so_from_destination ?o = Some (di_destination identity)" by (simp add: syn_options_def)
  have peek: "peek_streaming_header ?w = Inr \<lparr>pk_send_stream_id = local_id, pk_receive_stream_id = remote_id,
      pk_sequence_num = 0, pk_flags_bits = SYN_RESPONSE_FLAGS\<rparr>"
    unfolding response_wire_def signed_wire_def by (subst peek_header_wire) (simp_all add: signed_header_def)
  have valid: "validate_syn_response ?p = Inr ()"
    by (simp add: validate_syn_response_def packet_of_def signed_header_def has_flag_def flag_defs)
  have p: "sp_send_stream_id ?p = local_id" "sp_receive_stream_id ?p = remote_id"
    "so_max_payload_size (sp_options ?p) = Some advertised"
    by (simp_all add: packet_of_def signed_header_def syn_options_def)
  define c' where "c' = c\<lparr>sn_remote_advertised_max_payload := Some advertised, sn_remote_stream_id := remote_id,
      sn_state := Established, sn_last_activity_ms := now,
      sn_max_payload_size := min (ucast own_advertised) (ucast advertised)\<rparr>"
  have "handle_inbound_syn_response env ?p (Some ?l) ?w fh now m = (Inr (observation_of cid ?p), set_connection cid c' m)"
    using out conn v(2) [OF from_id] valid c
    by (simp add: handle_inbound_syn_response_def p Let_def transition_established_def c'_def)
  then have run: "process_inbound_packet env ?w fh peer lp rp now m
      = Returns (Inr (observation_of cid ?p), set_connection cid c' m)"
    using ids out conn c v(1) [OF from_id, of None]
    by (simp add: process_inbound_packet_def peek Let_def has_flag_def flag_defs ports_match_def)
  have "open_connection c' local_id remote_id own_advertised advertised"
    using c by (simp add: open_connection_def c'_def)
  note opened = this
  show ?thesis by (rule that [OF run _ opened]) (simp add: set_connection_def bt_get_insert)
qed

text \<open>The side of the listener: a SYN arrives, the application accepts it.\<close>

lemma listener_answers:
  assumes env: "env_ok env inflate" and id: "identity_ok env identity" and peer: "identity_ok env peer"
    and payload: "length payload \<le> unat DEFAULT_ADVERTISED_MAX_PAYLOAD"
    and sig: "sig = env_ed25519_sign env (di_signing_seed identity) (syn_wire env identity peer sid advertised (replicate 64 0) payload)"
    and sid: "sid \<noteq> 0" and free: "can_allocate m" and listener: "bt_get (sm_listeners m) rp = Some queue"
    and backlog: "length queue < unat (sc_max_listener_backlog (sm_config m))"
    and local_id: "local_id = sm_next_inbound_stream_id m"
  obtains obs m1 response m2 c sig' where
    "process_inbound_packet env (syn_wire env identity peer sid advertised sig payload) fh peer lp rp now m = Returns (Inr obs, m1)"
    "wo_connection_id obs = Some (next_cid m)"
    "accept_inbound_syn env peer remote (next_cid m) rp lp own_advertised later m1 = (Inr response, m2)"
    "\<forall>fh identity' t n. process_inbound_envelope env inflate (ts_application_payload response) fh identity' rp lp t n
       = process_inbound_packet env (response_wire peer sid local_id own_advertised sig') fh identity' rp lp t n"
    "sig' = env_ed25519_sign env (di_signing_seed peer) (response_wire peer sid local_id own_advertised (replicate 64 0))"
    "bt_get (sm_connections m2) (next_cid m) = Some c" "open_connection c local_id sid own_advertised advertised"
    "payload \<noteq> [] \<longrightarrow> sm_pending_delivered m2
       = sm_pending_delivered m @ [\<lparr>da_connection_id = next_cid m, da_bytes = payload\<rparr>]"
proof -
  obtain obs m1 c where received:
    "process_inbound_packet env (syn_wire env identity peer sid advertised sig payload) fh peer lp rp now m = Returns (Inr obs, m1)"
    "wo_connection_id obs = Some (next_cid m)" "bt_get (sm_connections m1) (next_cid m) = Some c"
    "syn_received c rp lp local_id sid advertised"
    "payload \<noteq> [] \<longrightarrow> bt_get (sm_pending_syn_payloads m1) (next_cid m) = Some payload"
    "sm_pending_delivered m1 = sm_pending_delivered m"
    unfolding local_id by (rule process_own_syn [OF env id peer payload sig sid free listener backlog])
  obtain response m2 c' sig' where accepted:
    "accept_inbound_syn env peer remote (next_cid m) rp lp own_advertised later m1 = (Inr response, m2)"
    "\<forall>fh identity' t n. process_inbound_envelope env inflate (ts_application_payload response) fh identity' rp lp t n
       = process_inbound_packet env (response_wire peer sid local_id own_advertised sig') fh identity' rp lp t n"
    "sig' = env_ed25519_sign env (di_signing_seed peer) (response_wire peer sid local_id own_advertised (replicate 64 0))"
    "bt_get (sm_connections m2) (next_cid m) = Some c'" "open_connection c' local_id sid own_advertised advertised"
    "\<forall>bs. bt_get (sm_pending_syn_payloads m1) (next_cid m) = Some bs \<longrightarrow>
       sm_pending_delivered m2 = sm_pending_delivered m1 @ [\<lparr>da_connection_id = next_cid m, da_bytes = bs\<rparr>]"
    by (rule accept_answers [OF env peer received(3,4)])
  have "payload \<noteq> [] \<longrightarrow> sm_pending_delivered m2
       = sm_pending_delivered m @ [\<lparr>da_connection_id = next_cid m, da_bytes = payload\<rparr>]"
    using received(5,6) accepted(6) by simp
  then show ?thesis by (rule that [OF received(1,2) accepted(1-5)])
qed

end
