(* ===== verification/Stream_Recv_Laws.thy ===== *)
theory Stream_Recv_Laws
  imports Stream_Recv
begin

section \<open>The receive window refines a set of accepted sequence numbers\<close>

text \<open>
  The abstract receiver: its state is the set of sequence numbers accepted so far (0, the handshake,
  included), and a packet is accepted when it lies less than a window past the first gap. The
  window of the code implements it: \<open>accepted_set\<close> is the abstraction function, \<open>next_expected\<close> is
  the first gap, and the payloads released are those between the old and the new gap.
\<close>

text \<open>The least number that a finite set lacks.\<close>

primrec gap_from :: "nat \<Rightarrow> nat \<Rightarrow> nat set \<Rightarrow> nat" where
  "gap_from 0 n A = n"
| "gap_from (Suc fuel) n A = (if n \<in> A then gap_from fuel (Suc n) A else n)"

definition first_gap :: "nat set \<Rightarrow> nat" where
  "first_gap A = gap_from (card A) 0 A"

definition abs_receive :: "nat \<Rightarrow> nat \<Rightarrow> nat set \<Rightarrow> nat set" where
  "abs_receive window s A = (if s < first_gap A + window then Set.insert s A else A)"

definition accepted_set :: "RecvWindowPolicy \<Rightarrow> nat set" where
  "accepted_set p = {..<unat (rw_next_expected p)} \<union> unat ` fst ` set (rw_reorder p)"

lemma gap_from_unique:
  assumes "n \<le> g" "{n..<g} \<subseteq> A" "g \<notin> A" "g - n \<le> fuel"
  shows "gap_from fuel n A = g"
  using assms
proof (induction fuel arbitrary: n)
  case (Suc fuel)
  show ?case
  proof (cases "n = g")
    case False
    with Suc.prems have "n \<in> A" by auto
    with Suc.IH [of "Suc n"] Suc.prems False show ?thesis by (auto simp: subset_iff)
  qed (use Suc.prems in simp)
qed simp

lemma first_gap_unique:
  assumes "finite A" "{..<g} \<subseteq> A" "g \<notin> A"
  shows "first_gap A = g"
proof -
  have "g \<le> card A" using card_mono [OF assms(1,2)] by simp
  then show ?thesis
    unfolding first_gap_def using assms by (intro gap_from_unique) (auto simp: lessThan_atLeast0)
qed

subsection \<open>The invariant\<close>

definition recv_wf :: "RecvWindowPolicy \<Rightarrow> bool" where
  "recv_wf p \<longleftrightarrow>
     bt_wf (rw_reorder p) \<and> rw_next_expected p \<noteq> 0
     \<and> (\<forall>(k, e)\<in>set (rw_reorder p). re_sequence e = k \<and> rw_next_expected p < k
          \<and> unat k < unat (rw_next_expected p) + unat (rwc_max_window_packets (rw_config p))
          \<and> unat k < 4294967295)
     \<and> (case rw_highest_received p of
          None \<Rightarrow> rw_reorder p = [] \<and> rw_next_expected p = 1
        | Some h \<Rightarrow> unat h \<in> accepted_set p \<and> (\<forall>n\<in>accepted_set p. n \<le> unat h))"

text \<open>The part of the invariant that holds between two rounds of the drain loop.\<close>

definition draining :: "RecvWindowPolicy \<Rightarrow> bool" where
  "draining p \<longleftrightarrow>
     bt_wf (rw_reorder p)
     \<and> (\<forall>(k, e)\<in>set (rw_reorder p). re_sequence e = k \<and> rw_next_expected p \<le> k
          \<and> unat k < unat (rw_next_expected p) + unat (rwc_max_window_packets (rw_config p))
          \<and> unat k < 4294967295)"

lemma recv_new_wf: "recv_wf (recv_window_new config)"
  by (simp add: recv_wf_def recv_window_new_def FIRST_EXPECTED_APPLICATION_SEQUENCE_def)

lemma accepted_new: "accepted_set (recv_window_new config) = {0}"
  by (auto simp: accepted_set_def recv_window_new_def FIRST_EXPECTED_APPLICATION_SEQUENCE_def)

lemma finite_accepted [simp]: "finite (accepted_set p)"
  by (simp add: accepted_set_def)

lemma recv_wf_gap: "recv_wf p \<Longrightarrow> first_gap (accepted_set p) = unat (rw_next_expected p)"
  by (rule first_gap_unique)
    (auto simp: recv_wf_def accepted_set_def word_less_nat_alt)

lemma draining_step:
  assumes d: "draining p" and get: "bt_get (rw_reorder p) (rw_next_expected p) = Some e"
  defines "p' \<equiv> p\<lparr>rw_reorder := bt_remove (rw_next_expected p) (rw_reorder p),
               rw_next_expected := rw_next_expected p + 1,
               rw_delivered_count := word_sat_add (rw_delivered_count p) 1\<rparr>"
  shows "draining p'" and "accepted_set p' = accepted_set p"
    and "unat (rw_next_expected p') = Suc (unat (rw_next_expected p))"
    and "re_sequence e = rw_next_expected p"
proof -
  have wf: "bt_wf (rw_reorder p)" using d by (simp add: draining_def)
  have mem: "(rw_next_expected p, e) \<in> set (rw_reorder p)"
    using bt_get_set [OF wf] get by simp
  with d show "re_sequence e = rw_next_expected p" by (auto simp: draining_def)
  from mem d have small: "unat (rw_next_expected p) < 4294967295" by (auto simp: draining_def)
  then show next': "unat (rw_next_expected p') = Suc (unat (rw_next_expected p))"
    by (simp add: p'_def unat_u32_succ)
  have wf': "bt_wf (rw_reorder p')" by (simp add: p'_def wf bt_wf_remove)
  have mem': "(k, x) \<in> set (rw_reorder p') \<longleftrightarrow> (k, x) \<in> set (rw_reorder p) \<and> k \<noteq> rw_next_expected p" for k x
    using bt_get_set [OF wf'] bt_get_set [OF wf] by (simp add: p'_def bt_get_remove wf)
  have below: "rw_next_expected p' \<le> k" if "(k, x) \<in> set (rw_reorder p')" for k x
  proof -
    from that mem' d have "rw_next_expected p \<le> k" "k \<noteq> rw_next_expected p" by (auto simp: draining_def)
    then have "unat (rw_next_expected p) < unat k" by (simp add: word_le_nat_alt order.strict_iff_order word_unat_eq_iff)
    with next' show ?thesis by (simp add: word_le_nat_alt)
  qed
  show "draining p'"
    unfolding draining_def
  proof (intro conjI ballI, rule wf', goal_cases)
    case (1 x)
    obtain k y where x: "x = (k, y)" by (cases x)
    with 1 mem' have old: "(k, y) \<in> set (rw_reorder p)" by simp
    with d have "re_sequence y = k" "unat k < 4294967295"
      "unat k < unat (rw_next_expected p) + unat (rwc_max_window_packets (rw_config p))"
      by (auto simp: draining_def)
    moreover have "rw_config p' = rw_config p" by (simp add: p'_def)
    ultimately show ?case using 1 x below [of k y] next' by simp
  qed
  have keys: "fst ` set (rw_reorder p) = Set.insert (rw_next_expected p) (fst ` set (rw_reorder p'))"
    using mem mem' by force
  show "accepted_set p' = accepted_set p"
    unfolding accepted_set_def keys image_insert next' by (auto simp: less_Suc_eq)
qed

lemma drain_laws:
  assumes "draining p" "drain_reorder ds p = (out, p')"
  shows "draining p' \<and> accepted_set p' = accepted_set p
    \<and> bt_get (rw_reorder p') (rw_next_expected p') = None
    \<and> unat (rw_next_expected p) \<le> unat (rw_next_expected p')
    \<and> rw_config p' = rw_config p \<and> rw_highest_received p' = rw_highest_received p
    \<and> (\<exists>es. out = ds @ es
        \<and> map (\<lambda>e. unat (re_sequence e)) es = [unat (rw_next_expected p)..<unat (rw_next_expected p')]
        \<and> set es \<union> snd ` set (rw_reorder p') \<subseteq> snd ` set (rw_reorder p))"
  using assms
proof (induction ds p arbitrary: out p' rule: drain_reorder.induct)
  case (1 ds p)
  show ?case
  proof (cases "bt_get (rw_reorder p) (rw_next_expected p)")
    case None
    with "1.prems" show ?thesis by (auto simp: drain_reorder.simps [of ds p])
  next
    case (Some e)
    let ?q = "p\<lparr>rw_reorder := bt_remove (rw_next_expected p) (rw_reorder p),
               rw_next_expected := rw_next_expected p + 1,
               rw_delivered_count := word_sat_add (rw_delivered_count p) 1\<rparr>"
    note step = draining_step [OF "1.prems"(1) Some]
    have run: "drain_reorder (ds @ [e]) ?q = (out, p')"
      using "1.prems"(2) Some by (simp add: drain_reorder.simps [of ds p])
    from "1.IH" [OF Some step(1) run] obtain es where
      es: "out = (ds @ [e]) @ es"
        "map (\<lambda>e. unat (re_sequence e)) es = [unat (rw_next_expected ?q)..<unat (rw_next_expected p')]"
        "set es \<union> snd ` set (rw_reorder p') \<subseteq> snd ` set (rw_reorder ?q)"
      and rest: "draining p'" "accepted_set p' = accepted_set ?q"
        "bt_get (rw_reorder p') (rw_next_expected p') = None"
        "unat (rw_next_expected ?q) \<le> unat (rw_next_expected p')"
        "rw_config p' = rw_config ?q" "rw_highest_received p' = rw_highest_received ?q"
      by blast
    have "map (\<lambda>e. unat (re_sequence e)) (e # es) = [unat (rw_next_expected p)..<unat (rw_next_expected p')]"
      using es(2) rest(4) step(3,4) by (simp add: upt_conv_Cons)
    moreover have "set (e # es) \<union> snd ` set (rw_reorder p') \<subseteq> snd ` set (rw_reorder p)"
    proof -
      have "e \<in> snd ` set (rw_reorder p)" using Some by (force simp: bt_get_def dest: map_of_SomeD)
      moreover have "snd ` set (rw_reorder ?q) \<subseteq> snd ` set (rw_reorder p)"
        using set_bt_remove [of "rw_next_expected p" "rw_reorder p"] by auto
      ultimately show ?thesis using es(3) by (simp, blast)
    qed
    moreover have "out = ds @ (e # es)" using es(1) by simp
    ultimately show ?thesis
      using rest step(2,3) by (intro conjI exI [of _ "e # es"]) simp_all
  qed
qed

subsection \<open>One packet\<close>

text \<open>The payloads that a decision releases to the application.\<close>

fun released :: "RecvWindowDecision \<Rightarrow> ReorderEntry list" where
  "released (Delivered sequence delivered) = delivered"
| "released _ = []"

text \<open>
  What one packet does: the accepted set follows the abstract receiver, the released entries are
  numbered from the old gap to the new one, and every entry released or kept was already there or is
  the packet itself.
\<close>

definition receive_law :: "u32 \<Rightarrow> bytes \<Rightarrow> RecvWindowPolicy \<Rightarrow> RecvWindowDecision \<times> RecvWindowPolicy \<Rightarrow> bool" where
  "receive_law s payload p r \<longleftrightarrow>
     recv_wf (snd r) \<and> rw_config (snd r) = rw_config p
     \<and> accepted_set (snd r) = abs_receive (unat (rwc_max_window_packets (rw_config p))) (unat s) (accepted_set p)
     \<and> unat (rw_next_expected p) \<le> unat (rw_next_expected (snd r))
     \<and> map (\<lambda>e. unat (re_sequence e)) (released (fst r))
         = [unat (rw_next_expected p)..<unat (rw_next_expected (snd r))]
     \<and> set (released (fst r)) \<union> snd ` set (rw_reorder (snd r))
         \<subseteq> Set.insert \<lparr>re_sequence = s, re_payload = payload\<rparr> (snd ` set (rw_reorder p))"

lemma recv_wf_draining: "draining p \<Longrightarrow> rw_next_expected p \<noteq> 0 \<Longrightarrow>
    bt_get (rw_reorder p) (rw_next_expected p) = None \<Longrightarrow>
    rw_highest_received p = Some h \<Longrightarrow> unat h \<in> accepted_set p \<Longrightarrow> \<forall>n\<in>accepted_set p. n \<le> unat h \<Longrightarrow> recv_wf p"
proof -
  assume d: "draining p" and none: "bt_get (rw_reorder p) (rw_next_expected p) = None"
    and rest: "rw_next_expected p \<noteq> 0" "rw_highest_received p = Some h" "unat h \<in> accepted_set p"
      "\<forall>n\<in>accepted_set p. n \<le> unat h"
  have "rw_next_expected p < k" if "(k, e) \<in> set (rw_reorder p)" for k e
  proof -
    have "k \<noteq> rw_next_expected p"
      using that none bt_get_set [of "rw_reorder p" k e] d by (auto simp: draining_def)
    moreover have "rw_next_expected p \<le> k" using that d by (auto simp: draining_def)
    ultimately show ?thesis by simp
  qed
  with d rest show "recv_wf p" by (force simp: recv_wf_def draining_def)
qed

text \<open>The highest sequence after \<open>note_accepted_sequence\<close>.\<close>

lemma highest_noted:
  assumes "recv_wf p"
  shows "\<exists>h. rw_highest_received (note_accepted_sequence s p) = Some h
    \<and> unat h \<in> Set.insert (unat s) (accepted_set p)
    \<and> (\<forall>n\<in>Set.insert (unat s) (accepted_set p). s = rw_next_expected p \<or> rw_next_expected p < s \<longrightarrow> n \<le> unat h)"
proof (cases "rw_highest_received p")
  case None
  with assms show ?thesis
    by (auto simp: recv_wf_def note_accepted_sequence_def accepted_set_def word_less_nat_alt)
next
  case (Some h)
  with assms have "unat h \<in> accepted_set p" "\<forall>n\<in>accepted_set p. n \<le> unat h"
    by (auto simp: recv_wf_def)
  with Some show ?thesis
    by (auto simp: note_accepted_sequence_def unat_max max_def word_le_nat_alt word_less_nat_alt)
qed

lemma receive_duplicate:
  assumes wf: "recv_wf p" and s: "s < rw_next_expected p"
  shows "receive_law s payload p (receive s payload p)"
proof -
  have "unat s \<in> accepted_set p" using s by (simp add: accepted_set_def word_less_nat_alt)
  then have "Set.insert (unat s) (accepted_set p) = accepted_set p" by auto
  with assms show ?thesis by (auto simp: receive_law_def receive_def abs_receive_def)
qed

lemma receive_next:
  assumes wf: "recv_wf p" and s: "s = rw_next_expected p" and small: "unat s < 4294967295"
    and window: "rwc_max_window_packets (rw_config p) \<noteq> 0"
  shows "receive_law s payload p (receive s payload p)"
proof -
  let ?q = "(note_accepted_sequence s p)\<lparr>rw_next_expected := rw_next_expected p + 1,
              rw_delivered_count := word_sat_add (rw_delivered_count p) 1\<rparr>"
  let ?e = "\<lparr>re_sequence = s, re_payload = payload\<rparr>"
  obtain out p' where run: "drain_reorder [?e] ?q = (out, p')" by (cases "drain_reorder [?e] ?q")
  have next': "unat (rw_next_expected ?q) = Suc (unat s)" using small s by (simp add: unat_u32_succ)
  have reorder: "rw_reorder ?q = rw_reorder p" "rw_config ?q = rw_config p"
    by (simp_all add: note_accepted_sequence_def)
  have "rw_next_expected ?q \<le> k" if "(k, e) \<in> set (rw_reorder p)" for k e
  proof -
    have "unat s < unat k" using wf that s by (auto simp: recv_wf_def word_less_nat_alt)
    then show ?thesis using next' by (simp add: word_le_nat_alt)
  qed
  then have d: "draining ?q"
    using wf next' s by (force simp: recv_wf_def draining_def note_accepted_sequence_def)
  have acc: "accepted_set ?q = Set.insert (unat s) (accepted_set p)"
    unfolding accepted_set_def reorder next' by (auto simp: s less_Suc_eq)
  from drain_laws [OF d run] obtain es where laws: "draining p'" "accepted_set p' = accepted_set ?q"
    "bt_get (rw_reorder p') (rw_next_expected p') = None"
    "unat (rw_next_expected ?q) \<le> unat (rw_next_expected p')"
    "rw_config p' = rw_config ?q" "rw_highest_received p' = rw_highest_received ?q"
    "out = [?e] @ es"
    "map (\<lambda>e. unat (re_sequence e)) es = [unat (rw_next_expected ?q)..<unat (rw_next_expected p')]"
    "set es \<union> snd ` set (rw_reorder p') \<subseteq> snd ` set (rw_reorder ?q)"
    by blast
  have result: "receive s payload p = (Delivered s out, p')"
    using s run by (simp add: receive_def note_accepted_sequence_def Let_def)
  obtain h where h: "rw_highest_received (note_accepted_sequence s p) = Some h"
      "unat h \<in> Set.insert (unat s) (accepted_set p)"
      "\<forall>n\<in>Set.insert (unat s) (accepted_set p). n \<le> unat h"
    using highest_noted [OF wf, of s] s by auto
  have "recv_wf p'"
  proof (rule recv_wf_draining [OF laws(1) _ laws(3)])
    show "rw_next_expected p' \<noteq> 0" using laws(4) next' by (auto simp: word_unat_eq_iff)
    show "rw_highest_received p' = Some h" using laws(6) h(1) by simp
    show "unat h \<in> accepted_set p'" "\<forall>n\<in>accepted_set p'. n \<le> unat h"
      using h(2,3) laws(2) acc by simp_all
  qed
  moreover have "map (\<lambda>e. unat (re_sequence e)) out = [unat s..<unat (rw_next_expected p')]"
    using laws(4,7,8) next' by (simp add: upt_conv_Cons)
  moreover have "abs_receive (unat (rwc_max_window_packets (rw_config p))) (unat s) (accepted_set p)
      = Set.insert (unat s) (accepted_set p)"
    using recv_wf_gap [OF wf] s window by (simp add: abs_receive_def unat_gt_0)
  ultimately show ?thesis
    using laws s result reorder acc next' by (auto simp: receive_law_def)
qed

lemma receive_ahead:
  assumes wf: "recv_wf p" and s: "rw_next_expected p < s" and small: "unat s < 4294967295"
  shows "receive_law s payload p (receive s payload p)"
proof -
  let ?w = "unat (rwc_max_window_packets (rw_config p))"
  have w: "unat (ucast (rwc_max_window_packets (rw_config p)) :: u32) = ?w"
    by (simp add: unsigned_ucast_eq take_bit_nat_eq_self less_trans [OF unat_u16_lt])
  have full: "s \<ge> word_sat_add (rw_next_expected p) (ucast (rwc_max_window_packets (rw_config p)))
      \<longleftrightarrow> unat (rw_next_expected p) + ?w \<le> unat s"
    using small by (auto simp: word_le_nat_alt unat_word_sat_add w)
  show ?thesis
  proof (cases "unat (rw_next_expected p) + ?w \<le> unat s")
    case True
    with full s wf recv_wf_gap [OF wf] show ?thesis
      by (auto simp: receive_law_def receive_def abs_receive_def Let_def)
  next
    case False
    let ?e = "\<lparr>re_sequence = s, re_payload = payload\<rparr>"
    define p' where "p' = (note_accepted_sequence s p)\<lparr>rw_reorder := bt_insert s ?e (rw_reorder p)\<rparr>"
    have result: "receive s payload p = (Buffered s, p')"
      using False full less_imp_neq [OF s] less_not_sym [OF s]
      by (simp add: receive_def Let_def p'_def note_accepted_sequence_def)
    have fields: "rw_next_expected p' = rw_next_expected p" "rw_config p' = rw_config p"
      "rw_reorder p' = bt_insert s ?e (rw_reorder p)"
      "rw_highest_received p' = rw_highest_received (note_accepted_sequence s p)"
      by (simp_all add: p'_def note_accepted_sequence_def)
    have wfm: "bt_wf (rw_reorder p)" using wf by (simp add: recv_wf_def)
    have acc: "accepted_set p' = Set.insert (unat s) (accepted_set p)"
      by (simp add: accepted_set_def fields set_bt_insert)
    have mem: "(k, e) \<in> set (rw_reorder p') \<Longrightarrow> (k = s \<and> e = ?e) \<or> (k, e) \<in> set (rw_reorder p)" for k e
      using bt_get_set [OF bt_wf_insert [OF wfm, of s ?e]] bt_get_set [OF wfm]
      by (auto simp: fields bt_get_insert split: if_splits)
    obtain h where h: "rw_highest_received p' = Some h"
      "unat h \<in> accepted_set p'" "\<forall>n\<in>accepted_set p'. n \<le> unat h"
      using highest_noted [OF wf, of s] s acc fields(4) by auto
    have "recv_wf p'"
      unfolding recv_wf_def
      using wf False small s h mem fields bt_wf_insert [OF wfm, of s ?e]
      by (fastforce simp: recv_wf_def)
    moreover have "snd ` set (rw_reorder p') \<subseteq> Set.insert ?e (snd ` set (rw_reorder p))"
      using mem by force
    ultimately show ?thesis
      using result False recv_wf_gap [OF wf] acc fields
      by (simp add: receive_law_def abs_receive_def)
  qed
qed

lemma receive_step:
  assumes "recv_wf p" "unat s < 4294967295" "rwc_max_window_packets (rw_config p) \<noteq> 0"
  shows "receive_law s payload p (receive s payload p)"
  using assms receive_duplicate receive_next receive_ahead
  by (cases s "rw_next_expected p" rule: linorder_cases) auto

subsection \<open>A stream of packets\<close>

text \<open>A sequence of arrivals, with everything that was released.\<close>

primrec receive_all :: "(u32 \<times> bytes) list \<Rightarrow> RecvWindowPolicy \<Rightarrow> ReorderEntry list \<times> RecvWindowPolicy" where
  "receive_all [] p = ([], p)"
| "receive_all (a # as) p =
     (case receive (fst a) (snd a) p of (d, p') \<Rightarrow>
      case receive_all as p' of (out, p'') \<Rightarrow> (released d @ out, p''))"

definition entry_of :: "u32 \<times> bytes \<Rightarrow> ReorderEntry" where
  "entry_of a = \<lparr>re_sequence = fst a, re_payload = snd a\<rparr>"

lemma upt_join: "i \<le> j \<Longrightarrow> j \<le> k \<Longrightarrow> [i..<j] @ [j..<k] = [i..<k]"
  using upt_add_eq_append [of i j "k - j"] by simp

lemma receive_all_laws:
  assumes "recv_wf p" "\<forall>a\<in>set as. unat (fst a) < 4294967295" "rwc_max_window_packets (rw_config p) \<noteq> 0"
    "receive_all as p = (out, p')"
  shows "recv_wf p' \<and> rw_config p' = rw_config p
    \<and> accepted_set p' = fold (abs_receive (unat (rwc_max_window_packets (rw_config p)))) (map (\<lambda>a. unat (fst a)) as) (accepted_set p)
    \<and> unat (rw_next_expected p) \<le> unat (rw_next_expected p')
    \<and> map (\<lambda>e. unat (re_sequence e)) out = [unat (rw_next_expected p)..<unat (rw_next_expected p')]
    \<and> set out \<union> snd ` set (rw_reorder p') \<subseteq> entry_of ` set as \<union> snd ` set (rw_reorder p)"
  using assms
proof (induction as arbitrary: p out)
  case (Cons a as)
  obtain d q where step: "receive (fst a) (snd a) p = (d, q)" by (cases "receive (fst a) (snd a) p")
  obtain out' where rest: "receive_all as q = (out', p')" "out = released d @ out'"
    using Cons.prems(4) step by (auto split: prod.splits)
  have law: "receive_law (fst a) (snd a) p (d, q)"
    using receive_step [of p "fst a" "snd a"] Cons.prems step by simp
  then have q: "recv_wf q" "rw_config q = rw_config p" by (simp_all add: receive_law_def)
  from Cons.IH [OF q(1) _ _ rest(1)] Cons.prems q have IH: "recv_wf p'" "rw_config p' = rw_config q"
    "accepted_set p' = fold (abs_receive (unat (rwc_max_window_packets (rw_config q)))) (map (\<lambda>a. unat (fst a)) as) (accepted_set q)"
    "unat (rw_next_expected q) \<le> unat (rw_next_expected p')"
    "map (\<lambda>e. unat (re_sequence e)) out' = [unat (rw_next_expected q)..<unat (rw_next_expected p')]"
    "set out' \<union> snd ` set (rw_reorder p') \<subseteq> entry_of ` set as \<union> snd ` set (rw_reorder q)"
    by simp_all
  have join: "[unat (rw_next_expected p)..<unat (rw_next_expected q)] @ [unat (rw_next_expected q)..<unat (rw_next_expected p')]
      = [unat (rw_next_expected p)..<unat (rw_next_expected p')]"
    using law IH(4) by (intro upt_join) (simp_all add: receive_law_def)
  have "set (released d) \<union> snd ` set (rw_reorder q)
      \<subseteq> Set.insert (entry_of a) (snd ` set (rw_reorder p))"
    using law by (simp add: receive_law_def entry_of_def)
  then have "set out \<union> snd ` set (rw_reorder p') \<subseteq> entry_of ` set (a # as) \<union> snd ` set (rw_reorder p)"
    using IH(6) unfolding rest(2) by (simp, blast)
  moreover have "map (\<lambda>e. unat (re_sequence e)) out = [unat (rw_next_expected p)..<unat (rw_next_expected p')]"
    using law IH(5) rest(2) join by (simp add: receive_law_def)
  ultimately  show ?case
    using law IH(1-4) q(2) by (intro conjI) (simp_all add: receive_law_def)
qed auto

text \<open>The reorder buffer holds less than a window of packets.\<close>

lemma reorder_bounded:
  assumes "recv_wf p"
  shows "length (rw_reorder p) \<le> unat (rwc_max_window_packets (rw_config p)) - 1"
proof -
  let ?n = "unat (rw_next_expected p)" and ?w = "unat (rwc_max_window_packets (rw_config p))"
  have d: "distinct (map fst (rw_reorder p))"
    using assms by (simp add: recv_wf_def bt_wf_def strict_sorted_iff)
  have "length (rw_reorder p) = card (unat ` fst ` set (rw_reorder p))"
    using distinct_card [OF d] by (subst card_image) (auto intro: inj_onI simp: word_unat_eq_iff)
  also have "\<dots> \<le> card {?n<..<?n + ?w}"
    using assms by (intro card_mono) (auto simp: recv_wf_def word_less_nat_alt)
  finally show ?thesis by simp
qed

subsection \<open>Acknowledgements\<close>

lemma missing_loop_eq:
  "missing_loop m ack limit seq xs =
     xs @ take (limit - length xs) (map of_nat (filter (\<lambda>n. \<not> bt_contains m (of_nat n)) [unat seq..<unat ack]))"
proof (induction m ack limit seq xs rule: missing_loop.induct)
  case (1 m ack limit seq xs)
  show ?case
  proof (cases "seq < ack \<and> length xs < limit")
    case True
    then have lt: "unat seq < unat ack" by (simp add: word_less_nat_alt)
    have s: "unat (seq + 1) = Suc (unat seq)" using True unat_u32_succ_less [of seq ack] by simp
    have d: "limit - length xs = Suc (limit - Suc (length xs))" using True by linarith
    from True 1 show ?thesis
      by (simp add: missing_loop.simps [of m ack limit seq xs] upt_conv_Cons [OF lt] s d)
  next
    case False
    then show ?thesis by (auto simp: missing_loop.simps [of m ack limit seq xs] word_less_nat_alt)
  qed
qed

lemma missing_exact:
  assumes "recv_wf p"
  shows "missing_sequences_bounded p ack limit =
    take limit (map of_nat (filter (\<lambda>n. n \<notin> accepted_set p) [unat (rw_next_expected p)..<unat ack]))"
proof -
  have "bt_contains (rw_reorder p) (of_nat n) \<longleftrightarrow> n \<in> accepted_set p"
    if "n \<in> {unat (rw_next_expected p)..<unat ack}" for n
  proof -
    have "n < unat ack" using that by simp
    then have "n < 4294967296" by (rule less_trans) (rule unat_u32_lt)
    then have u: "unat (of_nat n :: u32) = n" by (rule unat_of_nat_u32)
    have "n \<in> unat ` fst ` set (rw_reorder p) \<longleftrightarrow> of_nat n \<in> fst ` set (rw_reorder p)"
      using u image_eqI [of n unat "of_nat n" "fst ` set (rw_reorder p)"] by force
    with that show ?thesis by (auto simp: bt_contains_keys bt_keys_def accepted_set_def)
  qed
  then have "filter (\<lambda>n. \<not> bt_contains (rw_reorder p) (of_nat n)) [unat (rw_next_expected p)..<unat ack]
      = filter (\<lambda>n. n \<notin> accepted_set p) [unat (rw_next_expected p)..<unat ack]"
    by (intro filter_cong) auto
  then show ?thesis by (simp add: missing_sequences_bounded_def missing_loop_eq)
qed

text \<open>
  The acknowledgement view is an exact description of what was accepted: with a window of at most
  256 packets the NACK list is never cut off, and the accepted numbers are those up to
  \<open>ack_through\<close> that are not in the list.
\<close>

lemma ack_view_contiguous:
  assumes wf: "recv_wf p" and high: "rw_highest_received p = Some h" "h < rw_next_expected p"
    and view: "ack_view p = (ack, nacks)"
  shows "accepted_set p = {..unat ack}" "nacks = []"
proof -
  let ?n = "unat (rw_next_expected p)"
  have n0: "0 < ?n" using wf by (simp add: recv_wf_def unat_gt_0)
  have "unat (rw_next_expected p - 1) = ?n - 1"
    using n0 by (simp add: unat_sub_if' word_le_nat_alt)
  with high view have a: "unat ack = ?n - 1" and "nacks = []"
    by (auto simp: ack_view_def unat_word_sat_sub)
  then show "nacks = []" by simp
  have "(k, e) \<notin> set (rw_reorder p)" for k e
  proof
    assume mem: "(k, e) \<in> set (rw_reorder p)"
    then have "unat k \<in> accepted_set p" by (force simp: accepted_set_def)
    with wf high(1) have "unat k \<le> unat h" by (auto simp: recv_wf_def)
    moreover have "?n < unat k" using mem wf by (auto simp: recv_wf_def word_less_nat_alt)
    ultimately show False using high(2) by (simp add: word_less_nat_alt)
  qed
  then have "rw_reorder p = []" by (cases "rw_reorder p") (auto simp: split_paired_all)
  then have "accepted_set p = {..<?n}" by (simp add: accepted_set_def)
  moreover obtain m where "?n = Suc m" using n0 by (cases ?n) simp_all
  ultimately show "accepted_set p = {..unat ack}" using a by (simp add: lessThan_Suc_atMost)
qed

lemma ack_view_gaps:
  assumes wf: "recv_wf p" and window: "unat (rwc_max_window_packets (rw_config p)) \<le> 256"
    and high: "rw_highest_received p = Some h" "\<not> h < rw_next_expected p"
    and view: "ack_view p = (ack, nacks)"
  shows "accepted_set p = {..unat ack} - unat ` set nacks" "\<forall>n\<in>set nacks. n < ack"
    "length nacks < unat (rwc_max_window_packets (rw_config p))"
proof -
  let ?n = "unat (rw_next_expected p)"
  let ?xs = "filter (\<lambda>n. n \<notin> accepted_set p) [?n..<unat h]"
  have h: "unat h \<in> accepted_set p" "\<forall>n\<in>accepted_set p. n \<le> unat h"
    using wf high(1) by (auto simp: recv_wf_def)
  have hn: "?n \<le> unat h" using high(2) by (simp add: word_less_nat_alt)
  have "unat h \<noteq> ?n" using h(1) recv_wf_gap [OF wf] wf
    by (auto simp: accepted_set_def recv_wf_def word_less_nat_alt)
  with hn h(1) have "unat h \<in> unat ` fst ` set (rw_reorder p)"
    by (auto simp: accepted_set_def)
  then have near: "unat h < ?n + unat (rwc_max_window_packets (rw_config p))"
    using wf by (auto simp: recv_wf_def)
  have short: "length ?xs \<le> unat h - ?n" by (metis length_filter_le length_upt)
  with near window have "length ?xs \<le> 255" by linarith
  with high view have a: "ack = h" "nacks = map of_nat ?xs"
    by (auto simp: ack_view_def missing_exact [OF wf] MAX_NACK_COUNT_def)
  have u: "unat (of_nat n :: u32) = n" if "n < unat h" for n
    using that unat_u32_lt [of h] by (intro unat_of_nat_u32) linarith
  then have set_nacks: "unat ` set nacks = set ?xs"
    by (force simp: a image_image)
  have below: "n \<in> accepted_set p" if "n < ?n" for n using that by (simp add: accepted_set_def)
  have "accepted_set p = {..unat h} - set ?xs"
  proof (rule set_eqI)
    fix n
    show "n \<in> accepted_set p \<longleftrightarrow> n \<in> {..unat h} - set ?xs"
      using h below [of n] by (cases "n = unat h") (auto simp: le_less not_less)
  qed
  then show "accepted_set p = {..unat ack} - unat ` set nacks" using set_nacks a(1) by simp
  show "\<forall>n\<in>set nacks. n < ack" using u by (auto simp: a word_less_nat_alt)
  show "length nacks < unat (rwc_max_window_packets (rw_config p))" using a(2) short near hn by simp
qed

lemma ack_view_exact:
  assumes wf: "recv_wf p" and window: "unat (rwc_max_window_packets (rw_config p)) \<le> 256"
    and view: "ack_view p = (ack, nacks)"
  shows "accepted_set p = {..unat ack} - unat ` set nacks"
    and "\<forall>n\<in>set nacks. n < ack" and "length nacks < max 1 (unat (rwc_max_window_packets (rw_config p)))"
proof -
  consider (none) "rw_highest_received p = None"
    | (contiguous) h where "rw_highest_received p = Some h" "h < rw_next_expected p"
    | (gaps) h where "rw_highest_received p = Some h" "\<not> h < rw_next_expected p"
    by (cases "rw_highest_received p") auto
  then have "accepted_set p = {..unat ack} - unat ` set nacks \<and> (\<forall>n\<in>set nacks. n < ack)
    \<and> length nacks < max 1 (unat (rwc_max_window_packets (rw_config p)))"
  proof cases
    case none
    with wf view show ?thesis by (auto simp: ack_view_def recv_wf_def accepted_set_def)
  next
    case contiguous
    from ack_view_contiguous [OF wf this view] show ?thesis by simp
  next
    case gaps
    from ack_view_gaps [OF wf window this view] show ?thesis by simp
  qed
  then show "accepted_set p = {..unat ack} - unat ` set nacks" "\<forall>n\<in>set nacks. n < ack"
    "length nacks < max 1 (unat (rwc_max_window_packets (rw_config p)))" by simp_all
qed

end
