(* ===== verification/Stream_Session.thy ===== *)
theory Stream_Session
  imports Stream_Connection Stream_Recv_Laws Stream_Send_Laws
begin

section \<open>Two connections over an unreliable network\<close>

text \<open>
  The windows of two connections put together: a sender numbers packets with \<open>enqueue_send\<close>, the
  network hands any packet that was ever sent to the receiver, any number of times and in any order
  (loss, duplication, reordering and retransmission are the choices of this relation), and
  acknowledgement views reach the sender with any delay. The ghost fields record what was sent and
  what the receiver released. A sender numbers fewer than \<open>2 ^ 32 - 1\<close> packets.
\<close>

record StreamSession =
  ss_sender :: StreamingConnection
  ss_receiver :: StreamingConnection
  ss_sent :: "(u32 \<times> bytes) list"
  ss_output :: "ReorderEntry list"
  ss_acks :: "(u32 \<times> u32 list) list"

inductive session_step :: "StreamSession \<Rightarrow> StreamSession \<Rightarrow> bool" where
  Send: "enqueue_send (length payload) now (ss_sender s) = (Inr seq, c) \<Longrightarrow> seq \<noteq> - 1 \<Longrightarrow>
    session_step s (s\<lparr>ss_sender := c, ss_sent := ss_sent s @ [(seq, payload)]\<rparr>)"
| Arrive: "(seq, payload) \<in> set (ss_sent s) \<Longrightarrow>
    receive_packet seq payload now (ss_receiver s) = (Inr d, c) \<Longrightarrow>
    session_step s (s\<lparr>ss_receiver := c, ss_output := ss_output s @ released d\<rparr>)"
| SendAck: "session_step s (s\<lparr>ss_acks := ss_acks s @ [ack_view (sn_recv_window (ss_receiver s))]\<rparr>)"
| ArriveAck: "(ack, nacks) \<in> set (ss_acks s) \<Longrightarrow>
    receive_ack ack nacks now (ss_sender s) = (obs, c) \<Longrightarrow>
    session_step s (s\<lparr>ss_sender := c\<rparr>)"
| Resend: "session_step s
    (s\<lparr>ss_sender := (ss_sender s)\<lparr>sn_send_window := mark_retransmitted seq now (sn_send_window (ss_sender s))\<rparr>\<rparr>)"

definition session_start :: "StreamingConnection \<Rightarrow> StreamingConnection \<Rightarrow> StreamSession" where
  "session_start sender receiver =
     \<lparr>ss_sender = sender, ss_receiver = receiver, ss_sent = [], ss_output = [], ss_acks = []\<rparr>"

subsection \<open>The invariant\<close>

definition unacked_numbers :: "SendWindowPolicy \<Rightarrow> nat set" where
  "unacked_numbers w = unat ` fst ` set (sw_unacked w)"

definition sent_numbered :: "StreamSession \<Rightarrow> bool" where
  "sent_numbered s \<longleftrightarrow>
     map (\<lambda>a. unat (fst a)) (ss_sent s) = [1..<unat (sw_next_sequence (sn_send_window (ss_sender s)))]
     \<and> sw_next_sequence (sn_send_window (ss_sender s)) \<noteq> 0"

definition session_inv :: "StreamSession \<Rightarrow> bool" where
  "session_inv s \<longleftrightarrow>
     (let w = sn_send_window (ss_sender s); p = sn_recv_window (ss_receiver s) in
      send_wf w \<and> recv_wf p
      \<and> rwc_max_window_packets (rw_config p) \<noteq> 0 \<and> unat (rwc_max_window_packets (rw_config p)) \<le> 256
      \<and> sent_numbered s
      \<and> unacked_numbers w \<subseteq> {1..<unat (sw_next_sequence w)}
      \<and> accepted_set p \<subseteq> {..<unat (sw_next_sequence w)}
      \<and> {1..<unat (sw_next_sequence w)} \<subseteq> unacked_numbers w \<union> accepted_set p
      \<and> map (\<lambda>e. unat (re_sequence e)) (ss_output s) = [1..<unat (rw_next_expected p)]
      \<and> set (ss_output s) \<union> snd ` set (rw_reorder p) \<subseteq> entry_of ` set (ss_sent s)
      \<and> (\<forall>(ack, nacks)\<in>set (ss_acks s). {..unat ack} - unat ` set nacks \<subseteq> accepted_set p
           \<and> (\<forall>n\<in>set nacks. n < ack)))"

lemma session_invD:
  assumes "session_inv s"
  defines "w \<equiv> sn_send_window (ss_sender s)" and "p \<equiv> sn_recv_window (ss_receiver s)"
  shows "send_wf w" "recv_wf p" "rwc_max_window_packets (rw_config p) \<noteq> 0"
    "unat (rwc_max_window_packets (rw_config p)) \<le> 256" "sent_numbered s"
    "unacked_numbers w \<subseteq> {1..<unat (sw_next_sequence w)}"
    "accepted_set p \<subseteq> {..<unat (sw_next_sequence w)}"
    "{1..<unat (sw_next_sequence w)} \<subseteq> unacked_numbers w \<union> accepted_set p"
    "map (\<lambda>e. unat (re_sequence e)) (ss_output s) = [1..<unat (rw_next_expected p)]"
    "set (ss_output s) \<union> snd ` set (rw_reorder p) \<subseteq> entry_of ` set (ss_sent s)"
    "(ack, nacks) \<in> set (ss_acks s) \<Longrightarrow> {..unat ack} - unat ` set nacks \<subseteq> accepted_set p"
    "(ack, nacks) \<in> set (ss_acks s) \<Longrightarrow> \<forall>n\<in>set nacks. n < ack"
  using assms(1) unfolding session_inv_def Let_def w_def p_def by auto

lemma abs_receive_mono: "A \<subseteq> abs_receive w n A"
  by (auto simp: abs_receive_def)

lemma abs_receive_bound: "A \<subseteq> B \<Longrightarrow> n \<in> B \<Longrightarrow> abs_receive w n A \<subseteq> B"
  by (auto simp: abs_receive_def)

lemma session_start_inv:
  assumes "sn_send_window sender = send_window_new (send_window_config_from config)"
    and "sn_recv_window receiver = recv_window_new (recv_window_config_from config')"
    and "config_within config'"
  shows "session_inv (session_start sender receiver)"
proof -
  have w: "rw_config (sn_recv_window receiver) = recv_window_config_from config'"
    by (simp add: assms(2) recv_window_new_def)
  have window: "sc_max_recv_window_packets config' \<noteq> 0" "unat (sc_max_recv_window_packets config') \<le> 256"
    using assms(3) by (auto simp: config_within_def)
  show ?thesis
    unfolding session_inv_def Let_def session_start_def sent_numbered_def unacked_numbers_def
    using send_new_wf [of config] recv_new_wf [of "recv_window_config_from config'"]
      accepted_new [of "recv_window_config_from config'"] window
    by (simp add: assms(1,2) w recv_window_config_from_def)
      (simp add: send_window_new_def recv_window_new_def FIRST_APPLICATION_SEQUENCE_def
        FIRST_EXPECTED_APPLICATION_SEQUENCE_def)
qed

lemma enqueue_send_window:
  assumes "enqueue_send len now c = (Inr seq, c')"
  shows "send_window_enqueue len now (sn_send_window c) = (Inr seq, sn_send_window c')"
    and "sn_recv_window c' = sn_recv_window c" and "sn_state c = Established"
  using assms
  by (auto simp: enqueue_send_def split: if_splits CongestionDecision.splits SendWindowDecision.splits
      prod.splits sum.splits)

lemma send_step_inv:
  assumes inv: "session_inv s" and run: "enqueue_send (length payload) now (ss_sender s) = (Inr seq, c)"
    and small: "seq \<noteq> - 1"
  shows "session_inv (s\<lparr>ss_sender := c, ss_sent := ss_sent s @ [(seq, payload)]\<rparr>)"
proof -
  let ?w = "sn_send_window (ss_sender s)" and ?w' = "sn_send_window c"
  let ?p = "sn_recv_window (ss_receiver s)"
  have wf: "send_wf ?w" using inv by (simp add: session_inv_def Let_def)
  note e = enqueue_accepts [OF wf enqueue_send_window(1) [OF run]]
  have lt: "unat seq < 4294967295"
  proof -
    have "unat seq \<noteq> unat (- 1 :: u32)" using small by (simp add: word_unat_eq_iff)
    then have "unat seq \<noteq> 4294967295" by (simp add: unat_minus_one_word_len)
    with unat_u32_lt [of seq] show ?thesis by linarith
  qed
  then have next': "unat (sw_next_sequence ?w') = Suc (unat seq)" using e(1,2) by (simp add: unat_u32_succ)
  have fresh: "send_fresh ?w"
  proof -
    have "sw_next_sequence ?w \<notin> fst ` set (sw_unacked ?w)"
      using inv by (force simp: session_inv_def Let_def unacked_numbers_def)
    then show ?thesis by (simp add: send_fresh_def bt_get_def map_of_eq_None_iff)
  qed
  have pos: "1 \<le> unat seq" using inv e(1) by (simp add: session_inv_def Let_def sent_numbered_def Suc_le_eq unat_gt_0)
  have unacked: "unacked_numbers ?w' = Set.insert (unat seq) (unacked_numbers ?w)"
    by (simp add: unacked_numbers_def e(3) set_bt_insert)
  have range: "{1..<unat (sw_next_sequence ?w')} = Set.insert (unat seq) {1..<unat (sw_next_sequence ?w)}"
    using pos by (auto simp: next' e(1))
  have nums: "map (\<lambda>a. unat (fst a)) (ss_sent s @ [(seq, payload)]) = [1..<unat (sw_next_sequence ?w')]"
    using inv pos by (simp add: session_inv_def Let_def sent_numbered_def next' e(1))
  have nz: "sw_next_sequence ?w' \<noteq> 0" using next' by (auto simp: word_unat_eq_iff)
  show ?thesis
    unfolding session_inv_def Let_def sent_numbered_def
    using inv enqueue_wf [OF wf fresh enqueue_send_window(1) [OF run]] nums nz unacked range next'
    by (auto simp: session_inv_def Let_def e(1))
qed

lemma sent_number_small:
  assumes "sent_numbered s" "(seq, payload) \<in> set (ss_sent s)"
  shows "unat seq \<in> {1..<unat (sw_next_sequence (sn_send_window (ss_sender s)))}" and "unat seq < 4294967295"
proof -
  let ?n = "unat (sw_next_sequence (sn_send_window (ss_sender s)))"
  have "map (\<lambda>a. unat (fst a)) (ss_sent s) = [1..<?n]" using assms(1) by (simp add: sent_numbered_def)
  from arg_cong [OF this, of set] have "(\<lambda>a. unat (fst a)) ` set (ss_sent s) = {1..<?n}" by simp
  then show "unat seq \<in> {1..<?n}" using assms(2) by force
  then show "unat seq < 4294967295"
    using unat_u32_lt [of "sw_next_sequence (sn_send_window (ss_sender s))"] unfolding atLeastLessThan_iff by linarith
qed

lemma arrive_step_inv:
  assumes inv: "session_inv s" and sent: "(seq, payload) \<in> set (ss_sent s)"
    and run: "receive_packet seq payload now (ss_receiver s) = (Inr d, c)"
  shows "session_inv (s\<lparr>ss_receiver := c, ss_output := ss_output s @ released d\<rparr>)"
proof -
  let ?p = "sn_recv_window (ss_receiver s)" and ?p' = "sn_recv_window c"
  let ?n = "unat (sw_next_sequence (sn_send_window (ss_sender s)))"
  have num: "sent_numbered s" "recv_wf ?p" "rwc_max_window_packets (rw_config ?p) \<noteq> 0"
    using inv by (simp_all add: session_inv_def Let_def)
  note seq = sent_number_small [OF num(1) sent]
  have "receive seq payload ?p = (d, ?p')"
    using run by (auto simp: receive_packet_def split: prod.splits)
  with receive_step [OF num(2) seq(2) num(3), of payload] have law: "receive_law seq payload ?p (d, ?p')" by simp
  then have acc: "accepted_set ?p \<subseteq> accepted_set ?p'" "accepted_set ?p' \<subseteq> {..<?n}"
    using inv seq(1) abs_receive_mono abs_receive_bound [of "accepted_set ?p" "{..<?n}" "unat seq"]
    by (simp_all add: receive_law_def session_inv_def Let_def)
  have entry: "\<lparr>re_sequence = seq, re_payload = payload\<rparr> \<in> entry_of ` set (ss_sent s)"
    using sent by (force simp: entry_of_def)
  have n1: "1 \<le> unat (rw_next_expected ?p)" using num(2) by (simp add: recv_wf_def Suc_le_eq unat_gt_0)
  have join: "[1..<unat (rw_next_expected ?p)] @ [unat (rw_next_expected ?p)..<unat (rw_next_expected ?p')]
      = [1..<unat (rw_next_expected ?p')]"
    using n1 law by (intro upt_join) (simp_all add: receive_law_def)
  have out: "set (ss_output s @ released d) \<union> snd ` set (rw_reorder ?p') \<subseteq> entry_of ` set (ss_sent s)"
  proof -
    have "set (released d) \<union> snd ` set (rw_reorder ?p')
        \<subseteq> Set.insert \<lparr>re_sequence = seq, re_payload = payload\<rparr> (snd ` set (rw_reorder ?p))"
      using law by (simp add: receive_law_def)
    also have "\<dots> \<subseteq> entry_of ` set (ss_sent s)" using entry session_invD(10) [OF inv] by simp
    finally show ?thesis using session_invD(10) [OF inv] by simp
  qed
  have acks: "\<forall>(ack, nacks)\<in>set (ss_acks s). {..unat ack} - unat ` set nacks \<subseteq> accepted_set ?p'
      \<and> (\<forall>n\<in>set nacks. n < ack)"
  proof (intro ballI, clarify)
    fix ack nacks assume mem: "(ack, nacks) \<in> set (ss_acks s)"
    from session_invD(11,12) [OF inv mem] acc(1) show "{..unat ack} - unat ` set nacks \<subseteq> accepted_set ?p'
      \<and> (\<forall>n\<in>set nacks. n < ack)" by (simp add: subset_trans)
  qed
  have cover: "{1..<?n} \<subseteq> unacked_numbers (sn_send_window (ss_sender s)) \<union> accepted_set ?p'"
    using subset_trans [OF session_invD(8) [OF inv] Un_mono [OF subset_refl acc(1)]] .
  show ?thesis
    using inv law acc(2) cover out acks join
    unfolding session_inv_def Let_def sent_numbered_def receive_law_def
    by simp
qed

lemma send_ack_step_inv:
  assumes inv: "session_inv s"
  shows "session_inv (s\<lparr>ss_acks := ss_acks s @ [ack_view (sn_recv_window (ss_receiver s))]\<rparr>)"
proof -
  let ?p = "sn_recv_window (ss_receiver s)"
  obtain ack nacks where view: "ack_view ?p = (ack, nacks)" by (cases "ack_view ?p")
  have "recv_wf ?p" "unat (rwc_max_window_packets (rw_config ?p)) \<le> 256"
    using inv by (simp_all add: session_inv_def Let_def)
  note exact = ack_view_exact [OF this view]
  show ?thesis
    using inv exact(1,2) unfolding session_inv_def Let_def sent_numbered_def by (simp add: view)
qed

text \<open>An acknowledgement that describes accepted packets clears only accepted packets.\<close>

lemma clears_accepted:
  assumes "{..unat ack} - unat ` set nacks \<subseteq> A" "\<forall>n\<in>set nacks. n < ack" "clears ack nacks k"
  shows "unat k \<in> A"
proof -
  have "k \<le> ack" "k \<notin> set nacks" using assms(2,3) by (auto simp: clears_def)
  then have "unat k \<in> {..unat ack}" "unat k \<notin> unat ` set nacks"
    by (auto simp: word_le_nat_alt word_unat_eq_iff [symmetric] inj_image_mem_iff)
  with assms(1) show ?thesis by blast
qed

lemma acknowledge_numbers:
  assumes "send_wf w" "acknowledge ack nacks w = (out, w')"
    and "{..unat ack} - unat ` set nacks \<subseteq> A" "\<forall>n\<in>set nacks. n < ack"
  shows "unacked_numbers w' \<subseteq> unacked_numbers w" "unacked_numbers w \<subseteq> unacked_numbers w' \<union> A"
    "sw_next_sequence w' = sw_next_sequence w"
proof -
  have "unacked_numbers w' \<subseteq> unacked_numbers w \<and> unacked_numbers w \<subseteq> unacked_numbers w' \<union> A
    \<and> sw_next_sequence w' = sw_next_sequence w"
  proof (cases "ack < sw_last_ack w")
    case True
    with assms(2) show ?thesis by (simp add: acknowledge_duplicate)
  next
    case False
    note c = acknowledge_closed [OF assms(1) False assms(2)]
    have "unat k \<in> unacked_numbers w' \<union> A" if "(k, e) \<in> set (sw_unacked w)" for k e
    proof (cases "clears ack nacks k")
      case True
      with clears_accepted [OF assms(3,4)] show ?thesis by simp
    next
      case False
      with that show ?thesis by (force simp: unacked_numbers_def c(4) bt_retain_def)
    qed
    then show ?thesis using c(7) by (force simp: unacked_numbers_def c(4) bt_retain_def)
  qed
  then show "unacked_numbers w' \<subseteq> unacked_numbers w" "unacked_numbers w \<subseteq> unacked_numbers w' \<union> A"
    "sw_next_sequence w' = sw_next_sequence w" by simp_all
qed

lemma arrive_ack_step_inv:
  assumes inv: "session_inv s" and mem: "(ack, nacks) \<in> set (ss_acks s)"
    and run: "receive_ack ack nacks now (ss_sender s) = (obs, c)"
  shows "session_inv (s\<lparr>ss_sender := c\<rparr>)"
proof -
  let ?w = "sn_send_window (ss_sender s)" and ?w' = "sn_send_window c"
  let ?p = "sn_recv_window (ss_receiver s)"
  obtain out where ackn: "acknowledge ack nacks ?w = (out, ?w')"
    using run by (auto simp: receive_ack_def Let_def split: prod.splits)
  have wf: "send_wf ?w" using inv by (simp add: session_inv_def Let_def)
  note nums = acknowledge_numbers [OF wf ackn session_invD(11,12) [OF inv mem]]
  have "send_wf ?w'" using acknowledge_wf [OF wf, of ack nacks] by (simp add: ackn)
  moreover have "unacked_numbers ?w' \<subseteq> {1..<unat (sw_next_sequence ?w)}"
    using inv nums(1) by (simp add: session_inv_def Let_def subset_trans)
  moreover have "{1..<unat (sw_next_sequence ?w)} \<subseteq> unacked_numbers ?w' \<union> accepted_set ?p"
    using subset_trans [OF session_invD(8) [OF inv], of "unacked_numbers ?w' \<union> accepted_set ?p"] nums(2) by simp
  ultimately show ?thesis
    using inv nums(3) unfolding session_inv_def Let_def sent_numbered_def by simp
qed

lemma mark_retransmitted_numbers:
  "unacked_numbers (mark_retransmitted seq now w) = unacked_numbers w"
  "sw_next_sequence (mark_retransmitted seq now w) = sw_next_sequence w"
proof -
  have "seq \<in> fst ` set (sw_unacked w)" if "bt_get (sw_unacked w) seq = Some e" for e
    using that by (force simp: bt_get_def dest: map_of_SomeD)
  then show "unacked_numbers (mark_retransmitted seq now w) = unacked_numbers w"
    by (auto simp: mark_retransmitted_def unacked_numbers_def set_bt_insert insert_absorb split: option.splits)
  show "sw_next_sequence (mark_retransmitted seq now w) = sw_next_sequence w"
    by (simp add: mark_retransmitted_def split: option.splits)
qed

lemma resend_step_inv:
  assumes "session_inv s"
  shows "session_inv (s\<lparr>ss_sender := (ss_sender s)\<lparr>sn_send_window :=
    mark_retransmitted seq now (sn_send_window (ss_sender s))\<rparr>\<rparr>)"
  using assms mark_retransmitted_wf [of "sn_send_window (ss_sender s)" seq now]
  unfolding session_inv_def Let_def sent_numbered_def by (simp add: mark_retransmitted_numbers)

lemma session_step_inv: "session_step s s' \<Longrightarrow> session_inv s \<Longrightarrow> session_inv s'"
  by (induction rule: session_step.induct)
    (blast intro: send_step_inv arrive_step_inv send_ack_step_inv arrive_ack_step_inv resend_step_inv)+

lemma session_reachable_inv: "session_step\<^sup>*\<^sup>* s s' \<Longrightarrow> session_inv s \<Longrightarrow> session_inv s'"
  by (induction rule: rtranclp_induct) (auto intro: session_step_inv)

subsection \<open>What was released is a prefix of what was sent\<close>

lemma output_prefix:
  assumes sent: "map (\<lambda>a. unat (fst a)) sent = [1..<n]"
    and out: "map (\<lambda>e. unat (re_sequence e)) out = [1..<m]"
    and sub: "set out \<subseteq> entry_of ` set sent"
  shows "out = map entry_of (take (length out) sent)" and "length out \<le> length sent"
proof -
  have len: "length sent = n - 1" "length out = m - 1"
    using arg_cong [OF sent, of length] arg_cong [OF out, of length] by simp_all
  have num: "unat (fst (sent ! j)) = Suc j" if "j < length sent" for j
  proof -
    have "map (\<lambda>a. unat (fst a)) sent ! j = [1..<n] ! j" by (simp only: sent)
    with that len show ?thesis by simp
  qed
  have at: "out ! i = entry_of (sent ! i) \<and> i < length sent" if i: "i < length out" for i
  proof -
    have "map (\<lambda>e. unat (re_sequence e)) out ! i = [1..<m] ! i" by (simp only: out)
    then have seq: "unat (re_sequence (out ! i)) = Suc i" using i len by simp
    obtain j where j: "j < length sent" "out ! i = entry_of (sent ! j)"
    proof -
      have "out ! i \<in> entry_of ` set sent" using sub nth_mem [OF i] by blast
      then obtain a where "a \<in> set sent" "out ! i = entry_of a" by blast
      with that show thesis by (auto simp: in_set_conv_nth)
    qed
    then have "unat (re_sequence (out ! i)) = Suc j" using num by (simp add: entry_of_def)
    with seq j show ?thesis by simp
  qed
  show le: "length out \<le> length sent"
  proof (cases "length out")
    case (Suc k)
    with at [of k] show ?thesis by simp
  qed simp
  show "out = map entry_of (take (length out) sent)"
    by (rule nth_equalityI) (use le at in simp_all)
qed

lemma entry_payload: "re_payload (entry_of a) = snd a"
  by (simp add: entry_of_def)

lemma session_no_loss:
  assumes "session_inv s"
  shows "\<forall>(seq, payload)\<in>set (ss_sent s).
    bt_contains (sw_unacked (sn_send_window (ss_sender s))) seq
    \<or> unat seq \<in> accepted_set (sn_recv_window (ss_receiver s))"
proof (intro ballI, clarify)
  let ?w = "sn_send_window (ss_sender s)"
  fix seq payload
  assume sent: "(seq, payload) \<in> set (ss_sent s)" and gone: "unat seq \<notin> accepted_set (sn_recv_window (ss_receiver s))"
  have "unat seq \<in> set (map (\<lambda>a. unat (fst a)) (ss_sent s))" using sent by force
  also have "map (\<lambda>a. unat (fst a)) (ss_sent s) = [1..<unat (sw_next_sequence ?w)]"
    using session_invD(5) [OF assms] by (simp add: sent_numbered_def)
  finally have "unat seq \<in> unacked_numbers ?w" using session_invD(8) [OF assms] gone by auto
  then show "bt_contains (sw_unacked ?w) seq"
    by (force simp: unacked_numbers_def bt_contains_keys bt_keys_def simp flip: word_unat_eq_iff)
qed

lemma session_output_prefix:
  assumes "session_inv s"
  shows "map re_payload (ss_output s) = take (length (ss_output s)) (map snd (ss_sent s))"
proof -
  have "map (\<lambda>a. unat (fst a)) (ss_sent s) = [1..<unat (sw_next_sequence (sn_send_window (ss_sender s)))]"
    using session_invD(5) [OF assms] by (simp add: sent_numbered_def)
  from output_prefix(1) [OF this session_invD(9) [OF assms]] session_invD(10) [OF assms]
  have "ss_output s = map entry_of (take (length (ss_output s)) (ss_sent s))" by simp
  from arg_cong [OF this, of "map re_payload"] show ?thesis by (simp add: comp_def entry_payload take_map)
qed

subsection \<open>Sending the unacknowledged packets again completes the stream\<close>

lemma first_gap_facts:
  assumes "finite A"
  shows "{..<first_gap A} \<subseteq> A" "first_gap A \<notin> A"
proof -
  let ?g = "LEAST n. n \<notin> A"
  have "\<exists>n. n \<notin> A" using assms infinite_UNIV_nat by (metis UNIV_eq_I)
  then have "?g \<notin> A" by (rule LeastI_ex)
  moreover have "{..<?g} \<subseteq> A" using not_less_Least by auto
  ultimately have "first_gap A = ?g" using assms by (intro first_gap_unique)
  with \<open>?g \<notin> A\<close> \<open>{..<?g} \<subseteq> A\<close> show "{..<first_gap A} \<subseteq> A" "first_gap A \<notin> A" by simp_all
qed

lemma abs_resend:
  assumes "finite A" "sorted_wrt (<) ns" "{..<n} \<subseteq> A \<union> set ns" "set ns \<subseteq> {..<n}" "1 \<le> w"
  shows "{..<n} \<subseteq> fold (abs_receive w) ns A"
  using assms
proof (induction ns arbitrary: A)
  case (Cons k ns)
  have "k \<le> first_gap A"
  proof (rule ccontr)
    assume "\<not> k \<le> first_gap A"
    then have lt: "first_gap A < k" by simp
    moreover have "k < n" using Cons.prems(4) by simp
    ultimately have "first_gap A \<in> {..<n}" by simp
    with Cons.prems(3) have "first_gap A \<in> A \<union> set (k # ns)" by blast
    with first_gap_facts(2) [OF Cons.prems(1)] lt Cons.prems(2) show False by auto
  qed
  then have "abs_receive w k A = Set.insert k A" using Cons.prems(5) by (simp add: abs_receive_def)
  with Cons.IH [of "Set.insert k A"] Cons.prems show ?case by simp
qed simp

text \<open>The packets that the sender still tracks, in the order it sent them.\<close>

definition unacked_packets :: "StreamSession \<Rightarrow> (u32 \<times> bytes) list" where
  "unacked_packets s = filter (\<lambda>a. bt_contains (sw_unacked (sn_send_window (ss_sender s))) (fst a)) (ss_sent s)"

text \<open>Receiving every tracked packet brings the receiver to the sender's next number.\<close>

lemma resend_reaches_next:
  assumes inv: "session_inv s"
    and run: "receive_all (unacked_packets s) (sn_recv_window (ss_receiver s)) = (out, p')"
  shows "unat (rw_next_expected p') = unat (sw_next_sequence (sn_send_window (ss_sender s)))"
proof -
  let ?w = "sn_send_window (ss_sender s)" and ?p = "sn_recv_window (ss_receiver s)"
  let ?n = "unat (sw_next_sequence ?w)" and ?ns = "map (\<lambda>a. unat (fst a)) (unacked_packets s)"
  note D = session_invD [OF inv]
  have sent: "map (\<lambda>a. unat (fst a)) (ss_sent s) = [1..<?n]" using D(5) by (simp add: sent_numbered_def)
  have small: "\<forall>a\<in>set (unacked_packets s). unat (fst a) < 4294967295"
    using sent_number_small(2) [OF D(5)] by (auto simp: unacked_packets_def)
  have ns: "?ns = filter (\<lambda>k. k \<in> unacked_numbers ?w) [1..<?n]"
  proof -
    have "bt_contains (sw_unacked ?w) k \<longleftrightarrow> unat k \<in> unacked_numbers ?w" for k
      by (auto simp: bt_contains_keys bt_keys_def unacked_numbers_def inj_image_mem_iff word_unat_eq_iff [symmetric])
    then show ?thesis unfolding sent [symmetric] filter_map by (simp add: unacked_packets_def comp_def)
  qed
  have sorted: "sorted_wrt (<) ?ns"
    unfolding ns by (intro sorted_wrt_filter) simp
  from receive_all_laws [OF D(2) small D(3) run] have laws: "recv_wf p'"
    "accepted_set p' = fold (abs_receive (unat (rwc_max_window_packets (rw_config ?p)))) ?ns (accepted_set ?p)"
    by simp_all
  have zero: "0 \<in> accepted_set ?p" using D(2) by (simp add: recv_wf_def accepted_set_def unat_gt_0)
  have cover: "k \<in> accepted_set ?p \<union> set ?ns" if "k \<in> {..<?n}" for k
    using that zero subsetD [OF D(8), of k] unfolding ns by (cases "k = 0") auto
  have "{..<?n} \<subseteq> accepted_set p'"
    unfolding laws(2)
  proof (rule abs_resend [OF finite_accepted sorted])
    show "{..<?n} \<subseteq> accepted_set ?p \<union> set ?ns" using cover by (rule subsetI)
    show "set ?ns \<subseteq> {..<?n}" unfolding ns by auto
    show "1 \<le> unat (rwc_max_window_packets (rw_config ?p))" using D(3) by (simp add: Suc_le_eq unat_gt_0)
  qed
  moreover have "fold (abs_receive w) ks A \<subseteq> {..<?n}" if "A \<subseteq> {..<?n}" "set ks \<subseteq> {..<?n}" for w ks A
    using that by (induction ks arbitrary: A) (simp_all add: abs_receive_bound)
  from this [OF D(7), of ?ns] have "?n \<notin> accepted_set p'" unfolding laws(2) ns by auto
  ultimately have "first_gap (accepted_set p') = ?n" by (intro first_gap_unique finite_accepted)
  then show ?thesis using recv_wf_gap [OF laws(1)] by simp
qed

lemma session_resend:
  assumes inv: "session_inv s"
    and run: "receive_all (unacked_packets s) (sn_recv_window (ss_receiver s)) = (out, p')"
  shows "map re_payload (ss_output s @ out) = map snd (ss_sent s)"
    and "unat (rw_next_expected p') = Suc (length (ss_sent s))"
proof -
  let ?w = "sn_send_window (ss_sender s)" and ?p = "sn_recv_window (ss_receiver s)"
  let ?n = "unat (sw_next_sequence ?w)"
  note D = session_invD [OF inv]
  have sent: "map (\<lambda>a. unat (fst a)) (ss_sent s) = [1..<?n]" using D(5) by (simp add: sent_numbered_def)
  have n0: "1 \<le> ?n" using D(5) by (simp add: sent_numbered_def Suc_le_eq unat_gt_0)
  have small: "\<forall>a\<in>set (unacked_packets s). unat (fst a) < 4294967295"
    using sent_number_small(2) [OF D(5)] by (auto simp: unacked_packets_def)
  from receive_all_laws [OF D(2) small D(3) run] have laws:
    "unat (rw_next_expected ?p) \<le> unat (rw_next_expected p')"
    "map (\<lambda>e. unat (re_sequence e)) out = [unat (rw_next_expected ?p)..<unat (rw_next_expected p')]"
    "set out \<subseteq> entry_of ` set (unacked_packets s) \<union> snd ` set (rw_reorder ?p)"
    by simp_all
  note next' = resend_reaches_next [OF inv run]
  have len: "length (ss_sent s) = ?n - 1" using arg_cong [OF sent, of length] by simp
  then show "unat (rw_next_expected p') = Suc (length (ss_sent s))" using next' n0 by simp
  have "1 \<le> unat (rw_next_expected ?p)" using D(2) by (simp add: recv_wf_def Suc_le_eq unat_gt_0)
  from upt_join [OF this laws(1)] have join: "map (\<lambda>e. unat (re_sequence e)) (ss_output s @ out) = [1..<?n]"
    using D(9) laws(2) next' by simp
  have "set (unacked_packets s) \<subseteq> set (ss_sent s)" by (auto simp: unacked_packets_def)
  then have "entry_of ` set (unacked_packets s) \<subseteq> entry_of ` set (ss_sent s)" by (rule image_mono)
  with laws(3) D(10) have "set (ss_output s @ out) \<subseteq> entry_of ` set (ss_sent s)"
    by (simp add: Un_subset_iff) (meson Un_least order_trans)
  from output_prefix(1) [OF sent join this] have "ss_output s @ out = map entry_of (ss_sent s)"
    using arg_cong [OF join, of length] len by simp
  from arg_cong [OF this, of "map re_payload"] show "map re_payload (ss_output s @ out) = map snd (ss_sent s)"
    by (simp add: comp_def entry_payload)
qed

end
