(* ===== verification/Stream_Samples.thy ===== *)
theory Stream_Samples
  imports Stream_Handshake Stream_Session
begin

section \<open>Sample streaming endpoints\<close>

text \<open>
  Concrete instances of the parameters and states of the streaming layer, on which the properties are
  instantiated: a self-delimiting encoding in place of deflate, a signature scheme that accepts one
  constant signature, two identities, and a connection that is open.
\<close>

definition doubled :: "bytes \<Rightarrow> bytes" where
  "doubled bs = concat (map (\<lambda>b. [1, b]) bs) @ [0]"

fun undoubled :: "bytes \<Rightarrow> bytes" where
  "undoubled (t # b # bs) = (if t = 1 then b # undoubled bs else [])"
| "undoubled _ = []"

definition sample_deflate :: "bytes \<Rightarrow> bytes" where
  "sample_deflate bs = (if length bs < 256 ^ 8 then 0 # be_encode 8 (length bs) @ bs else 1 # doubled bs)"

definition sample_inflate :: "bytes \<Rightarrow> bytes list \<times> string option \<times> nat" where
  "sample_inflate input =
     (case input of
        [] \<Rightarrow> ([], Some ''empty'', 0)
      | t # rest \<Rightarrow>
          if t = 0 then ([take (be_decode (take 8 rest)) (drop 8 rest)], None, 9 + be_decode (take 8 rest))
          else ([undoubled rest], None, 2 + 2 * length (undoubled rest)))"

lemma undoubled_doubled: "undoubled (doubled bs @ rest) = bs"
proof (induction bs)
  case Nil
  then show ?case by (cases rest) (simp_all add: doubled_def)
qed (simp add: doubled_def)

lemma length_doubled: "length (doubled bs) = 2 * length bs + 1"
  by (induction bs) (simp_all add: doubled_def)

lemma sample_inflates: "inflates sample_deflate sample_inflate"
  by (auto simp: inflates_def sample_inflate_def sample_deflate_def undoubled_doubled length_doubled be_decode_encode)

definition sample_env :: StreamEnv where
  "sample_env =
     \<lparr>env_sha256 = \<lambda>bs. replicate 32 (hd bs), env_ed25519_sign = \<lambda>seed message. replicate 64 5,
      env_ed25519_verify = \<lambda>key message signature. signature = replicate 64 5, env_deflate = sample_deflate\<rparr>"

lemma sample_env_ok: "env_ok sample_env sample_inflate"
  by (simp add: env_ok_def sample_env_def sample_inflates sample_deflate_def packet_limits)

definition sample_identity :: "u8 \<Rightarrow> DestinationIdentity" where
  "sample_identity n =
     \<lparr>di_destination = \<lparr>dest_keys =
        \<lparr>kac_public_key = \<lparr>pk_key_type = ElGamal, pk_bytes = replicate 256 n\<rparr>,
         kac_signing_key = \<lparr>sk_key_type = EdDsaSha512Ed25519, sk_bytes = replicate 32 n\<rparr>,
         kac_padding = replicate 96 0,
         kac_certificate = CertKey \<lparr>kc_signing_type = EdDsaSha512Ed25519, kc_crypto_type = ElGamal,
           kc_excess_signing = [], kc_excess_crypto = []\<rparr>\<rparr>\<rparr>,
      di_signing_seed = [n]\<rparr>"

lemma sample_identity_ok: "identity_ok sample_env (sample_identity n)"
proof -
  have "destination_ok (di_destination (sample_identity n))"
    by (simp add: destination_ok_def identity_keys_ok_def key_and_cert_ok_def public_key_ok_def signing_key_ok_def
        key_certificate_ok_def key_and_cert_validate_def checked_sub_def common_limits sample_identity_def)
  moreover have "length (destination_wire (di_destination (sample_identity n))) \<le> 900"
    by (simp add: destination_wire_def key_and_cert_wire_def key_area_def certificate_wire_def sample_identity_def
        key_certificate_encode_payload_def)
  ultimately show ?thesis
    by (simp add: identity_ok_def Let_def sample_env_def destination_signing_key_def) (simp add: sample_identity_def)
qed

definition sample_config :: StreamingConfig where
  "sample_config =
     \<lparr>sc_max_streams_per_destination = 64, sc_max_inbound_pending = 32, sc_max_outbound_pending = 32,
      sc_max_listener_backlog = 16, sc_max_send_window_packets = 64, sc_max_recv_window_packets = 64,
      sc_max_unacked_packets = 128, sc_max_retransmit_count = 8, sc_setup_timeout_ms = 30000,
      sc_idle_timeout_ms = 300000, sc_close_timeout_ms = 10000, sc_delayed_ack_ms = 750,
      sc_max_pre_syn_buffer = 4\<rparr>"

lemma sample_config_balanced: "streaming_balanced = Inr sample_config"
  by (simp add: streaming_balanced_def streaming_config_try_new_def stream_limits sample_config_def)

lemma sample_config_within: "config_within sample_config"
  by (simp add: config_within_def sample_config_def)

definition sample_unacked :: "u32 \<Rightarrow> nat \<Rightarrow> UnackedEntry" where
  "sample_unacked sequence payload_len =
     \<lparr>ue_sequence = sequence, ue_payload_len = payload_len, ue_sent_at_ms = 0, ue_retransmit_count = 0\<rparr>"

definition sample_send_window :: SendWindowPolicy where
  "sample_send_window = (send_window_new (send_window_config_from sample_config))
     \<lparr>sw_unacked := [(1, sample_unacked 1 3), (2, sample_unacked 2 5), (3, sample_unacked 3 7)],
      sw_next_sequence := 4, sw_unacked_bytes := 15\<rparr>"

lemma sample_send_window_wf: "send_wf sample_send_window"
  by (simp add: send_wf_def sample_send_window_def send_window_new_def send_window_config_from_def sample_config_def
      sample_unacked_def bt_sum_def bt_wf_Cons MAX_PACKET_PAYLOAD_BYTES_def MAX_STREAMING_PAYLOAD_BYTES_def
      usize_limit_def)

definition sample_manager :: StreamingManager where
  "sample_manager = manager_new sample_config"

definition sample_listening :: StreamingManager where
  "sample_listening = snd (listen 80 sample_manager)"

lemma sample_can_allocate: "can_allocate sample_manager" "can_allocate sample_listening"
  by (simp_all add: can_allocate_def stream_id_used_def bt_contains_def sample_manager_def sample_listening_def
      listen_def manager_new_def sample_config_def bt_values_def)

lemma sample_listener:
  "bt_get (sm_listeners sample_listening) 80 = Some []" "sm_config sample_listening = sample_config"
  by (simp_all add: sample_listening_def sample_manager_def listen_def manager_new_def sample_config_def
      bt_values_def bt_contains_def bt_get_def)

text \<open>An open connection, as the handshake leaves it, and a manager that holds it.\<close>

definition sample_connection :: StreamingConnection where
  "sample_connection = (new_outbound (ConnectionId 1) sample_config 0x80000000 7
     (destination_signing_key (di_destination (sample_identity 2))) (replicate 32 2) 1000 80 0)
     \<lparr>sn_state := Established\<rparr>"

definition sample_open :: StreamingManager where
  "sample_open = sample_manager\<lparr>sm_connections := [(ConnectionId 1, sample_connection)],
     sm_outbound_by_stream := [(0x80000000, ConnectionId 1)], sm_next_connection_id := 2,
     sm_next_inbound_stream_id := 0x80000001\<rparr>"

text \<open>A session in which two packets were sent and only the second has arrived.\<close>

definition sample_sender :: StreamingConnection where
  "sample_sender = snd (enqueue_send 1 5 (snd (enqueue_send 2 0 sample_connection)))"

definition sample_receiver :: StreamingConnection where
  "sample_receiver = snd (receive_packet 2 [20] 9 sample_connection)"

definition sample_session :: StreamSession where
  "sample_session = \<lparr>ss_sender = sample_sender, ss_receiver = sample_receiver,
     ss_sent = [(1, [10, 11]), (2, [20])], ss_output = [], ss_acks = []\<rparr>"

lemmas sample_connection_defs = sample_connection_def new_outbound_def connection_new_def sample_config_def
  send_window_new_def send_window_config_from_def recv_window_new_def recv_window_config_from_def
  congestion_new_def congestion_config_from_def FIRST_APPLICATION_SEQUENCE_def
  FIRST_EXPECTED_APPLICATION_SEQUENCE_def

lemmas sample_send_eval = enqueue_send_def congestion_evaluate_def send_window_evaluate_def
  send_window_enqueue_def record_sent_def saturating_add_def usize_limit_def
  MAX_PACKET_PAYLOAD_BYTES_def MAX_STREAMING_PAYLOAD_BYTES_def INITIAL_CONGESTION_WINDOW_def
  word_sat_sub_def word_sat_add_def min_def Let_def

lemma sample_windows:
  "sn_send_window sample_connection = send_window_new (send_window_config_from sample_config)"
  "sn_recv_window sample_connection = recv_window_new (recv_window_config_from sample_config)"
  by (simp_all add: sample_connection_def new_outbound_def connection_new_def)

lemma sample_session_reachable: "session_step\<^sup>*\<^sup>* (session_start sample_connection sample_connection) sample_session"
proof -
  let ?c1 = "snd (enqueue_send 2 0 sample_connection)"
  let ?s0 = "session_start sample_connection sample_connection"
  let ?s1 = "?s0\<lparr>ss_sender := ?c1, ss_sent := [(1, [10, 11])]\<rparr>"
  let ?s2 = "?s1\<lparr>ss_sender := sample_sender, ss_sent := [(1, [10, 11]), (2, [20])]\<rparr>"
  have "enqueue_send 2 0 sample_connection = (Inr 1, ?c1)"
    by (simp add: sample_send_eval sample_connection_defs Let_def)
  then have "session_step ?s0 ?s1"
    using session_step.Send [of "[10, 11]" 0 ?s0 1 ?c1] by (simp add: session_start_def numeral_2_eq_2)
  moreover have "enqueue_send 1 5 ?c1 = (Inr 2, sample_sender)"
    by (simp add: sample_sender_def sample_send_eval sample_connection_defs Let_def)
  then have "session_step ?s1 ?s2"
    using session_step.Send [of "[20]" 5 ?s1 2 sample_sender] by (simp add: session_start_def)
  moreover have "fst (receive 2 [20] (sn_recv_window sample_connection)) = Buffered 2"
    by (simp add: sample_windows receive_def recv_window_new_def recv_window_config_from_def sample_config_def
        FIRST_EXPECTED_APPLICATION_SEQUENCE_def word_sat_add_def Let_def)
  then have "receive_packet 2 [20] 9 sample_connection = (Inr (Buffered 2), sample_receiver)"
    by (cases "receive 2 [20] (sn_recv_window sample_connection)") (simp add: sample_receiver_def receive_packet_def)
  then have "session_step ?s2 sample_session"
    using session_step.Arrive [of 2 "[20]" ?s2 9 "Buffered 2" sample_receiver]
    by (simp add: session_start_def sample_session_def)
  ultimately show ?thesis by (meson converse_rtranclp_into_rtranclp rtranclp.rtrancl_refl)
qed

end
