(* ===== verification/Stream_Properties.thy ===== *)
theory Stream_Properties
  imports Stream_Samples
begin

section \<open>Properties of the streaming layer\<close>

text \<open>
  The properties of \<open>i2pr-client/src/streaming\<close> and of its packet codec in i2pr-proto. Each rests on
  the laws of its component: the windows (\<open>Stream_Recv_Laws\<close>, \<open>Stream_Send_Laws\<close>), the two windows
  together (\<open>Stream_Session\<close>), the packets (\<open>Stream_Packet_Laws\<close>, \<open>Stream_Handshake\<close>) and the manager
  (\<open>Stream_Manager_Laws\<close>, \<open>Stream_Machine\<close>).
\<close>

subsection \<open>Two connections\<close>

text \<open>
  C3. Whatever the network does with the packets and the acknowledgements of a connection - loses,
  repeats, reorders or delays them - the payloads the receiver has released are, in order and without
  repetition, the first payloads that were sent; and every packet that was sent is still tracked by
  the sender or has been accepted by the receiver, so no acknowledgement drops a packet that is missing.
\<close>

theorem stream_reliable:
  assumes "session_step\<^sup>*\<^sup>* (session_start sender receiver) s"
    and "sn_send_window sender = send_window_new (send_window_config_from config)"
    and "sn_recv_window receiver = recv_window_new (recv_window_config_from config')"
    and "config_within config'"
  shows "map re_payload (ss_output s) = take (length (ss_output s)) (map snd (ss_sent s))
    \<and> (\<forall>(seq, payload)\<in>set (ss_sent s).
         bt_contains (sw_unacked (sn_send_window (ss_sender s))) seq
         \<or> unat seq \<in> accepted_set (sn_recv_window (ss_receiver s)))"
proof -
  have inv: "session_inv s" by (rule session_reachable_inv [OF assms(1) session_start_inv [OF assms(2-4)]])
  then show ?thesis using session_output_prefix session_no_loss by blast
qed

theorem stream_reliable_witness:
  "map re_payload (ss_output sample_session) = take (length (ss_output sample_session)) [[10, 11], [20]]
    \<and> (bt_contains (sw_unacked (sn_send_window (ss_sender sample_session))) 2
       \<or> 2 \<in> accepted_set (sn_recv_window (ss_receiver sample_session)))"
proof -
  have sent: "map snd (ss_sent sample_session) = [[10, 11], [20]]" "(2, [20]) \<in> set (ss_sent sample_session)"
    by (simp_all add: sample_session_def)
  note r = stream_reliable [OF sample_session_reachable sample_windows sample_config_within]
  from r [THEN conjunct1] r [THEN conjunct2, rule_format, OF sent(2)] show ?thesis by (simp add: sent(1))
qed

text \<open>
  C7. A stream recovers from any loss: in every state two connections can reach, handing the receiver
  the packets the sender still tracks releases exactly the payloads that were sent and not yet
  released, and leaves nothing missing.
\<close>

theorem stream_recovers:
  assumes "session_step\<^sup>*\<^sup>* (session_start sender receiver) s"
    and "sn_send_window sender = send_window_new (send_window_config_from config)"
    and "sn_recv_window receiver = recv_window_new (recv_window_config_from config')"
    and "config_within config'"
    and "receive_all (unacked_packets s) (sn_recv_window (ss_receiver s)) = (out, p)"
  shows "map re_payload (ss_output s @ out) = map snd (ss_sent s)
    \<and> unat (rw_next_expected p) = Suc (length (ss_sent s))"
  using session_resend [OF session_reachable_inv [OF assms(1) session_start_inv [OF assms(2-4)]] assms(5)] by simp

theorem stream_recovers_witness:
  "map re_payload (ss_output sample_session @ fst (receive_all (unacked_packets sample_session)
       (sn_recv_window (ss_receiver sample_session)))) = [[10, 11], [20]]"
  using stream_recovers [OF sample_session_reachable sample_windows sample_config_within prod.collapse [symmetric]]
  by (simp add: sample_session_def)

subsection \<open>The handshake\<close>

text \<open>
  C4. The handshake opens a connection on both sides. A manager that can allocate a stream identifier
  connects to a listening one: the SYN it queues is accepted by the listener's manager, accepting it
  gives a response, and with that response both connections are established, each addressing the
  other's stream identifier, with the smaller of the two advertised payload sizes; the payload that
  came with the SYN is delivered. Signatures, envelopes and packets go through their codecs. The
  hypotheses are that compression and Ed25519 work, and that there is room.
\<close>

theorem handshake_opens:
  assumes "env_ok env inflate" "identity_ok env alice" "identity_ok env bob"
    and "can_allocate ma" "can_allocate mb"
    and "length (sm_connections ma) < unat (sc_max_streams_per_destination (sm_config ma))"
    and "bt_get (sm_listeners mb) port = Some queue"
    and "length queue < unat (sc_max_listener_backlog (sm_config mb))"
    and "length payload \<le> unat advertised" "length payload \<le> unat DEFAULT_ADVERTISED_MAX_PAYLOAD"
  shows "\<exists>syn response ma1 ma2 mb1 mb2 obs1 obs2 ca cb.
      connect_with_initial_payload env alice (remote_of env bob) own port advertised payload t1 ma
        = Some (Inr (SynSent (next_cid ma) 0 (sm_next_inbound_stream_id ma)), ma1)
    \<and> sm_outbound_queue ma1 = sm_outbound_queue ma @ [syn]
    \<and> process_inbound_envelope env inflate (ts_application_payload syn) from_alice bob own port t2 mb
        = Returns (Inr obs1, mb1)
    \<and> wo_connection_id obs1 = Some (next_cid mb)
    \<and> accept_inbound_syn env bob (remote_of env alice) (next_cid mb) port own advertised' t3 mb1 = (Inr response, mb2)
    \<and> process_inbound_envelope env inflate (ts_application_payload response) from_bob alice port own t4 ma1
        = Returns (Inr obs2, ma2)
    \<and> bt_get (sm_connections ma2) (next_cid ma) = Some ca \<and> bt_get (sm_connections mb2) (next_cid mb) = Some cb
    \<and> sn_state ca = Established \<and> sn_state cb = Established
    \<and> sn_remote_stream_id ca = sn_local_stream_id cb \<and> sn_remote_stream_id cb = sn_local_stream_id ca
    \<and> sn_max_payload_size ca = min (ucast advertised) (ucast advertised')
    \<and> sn_max_payload_size cb = sn_max_payload_size ca
    \<and> (payload \<noteq> [] \<longrightarrow> sm_pending_delivered mb2
         = sm_pending_delivered mb @ [\<lparr>da_connection_id = next_cid mb, da_bytes = payload\<rparr>])"
proof -
  let ?a = "sm_next_inbound_stream_id ma" and ?b = "sm_next_inbound_stream_id mb"
  have ids: "?a \<noteq> 0" "?b \<noteq> 0" using assms(4,5) by (simp_all add: can_allocate_def)
  have small: "length payload \<le> MAX_STREAMING_PAYLOAD_BYTES"
    using assms(10) by (simp add: DEFAULT_ADVERTISED_MAX_PAYLOAD_def packet_limits)
  obtain syn ma1 sig where syn:
    "connect_with_initial_payload env alice (remote_of env bob) own port advertised payload t1 ma
       = Some (Inr (SynSent (next_cid ma) 0 ?a), ma1)"
    "sm_outbound_queue ma1 = sm_outbound_queue ma @ [syn]"
    "\<forall>fh identity' t n. process_inbound_envelope env inflate (ts_application_payload syn) fh identity' own port t n
       = process_inbound_packet env (syn_wire env alice bob ?a advertised sig payload) fh identity' own port t n"
    "sig = env_ed25519_sign env (di_signing_seed alice) (syn_wire env alice bob ?a advertised (replicate 64 0) payload)"
    "bt_get (sm_connections ma1) (next_cid ma) = Some ((new_outbound (next_cid ma) (sm_config ma) ?a 0
       (rd_signing_public_key (remote_of env bob)) (rd_destination_hash (remote_of env bob)) own port t1)
         \<lparr>sn_local_advertised_max_payload := advertised\<rparr>)"
    "bt_get (sm_outbound_by_stream ma1) ?a = Some (next_cid ma)"
    by (rule connect_sends_syn [OF assms(1,2,4,6,9) small refl])
  obtain obs1 mb1 response mb2 cb sig' where answer:
    "process_inbound_packet env (syn_wire env alice bob ?a advertised sig payload) from_alice bob own port t2 mb
       = Returns (Inr obs1, mb1)"
    "wo_connection_id obs1 = Some (next_cid mb)"
    "accept_inbound_syn env bob (remote_of env alice) (next_cid mb) port own advertised' t3 mb1 = (Inr response, mb2)"
    "\<forall>fh identity' t n. process_inbound_envelope env inflate (ts_application_payload response) fh identity' port own t n
       = process_inbound_packet env (response_wire bob ?a ?b advertised' sig') fh identity' port own t n"
    "sig' = env_ed25519_sign env (di_signing_seed bob) (response_wire bob ?a ?b advertised' (replicate 64 0))"
    "bt_get (sm_connections mb2) (next_cid mb) = Some cb" "open_connection cb ?b ?a advertised' advertised"
    "payload \<noteq> [] \<longrightarrow> sm_pending_delivered mb2
       = sm_pending_delivered mb @ [\<lparr>da_connection_id = next_cid mb, da_bytes = payload\<rparr>]"
    by (rule listener_answers [OF assms(1-3,10) syn(4) ids(1) assms(5,7,8) refl])
  obtain obs2 ma2 ca where opened:
    "process_inbound_packet env (response_wire bob ?a ?b advertised' sig') from_bob alice port own t4 ma1
       = Returns (Inr obs2, ma2)"
    "bt_get (sm_connections ma2) (next_cid ma) = Some ca" "open_connection ca ?a ?b advertised advertised'"
    by (rule process_own_response [OF assms(1,3) ids answer(5) syn(6,5),
          where own_advertised = advertised and lp = port and rp = own])
      (simp_all add: new_outbound_def connection_new_def)
  have syn_in: "process_inbound_envelope env inflate (ts_application_payload syn) from_alice bob own port t2 mb
      = Returns (Inr obs1, mb1)"
    using syn(3) answer(1) by simp
  have response_in: "process_inbound_envelope env inflate (ts_application_payload response) from_bob alice port own t4 ma1
      = Returns (Inr obs2, ma2)"
    using answer(4) opened(1) by simp
  have ends: "sn_state ca = Established" "sn_state cb = Established" "sn_remote_stream_id ca = sn_local_stream_id cb"
    "sn_remote_stream_id cb = sn_local_stream_id ca" "sn_max_payload_size ca = min (ucast advertised) (ucast advertised')"
    "sn_max_payload_size cb = sn_max_payload_size ca"
    using answer(7) opened(3) by (simp_all add: open_connection_def min.commute)
  show ?thesis
    by (intro exI conjI; (rule syn(1) syn(2) syn_in answer(2) answer(3) response_in opened(2) answer(6) ends answer(8)))
qed

theorem handshake_opens_witness:
  "\<exists>ma1 mb1 mb2 syn response obs1.
      connect_with_initial_payload sample_env (sample_identity 1) (remote_of sample_env (sample_identity 2)) 1000 80 1500 [42] 0
        sample_manager = Some (Inr (SynSent (ConnectionId 1) 0 0x80000000), ma1)
    \<and> sm_outbound_queue ma1 = [syn]
    \<and> process_inbound_envelope sample_env sample_inflate (ts_application_payload syn) [] (sample_identity 2) 1000 80 1
        sample_listening = Returns (Inr obs1, mb1)
    \<and> accept_inbound_syn sample_env (sample_identity 2) (remote_of sample_env (sample_identity 1)) (ConnectionId 1)
        80 1000 1812 2 mb1 = (Inr response, mb2)
    \<and> sm_pending_delivered mb2 = [\<lparr>da_connection_id = ConnectionId 1, da_bytes = [42]\<rparr>]"
proof -
  have start: "sm_connections sample_manager = []" "sm_config sample_manager = sample_config"
    "next_cid sample_manager = ConnectionId 1" "sm_next_inbound_stream_id sample_manager = 0x80000000"
    "sm_outbound_queue sample_manager = []" "next_cid sample_listening = ConnectionId 1"
    "sm_pending_delivered sample_listening = []"
    by (simp_all add: sample_listening_def sample_manager_def listen_def manager_new_def next_cid_def bt_values_def
        sample_config_def)
  have "length (sm_connections sample_manager) < unat (sc_max_streams_per_destination (sm_config sample_manager))"
    "length ([] :: ConnectionId list) < unat (sc_max_listener_backlog (sm_config sample_listening))"
    "length [42 :: u8] \<le> unat (1500 :: u16)" "length [42 :: u8] \<le> unat DEFAULT_ADVERTISED_MAX_PAYLOAD"
    by (simp_all add: start sample_listener sample_config_def DEFAULT_ADVERTISED_MAX_PAYLOAD_def)
  note h = handshake_opens [OF sample_env_ok sample_identity_ok [of 1] sample_identity_ok [of 2] sample_can_allocate
      this(1) sample_listener(1) this(2-4), of 1000 0 "[]" 1 1812 2 "[]" 3, unfolded start]
  then show ?thesis by simp blast
qed

subsection \<open>The windows\<close>

text \<open>
  C6. The receive window refines an abstract receiver that is only the set of accepted sequence
  numbers, with the SYN's number 0 in it: a packet adds its number when that is less than a window
  above the lowest missing number. After any arrivals the window's state is that set, the released
  payloads are those of the arrivals numbered 1 up to the lowest missing number, in order, the
  reorder buffer is smaller than the window, and the acknowledgement view denotes exactly the set.
\<close>

theorem receiver_refines:
  assumes "receive_all arrivals (recv_window_new (recv_window_config_from config)) = (out, p)"
    and "config_within config" and "\<forall>a\<in>set arrivals. unat (fst a) < 2 ^ 32 - 1"
    and "ack_view p = (ack, nacks)"
  shows "accepted_set p = fold (abs_receive (unat (sc_max_recv_window_packets config))) (map (\<lambda>a. unat (fst a)) arrivals) {0}
    \<and> map (\<lambda>e. unat (re_sequence e)) out = [1..<first_gap (accepted_set p)]
    \<and> set out \<subseteq> entry_of ` set arrivals
    \<and> length (rw_reorder p) < unat (sc_max_recv_window_packets config)
    \<and> accepted_set p = {..unat ack} - unat ` set nacks"
proof -
  let ?p = "recv_window_new (recv_window_config_from config)"
  have c: "rwc_max_window_packets (rw_config ?p) = sc_max_recv_window_packets config"
    by (simp add: recv_window_new_def recv_window_config_from_def)
  have window: "sc_max_recv_window_packets config \<noteq> 0" "unat (sc_max_recv_window_packets config) \<le> 256"
    using assms(2) by (auto simp: config_within_def)
  have "0 < unat (sc_max_recv_window_packets config)" using window(1) by (simp add: unat_gt_0)
  moreover have "unat (rw_next_expected ?p) = 1" by (simp add: recv_window_new_def FIRST_EXPECTED_APPLICATION_SEQUENCE_def)
  moreover have "rw_reorder ?p = []" by (simp add: recv_window_new_def)
  moreover note receive_all_laws [OF recv_new_wf, of arrivals "recv_window_config_from config" out p, unfolded c]
  ultimately show ?thesis
    using assms(1,3) window reorder_bounded [of p] recv_wf_gap [of p] ack_view_exact(1) [of p ack nacks] assms(4)
    by (auto simp: accepted_new c)
qed

theorem receiver_refines_witness:
  "accepted_set (snd (receive_all [(2, [20]), (1, [10])] (recv_window_new (recv_window_config_from sample_config))))
     = fold (abs_receive 64) [2, 1] {0}"
proof -
  let ?r = "receive_all [(2, [20]), (1, [10])] (recv_window_new (recv_window_config_from sample_config))"
  show ?thesis
    using receiver_refines [OF prod.collapse [symmetric] sample_config_within _ prod.collapse [symmetric], of "[(2, [20]), (1, [10])]"]
    by (simp add: sample_config_def)
qed

text \<open>
  C33. \<open>acknowledge\<close> equals its specification: an acknowledgement below the last one changes nothing;
  any other splits the tracked packets by one predicate - at or below the acknowledgement and not
  reported missing below it - into those it clears and returns and those it keeps, and the byte
  counter is the size of what is kept.
\<close>

theorem acknowledge_exact:
  assumes "send_wf w"
  shows "acknowledge ack nacks w = acknowledge_spec ack nacks w"
  by (rule acknowledge_spec_eq [OF assms])

theorem acknowledge_exact_witness:
  "acknowledge 2 [1] sample_send_window =
     (\<lparr>ao_newly_acked = [sample_unacked 2 5], ao_retained_nacks = [1], ao_duplicate_ack = False\<rparr>,
      sample_send_window\<lparr>sw_unacked := [(1, sample_unacked 1 3), (3, sample_unacked 3 7)], sw_unacked_bytes := 10\<rparr>)"
proof -
  have "{n. n = 1 \<and> n < (2 :: u32)} = {1}" by auto
  then show ?thesis
    unfolding acknowledge_exact [OF sample_send_window_wf]
    by (simp add: acknowledge_spec_def sample_send_window_def send_window_new_def clears_def Let_def bt_retain_def
        bt_keys_def bt_sum_def sample_unacked_def word_sat_sub_def)
qed

text \<open>
  C34. The send window keeps its bounds under any sequence of operations that numbers fewer than
  \<open>2 ^ 32 - 1\<close> packets: it tracks at most the configured packets and bytes, its byte counter is the
  size of what it tracks, and every tracked number was assigned and is below the next one.
\<close>

theorem send_window_stays_bounded:
  assumes "length events < 2 ^ 32 - 1"
    and "w = fold send_step events (send_window_new (send_window_config_from config))"
  shows "length (sw_unacked w) \<le> unat (swc_max_window_packets (sw_config w))
    \<and> sw_unacked_bytes w \<le> swc_max_window_bytes (sw_config w)
    \<and> sw_unacked_bytes w = bt_sum ue_payload_len (sw_unacked w)
    \<and> (\<forall>k. bt_contains (sw_unacked w) k \<longrightarrow> k < sw_next_sequence w)"
proof -
  let ?w = "send_window_new (send_window_config_from config)"
  have "numbered ?w" "unat (sw_next_sequence ?w) + length events < 2 ^ 32"
    using assms(1) by (simp_all add: numbered_def send_window_new_def FIRST_APPLICATION_SEQUENCE_def)
  from send_run_wf [OF send_new_wf this] show ?thesis
    unfolding assms(2) [symmetric] by (auto simp: send_wf_def numbered_def bt_contains_keys bt_keys_def)
qed

theorem send_window_stays_bounded_witness:
  "sw_unacked_bytes (fold send_step [EnqueueEvent 3 0, EnqueueEvent 5 1, AckEvent 2 [1]]
     (send_window_new (send_window_config_from sample_config)))
   = bt_sum ue_payload_len (sw_unacked (fold send_step [EnqueueEvent 3 0, EnqueueEvent 5 1, AckEvent 2 [1]]
     (send_window_new (send_window_config_from sample_config))))"
  using send_window_stays_bounded [OF _ refl, of "[EnqueueEvent 3 0, EnqueueEvent 5 1, AckEvent 2 [1]]" sample_config]
  by (simp del: send_step.simps fold_simps)

subsection \<open>The manager\<close>

text \<open>
  C35. The tables of a manager stay consistent under every sequence of its operations, hostile packets
  included: a stream identifier leads to a connection that exists and has that identifier and that
  direction, no two connections share an identifier, the byte counter of a connection is the size of
  its undrained delivered bytes, and processing an inbound packet never panics.
\<close>

theorem manager_stays_consistent:
  assumes "manager_run env config m"
  shows "(\<forall>d sid cid. bt_get (stream_table d m) sid = Some cid \<longrightarrow>
      (\<exists>c. bt_get (sm_connections m) cid = Some c \<and> sn_local_stream_id c = sid \<and> sn_direction c = d))
    \<and> (\<forall>cid c cid' c'. bt_get (sm_connections m) cid = Some c \<longrightarrow> bt_get (sm_connections m) cid' = Some c' \<longrightarrow>
         sn_local_stream_id c = sn_local_stream_id c' \<longrightarrow> cid = cid')
    \<and> (\<forall>cid. pending_bytes_for m cid = held_bytes (sm_pending_delivered m) cid)
    \<and> process_inbound_packet env wire from_hash identity source_port destination_port now m \<noteq> Panics"
proof -
  have inv: "tables_ok m" "accounted m" using manager_run_inv [OF assms] by (simp_all add: manager_inv_def)
  have "cid = cid'" if "bt_get (sm_connections m) cid = Some c" "bt_get (sm_connections m) cid' = Some c'"
      "sn_local_stream_id c = sn_local_stream_id c'" for cid c cid' c'
    using tables_okD(4) [OF inv(1), of cid "endpoint c" cid' "endpoint c'"] that
    by (simp add: endpoints_def endpoint_def)
  moreover have "pending_bytes_for m cid = held_bytes (sm_pending_delivered m) cid" for cid
    using inv(2) by (simp add: accounted_entry pending_bytes_for_def held_entry_def)
  ultimately show ?thesis using routed_exists [OF inv(1)] process_no_panic [OF inv(1)] by blast
qed

lemma creates_frame:
  "creates m m' \<Longrightarrow> sm_pending_delivered m' = sm_pending_delivered m
     \<and> sm_next_connection_id m' \<in> {sm_next_connection_id m, word_sat_add (sm_next_connection_id m) 1}"
  unfolding creates_def registered_def register_def
  by (elim disjE exE conjE, simp, simp add: calm_def bumped_def, rename_tac d c, case_tac d)
    (simp_all add: calm_def bumped_def set_connection_def Let_def)

lemma sample_connects:
  obtains m c where
    "connect_with_initial_payload sample_env (sample_identity 1) (remote_of sample_env (sample_identity 2)) 1000 80 1500 [] 0
       sample_manager = Some (Inr (SynSent (ConnectionId 1) 0 0x80000000), m)"
    "manager_run sample_env sample_config m" "bt_get (sm_outbound_by_stream m) 0x80000000 = Some (ConnectionId 1)"
    "bt_get (sm_connections m) (ConnectionId 1) = Some c"
    "c = (new_outbound (ConnectionId 1) sample_config 0x80000000 0 (rd_signing_public_key (remote_of sample_env (sample_identity 2)))
       (rd_destination_hash (remote_of sample_env (sample_identity 2))) 1000 80 0)\<lparr>sn_local_advertised_max_payload := 1500\<rparr>"
proof -
  have start: "sm_connections sample_manager = []" "sm_config sample_manager = sample_config"
    "next_cid sample_manager = ConnectionId 1" "sm_next_inbound_stream_id sample_manager = 0x80000000"
    by (simp_all add: sample_manager_def manager_new_def next_cid_def)
  have room: "length (sm_connections sample_manager) < unat (sc_max_streams_per_destination (sm_config sample_manager))"
    "length ([] :: bytes) \<le> unat (1500 :: u16)" "length ([] :: bytes) \<le> MAX_STREAMING_PAYLOAD_BYTES"
    by (simp_all add: start sample_config_def)
  obtain syn m sig where c:
      "connect_with_initial_payload sample_env (sample_identity 1) (remote_of sample_env (sample_identity 2)) 1000 80 1500 [] 0
       sample_manager = Some (Inr (SynSent (next_cid sample_manager) 0 0x80000000), m)"
      "sm_outbound_queue m = sm_outbound_queue sample_manager @ [syn]"
      "\<forall>fh identity' t n. process_inbound_envelope sample_env sample_inflate (ts_application_payload syn) fh identity' 1000 80 t n
        = process_inbound_packet sample_env (syn_wire sample_env (sample_identity 1) (sample_identity 2) 0x80000000 1500 sig []) fh identity' 1000 80 t n"
      "sig = env_ed25519_sign sample_env (di_signing_seed (sample_identity 1))
        (syn_wire sample_env (sample_identity 1) (sample_identity 2) 0x80000000 1500 (replicate 64 0) [])"
      "bt_get (sm_connections m) (next_cid sample_manager) = Some ((new_outbound (next_cid sample_manager) (sm_config sample_manager)
         0x80000000 0 (rd_signing_public_key (remote_of sample_env (sample_identity 2)))
         (rd_destination_hash (remote_of sample_env (sample_identity 2))) 1000 80 0)\<lparr>sn_local_advertised_max_payload := 1500\<rparr>)"
      "bt_get (sm_outbound_by_stream m) 0x80000000 = Some (next_cid sample_manager)"
    by (rule connect_sends_syn [OF sample_env_ok sample_identity_ok [of 1] sample_can_allocate(1) room start(4) [symmetric]])
  have "sm_next_connection_id m \<noteq> - 1" "sm_pending_delivered m = []"
    using creates_frame [OF connect_creates [OF c(1)]]
    by (auto simp: sample_manager_def manager_new_def word_sat_add_def)
  moreover have "manager_step sample_env sample_manager m" by (rule manager_step.Connect [OF c(1)])
  ultimately have "manager_run sample_env sample_config m"
    by (intro manager_run.Step [OF manager_run.Start]) (simp_all add: sample_manager_def pending_delivered_bytes_def usize_limit_def)
  with c(1,5,6) show ?thesis by (intro that) (simp_all add: start)
qed

theorem manager_stays_consistent_witness:
  "\<exists>m. manager_run sample_env sample_config m \<and> bt_get (stream_table OutboundStream m) 0x80000000 = Some (ConnectionId 1)
     \<and> (\<exists>c. bt_get (sm_connections m) (ConnectionId 1) = Some c \<and> sn_local_stream_id c = 0x80000000)"
proof -
  obtain m where run: "manager_run sample_env sample_config m"
      and "bt_get (sm_outbound_by_stream m) 0x80000000 = Some (ConnectionId 1)"
    by (rule sample_connects)
  then have table: "bt_get (stream_table OutboundStream m) 0x80000000 = Some (ConnectionId 1)"
    by (simp add: stream_table_def)
  with manager_stays_consistent [OF run, THEN conjunct1, rule_format, OF table] run show ?thesis by blast
qed

text \<open>
  C36. The two loops of the manager that run until the state lets them stop do stop, in every
  reachable manager with a checked configuration. Allocation returns an identifier that no stream
  uses, provided fewer than \<open>2 ^ 32\<close> are in use. The acknowledgement poll returns before the last
  millisecond the clock can count: it leaves no deadline due, and queues and returns the same
  requests, at most one for each deadline that was due.
\<close>

theorem manager_loops_return:
  assumes "manager_run env config m" "config_within (sm_config m)" "now \<noteq> - 1"
    and "length (sm_inbound_by_stream m) + length (sm_outbound_by_stream m) < 2 ^ 32"
  shows "(\<exists>sid m'. allocate_inbound_stream_id m = Some (sid, m') \<and> \<not> stream_id_used m sid)
    \<and> (\<exists>out m'. poll_acks env now m = Some (out, m') \<and> (\<forall>cid t. bt_get (sm_pending_acks m') cid = Some t \<longrightarrow> now < t)
        \<and> sm_outbound_queue m' = sm_outbound_queue m @ out \<and> length out \<le> due_acks now m)"
proof -
  have wf: "bt_wf (sm_pending_acks m)"
    using manager_run_inv [OF assms(1)] by (simp add: manager_inv_def wf_tables_def)
  have "snooze_passes now m" using assms(2,3) by (auto simp: snooze_passes_iff config_within_def)
  from poll_acks_loop_returns [OF wf this, of env "[]"] obtain out m' where
    p: "poll_acks env now m = Some (out, m')" "length out \<le> due_acks now m" "due_acks now m' = 0"
      "bt_wf (sm_pending_acks m')"
      "m' = m\<lparr>sm_pending_acks := sm_pending_acks m', sm_outbound_queue := sm_outbound_queue m @ out\<rparr>"
    by (auto simp: poll_acks_def)
  have "now < t" if "bt_get (sm_pending_acks m') cid = Some t" for cid t
    using p(3) that bt_get_retain [OF p(4), of "\<lambda>_ deadline. deadline \<le> now" cid]
    by (auto simp: due_acks_def not_le split: if_splits)
  moreover have "sm_outbound_queue m' = sm_outbound_queue m @ out" by (subst p(5)) simp
  ultimately show ?thesis using p(1,2) allocate_returns [OF assms(4)] by blast
qed

theorem manager_loops_return_witness:
  "(\<exists>sid m'. allocate_inbound_stream_id sample_manager = Some (sid, m') \<and> \<not> stream_id_used sample_manager sid)
    \<and> (\<exists>out m'. poll_acks sample_env 5 sample_manager = Some (out, m'))"
  using manager_loops_return [OF manager_run.Start [of sample_env sample_config], of 5]
  by (auto simp: sample_manager_def manager_new_def sample_config_within)

lemma set_connection_same:
  assumes "wf_tables m" "bt_get (sm_connections m) cid = Some c"
  shows "set_connection cid c m = m"
proof -
  have "bt_insert cid c (sm_connections m) = sm_connections m"
    using assms by (intro bt_ext) (auto simp: wf_tables_def bt_wf_insert bt_get_insert)
  then show ?thesis by (simp add: set_connection_def)
qed

text \<open>
  C37. Sending is all or nothing: when \<open>send_data\<close>, \<open>send_close\<close> or \<open>send_reset\<close> reports an error, the
  manager is exactly as it was - no sequence number is used, nothing is tracked or queued, and the
  connection keeps its state.
\<close>

theorem failed_send_changes_nothing:
  assumes "wf_tables m"
    and "send_data env cid remote local_port remote_port payload now m = (Inl e, m')
      \<or> send_close env cid local_dest remote local_port remote_port now m = (Inl e, m')
      \<or> send_reset env cid local_dest remote local_port remote_port now m = (Inl e, m')"
  shows "m' = m"
proof (cases "bt_get (sm_connections m) cid")
  case None
  with assms(2) show ?thesis by (auto simp: send_data_def send_close_def send_reset_def)
next
  case (Some c)
  have same: "set_connection cid c m = m" by (rule set_connection_same [OF assms(1) Some])
  have enqueue: "c' = c" if "enqueue_send (length payload) now c = (Inl e', c')" for e' c'
    using that enqueue_rejects [of "length payload" now "sn_send_window c"]
    by (auto simp: enqueue_send_def split: if_splits CongestionDecision.splits SendWindowDecision.splits
        prod.splits sum.splits)
  have reset: "c' = c" if "connection_reset now c = (Inl e', c')" for e' c'
    using that by (auto simp: connection_reset_def split: if_splits)
  from assms(2) show ?thesis
  proof (elim disjE)
    assume "send_data env cid remote local_port remote_port payload now m = (Inl e, m')"
    then show ?thesis
      by (auto simp: send_data_def Some Let_def same split: if_splits sum.splits prod.splits dest!: enqueue)
  next
    assume "send_close env cid local_dest remote local_port remote_port now m = (Inl e, m')"
    then show ?thesis by (auto simp: send_close_def Some Let_def split: if_splits sum.splits prod.splits)
  next
    assume "send_reset env cid local_dest remote local_port remote_port now m = (Inl e, m')"
    then show ?thesis
      by (auto simp: send_reset_def Some Let_def same split: if_splits sum.splits prod.splits dest!: reset)
  qed
qed

theorem failed_send_changes_nothing_witness:
  "snd (send_data sample_env (ConnectionId 1) (remote_of sample_env (sample_identity 2)) 1000 81 [1] 9 sample_open) = sample_open"
proof -
  have "send_data sample_env (ConnectionId 1) (remote_of sample_env (sample_identity 2)) 1000 81 [1] 9 sample_open
      = (Inl (PortTupleMismatch 1000 80 81 1000), sample_open)"
    by (simp add: send_data_def sample_open_def bt_get_def sample_connection_def new_outbound_def connection_new_def
        port_mismatch_def)
  moreover have "wf_tables sample_open"
    by (simp add: wf_tables_def sample_open_def sample_manager_def manager_new_def bt_wf_def)
  ultimately show ?thesis using failed_send_changes_nothing by (metis snd_conv)
qed

subsection \<open>Packets\<close>

definition builder_of :: "StreamingPacket \<Rightarrow> StreamingPacketBuilder" where
  "builder_of p =
     \<lparr>sb_send_stream_id = sp_send_stream_id p, sb_receive_stream_id = sp_receive_stream_id p,
      sb_sequence_num = sp_sequence_num p, sb_ack_through = sp_ack_through p, sb_nacks = sp_nacks p,
      sb_resend_delay = sp_resend_delay p, sb_flags = sp_flags p, sb_option_bytes = sp_option_bytes p,
      sb_payload = sp_payload p\<rparr>"

lemma close_options: "options_of identity CLOSE_FLAGS no_options"
  by (simp add: options_of_def options_match_def no_options_def has_flag_def flag_defs)

lemma parse_options_signature:
  assumes "parse_options flags option_bytes start key = Inr (options, location)"
  shows "location \<noteq> None \<longleftrightarrow> has_flag flags FLAG_SIGNATURE_INCLUDED"
    and "location = Some l \<Longrightarrow> \<exists>position. loc_offset l = start + position
      \<and> so_signature options = Some (take (loc_length l) (drop position option_bytes))
      \<and> position + loc_length l = length option_bytes"
  using assms
  by (auto simp: parse_options_def parse_signature_field_def field_at_def bindR_eq_Inr ok_or_eq_Inr
      split: if_splits prod.splits)

text \<open>
  C38. The packet decoder accepts only what the encoder writes: encoding the fields of a decoded packet
  gives the input back, byte for byte, and the packet is within the limits; a signature is located
  exactly when the flags announce one, and then it is the last option field.
\<close>

theorem packet_decode_canonical:
  assumes "decode_streaming_packet input limit key = Inr (p, location)" "limit_ok limit"
  shows "encode_streaming_packet (builder_of p) limit = Inr input
    \<and> length input \<le> sl_max_packet_bytes limit \<and> length (sp_payload p) \<le> sl_max_payload_bytes limit
    \<and> (location \<noteq> None \<longleftrightarrow> has_flag (sp_flags p) FLAG_SIGNATURE_INCLUDED)
    \<and> (\<forall>l. location = Some l \<longrightarrow>
         so_signature (sp_options p) = Some (take (loc_length l) (drop (loc_offset l) input))
         \<and> loc_offset l + loc_length l + length (sp_payload p) = length input)"
proof -
  obtain h where h: "header_ok limit h" "ph_option_size h = length (sp_option_bytes p)"
      "input = header_wire h @ sp_option_bytes p @ sp_payload p"
      "p = packet_of h (sp_option_bytes p) (sp_payload p) (sp_options p)"
      "parse_options (ph_flags h) (sp_option_bytes p) (length (header_wire h)) key = Inr (sp_options p, location)"
      "length input \<le> sl_max_packet_bytes limit" "length (sp_payload p) \<le> sl_max_payload_bytes limit"
    by (rule decode_packet_canonical [OF assms(2,1)])
  have fields: "sp_send_stream_id p = ph_send_stream_id h" "sp_receive_stream_id p = ph_receive_stream_id h"
    "sp_sequence_num p = ph_sequence_num h" "sp_ack_through p = ph_ack_through h" "sp_nacks p = ph_nacks h"
    "sp_resend_delay p = ph_resend_delay h" "sp_flags p = ph_flags h"
    by (subst h(4), simp add: packet_of_def)+
  have header: "builder_header (builder_of p) = h"
    by (simp add: builder_header_def builder_of_def fields h(2) [symmetric])
  then have "builder_wire (builder_of p) = input"
    by (simp add: builder_wire_def h(3) [symmetric]) (simp add: builder_of_def h(3) [symmetric])
  moreover have "builder_fits limit (builder_of p)"
    using h(1,2,6,7) arg_cong [OF h(3), of length]
    by (simp add: builder_fits_def header_ok_def builder_of_def fields length_header_wire)
  ultimately have "encode_streaming_packet (builder_of p) limit = Inr input"
    by (simp add: encode_packet_iff [OF assms(2)])
  moreover have "so_signature (sp_options p) = Some (take (loc_length l) (drop (loc_offset l) input))
      \<and> loc_offset l + loc_length l + length (sp_payload p) = length input" if l: "location = Some l" for l
    using parse_options_signature(2) [OF h(5) l] by (subst (1 2) h(3)) auto
  ultimately show ?thesis using parse_options_signature(1) [OF h(5)] h(6,7) fields(7) by auto
qed

theorem packet_decode_canonical_witness:
  "\<exists>input p l. decode_streaming_packet input destination_path_limit
        (Some (destination_signing_key (di_destination (sample_identity 1)))) = Inr (p, Some l)
     \<and> sp_nacks p = [2] \<and> sp_payload p = [7, 8] \<and> loc_length l = 64
     \<and> encode_streaming_packet (builder_of p) destination_path_limit = Inr input"
proof -
  let ?k = "Some (destination_signing_key (di_destination (sample_identity 1)))"
  let ?h = "signed_header 7 8 9 3 [2] CLOSE_FLAGS no_options"
  let ?p = "options_prefix CLOSE_FLAGS no_options"
  let ?q = "packet_of ?h (?p @ replicate 64 5) [7, 8] (no_options\<lparr>so_signature := Some (replicate 64 5)\<rparr>)"
  let ?l = "\<lparr>loc_offset = length (header_wire ?h @ ?p), loc_length = 64\<rparr>"
  have decode: "decode_streaming_packet (signed_wire ?h ?p (replicate 64 5) [7, 8]) destination_path_limit ?k = Inr (?q, Some ?l)"
    by (rule decode_signed(1) [OF sample_identity_ok close_options])
      (use identity_okD(3) [OF sample_identity_ok] in \<open>simp_all add: packet_limits\<close>)
  have fields: "sp_nacks ?q = [2]" "sp_payload ?q = [7, 8]" "loc_length ?l = 64"
    by (simp_all add: packet_of_def signed_header_def)
  show ?thesis
    by (intro exI conjI, rule decode, (rule fields)+)
      (rule packet_decode_canonical [OF decode default_limit_ok(2), THEN conjunct1])
qed

text \<open>
  C39. A packet that an identity signs verifies at its peer: the packet \<open>sign_packet\<close> returns decodes to
  the given fields, and its signature verifies over the received bytes with the signature zeroed -
  under the destination in its FROM field, or without one under the key the peer has retained.
\<close>

theorem signed_packet_verifies:
  assumes "identity_ok env identity" "options_of identity flags options"
    and "length nacks \<le> MAX_STREAMING_NACK_COUNT" "length payload \<le> MAX_STREAMING_PAYLOAD_BYTES"
    and "so_from_destination options = None \<Longrightarrow> key = Some (destination_signing_key (di_destination identity))"
  shows "\<exists>wire packet location sig.
      sign_packet env identity send_id receive_id sequence ack flags options nacks payload = Inr wire
    \<and> decode_streaming_packet wire destination_path_limit key = Inr (packet, Some location)
    \<and> sp_send_stream_id packet = send_id \<and> sp_receive_stream_id packet = receive_id
    \<and> sp_sequence_num packet = sequence \<and> sp_ack_through packet = ack \<and> sp_nacks packet = nacks
    \<and> sp_flags packet = flags \<and> sp_payload packet = payload
    \<and> sp_options packet = options\<lparr>so_signature := Some sig\<rparr>
    \<and> verify_signature env (destination_signing_key (di_destination identity))
        (build_signature_preimage wire (Some location)) \<lparr>sv_key_type = EdDsaSha512Ed25519, sv_bytes = sig\<rparr>"
proof -
  let ?h = "signed_header send_id receive_id sequence ack nacks flags options"
  let ?p = "options_prefix flags options"
  let ?sig = "env_ed25519_sign env (di_signing_seed identity) (signed_wire ?h ?p (replicate 64 0) payload)"
  let ?packet = "packet_of ?h (?p @ ?sig) payload (options\<lparr>so_signature := Some ?sig\<rparr>)"
  have nacks: "length nacks \<le> 64" using assms(3) by (simp add: packet_limits)
  have key: "so_from_destination options = None \<Longrightarrow> \<exists>k. key = Some k \<and> sk_key_type k = EdDsaSha512Ed25519"
    using assms(5) identity_okD(3) [OF assms(1)] by blast
  let ?l = "\<lparr>loc_offset = length (header_wire ?h @ ?p), loc_length = 64\<rparr>"
  let ?m = "signed_wire ?h ?p (replicate 64 0) payload"
  note d = decode_signed [OF assms(1,2) nacks assms(4) identity_okD(5) [OF assms(1)] refl, where key = key]
  have decode: "decode_streaming_packet (signed_wire ?h ?p ?sig payload) destination_path_limit key = Inr (?packet, Some ?l)"
    and preimage: "build_signature_preimage (signed_wire ?h ?p ?sig payload) (Some ?l) = ?m"
    by (rule d, erule key)+
  have verify: "verify_signature env (destination_signing_key (di_destination identity))
      (build_signature_preimage (signed_wire ?h ?p ?sig payload) (Some ?l)) \<lparr>sv_key_type = EdDsaSha512Ed25519, sv_bytes = ?sig\<rparr>"
    unfolding preimage by (rule verify_own_signature [OF assms(1)])
  show ?thesis
    by (rule exI [of _ "signed_wire ?h ?p ?sig payload"], rule exI [of _ ?packet], rule exI [of _ ?l], rule exI [of _ ?sig],
        intro conjI, rule sign_packet_wire [OF assms(1,2) nacks assms(4)], rule decode)
      (simp_all only: packet_of_def signed_header_def StreamingPacket.simps PacketHeader.simps,
       rule verify [unfolded signed_header_def])
qed

theorem signed_packet_verifies_witness:
  "\<exists>wire packet location sig.
      sign_packet sample_env (sample_identity 1) 7 8 9 3 CLOSE_FLAGS no_options [2] [] = Inr wire
    \<and> decode_streaming_packet wire destination_path_limit (Some (destination_signing_key (di_destination (sample_identity 1))))
        = Inr (packet, Some location)
    \<and> sp_nacks packet = [2] \<and> so_signature (sp_options packet) = Some sig
    \<and> verify_signature sample_env (destination_signing_key (di_destination (sample_identity 1)))
        (build_signature_preimage wire (Some location)) \<lparr>sv_key_type = EdDsaSha512Ed25519, sv_bytes = sig\<rparr>"
proof -
  let ?key = "destination_signing_key (di_destination (sample_identity 1))"
  have room: "length [2 :: u32] \<le> MAX_STREAMING_NACK_COUNT" "length ([] :: bytes) \<le> MAX_STREAMING_PAYLOAD_BYTES"
    by (simp_all add: packet_limits)
  obtain wire packet location sig where w:
      "sign_packet sample_env (sample_identity 1) 7 8 9 3 CLOSE_FLAGS no_options [2] [] = Inr wire"
      "decode_streaming_packet wire destination_path_limit (Some ?key) = Inr (packet, Some location)"
      "sp_nacks packet = [2]" "sp_options packet = no_options\<lparr>so_signature := Some sig\<rparr>"
      "verify_signature sample_env ?key (build_signature_preimage wire (Some location))
         \<lparr>sv_key_type = EdDsaSha512Ed25519, sv_bytes = sig\<rparr>"
    using signed_packet_verifies [OF sample_identity_ok close_options room refl, of 1 7 8 9 3] by blast
  have "so_signature (sp_options packet) = Some sig" by (simp add: w(4))
  then show ?thesis using w(1,2,3,5) by blast
qed

text \<open>
  C40. Any destination can answer a SYN. A connection that waits for the response of one peer is
  established by a response that any identity signed, if it names the connection's stream identifier
  and arrives on its ports: the check uses the key that the packet brings, and neither the peer the
  connection was opened to nor the sender's hash takes part. The connection then sends its data to the
  stream identifier the answerer chose.
\<close>

theorem syn_answered_by_anyone:
  assumes "env_ok env inflate" "identity_ok env anyone" "remote_id \<noteq> 0" "sn_local_stream_id c \<noteq> 0"
    and "bt_get (sm_outbound_by_stream m) (sn_local_stream_id c) = Some cid" "bt_get (sm_connections m) cid = Some c"
    and "sn_state c = OutboundSynSent"
  shows "\<exists>wire obs m' c'.
      sign_packet env anyone (sn_local_stream_id c) remote_id 0 0 SYN_RESPONSE_FLAGS (syn_options anyone advertised) [] [] = Inr wire
    \<and> process_inbound_packet env wire from_hash identity (sn_remote_port c) (sn_local_port c) now m = Returns (Inr obs, m')
    \<and> bt_get (sm_connections m') cid = Some c' \<and> sn_state c' = Established \<and> sn_remote_stream_id c' = remote_id"
proof -
  let ?w = "response_wire anyone (sn_local_stream_id c) remote_id advertised"
  let ?sig = "env_ed25519_sign env (di_signing_seed anyone) (?w (replicate 64 0))"
  have sign: "sign_packet env anyone (sn_local_stream_id c) remote_id 0 0 SYN_RESPONSE_FLAGS (syn_options anyone advertised) [] []
      = Inr (?w ?sig)"
    using sign_packet_wire [OF assms(2) syn_options_of(2) [OF assms(2)], of "[]" "[]"] by (simp add: response_wire_def)
  obtain obs m' c' where
    "process_inbound_packet env (?w ?sig) from_hash identity (sn_remote_port c) (sn_local_port c) now m = Returns (Inr obs, m')"
    "bt_get (sm_connections m') cid = Some c'"
    "open_connection c' (sn_local_stream_id c) remote_id (sn_local_advertised_max_payload c) advertised"
    by (rule process_own_response [OF assms(1,2,4,3) refl assms(5,6,7) refl refl refl refl])
  with sign show ?thesis unfolding open_connection_def by blast
qed

theorem syn_answered_by_anyone_witness:
  "\<exists>m c wire obs m' c'. bt_get (sm_connections m) (ConnectionId 1) = Some c
     \<and> sn_peer_destination_hash c = rd_destination_hash (remote_of sample_env (sample_identity 2))
     \<and> sign_packet sample_env (sample_identity 3) 0x80000000 77 0 0 SYN_RESPONSE_FLAGS (syn_options (sample_identity 3) 1500) [] []
         = Inr wire
     \<and> process_inbound_packet sample_env wire (replicate 32 0) (sample_identity 1) 80 1000 5 m = Returns (Inr obs, m')
     \<and> bt_get (sm_connections m') (ConnectionId 1) = Some c' \<and> sn_state c' = Established \<and> sn_remote_stream_id c' = 77"
proof -
  obtain m c where "connect_with_initial_payload sample_env (sample_identity 1) (remote_of sample_env (sample_identity 2))
        1000 80 1500 [] 0 sample_manager = Some (Inr (SynSent (ConnectionId 1) 0 0x80000000), m)"
      "manager_run sample_env sample_config m"
      and start: "bt_get (sm_outbound_by_stream m) 0x80000000 = Some (ConnectionId 1)"
      "bt_get (sm_connections m) (ConnectionId 1) = Some c"
      and c: "c = (new_outbound (ConnectionId 1) sample_config 0x80000000 0
          (rd_signing_public_key (remote_of sample_env (sample_identity 2)))
          (rd_destination_hash (remote_of sample_env (sample_identity 2))) 1000 80 0)\<lparr>sn_local_advertised_max_payload := 1500\<rparr>"
    by (rule sample_connects)
  have c': "sn_local_stream_id c = 0x80000000" "sn_state c = OutboundSynSent" "sn_local_port c = 1000" "sn_remote_port c = 80"
    "sn_peer_destination_hash c = rd_destination_hash (remote_of sample_env (sample_identity 2))"
    by (simp_all add: c new_outbound_def connection_new_def)
  have ids: "(77 :: u32) \<noteq> 0" "sn_local_stream_id c \<noteq> 0"
      "bt_get (sm_outbound_by_stream m) (sn_local_stream_id c) = Some (ConnectionId 1)"
    using start c' by simp_all
  from syn_answered_by_anyone [OF sample_env_ok sample_identity_ok [of 3] ids start(2) c'(2), unfolded c'(1,3,4)] start c'
  show ?thesis by blast
qed

end
