(* ===== verification/Spec2Isabelle.thy ===== *)
theory Spec2Isabelle
  imports Proto_Properties Tunnel_Properties Stream_Properties
begin

text \<open>
  This development models and verifies parts of i2pr, an I2P router written in Rust. The router
  reads and writes the signed records of the I2P network (\<open>crates/i2pr-proto\<close>), builds tunnels of
  several routers and sends messages through them (\<open>crates/i2pr-tunnel\<close>), finds routers and
  destinations in a distributed database (\<open>crates/i2pr-netdb\<close>), runs link protocols below and client
  protocols above, and is put together by a daemon. Three layers are modelled: the record codec, the
  tunnel data plane, and the streaming layer (\<open>crates/i2pr-client/src/streaming\<close>) that gives
  applications ordered byte streams between destinations. Paths below are relative to \<open>src/\<close>.

  \<^bold>\<open>Conventions.\<close> \<open>Prelude\<close> has the vocabulary. Fixed-width integers are words, \<open>usize\<close> is a natural
  number with the 64-bit bound written out where the code checks or saturates, \<open>Result\<close> is a sum
  with \<open>Inl\<close> the error, and a method on \<open>&mut self\<close> is a function that returns its result together
  with the state it leaves behind, also when it fails. \<open>BTree\<close> models \<open>BTreeMap\<close> as a sorted list of
  pairs; its laws are the locale \<open>ordered_map\<close>, interpreted as \<open>bt\<close>. Sequences of operations are
  folds over event datatypes; the locale \<open>event_machine\<close> carries an invariant along them and is
  interpreted for the reassembler, the participant, the pool and the registry.

  \<^bold>\<open>Parameters.\<close> Code outside the repository is an argument of the definitions that call it: SHA-256
  as a function on bytes (\<open>digest_wide\<close>: the digest has at least the four bytes the checksum takes),
  the random generator as a function that fills a number of bytes or fails (\<open>rng_fills\<close>: it returns
  as many as asked; that it serves a request or draws a nonzero byte is never assumed), AES as the record \<open>Aes\<close> of its four block functions (\<open>aes_inverse\<close>: decryption undoes
  encryption and lengths are kept), and the I2NP encoder of the inbound gateway. The streaming layer
  gets its externals as the record \<open>StreamEnv\<close>: SHA-256, Ed25519 signing and verification, and deflate;
  inflate is an argument of the decoder and stands for the chunks the reader yields, its failure, and
  the input it consumed. \<open>env_ok\<close> says that inflate undoes deflate and reports what it consumed, that
  compression adds at most a small overhead to a packet, and that digests have 32 bytes;
  \<open>identity_ok\<close> says that the signatures of an identity have 64 bytes and verify under its own key.

  \<^bold>\<open>The record codec\<close> (\<open>crates/i2pr-proto/src\<close>).
  \<^item> \<open>Rust_Str\<close> and \<open>Codec\<close> model UTF-8 strings and \<open>codec.rs\<close>: the decoding cursor and the encoding
    buffer with all their errors.
  \<^item> \<open>Wire\<close> states what a decoder and an encoder of one structure promise each other (locale
    \<open>wire_codec\<close>) and composes such pairs.
  \<^item> \<open>Common\<close>, \<open>I2P_Mapping\<close>, \<open>Identity\<close> and \<open>Records\<close> model \<open>common/\<close>: dates, hashes, canonical
    mappings, keys, certificates, identities, router addresses, leases, lease sets, router infos.
  \<^item> \<open>Proto_Properties\<close> shows that what decodes is the canonical encoding of a valid value, that valid
    values round-trip, that the retained signed bytes are exactly the signed region, and that a
    length-prefixed write is all or nothing.

  \<^bold>\<open>The tunnel data plane\<close> (\<open>crates/i2pr-tunnel/src\<close>). A gateway fragments a message, packs every
  fragment into a cell with a checksum and padding, and applies one layer of AES per hop; each
  participant removes or adds its layer and passes the cell on; the endpoint parses the cells and
  reassembles the message.
  \<^item> \<open>Tunnel_Fragment\<close> models \<open>fragment.rs\<close>: the partial message and the bounded reassembler. Its
    invariant \<open>reassembler_wf\<close> bounds entries and bytes and makes the byte counter exact.
    \<open>Tunnel_Reassembly\<close> describes the state after any set of fragments and proves that the last one,
    whichever it is, completes the message.
  \<^item> \<open>Tunnel_Data\<close> models \<open>data.rs\<close>: fragmentation, record encoding, padding, packing and parsing. The
    padding loop runs at most 32 draws for a byte, as in the source, so it needs no fuel.
    \<open>Tunnel_Data_Laws\<close> relates packing and parsing in both directions, and traces every failure of the
    padding loop to a failure of the generator or to 32 zero bytes it drew in a row
    (\<open>randomness_failed\<close>); \<open>Tunnel_Fragmentation\<close> gives the fragmentation loop in closed form.
  \<^item> \<open>Tunnel_Layer\<close> models \<open>layer.rs\<close> and the key record of \<open>build_crypto.rs\<close>: layering, its inverse,
    and the duplicate window.
  \<^item> \<open>Tunnel_Established\<close> models \<open>identity.rs\<close> and \<open>established.rs\<close>: hops, the validating constructor,
    and the material that can be taken out once. \<open>tunnel_wf\<close> says what the constructor checks; the
    comments of \<open>established.rs\<close> also describe the inner hops as participants, which is not checked.
  \<^item> \<open>Tunnel_Roles\<close> models \<open>roles.rs\<close>: outbound gateway, participant, outbound endpoint, inbound
    gateway, local inbound endpoint. \<open>Tunnel_Roles_Laws\<close> runs one role on many cells and many roles
    on one cell; \<open>Tunnel_Delivery\<close> composes them into whole tunnels of either direction, and shows
    that a gateway which accepts a message fails only with the generator.
  \<^item> \<open>Tunnel_Pool\<close> models \<open>config.rs\<close> and \<open>pool.rs\<close>, with the reply path of
    \<open>crates/i2pr-netdb/src/lookup_id.rs\<close>: registration, expiry, failure counting, activation. Its
    invariant \<open>pool_wf\<close> holds until the saturating slot counter reaches its last value, since a slot
    could then be handed out twice.
  \<^item> \<open>Tunnel_Registry\<close> models \<open>data_plane_registry.rs\<close>: the maps from slots and receive identifiers to
    roles, that they agree (\<open>registry_wf\<close>), and what each lookup returns after a removal.
  \<^item> \<open>Tunnel_Samples\<close> is a concrete tunnel; \<open>Tunnel_Properties\<close> has the properties and their
    witnesses on it.

  \<^bold>\<open>The streaming layer\<close> (\<open>crates/i2pr-client/src/streaming\<close> and
  \<open>crates/i2pr-proto/src/streaming\<close>). A manager keeps the connections of a destination. An application
  write becomes a packet in the send window of its connection, is put in a gzip frame with the port
  numbers, and is queued for the transport; an inbound frame is opened, routed by its stream
  identifier, checked, and its payload released in order by the receive window.
  \<^item> \<open>Stream_Packet\<close> and \<open>Stream_Payload\<close> model \<open>packet.rs\<close> and \<open>payload.rs\<close>: the packet codec, the
    signature field, the SYN rules, and the frame with its table-driven CRC-32, which equals the bitwise
    one (\<open>crc32_bitwise\<close>). \<open>Stream_Packet_Laws\<close> relates encoding and decoding.
  \<^item> \<open>Stream_Config\<close>, \<open>Stream_Recv\<close>, \<open>Stream_Send\<close> and \<open>Stream_Congestion\<close> model \<open>config.rs\<close>,
    \<open>recv_window.rs\<close>, \<open>send_window.rs\<close>, \<open>congestion.rs\<close> and \<open>retransmit.rs\<close>. \<open>Stream_Recv_Laws\<close> refines
    the receive window to the set of accepted numbers; \<open>Stream_Send_Laws\<close> has the invariant of the send
    window and the specification of \<open>acknowledge\<close>. Sequence numbers wrap in the source, so these laws
    hold for fewer than \<open>2 ^ 32 - 1\<close> packets on a connection.
  \<^item> \<open>Stream_Connection\<close> models \<open>connection.rs\<close>, with its states ordered. \<open>Stream_Session\<close> runs a sending
    and a receiving connection over a network that may lose, repeat, reorder and delay whatever it was
    given; \<open>StreamingConnection::advance\<close>, which nothing under \<open>src/\<close> calls, is not among the steps.
  \<^item> \<open>Stream_Manager\<close> and \<open>Stream_Inbound\<close> model \<open>manager.rs\<close>, outbound and inbound. The two loops whose
    end depends on the state, the identifier search and \<open>poll_acks\<close>, are partial functions, so not
    returning is a value; the result type \<open>run\<close> of inbound processing separates returning, the panic of
    an \<open>expect\<close>, and not returning. \<open>Stream_Manager_Laws\<close> proves that the loops return.
  \<^item> \<open>Stream_Machine\<close> is the step relation of a manager under all its operations and arbitrary inbound
    bytes, with the invariant of its tables and byte counters. A run stops being followed when the
    saturating connection counter reaches its last value, after which identifiers would repeat, and
    when the delivered bytes would not fit the address space.
  \<^item> \<open>Stream_Handshake\<close> follows signed packets through signing, encoding, framing, decoding and
    verification, and composes two managers into a handshake.
  \<^item> \<open>Stream_Samples\<close> has a concrete environment, identities, managers and a session;
    \<open>Stream_Properties\<close> has the properties and their witnesses. One of them shows that a SYN is answered
    by whoever signs a response, which the code does not mean to allow.

  \<^bold>\<open>Not modelled.\<close> Formatting, zeroization of secrets and accessors. Tunnel builds
  (\<open>multirecord.rs\<close>, \<open>short*.rs\<close>, \<open>garlic_reply.rs\<close>, \<open>bridge.rs\<close> and their helpers), which are layers
  of public-key cryptography around fixed offsets, and transit admission (\<open>transit.rs\<close>). LeaseSet2
  and its encrypted form, the I2NP message codec, the network database, the sessions of client
  destinations, the link transports, and everything that is input and output: daemon, storage,
  runtime, application protocols and managed applications. Of the streaming layer: the clock, the
  in-process transport of \<open>local_delivery.rs\<close>, and the events that only carry results outwards.
\<close>

end
